(* ===== verification/BGDesk_Prelude.thy ===== *)
theory BGDesk_Prelude
  imports Main "HOL-Library.Word"
begin

text \<open>
  Shared vocabulary of the development: the machine-integer types of the Rust sources, their
  checked and saturating operations, results with errors as values, a hash map as the standard
  library's clients see it (an association list with distinct keys behind a locale), and the
  reachable states of a step relation with the invariant rule every state machine of the
  development uses.
\<close>

unbundle bit_operations_syntax

section \<open>Types of the sources\<close>

type_synonym u8 = "8 word"
type_synonym u16 = "16 word"
type_synonym u32 = "32 word"
type_synonym u64 = "64 word"
type_synonym i32 = "32 word"
type_synonym bytes = "u8 list"

text \<open>Rust's \<open>Result\<close>: an error is a value.\<close>

type_synonym ('e, 'a) result = "'e + 'a"

abbreviation Err :: "'e \<Rightarrow> ('e, 'a) result" where "Err \<equiv> Inl"
abbreviation Ok :: "'a \<Rightarrow> ('e, 'a) result" where "Ok \<equiv> Inr"

text \<open>Collections of rewrite rules: width facts, and hash-map facts.\<close>

named_theorems width_simps \<open>operations on fixed-width integers, read through unat\<close>
named_theorems hm_simps \<open>lookups after hash-map operations\<close>

section \<open>Checked and saturating arithmetic on words\<close>

text \<open>\<open>saturating_add\<close>, \<open>saturating_sub\<close> and \<open>checked_sub\<close> of Rust's unsigned integers.\<close>

definition sat_add :: "'a::len word \<Rightarrow> 'a word \<Rightarrow> 'a word" where
  "sat_add a b = (if unat a + unat b < 2 ^ LENGTH('a) then a + b else - 1)"

definition sat_sub :: "'a::len word \<Rightarrow> 'a word \<Rightarrow> 'a word" where
  "sat_sub a b = (if b \<le> a then a - b else 0)"

definition checked_sub :: "'a::len word \<Rightarrow> 'a word \<Rightarrow> 'a word option" where
  "checked_sub a b = (if b \<le> a then Some (a - b) else None)"

lemma unat_sat_add [width_simps]:
  "unat (sat_add (a :: 'a::len word) b) = min (unat a + unat b) (2 ^ LENGTH('a) - 1)"
  by (auto simp: sat_add_def unat_add_lem[THEN iffD1] unsigned_minus_1_eq_mask mask_eq_exp_minus_1)

lemma unat_sat_sub [width_simps]: "unat (sat_sub a b) = unat a - unat b"
  by (auto simp: sat_sub_def unat_sub word_le_nat_alt)

lemma checked_sub_Some [width_simps]:
  "checked_sub a b = Some c \<longleftrightarrow> unat b \<le> unat a \<and> unat c = unat a - unat b"
  by (auto simp: checked_sub_def word_le_nat_alt unat_sub word_unat_eq_iff)

lemma checked_sub_None [width_simps]: "checked_sub a b = None \<longleftrightarrow> unat a < unat b"
  by (auto simp: checked_sub_def word_le_nat_alt)

lemma unat_min [width_simps]: "unat (min a b) = min (unat a) (unat (b :: 'a::len word))"
  by (simp add: min_def word_le_nat_alt)

lemma unat_max [width_simps]: "unat (max a b) = max (unat a) (unat (b :: 'a::len word))"
  by (simp add: max_def word_le_nat_alt)

text \<open>\<open>u32::try_from(len).unwrap_or(u32::MAX)\<close> for a \<open>usize\<close> kept as a natural number.\<close>

definition try_from_usize :: "nat \<Rightarrow> 'a::len word" where
  "try_from_usize n = (if n < 2 ^ LENGTH('a) then of_nat n else - 1)"

lemma unat_try_from_usize [width_simps]:
  "unat (try_from_usize n :: 'a::len word) = min n (2 ^ LENGTH('a) - 1)"
  by (auto simp: try_from_usize_def unat_of_nat unsigned_minus_1_eq_mask mask_eq_exp_minus_1)

lemma unat_of_nat_le: "n \<le> unat (c :: 'a::len word) \<Longrightarrow> unat (of_nat n :: 'a word) = n"
  unfolding unat_of_nat by (rule mod_less) (rule le_less_trans[OF _ unsigned_less[of c]])

lemma unat_sub_of_nat [width_simps]:
  "n \<le> unat (c :: 'a::len word) \<Longrightarrow> unat (c - of_nat n) = unat c - n"
  by (simp add: unat_sub word_le_nat_alt unat_of_nat_le)

definition USIZE_MAX :: nat where "USIZE_MAX = 2 ^ 64 - 1"

section \<open>Signed integers as numbers\<close>

text \<open>
  Where the sources compute with \<open>i32\<close> and \<open>i64\<close> values as quantities, the model uses \<open>int\<close>: the
  result of an unchecked operation is brought back into range by \<open>wrap\<close>, saturating operations
  clamp, and division truncates towards zero.
\<close>

definition wrap_i32 :: "int \<Rightarrow> int" where
  "wrap_i32 x = (x + 2 ^ 31) mod 2 ^ 32 - 2 ^ 31"

definition clamp_i32 :: "int \<Rightarrow> int" where
  "clamp_i32 x = max (- (2 ^ 31)) (min x (2 ^ 31 - 1))"

definition clamp_i64 :: "int \<Rightarrow> int" where
  "clamp_i64 x = max (- (2 ^ 63)) (min x (2 ^ 63 - 1))"

definition rust_div :: "int \<Rightarrow> int \<Rightarrow> int" where
  "rust_div a b = (if (a < 0) = (b < 0) then \<bar>a\<bar> div \<bar>b\<bar> else - (\<bar>a\<bar> div \<bar>b\<bar>))"

lemma wrap_i32_id [simp]: "- (2 ^ 31) \<le> x \<Longrightarrow> x < 2 ^ 31 \<Longrightarrow> wrap_i32 x = x"
  by (simp add: wrap_i32_def)

lemma rust_div_nonneg [simp]: "0 \<le> a \<Longrightarrow> 0 < b \<Longrightarrow> rust_div a b = a div b"
  by (simp add: rust_div_def)

section \<open>Decimal numbers as text\<close>

text \<open>\<open>Display\<close> of the integer types.\<close>

fun show_nat :: "nat \<Rightarrow> string" where
  "show_nat n = (if n < 10 then [''0123456789'' ! n] else show_nat (n div 10) @ [''0123456789'' ! (n mod 10)])"

declare show_nat.simps [simp del]

definition show_int :: "int \<Rightarrow> string" where
  "show_int k = (if k < 0 then CHR ''-'' # show_nat (nat (- k)) else show_nat (nat k))"

section \<open>Lists updated by index\<close>

lemma nth_list_update_any: "j < length xs \<Longrightarrow> xs[i := y] ! j = (if i = j then y else xs ! j)"
  by (cases "i < length xs") (auto simp: nth_list_update)

section \<open>Reachable states and invariants\<close>

inductive reach :: "('s \<Rightarrow> bool) \<Rightarrow> ('s \<Rightarrow> 's \<Rightarrow> bool) \<Rightarrow> 's \<Rightarrow> bool"
  for init :: "'s \<Rightarrow> bool" and step :: "'s \<Rightarrow> 's \<Rightarrow> bool" where
  reach_init: "init s \<Longrightarrow> reach init step s"
| reach_step: "reach init step s \<Longrightarrow> step s t \<Longrightarrow> reach init step t"

lemma reach_one: "init s \<Longrightarrow> step s t \<Longrightarrow> reach init step t"
  by (blast intro: reach.intros)

text \<open>
  The contract of an inductive invariant: it holds initially and every step keeps it. Each
  state machine of the development interprets this locale and reads \<open>reach_inv\<close> off it.
\<close>

locale inductive_invariant =
  fixes init :: "'s \<Rightarrow> bool" and step :: "'s \<Rightarrow> 's \<Rightarrow> bool" and inv :: "'s \<Rightarrow> bool"
  assumes inv_init: "init s \<Longrightarrow> inv s"
    and inv_step: "inv s \<Longrightarrow> step s t \<Longrightarrow> inv t"
begin

lemma reach_inv: "reach init step s \<Longrightarrow> inv s"
  by (induction rule: reach.induct) (auto intro: inv_init inv_step)

end

section \<open>Hash maps\<close>

text \<open>
  \<open>std::collections::HashMap\<close> as an association list without duplicate keys. The order of the
  list is the unspecified iteration order of the map.
\<close>

type_synonym ('k, 'v) hmap = "('k \<times> 'v) list"

abbreviation hm_get :: "('k, 'v) hmap \<Rightarrow> 'k \<Rightarrow> 'v option" where "hm_get \<equiv> map_of"

fun hm_insert :: "'k \<Rightarrow> 'v \<Rightarrow> ('k, 'v) hmap \<Rightarrow> ('k, 'v) hmap" where
  "hm_insert k v [] = [(k, v)]"
| "hm_insert k v ((k', v') # m) = (if k' = k then (k, v) # m else (k', v') # hm_insert k v m)"

definition hm_remove :: "'k \<Rightarrow> ('k, 'v) hmap \<Rightarrow> ('k, 'v) hmap" where
  "hm_remove k m = filter (\<lambda>(k', v'). k' \<noteq> k) m"

definition hm_retain :: "('k \<Rightarrow> 'v \<Rightarrow> bool) \<Rightarrow> ('k, 'v) hmap \<Rightarrow> ('k, 'v) hmap" where
  "hm_retain P m = filter (\<lambda>(k, v). P k v) m"

text \<open>\<open>get_mut\<close> and \<open>values_mut\<close>: update one value in place, or every value.\<close>

definition hm_modify :: "'k \<Rightarrow> ('v \<Rightarrow> 'v) \<Rightarrow> ('k, 'v) hmap \<Rightarrow> ('k, 'v) hmap" where
  "hm_modify k f m = map (\<lambda>(k', v). (k', if k' = k then f v else v)) m"

definition hm_map_values :: "('k \<Rightarrow> 'v \<Rightarrow> 'w) \<Rightarrow> ('k, 'v) hmap \<Rightarrow> ('k, 'w) hmap" where
  "hm_map_values f m = map (\<lambda>(k, v). (k, f k v)) m"

definition hm_ok :: "('k, 'v) hmap \<Rightarrow> bool" where
  "hm_ok m \<longleftrightarrow> distinct (map fst m)"

lemma hm_ok_Nil [simp]: "hm_ok []"
  by (simp add: hm_ok_def)

lemma keys_hm_insert: "fst ` set (hm_insert k v m) = insert k (fst ` set m)"
proof (induction m)
  case (Cons p m)
  then show ?case by (cases p) auto
qed simp

lemma hm_get_insert [hm_simps]: "hm_get (hm_insert k v m) = (hm_get m)(k \<mapsto> v)"
  by (induction m) auto

lemma hm_ok_insert [simp, intro]: "hm_ok m \<Longrightarrow> hm_ok (hm_insert k v m)"
proof (induction m)
  case (Cons p m)
  then show ?case by (cases p) (auto simp: hm_ok_def keys_hm_insert)
qed (simp add: hm_ok_def)

lemma hm_get_remove [hm_simps]: "hm_get (hm_remove k m) = (hm_get m)(k := None)"
  by (induction m) (auto simp: hm_remove_def)

lemma hm_ok_filter: "hm_ok m \<Longrightarrow> hm_ok (filter P m)"
  by (auto simp: hm_ok_def distinct_map_filter)

lemma hm_ok_remove [simp, intro]: "hm_ok m \<Longrightarrow> hm_ok (hm_remove k m)"
  by (simp add: hm_remove_def hm_ok_filter)

lemma hm_ok_retain [simp, intro]: "hm_ok m \<Longrightarrow> hm_ok (hm_retain P m)"
  by (simp add: hm_retain_def hm_ok_filter)

lemma hm_get_retain [hm_simps]:
  "hm_ok m \<Longrightarrow> hm_get (hm_retain P m) k =
     (case hm_get m k of None \<Rightarrow> None | Some v \<Rightarrow> if P k v then Some v else None)"
  by (induction m) (auto simp: hm_retain_def hm_ok_def map_of_eq_None_iff split: option.splits
      dest: map_of_SomeD)

lemma keys_hm_modify [simp]: "map fst (hm_modify k f m) = map fst m"
  by (induction m) (auto simp: hm_modify_def)

lemma hm_ok_modify [simp]: "hm_ok (hm_modify k f m) = hm_ok m"
  by (simp add: hm_ok_def)

lemma hm_get_modify [hm_simps]:
  "hm_get (hm_modify k f m) = (hm_get m)(k := map_option f (hm_get m k))"
  by (induction m) (auto simp: hm_modify_def)

lemma keys_hm_map_values [simp]: "map fst (hm_map_values f m) = map fst m"
  by (induction m) (auto simp: hm_map_values_def)

lemma hm_ok_map_values [simp]: "hm_ok (hm_map_values f m) = hm_ok m"
  by (simp add: hm_ok_def)

lemma hm_get_map_values [hm_simps]:
  "hm_get (hm_map_values f m) k = map_option (f k) (hm_get m k)"
  by (induction m) (auto simp: hm_map_values_def)

lemma length_hm_modify [simp]: "length (hm_modify k f m) = length m"
  by (simp add: hm_modify_def)

lemma length_hm_map_values [simp]: "length (hm_map_values f m) = length m"
  by (simp add: hm_map_values_def)

lemma length_hm_remove_le: "length (hm_remove k m) \<le> length m"
  by (simp add: hm_remove_def)

lemma length_hm_retain_le: "length (hm_retain P m) \<le> length m"
  by (simp add: hm_retain_def)

lemma length_hm_insert: "length (hm_insert k v m) = (if hm_get m k = None then Suc (length m) else length m)"
  by (induction m) auto

lemma hm_insert_fresh: "hm_get m k = None \<Longrightarrow> hm_insert k v m = m @ [(k, v)]"
  by (induction m) (auto split: if_splits)

lemma length_hm_insert_le: "length (hm_insert k v m) \<le> Suc (length m)"
  by (simp add: length_hm_insert)

lemma card_dom_hm: "hm_ok m \<Longrightarrow> card (dom (hm_get m)) = length m"
  using distinct_card[of "map fst m"] by (simp add: hm_ok_def dom_map_of_conv_image_fst)

text \<open>The interface a client of the map relies on, and its interpretation on the lists.\<close>

locale hash_map =
  fixes empty :: 'm
    and get :: "'m \<Rightarrow> 'k \<Rightarrow> 'v option"
    and insert :: "'k \<Rightarrow> 'v \<Rightarrow> 'm \<Rightarrow> 'm"
    and remove :: "'k \<Rightarrow> 'm \<Rightarrow> 'm"
    and len :: "'m \<Rightarrow> nat"
    and invar :: "'m \<Rightarrow> bool"
  assumes get_empty: "get empty k = None"
    and get_insert: "invar m \<Longrightarrow> get (insert k v m) = (get m)(k \<mapsto> v)"
    and get_remove: "invar m \<Longrightarrow> get (remove k m) = (get m)(k := None)"
    and len_dom: "invar m \<Longrightarrow> finite (dom (get m)) \<and> len m = card (dom (get m))"
    and invar_empty: "invar empty"
    and invar_insert: "invar m \<Longrightarrow> invar (insert k v m)"
    and invar_remove: "invar m \<Longrightarrow> invar (remove k m)"
begin

lemma len_insert_fresh: "invar m \<Longrightarrow> get m k = None \<Longrightarrow> len (insert k v m) = Suc (len m)"
  using len_dom[of m] len_dom[of "insert k v m"]
  by (simp add: get_insert invar_insert card_insert_if domIff)

lemma len_remove_present: "invar m \<Longrightarrow> get m k = Some v \<Longrightarrow> Suc (len (remove k m)) = len m"
  using len_dom[of m] len_dom[of "remove k m"]
    card.remove[of "dom (get m)" k]
  by (simp add: get_remove invar_remove domI del: card_Diff_insert)

lemma len_remove_le: "invar m \<Longrightarrow> len (remove k m) \<le> len m"
  using len_dom[of m] len_dom[of "remove k m"]
  by (simp add: get_remove invar_remove card_Diff1_le)

end

interpretation hm: hash_map "[] :: ('k, 'v) hmap" hm_get hm_insert hm_remove length hm_ok
  by unfold_locales
    (auto simp: hm_simps card_dom_hm finite_dom_map_of)

end
