(* ===== verification/Bytes_Codec.thy ===== *)
theory Bytes_Codec
  imports BGDesk_Prelude
begin

text \<open>
  The length-prefixed frame codec of every TCP stream (\<open>libs/hbb_common/src/bytes_codec.rs\<close>):
  the decoder's two-state machine, the encoder's four header widths, and the contract a stream
  relies on, stated as a locale and interpreted on the codec.
\<close>

section \<open>Data and operations\<close>

definition MAX_PREALLOCATED_PAYLOAD_LEN :: nat where
  "MAX_PREALLOCATED_PAYLOAD_LEN = 256 * 1024"

definition MAX_FRAME_LENGTH :: nat where
  "MAX_FRAME_LENGTH = 0x3FFFFFFF"

datatype decode_state = HeadSt | DataSt nat

record bytes_codec =
  codec_state :: decode_state
  codec_raw :: bool
  max_packet_length :: nat

datatype io_error = TooBigPacket | Overflow

definition codec_new :: bytes_codec where
  "codec_new = \<lparr>codec_state = HeadSt, codec_raw = False, max_packet_length = USIZE_MAX\<rparr>"

definition set_raw :: "bytes_codec \<Rightarrow> bytes_codec" where
  "set_raw c = c\<lparr>codec_raw := True\<rparr>"

definition set_max_packet_length :: "nat \<Rightarrow> bytes_codec \<Rightarrow> bytes_codec" where
  "set_max_packet_length n c = c\<lparr>max_packet_length := n\<rparr>"

text \<open>
  \<open>decode_head\<close> returns the declared length, the bytes it asks the buffer to reserve and the
  buffer behind the header.
\<close>

definition decode_head :: "bytes_codec \<Rightarrow> bytes \<Rightarrow> (io_error, (nat \<times> nat \<times> bytes) option) result" where
  "decode_head c src =
     (if src = [] then Ok None
      else
        let head_len = unat ((src ! 0 AND 3) + 1) in
        if length src < head_len then Ok None
        else
          let n = (ucast (src ! 0) :: u64);
              n = (if head_len > 1 then n OR push_bit 8 (ucast (src ! 1)) else n);
              n = (if head_len > 2 then n OR push_bit 16 (ucast (src ! 2)) else n);
              n = (if head_len > 3 then n OR push_bit 24 (ucast (src ! 3)) else n);
              n = unat (drop_bit 2 n)
          in if n > max_packet_length c then Err TooBigPacket
             else
               let src' = drop head_len src in
               Ok (Some (n, min (n - length src') MAX_PREALLOCATED_PAYLOAD_LEN, src')))"

definition decode_data :: "nat \<Rightarrow> bytes \<Rightarrow> (bytes \<times> bytes) option" where
  "decode_data n src = (if length src < n then None else Some (take n src, drop n src))"

text \<open>
  \<open>decode\<close> mutates the codec and the buffer: both are returned next to the result.
\<close>

definition decode :: "bytes_codec \<Rightarrow> bytes \<Rightarrow> (io_error, bytes option) result \<times> bytes_codec \<times> bytes" where
  "decode c src =
     (if codec_raw c then (if src \<noteq> [] then (Ok (Some src), c, []) else (Ok None, c, src))
      else
        let payload = (\<lambda>n c src.
          case decode_data n src of
            Some (data, src') \<Rightarrow> (Ok (Some data), c\<lparr>codec_state := HeadSt\<rparr>, src')
          | None \<Rightarrow> (Ok None, c, src))
        in case codec_state c of
             HeadSt \<Rightarrow>
               (case decode_head c src of
                  Err e \<Rightarrow> (Err e, c, src)
                | Ok None \<Rightarrow> (Ok None, c, src)
                | Ok (Some (n, _, src')) \<Rightarrow> payload n (c\<lparr>codec_state := DataSt n\<rparr>) src')
           | DataSt n \<Rightarrow> payload n c src)"

text \<open>Little-endian writers of the \<open>bytes\<close> buffer the encoder uses.\<close>

definition put_u16_le :: "u16 \<Rightarrow> bytes" where
  "put_u16_le h = [ucast h, ucast (drop_bit 8 h)]"

definition put_u32_le :: "u32 \<Rightarrow> bytes" where
  "put_u32_le h = [ucast h, ucast (drop_bit 8 h), ucast (drop_bit 16 h), ucast (drop_bit 24 h)]"

definition encode_head :: "nat \<Rightarrow> bytes option" where
  "encode_head len =
     (let w = push_bit 2 (of_nat len :: u64) in
      if len \<le> 0x3F then Some [ucast w]
      else if len \<le> 0x3FFF then Some (put_u16_le (ucast w OR 1))
      else if len \<le> 0x3FFFFF then
        (let h = (ucast w :: u32) OR 2 in
         Some (put_u16_le (ucast (h AND 0xFFFF)) @ [ucast (drop_bit 16 h)]))
      else if len \<le> MAX_FRAME_LENGTH then Some (put_u32_le (ucast w OR 3))
      else None)"

definition encode :: "bytes_codec \<Rightarrow> bytes \<Rightarrow> bytes \<Rightarrow> (io_error, bytes) result" where
  "encode c data buf =
     (if codec_raw c then Ok (buf @ data)
      else case encode_head (length data) of
             Some h \<Rightarrow> Ok (buf @ h @ data)
           | None \<Rightarrow> Err Overflow)"

section \<open>The header\<close>

text \<open>The little-endian value of a header: four times the length plus the header's extra bytes.\<close>

fun le_nat :: "bytes \<Rightarrow> nat" where
  "le_nat [] = 0"
| "le_nat (b # bs) = unat b + 256 * le_nat bs"

lemma or_push_bit_nat: "a < 2 ^ k \<Longrightarrow> (a :: nat) OR push_bit k b = a + 2 ^ k * b"
proof -
  assume a: "a < 2 ^ k"
  have "a AND push_bit k b = 0"
    using a by (intro bit_eqI) (auto simp: bit_simps, metis bit_take_bit_iff linorder_not_le take_bit_nat_eq_self_iff)
  then show ?thesis by (simp add: disjunctive_add_eq_or[symmetric] push_bit_eq_mult mult.commute)
qed

lemma unat_or_push_bit:
  assumes "unat a < 2 ^ k" "2 ^ k * unat b < 2 ^ LENGTH('a)"
  shows "unat ((a :: 'a::len word) OR push_bit k b) = unat a + 2 ^ k * unat b"
proof -
  have "unat (push_bit k b) = push_bit k (unat b)"
    unfolding unsigned_push_bit_eq take_bit_nat_eq_self_iff
    using assms(2) by (simp add: push_bit_eq_mult mult.commute)
  then show ?thesis using assms(1) by (simp only: unsigned_or_eq or_push_bit_nat)
qed

lemma u8_bound: "unat (b :: u8) < 256"
  using unsigned_less[of b, where 'a = nat] by simp

lemma unat_ucast_u64 [simp]: "unat (ucast (b :: u8) :: u64) = unat b"
  using u8_bound[of b] by (simp add: unsigned_ucast_eq take_bit_nat_eq_self)

lemma head_len_eq: "unat (((b :: u8) AND 3) + 1) = unat b mod 4 + 1"
proof -
  have m: "(3 :: u8) = mask 2" by (simp add: mask_eq_exp_minus_1)
  have "unat (b AND 3) = unat b mod 4"
    unfolding m take_bit_eq_mask[symmetric] unsigned_take_bit_eq
    by (simp add: take_bit_eq_mod)
  moreover have "unat b mod 4 < 4" by simp
  ultimately show ?thesis
    by (simp add: unat_word_ariths)
qed

lemma le_value_or:
  "unat ((ucast (b0 :: u8) :: u64) OR push_bit 8 (ucast (b1 :: u8))) = unat b0 + 256 * unat b1"
  "unat (((ucast b0 :: u64) OR push_bit 8 (ucast b1)) OR push_bit 16 (ucast (b2 :: u8)))
     = unat b0 + 256 * unat b1 + 65536 * unat b2"
  "unat ((((ucast b0 :: u64) OR push_bit 8 (ucast b1)) OR push_bit 16 (ucast b2)) OR push_bit 24 (ucast (b3 :: u8)))
     = unat b0 + 256 * unat b1 + 65536 * unat b2 + 16777216 * unat b3"
proof -
  have b: "unat b0 < 256" "unat b1 < 256" "unat b2 < 256" "unat b3 < 256" by (rule u8_bound)+
  show 1: "unat ((ucast b0 :: u64) OR push_bit 8 (ucast b1)) = unat b0 + 256 * unat b1"
    using b by (subst unat_or_push_bit) simp_all
  show 2: "unat (((ucast b0 :: u64) OR push_bit 8 (ucast b1)) OR push_bit 16 (ucast (b2 :: u8)))
     = unat b0 + 256 * unat b1 + 65536 * unat b2"
    using b by (subst unat_or_push_bit) (simp_all add: 1)
  show "unat ((((ucast b0 :: u64) OR push_bit 8 (ucast b1)) OR push_bit 16 (ucast b2)) OR push_bit 24 (ucast (b3 :: u8)))
     = unat b0 + 256 * unat b1 + 65536 * unat b2 + 16777216 * unat b3"
    using b by (subst unat_or_push_bit) (simp_all add: 2)
qed

lemma unat_drop_bit_word: "unat (drop_bit k (w :: 'a::len word)) = unat w div 2 ^ k"
  unfolding unsigned_drop_bit_eq by (simp add: drop_bit_eq_div take_bit_nat_eq_self[OF unsigned_less])

lemmas head_simps = head_len_eq unat_drop_bit_word Let_def le_value_or add.assoc

lemma three_elems: "3 \<le> length xs \<Longrightarrow> \<exists>a b c ys. xs = a # b # c # ys"
  by (metis Suc_le_length_iff numeral_3_eq_3)
lemma four_elems: "4 \<le> length xs \<Longrightarrow> \<exists>a b c d ys. xs = a # b # c # d # ys"
  using three_elems[of "tl xs"] by (cases xs) auto

lemma decode_head_eq:
  "decode_head c src =
     (if src = [] then Ok None
      else let hl = unat (hd src) mod 4 + 1 in
        if length src < hl then Ok None
        else let n = le_nat (take hl src) div 4 in
          if n > max_packet_length c then Err TooBigPacket
          else Ok (Some (n, min (n - (length src - hl)) MAX_PREALLOCATED_PAYLOAD_LEN, drop hl src)))"
proof (cases "src = [] \<or> length src < unat (hd src) mod 4 + 1")
  case True
  then show ?thesis by (cases src) (simp_all add: decode_head_def head_len_eq)
next
  case False
  define k where "k = unat (hd src) mod 4"
  have "k < 4" by (simp add: k_def)
  then consider "k = 0" | "k = 1" | "k = 2" | "k = 3" by linarith
  then show ?thesis
  proof cases
    case 1
    with False obtain b0 bs where "src = b0 # bs" by (cases src) auto
    with False 1 show ?thesis by (simp add: decode_head_def head_simps k_def)
  next
    case 2
    with False obtain b0 b1 bs where "src = b0 # b1 # bs"
      by (auto simp: k_def Suc_le_length_iff not_less)
    with False 2 show ?thesis by (simp add: decode_head_def head_simps k_def)
  next
    case 3
    with False obtain b0 b1 b2 bs where "src = b0 # b1 # b2 # bs"
      using three_elems[of src] by (auto simp: k_def not_less)
    with False 3 show ?thesis by (simp add: decode_head_def head_simps k_def)
  next
    case 4
    with False obtain b0 b1 b2 b3 bs where "src = b0 # b1 # b2 # b3 # bs"
      using four_elems[of src] by (auto simp: k_def not_less)
    with False 4 show ?thesis by (simp add: decode_head_def head_simps k_def)
  qed
qed

lemma le_nat_append [simp]: "le_nat (xs @ ys) = le_nat xs + 256 ^ length xs * le_nat ys"
  by (induction xs) (simp_all add: algebra_simps)

lemma unat_or_tag:
  assumes "4 * unat x < 2 ^ LENGTH('a)" "unat t < 4"
  shows "unat (push_bit 2 (x :: 'a::len word) OR t) = 4 * unat x + unat t"
  using unat_or_push_bit[of t 2 x] assms by (simp add: or.commute add.commute)

lemma length_put_le [simp]: "length (put_u16_le x) = 2" "length (put_u32_le y) = 4"
  by (simp_all add: put_u16_le_def put_u32_le_def)
lemma put_le_not_Nil [simp]: "put_u16_le x \<noteq> []" "put_u32_le y \<noteq> []"
  by (simp_all add: put_u16_le_def put_u32_le_def)

lemma le_nat_put_u16_le: "le_nat (put_u16_le h) = unat h"
  using unsigned_less[of h, where 'a = nat]
  by (simp add: put_u16_le_def unsigned_ucast_eq unat_drop_bit_word take_bit_eq_mod)
lemma base256_4:
  "n mod 256 + (256 * (n div 256 mod 256) + (65536 * (n div 65536 mod 256) + 16777216 * (n div 16777216))) = (n :: nat)"
proof -
  have d: "n div 65536 = n div 256 div 256" "n div 16777216 = n div 256 div 256 div 256"
    by (simp_all add: div_mult2_eq[symmetric])
  have split: "m mod 256 + 256 * (m div 256) = m" for m :: nat by simp
  have nest: "r + (256 * s + (65536 * t + 16777216 * u)) = r + 256 * (s + 256 * (t + 256 * u))"
    for r s t u :: nat by simp
  show ?thesis by (simp only: d nest split)
qed
lemma le_nat_put_u32_le: "le_nat (put_u32_le h) = unat h"
  using unsigned_less[of h, where 'a = nat] base256_4[of "unat h"]
  by (simp add: put_u32_le_def unsigned_ucast_eq unat_drop_bit_word take_bit_eq_mod)

lemma unat_head_word:
  assumes "4 * n + 4 \<le> 2 ^ LENGTH('a)" "LENGTH('a) \<le> 64" "unat t < 4"
  shows "unat ((ucast (push_bit 2 (of_nat n :: u64)) :: 'a::len word) OR t) = 4 * n + unat t"
proof -
  have p: "(2::nat) ^ LENGTH('a) \<le> 2 ^ 64" using assms(2) by (intro power_increasing) auto
  have "unat (push_bit 2 (of_nat n :: u64)) = push_bit 2 n"
    unfolding unsigned_push_bit_eq using assms(1) p
    by (simp add: push_bit_eq_mult unat_of_nat take_bit_nat_eq_self)
  then have "unat (ucast (push_bit 2 (of_nat n :: u64)) :: 'a word) = push_bit 2 n"
    unfolding unsigned_ucast_eq using assms(1) by (simp add: push_bit_eq_mult take_bit_nat_eq_self)
  then show ?thesis
    using or_push_bit_nat[of "unat t" 2 n] assms(3) by (simp add: unsigned_or_eq or.commute add.commute)
qed

lemma encode_head_le_nat:
  assumes "encode_head len = Some h"
  shows "le_nat h = 4 * len + (length h - 1) \<and> h \<noteq> [] \<and> length h \<le> 4"
proof -
  consider "len \<le> 0x3F" | "0x3F < len" "len \<le> 0x3FFF" | "0x3FFF < len" "len \<le> 0x3FFFFF"
    | "0x3FFFFF < len" "len \<le> MAX_FRAME_LENGTH"
    using assms by (fastforce simp: encode_head_def Let_def split: if_splits)
  then show ?thesis
  proof cases
    case 1
    with unat_head_word[of len "0 :: u8"] assms show ?thesis
      by (auto simp: encode_head_def Let_def)
  next
    case 2
    with unat_head_word[of len "1 :: u16"] assms show ?thesis
      by (auto simp: encode_head_def Let_def le_nat_put_u16_le)
  next
    case 3
    define h' where "h' = (ucast (push_bit 2 (of_nat len :: u64)) :: u32) OR 2"
    have h': "unat h' = 4 * len + 2" using unat_head_word[of len "2 :: u32"] 3 by (simp add: h'_def)
    have m: "(0xFFFF :: u32) = mask 16" by (simp add: mask_eq_exp_minus_1)
    have "unat (ucast (h' AND 0xFFFF) :: u16) = unat h' mod 65536"
      unfolding m take_bit_eq_mask[symmetric] unsigned_ucast_eq unsigned_take_bit_eq by (simp add: take_bit_eq_mod)
    moreover have "unat (ucast (drop_bit 16 h') :: u8) = unat h' div 65536"
      unfolding unsigned_ucast_eq unat_drop_bit_word using h' 3 by (simp add: take_bit_eq_mod)
    moreover have "h = put_u16_le (ucast (h' AND 0xFFFF)) @ [ucast (drop_bit 16 h')]"
      using 3 assms by (auto simp: encode_head_def Let_def h'_def)
    ultimately show ?thesis using h' by (simp add: le_nat_put_u16_le)
  next
    case 4
    with unat_head_word[of len "3 :: u32"] assms show ?thesis
      by (auto simp: encode_head_def Let_def le_nat_put_u32_le MAX_FRAME_LENGTH_def)
  qed
qed

text \<open>A header decodes to the length it was made for, whatever follows it.\<close>

lemma decode_head_encode_head:
  assumes "encode_head len = Some h"
  shows "decode_head c (h @ rest) =
    (if len > max_packet_length c then Err TooBigPacket
     else Ok (Some (len, min (len - length rest) MAX_PREALLOCATED_PAYLOAD_LEN, rest)))"
proof -
  have h: "le_nat h = 4 * len + (length h - 1)" "h \<noteq> []" "length h \<le> 4"
    using encode_head_le_nat[OF assms] by auto
  then obtain b bs where bs: "h = b # bs" by (cases h) auto
  have "unat b mod 4 = le_nat h mod 4" unfolding bs by (simp add: mod_add_right_eq mult_mod_right) presburger
  also have "\<dots> = length h - 1" using h by (simp add: bs)
  finally have "unat (hd (h @ rest)) mod 4 + 1 = length h" using h by (simp add: bs)
  moreover have "(4 * len + (length h - 1)) div 4 = len"
    using h by (simp add: bs)
  ultimately show ?thesis using h by (simp add: decode_head_eq Let_def)
qed

lemma encode_head_eq_None: "encode_head len = None \<longleftrightarrow> len > MAX_FRAME_LENGTH"
  by (auto simp: encode_head_def Let_def MAX_FRAME_LENGTH_def)

section \<open>The decoder\<close>

text \<open>Every decode result by the codec's mode and state, as the equations later proofs rewrite with.\<close>

definition take_payload :: "nat \<Rightarrow> bytes_codec \<Rightarrow> bytes \<Rightarrow> (io_error, bytes option) result \<times> bytes_codec \<times> bytes" where
  "take_payload n c src =
     (if length src < n then (Ok None, c\<lparr>codec_state := DataSt n\<rparr>, src)
      else (Ok (Some (take n src)), c\<lparr>codec_state := HeadSt\<rparr>, drop n src))"

lemma decode_raw: "codec_raw c \<Longrightarrow> decode c src = (if src = [] then (Ok None, c, []) else (Ok (Some src), c, []))"
  by (simp add: decode_def)

lemma decode_Data: "\<not> codec_raw c \<Longrightarrow> codec_state c = DataSt n \<Longrightarrow> decode c src = take_payload n c src"
  by (simp add: decode_def decode_data_def take_payload_def)

lemma decode_Head:
  "\<not> codec_raw c \<Longrightarrow> codec_state c = HeadSt \<Longrightarrow> decode c src =
     (case decode_head c src of
        Inl e \<Rightarrow> (Err e, c, src)
      | Inr None \<Rightarrow> (Ok None, c, src)
      | Inr (Some (n, r, src')) \<Rightarrow> take_payload n c src')"
  by (auto simp: decode_def decode_data_def take_payload_def split: sum.splits option.splits prod.splits)

text \<open>More input never changes what a complete header says.\<close>

lemma decode_head_append:
  "decode_head c src = Inl e \<Longrightarrow> decode_head c (src @ rest') = Inl e"
  "decode_head c src = Inr (Some (n, r, src')) \<Longrightarrow> \<exists>r'. decode_head c (src @ rest') = Inr (Some (n, r', src' @ rest'))"
  "decode_head c src = Inr (Some (n, r, src')) \<Longrightarrow> length src' < length src"
proof -
  define hl where "hl = unat (hd src) mod 4 + 1"
  have app: "hd (src @ rest') = hd src" "take hl (src @ rest') = take hl src" "drop hl (src @ rest') = drop hl src @ rest'"
      "\<not> length (src @ rest') < hl" "src @ rest' \<noteq> []"
    if "src \<noteq> []" "\<not> length src < hl"
    using that by simp_all
  note d = decode_head_eq[unfolded Let_def, of c src, folded hl_def]
  have e: "decode_head c (src @ rest') = (let n = le_nat (take hl src) div 4 in
      if n > max_packet_length c then Err TooBigPacket
      else Ok (Some (n, min (n - (length (src @ rest') - hl)) MAX_PREALLOCATED_PAYLOAD_LEN, drop hl src @ rest')))"
    if "src \<noteq> []" "\<not> length src < hl"
    using app[OF that] unfolding decode_head_eq[of c "src @ rest'"] Let_def by (simp only: hl_def[symmetric] if_False)
  show "decode_head c src = Inl e \<Longrightarrow> decode_head c (src @ rest') = Inl e"
    using e d by (auto simp: Let_def split: if_splits)
  show "decode_head c src = Inr (Some (n, r, src')) \<Longrightarrow> \<exists>r'. decode_head c (src @ rest') = Inr (Some (n, r', src' @ rest'))"
    using e d by (auto simp: Let_def split: if_splits)
  have "0 < hl" by (simp add: hl_def)
  then show "decode_head c src = Inr (Some (n, r, src')) \<Longrightarrow> length src' < length src"
    using d by (auto split: if_splits)
qed

text \<open>Decoding is stable under further input: a delivered frame or an error stays what it was.\<close>

lemma decode_extend:
  assumes "\<not> codec_raw c" "decode c src = (r, c', src')" "r \<noteq> Ok None"
  shows "decode c (src @ rest') = (r, c', src' @ rest')"
proof (cases "codec_state c")
  case HeadSt
  show ?thesis
  proof (cases "decode_head c src")
    case (Inl e)
    with assms HeadSt show ?thesis by (auto simp: decode_Head decode_head_append(1))
  next
    case (Inr o')
    with assms HeadSt obtain n k s where "o' = Some (n, k, s)"
      by (cases o') (auto simp: decode_Head)
    with Inr assms HeadSt decode_head_append(2)[of c src n k s rest'] show ?thesis
      by (auto simp: decode_Head take_payload_def split: if_splits)
  qed
next
  case (DataSt n)
  with assms show ?thesis by (auto simp: decode_Data take_payload_def split: if_splits)
qed

text \<open>
  Resumption: stopping for lack of input and continuing when it arrives gives what one call on
  the whole input gives.
\<close>

lemma decode_resume:
  assumes "\<not> codec_raw c" "decode c src = (Ok None, c', src')"
  shows "decode c' (src' @ rest') = decode c (src @ rest')"
proof (cases "codec_state c")
  case HeadSt
  show ?thesis
  proof (cases "decode_head c src")
    case (Inl e)
    with assms HeadSt show ?thesis by (simp add: decode_Head)
  next
    case (Inr o')
    show ?thesis
    proof (cases o')
      case None
      with Inr assms HeadSt show ?thesis by (simp add: decode_Head)
    next
      case (Some p)
      then obtain n k s where "o' = Some (n, k, s)" by (cases p) auto
      with Inr assms HeadSt decode_head_append(2)[of c src n k s rest'] show ?thesis
        by (auto simp: decode_Head decode_Data take_payload_def split: if_splits)
    qed
  qed
next
  case (DataSt n)
  with assms have "c' = c" "src' = src"
    by (auto simp: decode_Data take_payload_def split: if_splits)
  then show ?thesis by simp
qed

lemma decode_encode:
  assumes "\<not> codec_raw c" "codec_state c = HeadSt" "length data \<le> max_packet_length c" "encode c data [] = Ok f"
  shows "decode c (f @ rest) = (Ok (Some data), c, rest)"
proof -
  obtain h where h: "encode_head (length data) = Some h" "f = h @ data"
    using assms(1,4) by (auto simp: encode_def split: option.splits)
  then show ?thesis
    using assms decode_head_encode_head[OF h(1), of c "data @ rest"]
    by (auto simp: decode_Head take_payload_def)
qed

section \<open>Streams of frames\<close>

text \<open>
  A reader calls the decoder until it asks for more input or fails: one run over a buffer, with
  the frames it delivered, the error that stopped it, and the decoder and buffer it leaves.
\<close>

inductive dec_run :: "('s \<Rightarrow> 'b list \<Rightarrow> ('e, 'm option) result \<times> 's \<times> 'b list) \<Rightarrow>
    's \<Rightarrow> 'b list \<Rightarrow> 'm list \<Rightarrow> 'e option \<Rightarrow> 's \<Rightarrow> 'b list \<Rightarrow> bool"
  for dec :: "'s \<Rightarrow> 'b list \<Rightarrow> ('e, 'm option) result \<times> 's \<times> 'b list" where
  run_none: "dec s b = (Ok None, s', b') \<Longrightarrow> dec_run dec s b [] None s' b'"
| run_err: "dec s b = (Err e, s', b') \<Longrightarrow> dec_run dec s b [] (Some e) s' b'"
| run_some: "dec s b = (Ok (Some m), s1, b1) \<Longrightarrow> dec_run dec s1 b1 ms e s' b' \<Longrightarrow>
    dec_run dec s b (m # ms) e s' b'"

inductive_cases dec_run_NilE: "dec_run dec s b [] None s' b'"

text \<open>
  What a stream relies on of its decoder: a result is stable under further input, and a decoder
  that stopped for lack of input can be resumed.
\<close>

locale frame_decoder =
  fixes dec :: "'s \<Rightarrow> 'b list \<Rightarrow> ('e, 'm option) result \<times> 's \<times> 'b list"
    and framed :: "'s \<Rightarrow> bool"
  assumes extend: "framed s \<Longrightarrow> dec s b = (r, s', b') \<Longrightarrow> r \<noteq> Ok None \<Longrightarrow> dec s (b @ x) = (r, s', b' @ x)"
    and resume: "framed s \<Longrightarrow> dec s b = (Ok None, s', b') \<Longrightarrow> dec s' (b' @ x) = dec s (b @ x)"
    and framed_step: "framed s \<Longrightarrow> dec s b = (r, s', b') \<Longrightarrow> framed s'"
begin

lemma run_same_step: "dec s b = dec t c \<Longrightarrow> dec_run dec s b ms e s' b' \<Longrightarrow> dec_run dec t c ms e s' b'"
  by (erule dec_run.cases) (metis dec_run.intros)+

lemma run_append_error:
  "dec_run dec s b ms e s' b' \<Longrightarrow> framed s \<Longrightarrow> e \<noteq> None \<Longrightarrow> dec_run dec s (b @ x) ms e s' (b' @ x)"
  by (induction rule: dec_run.induct)
    (auto intro: dec_run.intros extend dest: framed_step)

lemma run_append:
  "dec_run dec s b ms e s' b' \<Longrightarrow> framed s \<Longrightarrow> e = None \<Longrightarrow> dec_run dec s' (b' @ x) ms' e' s'' b'' \<Longrightarrow>
    dec_run dec s (b @ x) (ms @ ms') e' s'' b''"
proof (induction rule: dec_run.induct)
  case (run_none s b s' b')
  then show ?case using run_same_step[OF resume[OF run_none(2,1)]] by simp
next
  case (run_some s b m s1 b1 ms e s' b')
  then have "dec_run dec s1 (b1 @ x) (ms @ ms') e' s'' b''" by (blast dest: framed_step)
  then show ?case using extend[OF run_some(4,1), of x] by (auto intro: dec_run.run_some)
qed simp

lemma run_rest: "dec_run dec s b ms e s' b' \<Longrightarrow> framed s \<Longrightarrow> e = None \<Longrightarrow> dec s' b' = (Ok None, s', b')"
proof (induction rule: dec_run.induct)
  case (run_none s b s' b')
  then show ?case using resume[of s b s' b' "[]"] by simp
qed (auto dest: framed_step)

lemma run_framed: "dec_run dec s b ms e s' b' \<Longrightarrow> framed s \<Longrightarrow> framed s'"
  by (induction rule: dec_run.induct) (auto dest: framed_step)

lemma run_deterministic:
  "dec_run dec s b ms e s' b' \<Longrightarrow> dec_run dec s b ms2 e2 s2 b2 \<Longrightarrow> ms2 = ms \<and> e2 = e \<and> s2 = s' \<and> b2 = b'"
proof (induction arbitrary: ms2 rule: dec_run.induct)
  case (run_some s b m s1 b1 ms e s' b')
  from run_some.prems run_some.hyps(1) obtain ms3 where "ms2 = m # ms3" "dec_run dec s1 b1 ms3 e2 s2 b2"
    by (cases rule: dec_run.cases) auto
  with run_some.IH show ?case by blast
qed (auto elim: dec_run.cases)

end

lemma decode_framed_step: "\<not> codec_raw c \<Longrightarrow> decode c src = (r, c', src') \<Longrightarrow> \<not> codec_raw c'"
  by (cases "codec_state c")
    (auto simp: decode_Head decode_Data take_payload_def split: sum.splits option.splits prod.splits if_splits)

interpretation bc: frame_decoder decode "\<lambda>c. \<not> codec_raw c"
  by unfold_locales (auto intro: decode_extend decode_resume dest: decode_framed_step)

text \<open>The reader's loop on the codec: it ends because every frame shrinks the buffer or leaves the payload state.\<close>

definition decode_measure :: "bytes_codec \<Rightarrow> bytes \<Rightarrow> nat" where
  "decode_measure c src = 2 * length src + (if codec_state c = HeadSt then 0 else 1)"

lemma decode_progress:
  assumes "decode c src = (Ok (Some m), c', src')"
  shows "decode_measure c' src' < decode_measure c src"
proof (cases "codec_raw c")
  case True
  with assms show ?thesis by (auto simp: decode_raw decode_measure_def split: if_splits)
next
  case False
  show ?thesis
  proof (cases "codec_state c")
    case HeadSt
    with assms False obtain n k s where "decode_head c src = Inr (Some (n, k, s))"
      and "take_payload n c s = (Ok (Some m), c', src')"
      by (auto simp: decode_Head split: sum.splits option.splits prod.splits)
    with HeadSt decode_head_append(3)[of c src n k s] show ?thesis
      by (auto simp: take_payload_def decode_measure_def split: if_splits)
  next
    case (DataSt n)
    with assms False show ?thesis
      by (auto simp: decode_Data take_payload_def decode_measure_def split: if_splits)
  qed
qed

function decode_all :: "bytes_codec \<Rightarrow> bytes \<Rightarrow> bytes list \<times> io_error option \<times> bytes_codec \<times> bytes" where
  "decode_all c src =
     (case decode c src of
        (Inr (Some m), c', src') \<Rightarrow>
          (case decode_all c' src' of (ms, r) \<Rightarrow> (m # ms, r))
      | (Inr None, c', src') \<Rightarrow> ([], None, c', src')
      | (Inl e, c', src') \<Rightarrow> ([], Some e, c', src'))"
  by pat_completeness auto
termination
  by (relation "measure (\<lambda>(c, src). decode_measure c src)") (auto simp: decode_progress eq_commute[of _ "decode _ _"])

declare decode_all.simps [simp del]

lemma decode_all_run: "decode_all c src = (ms, e, c', src') \<Longrightarrow> dec_run decode c src ms e c' src'"
proof (induction c src arbitrary: ms rule: decode_all.induct)
  case (1 c src)
  obtain r c1 src1 where d: "decode c src = (r, c1, src1)" by (cases "decode c src") auto
  show ?case
  proof (cases r)
    case (Inl er)
    with 1(2) d show ?thesis by (auto simp: decode_all.simps[of c src] intro: dec_run.run_err)
  next
    case (Inr o')
    show ?thesis
    proof (cases o')
      case None
      with 1(2) d Inr show ?thesis by (auto simp: decode_all.simps[of c src] intro: dec_run.run_none)
    next
      case (Some m)
      with 1(2) d Inr obtain ms1 where "decode_all c1 src1 = (ms1, e, c', src')" "ms = m # ms1"
        by (auto simp: decode_all.simps[of c src] split: prod.splits)
      with 1(1)[of r "(c1, src1)" o' m] d Inr Some show ?thesis by (auto intro: dec_run.run_some)
    qed
  qed
qed

lemma decode_all_iff: "decode_all c src = (ms, e, c', src') \<longleftrightarrow> dec_run decode c src ms e c' src'"
  using decode_all_run bc.run_deterministic by (metis prod_cases4)

text \<open>A reader fed chunk by chunk keeps what is left in its buffer between chunks.\<close>

fun feed :: "bytes_codec \<Rightarrow> bytes \<Rightarrow> bytes list \<Rightarrow> bytes list \<times> io_error option \<times> bytes_codec \<times> bytes" where
  "feed c buf [] = ([], None, c, buf)"
| "feed c buf (chunk # chunks) =
     (case decode_all c (buf @ chunk) of
        (ms, Some e, c', buf') \<Rightarrow> (ms, Some e, c', buf')
      | (ms, None, c', buf') \<Rightarrow> (case feed c' buf' chunks of (ms', r) \<Rightarrow> (ms @ ms', r)))"

lemma feed_run:
  assumes "decode c buf = (Ok None, c, buf)" "\<not> codec_raw c"
    and "dec_run decode c (buf @ concat chunks) ms None c' buf'"
  shows "feed c buf chunks = (ms, None, c', buf')"
  using assms
proof (induction chunks arbitrary: c buf ms)
  case Nil
  then have "dec_run decode c buf [] None c buf" by (blast intro: dec_run.run_none)
  with Nil.prems(3) show ?case using bc.run_deterministic by fastforce
next
  case (Cons chunk chunks)
  obtain ms1 e1 c1 b1 where d: "decode_all c (buf @ chunk) = (ms1, e1, c1, b1)"
    by (cases "decode_all c (buf @ chunk)") auto
  then have r1: "dec_run decode c (buf @ chunk) ms1 e1 c1 b1" by (simp add: decode_all_iff)
  have e1: "e1 = None"
  proof (rule ccontr)
    assume "e1 \<noteq> None"
    then show False using bc.run_append_error[OF r1 Cons.prems(2), of "concat chunks"]
        bc.run_deterministic[OF Cons.prems(3)] by auto
  qed
  have c1: "\<not> codec_raw c1" "decode c1 b1 = (Ok None, c1, b1)"
    using bc.run_framed[OF r1 Cons.prems(2)] bc.run_rest[OF r1 Cons.prems(2) e1] by auto
  obtain ms2 e2 c2 b2 where d2: "decode_all c1 (b1 @ concat chunks) = (ms2, e2, c2, b2)"
    by (cases "decode_all c1 (b1 @ concat chunks)") auto
  then have r2: "dec_run decode c1 (b1 @ concat chunks) ms2 e2 c2 b2" by (simp add: decode_all_iff)
  have eq: "ms = ms1 @ ms2" "e2 = None" "c2 = c'" "b2 = buf'"
    using bc.run_append[OF r1 Cons.prems(2) e1 r2] bc.run_deterministic[OF Cons.prems(3)] by auto
  have "feed c1 b1 chunks = (ms2, None, c', buf')"
    using Cons.IH[OF c1(2,1)] r2 eq by simp
  with d e1 eq show ?case by simp
qed

lemma run_encoded:
  assumes "\<not> codec_raw c" "codec_state c = HeadSt"
    and "list_all2 (\<lambda>m f. length m \<le> max_packet_length c \<and> encode c m [] = Ok f) ms fs"
  shows "dec_run decode c (concat fs) ms None c []"
  using assms(3)
proof (induction rule: list_all2_induct)
  case Nil
  then show ?case using assms(1,2)
    by (auto intro!: dec_run.run_none simp: decode_Head decode_head_eq)
next
  case (Cons m ms f fs)
  then show ?case using assms(1,2) by (auto intro!: dec_run.run_some decode_encode)
qed

section \<open>Properties\<close>

text \<open>
  C9: frames survive any chunking of the byte stream. Whatever the sizes of the reads, a framed
  reader that starts idle and is fed the concatenation of encoded messages delivers exactly
  those messages, in order, without an error, and ends idle with an empty buffer.
\<close>

theorem frames_survive_chunking:
  assumes "\<not> codec_raw c" "codec_state c = HeadSt"
    and "list_all2 (\<lambda>m f. length m \<le> max_packet_length c \<and> encode c m [] = Ok f) ms fs"
    and "concat chunks = concat fs"
  shows "feed c [] chunks = (ms, None, c, [])"
proof -
  have "decode c [] = (Ok None, c, [])"
    using assms(1,2) by (simp add: decode_Head decode_head_eq)
  then show ?thesis
    using feed_run[of c "[]" chunks ms c "[]"] run_encoded[OF assms(1-3)] assms(1,4) by simp
qed

theorem frames_survive_chunking_witness:
  "feed codec_new [] [[8, 1], [2, 0, 4], [7]] = ([[1, 2], [], [7]], None, codec_new, [])"
proof (rule frames_survive_chunking [where fs = "[[8, 1, 2], [0], [4, 7]]"])
  show "list_all2 (\<lambda>m f. length m \<le> max_packet_length codec_new \<and> encode codec_new m [] = Ok f)
      [[1, 2], [], [7]] [[8, 1, 2], [0], [4, 7]]"
    by (simp add: codec_new_def encode_def encode_head_def USIZE_MAX_def)
qed (simp_all add: codec_new_def)

text \<open>
  C10: encode then decode is the identity. Every payload up to the 30-bit limit and the reader's
  packet cap is encoded with at most four bytes of header and decodes to itself, leaving the
  bytes behind it untouched.
\<close>

theorem encode_decode_roundtrip:
  assumes "\<not> codec_raw c" "codec_state c = HeadSt" "length data \<le> MAX_FRAME_LENGTH"
    and "length data \<le> max_packet_length c"
  shows "\<exists>f. encode c data buf = Ok (buf @ f) \<and> decode c (f @ rest) = (Ok (Some data), c, rest)
    \<and> length f \<le> length data + 4"
proof -
  obtain h where h: "encode_head (length data) = Some h"
    using assms(3) encode_head_eq_None[of "length data"] by (cases "encode_head (length data)") auto
  then have e: "encode c data [] = Ok (h @ data)" using assms(1) by (simp add: encode_def)
  show ?thesis
    using decode_encode[OF assms(1,2,4) e, of rest] encode_head_le_nat[OF h] h assms(1)
    by (auto simp: encode_def)
qed

theorem encode_decode_roundtrip_witness:
  "\<exists>f. encode codec_new (replicate 100 7) [1] = Ok ([1] @ f) \<and>
     decode codec_new (f @ [9]) = (Ok (Some (replicate 100 7)), codec_new, [9]) \<and>
     length f \<le> length (replicate 100 (7 :: u8)) + 4"
  by (rule encode_decode_roundtrip) (simp_all add: codec_new_def MAX_FRAME_LENGTH_def USIZE_MAX_def)

lemma le_nat_bound: "le_nat bs < 256 ^ length bs"
proof (induction bs)
  case (Cons b bs)
  then show ?case using u8_bound[of b] by simp
qed simp

text \<open>
  a header cannot force a large allocation. Whatever the peer declares, the decoder reserves
  at most 256 KiB ahead of the payload, accepts no length above the packet cap or the 30-bit
  limit, and consumes one to four header bytes.
\<close>

theorem decode_head_reservation_bounded:
  assumes "decode_head c src = Ok (Some (n, reserved, src'))"
  shows "reserved \<le> MAX_PREALLOCATED_PAYLOAD_LEN \<and> n \<le> max_packet_length c \<and> n \<le> MAX_FRAME_LENGTH
    \<and> (\<exists>head. src = head @ src' \<and> 1 \<le> length head \<and> length head \<le> 4)"
proof -
  define hl where "hl = unat (hd src) mod 4 + 1"
  have hl: "1 \<le> hl" "hl \<le> 4" "hl \<le> length src" "n = le_nat (take hl src) div 4" "src' = drop hl src"
    "reserved \<le> MAX_PREALLOCATED_PAYLOAD_LEN" "n \<le> max_packet_length c"
    using assms by (auto simp: decode_head_eq Let_def hl_def split: if_splits)
  have "le_nat (take hl src) < 256 ^ hl" using le_nat_bound[of "take hl src"] hl by simp
  also have "\<dots> \<le> 256 ^ 4" using hl by (intro power_increasing) auto
  finally have "n \<le> MAX_FRAME_LENGTH" using hl(4) by (simp add: MAX_FRAME_LENGTH_def)
  moreover have "src = take hl src @ src'" using hl by simp
  ultimately show ?thesis using hl by (metis length_take min.absorb2)
qed

theorem decode_head_reservation_bounded_witness:
  "decode_head codec_new [255, 255, 255, 255] = Ok (Some (0x3FFFFFFF, 0x40000, [])) \<and>
   (0x40000 :: nat) \<le> MAX_PREALLOCATED_PAYLOAD_LEN"
proof -
  have "decode_head codec_new [255, 255, 255, 255] = Ok (Some (0x3FFFFFFF, 0x40000, []))"
    by (simp add: decode_head_eq codec_new_def USIZE_MAX_def MAX_PREALLOCATED_PAYLOAD_LEN_def)
  then show ?thesis using decode_head_reservation_bounded by blast
qed
end
