(* ===== verification/Flow_Control.thy ===== *)
theory Flow_Control
  imports BGDesk_Prelude
begin

text \<open>
  Credit-based flow control of a multiplexed port-forward channel
  (\<open>src/port_forward_mux.rs\<close>, \<open>RecvWindow\<close> and \<open>SendCredit\<close>): the receiver's window, the sender's
  credit with its parking \<open>take\<close>, and the contract between the two as a locale.
\<close>

section \<open>Constants and charges\<close>

definition INITIAL_WINDOW :: u32 where "INITIAL_WINDOW = 64 * 1024"
definition MIN_FRAME_CHARGE :: u32 where "MIN_FRAME_CHARGE = 64"
definition CHANNEL_WINDOW :: u32 where "CHANNEL_WINDOW = 256 * 1024"
definition MAX_FRAME :: nat where "MAX_FRAME = 64 * 1024"
definition MAX_PACKET :: nat where "MAX_PACKET = 2 * MAX_FRAME"
definition UPDATE_THRESHOLD :: u32 where "UPDATE_THRESHOLD = CHANNEL_WINDOW div 2"
definition MAX_CHANNELS :: nat where "MAX_CHANNELS = 256"
definition DATA_QUEUE_FRAMES :: nat where "DATA_QUEUE_FRAMES = 128"
definition MAX_SEND_CREDIT :: u32 where "MAX_SEND_CREDIT = CHANNEL_WINDOW"

definition effective_window :: "u32 \<Rightarrow> u32" where
  "effective_window advertised = max advertised INITIAL_WINDOW"

definition charge :: "nat \<Rightarrow> u32" where
  "charge len = max (try_from_usize len) MIN_FRAME_CHARGE"

lemmas window_constants =
  INITIAL_WINDOW_def MIN_FRAME_CHARGE_def CHANNEL_WINDOW_def MAX_FRAME_def UPDATE_THRESHOLD_def
  MAX_SEND_CREDIT_def MAX_PACKET_def

lemma unat_constants [simp]:
  "unat INITIAL_WINDOW = 65536" "unat MIN_FRAME_CHARGE = 64" "unat CHANNEL_WINDOW = 262144"
  "unat UPDATE_THRESHOLD = 131072" "unat MAX_SEND_CREDIT = 262144"
  by (simp_all add: window_constants)

lemma unat_effective_window [width_simps]: "unat (effective_window w) = max (unat w) 65536"
  by (simp add: effective_window_def width_simps)

text \<open>The window a frame of a given length costs, as a number.\<close>

definition cost :: "nat \<Rightarrow> nat" where
  "cost len = unat (charge len)"

lemma cost_eq: "cost len = max (min len (2 ^ 32 - 1)) 64"
  by (simp add: cost_def charge_def width_simps)

lemma cost_small: "len \<le> MAX_FRAME \<Longrightarrow> cost len = max len 64"
  by (simp add: cost_eq MAX_FRAME_def)

lemma cost_ge: "64 \<le> cost len"
  by (simp add: cost_eq)

section \<open>The receiver's window\<close>

record recv_window =
  remaining :: u32
  drained_since_update :: u32

definition recv_new :: "u32 \<Rightarrow> recv_window" where
  "recv_new granted = \<lparr>remaining = effective_window granted, drained_since_update = 0\<rparr>"

definition accept :: "nat \<Rightarrow> recv_window \<Rightarrow> bool \<times> recv_window" where
  "accept len w =
     (case checked_sub (remaining w) (charge len) of
        Some left \<Rightarrow> (True, w\<lparr>remaining := left\<rparr>)
      | None \<Rightarrow> (False, w))"

definition grant :: "u32 \<Rightarrow> recv_window \<Rightarrow> recv_window" where
  "grant n w = w\<lparr>remaining := sat_add (remaining w) n\<rparr>"

definition drained :: "nat \<Rightarrow> recv_window \<Rightarrow> u32 option \<times> recv_window" where
  "drained n w =
     (let d = sat_add (drained_since_update w) (charge n) in
      if d < UPDATE_THRESHOLD then (None, w\<lparr>drained_since_update := d\<rparr>)
      else (Some d, w\<lparr>drained_since_update := 0, remaining := sat_add (remaining w) d\<rparr>))"

section \<open>The sender's credit\<close>

text \<open>
  \<open>SendCredit\<close> is a locked counter and a \<open>Notify\<close>, which stores at most one wake-up. \<open>take\<close> is a
  loop: check under the lock, otherwise wait for a wake-up and check again. One turn of the loop
  is \<open>take_turn\<close>; \<open>None\<close> is the taker parking on the notification.
\<close>

record send_credit =
  credit :: u32
  notify :: bool

definition credit_new :: "u32 \<Rightarrow> send_credit" where
  "credit_new initial = \<lparr>credit = min initial MAX_SEND_CREDIT, notify = False\<rparr>"

definition take_turn :: "nat \<Rightarrow> send_credit \<Rightarrow> (nat \<times> send_credit) option" where
  "take_turn max_n sc =
     (if MIN_FRAME_CHARGE \<le> credit sc then
        let n = min (unat (credit sc)) max_n in
        Some (n, sc\<lparr>credit := credit sc - of_nat n\<rparr>)
      else None)"

definition credit_add :: "u32 \<Rightarrow> send_credit \<Rightarrow> send_credit" where
  "credit_add n sc =
     sc\<lparr>credit := min (sat_add (credit sc) n) MAX_SEND_CREDIT, notify := True\<rparr>"

definition raise_initial :: "u32 \<Rightarrow> send_credit \<Rightarrow> send_credit" where
  "raise_initial tot sc =
     (let extra = effective_window tot - INITIAL_WINDOW in
      if 0 < extra then credit_add extra sc else sc)"

text \<open>
  The taker against the additions of credit: it is checking the credit, waiting for a wake-up, or
  done with the amount it took. An addition is two actions, the update under the lock and the
  notification after it; the number counts the additions between the two.
\<close>

datatype take_pc = Checking | Parked | Took nat

inductive take_step :: "nat \<Rightarrow> take_pc \<times> send_credit \<times> nat \<Rightarrow> take_pc \<times> send_credit \<times> nat \<Rightarrow> bool"
  for max_n :: nat where
  take_got: "take_turn max_n sc = Some (n, sc') \<Longrightarrow> take_step max_n (Checking, sc, k) (Took n, sc', k)"
| take_park: "take_turn max_n sc = None \<Longrightarrow> take_step max_n (Checking, sc, k) (Parked, sc, k)"
| take_wake: "notify sc \<Longrightarrow> take_step max_n (Parked, sc, k) (Checking, sc\<lparr>notify := False\<rparr>, k)"
| take_add: "take_step max_n (pc, sc, k) (pc, sc\<lparr>credit := credit (credit_add n sc)\<rparr>, Suc k)"
| take_notify: "take_step max_n (pc, sc, Suc k) (pc, sc\<lparr>notify := True\<rparr>, k)"

inductive_simps take_step_Checking: "take_step max_n (Checking, sc, k) (Took n, sc', k')"

section \<open>The contract\<close>

text \<open>
  What a channel relies on of the two ends: a taker is given at least the minimum charge and
  loses exactly what it took, credit below the cap is not lost when added, a frame within the
  window is accepted at its cost, and what is drained is either owed or given back at once.
  \<open>limit\<close> is the largest window in use, \<open>least\<close> the minimum charge, \<open>burst\<close> the update threshold.
\<close>

locale credit_flow =
  fixes cost :: "nat \<Rightarrow> nat" and limit least burst :: nat
    and avail :: "'c \<Rightarrow> nat"
    and take :: "nat \<Rightarrow> 'c \<Rightarrow> (nat \<times> 'c) option"
    and add :: "u32 \<Rightarrow> 'c \<Rightarrow> 'c"
    and room owed :: "'w \<Rightarrow> nat"
    and accept :: "nat \<Rightarrow> 'w \<Rightarrow> bool \<times> 'w"
    and drained :: "nat \<Rightarrow> 'w \<Rightarrow> u32 option \<times> 'w"
  assumes least_burst: "least \<le> burst" "least + burst \<le> limit"
    and take_None: "take m c = None \<longleftrightarrow> avail c < least"
    and take_Some: "take m c = Some (n, c') \<Longrightarrow> n = min (avail c) m \<and> avail c' + n = avail c"
    and add_below: "avail c + unat a \<le> limit \<Longrightarrow> avail (add a c) = avail c + unat a"
    and add_capped: "avail (add a c) \<le> limit"
    and accept_ok: "fst (accept len w) \<longleftrightarrow> cost len \<le> room w"
    and accept_room: "accept len w = (True, w') \<Longrightarrow> room w' + cost len = room w \<and> owed w' = owed w"
    and accept_refused: "accept len w = (False, w') \<Longrightarrow> w' = w"
    and drained_None: "drained n w = (None, w') \<Longrightarrow> owed w' = owed w + cost n \<and> owed w' < burst \<and> room w' = room w"
    and drained_Some: "drained n w = (Some a, w') \<Longrightarrow> room w + owed w + cost n \<le> limit \<Longrightarrow>
          unat a = owed w + cost n \<and> burst \<le> unat a \<and> owed w' = 0 \<and> room w' = room w + unat a"
begin

text \<open>A round trip of one frame: taken, sent, accepted, drained and given back.\<close>

lemma drained_conserves:
  assumes "drained n w = (u, w')" "room w + owed w + cost n \<le> limit"
  shows "room w' + owed w' = room w + owed w + cost n"
    and "room w' = room w + (case u of None \<Rightarrow> 0 | Some a \<Rightarrow> unat a)"
    and "owed w' < burst \<or> owed w' = 0"
  using assms drained_None[of n w w'] drained_Some[of n w _ w'] by (cases u; auto)+

text \<open>
  The sender cannot be starved by bookkeeping: when nothing is in flight and everything accepted
  has been drained, what the receiver still owes is below the threshold, so the credit covers a
  minimum charge.
\<close>

lemma taker_not_starved:
  assumes "avail c + owed w = limit" "owed w < burst"
  shows "take m c \<noteq> None"
  using assms least_burst take_None[of m c] by auto

end

interpretation fc: credit_flow cost 262144 64 131072
  "\<lambda>sc. unat (credit sc)" take_turn credit_add
  "\<lambda>w. unat (remaining w)" "\<lambda>w. unat (drained_since_update w)" accept drained
proof unfold_locales
  fix m n len :: nat and c c' :: send_credit and w w' :: recv_window and a :: u32
  show "take_turn m c = None \<longleftrightarrow> unat (credit c) < 64"
    by (auto simp: take_turn_def Let_def word_le_nat_alt)
  show "take_turn m c = Some (n, c') \<Longrightarrow> n = min (unat (credit c)) m \<and> unat (credit c') + n = unat (credit c)"
    by (auto simp: take_turn_def Let_def width_simps split: if_splits)
  show "unat (credit c) + unat a \<le> 262144 \<Longrightarrow> unat (credit (credit_add a c)) = unat (credit c) + unat a"
    and "unat (credit (credit_add a c)) \<le> 262144"
    by (simp_all add: credit_add_def width_simps)
  show "fst (accept len w) \<longleftrightarrow> cost len \<le> unat (remaining w)"
    and "accept len w = (True, w') \<Longrightarrow> unat (remaining w') + cost len = unat (remaining w)
       \<and> unat (drained_since_update w') = unat (drained_since_update w)"
    and "accept len w = (False, w') \<Longrightarrow> w' = w"
    by (auto simp: accept_def cost_def width_simps split: option.splits)
qed (auto simp: drained_def cost_def width_simps word_less_nat_alt Let_def split: if_splits)

lemma accept_overrun: "unat (remaining w) < cost len \<Longrightarrow> accept len w = (False, w)"
  by (simp add: accept_def cost_def checked_sub_None[THEN iffD2])

section \<open>No lost wake-up\<close>

text \<open>
  A taker that waits while the credit covers a minimum charge has a wake-up stored for it, or one
  is about to be sent.
\<close>

definition take_init :: "take_pc \<times> send_credit \<times> nat \<Rightarrow> bool" where
  "take_init q \<longleftrightarrow> (\<exists>sc. q = (Checking, sc, 0))"

fun take_ok :: "take_pc \<times> send_credit \<times> nat \<Rightarrow> bool" where
  "take_ok (pc, sc, k) \<longleftrightarrow> (pc = Parked \<longrightarrow> 64 \<le> unat (credit sc) \<longrightarrow> notify sc \<or> 0 < k)"

lemma take_ok_step: "take_step max_n q q' \<Longrightarrow> take_ok q \<Longrightarrow> take_ok q'"
  by (induction rule: take_step.induct) (auto simp: fc.take_None)

interpretation tk: inductive_invariant take_init "take_step max_n" take_ok
  by unfold_locales (auto simp: take_init_def simp del: take_ok.simps elim: take_ok_step, simp)

text \<open>
  C38: a sender waiting for credit cannot miss it. However additions of credit interleave with the
  taker's check and its wait, in every reachable state where a taker waits although the credit
  covers a minimum charge, a wake-up is stored or about to be sent, and the check it leads to
  takes at least the smaller of the minimum charge and what was asked for.
\<close>

theorem take_no_lost_wakeup:
  assumes "reach take_init (take_step max_n) (Parked, sc, k)" "64 \<le> unat (credit sc)"
  shows "(take_step max_n (Parked, sc, k) (Checking, sc\<lparr>notify := False\<rparr>, k)
      \<or> (\<exists>j. k = Suc j \<and> take_step max_n (Parked, sc, k) (Parked, sc\<lparr>notify := True\<rparr>, j)))
    \<and> (\<exists>n sc'. take_step max_n (Checking, sc\<lparr>notify := False\<rparr>, k) (Took n, sc', k) \<and> min 64 max_n \<le> n)"
proof -
  have "notify sc \<or> 0 < k" using tk.reach_inv[OF assms(1)] assms(2) by simp
  moreover obtain n sc' where t: "take_turn max_n (sc\<lparr>notify := False\<rparr>) = Some (n, sc')"
    using fc.take_None[of max_n "sc\<lparr>notify := False\<rparr>"] assms(2) by fastforce
  moreover have "min 64 max_n \<le> n" using fc.take_Some[OF t] assms(2) by auto
  ultimately show ?thesis by (cases k) (auto intro: take_wake take_got take_notify)
qed

theorem take_no_lost_wakeup_witness:
  "\<exists>n sc'. take_step 10 (Checking, \<lparr>credit = 100, notify = False\<rparr>, 1) (Took n, sc', 1) \<and> min 64 10 \<le> n"
proof -
  let ?p = "(Parked, \<lparr>credit = 0, notify = False\<rparr>, 0) :: take_pc \<times> send_credit \<times> nat"
  have "reach take_init (take_step 10) ?p"
    by (rule reach_one[of _ "(Checking, \<lparr>credit = 0, notify = False\<rparr>, 0)"])
      (simp add: take_init_def, rule take_park, simp add: take_turn_def MIN_FRAME_CHARGE_def)
  moreover have "take_step 10 ?p (Parked, \<lparr>credit = 100, notify = False\<rparr>, Suc 0)"
    using take_add[of 10 Parked "\<lparr>credit = 0, notify = False\<rparr>" 0 100]
    by (simp add: credit_add_def sat_add_def window_constants)
  ultimately have "reach take_init (take_step 10) (Parked, \<lparr>credit = 100, notify = False\<rparr>, Suc 0)"
    by (rule reach_step)
  from take_no_lost_wakeup[OF this] show ?thesis by auto
qed

end
