(* ===== verification/Mux_Channel.thy ===== *)
theory Mux_Channel
  imports Flow_Control
begin

text \<open>
  One channel of a multiplexed port-forward tunnel (\<open>src/port_forward_mux.rs\<close>): the frames, the
  sinks they leave through, the two relay loops of \<open>run_channel\<close> as machines that move at the
  loops' await points, and the decision whether the channel announces its end to the peer.
\<close>

section \<open>Frames and sinks\<close>

text \<open>The union of \<open>PortForwardChannel\<close>; \<open>Unset\<close> is a frame without a known union.\<close>

datatype channel_frame =
  Open i32 string i32 u32
| Opened i32 bool string u32
| DataFrame i32 bytes
| CloseFrame i32
| WindowUpdate i32 u32
| Unset

definition open_msg :: "i32 \<Rightarrow> string \<Rightarrow> i32 \<Rightarrow> u32 \<Rightarrow> channel_frame" where
  "open_msg i host port window = Open i host port window"

definition opened_msg :: "i32 \<Rightarrow> bool \<Rightarrow> string \<Rightarrow> u32 \<Rightarrow> channel_frame" where
  "opened_msg i success message window = Opened i success message window"

definition data_msg :: "i32 \<Rightarrow> bytes \<Rightarrow> channel_frame" where
  "data_msg i data = DataFrame i data"

definition close_msg :: "i32 \<Rightarrow> channel_frame" where
  "close_msg i = CloseFrame i"

definition window_update_msg :: "i32 \<Rightarrow> u32 \<Rightarrow> channel_frame" where
  "window_update_msg i add = WindowUpdate i add"

text \<open>
  A sink with its queued frames, oldest first, and whether the writer at its other end is alive.
  The controller's data queue is bounded; its control queue and the controlled side's single
  queue are not.
\<close>

datatype frame_sink =
  Queued "channel_frame list" "channel_frame list" bool
| Direct "channel_frame list" bool

datatype send_result = Sent frame_sink | Gone | Waits

fun send_ordered :: "channel_frame \<Rightarrow> frame_sink \<Rightarrow> send_result" where
  "send_ordered msg (Queued data control alive) =
     (if \<not> alive then Gone
      else if length data < DATA_QUEUE_FRAMES then Sent (Queued (data @ [msg]) control alive)
      else Waits)"
| "send_ordered msg (Direct tx alive) =
     (if \<not> alive then Gone else Sent (Direct (tx @ [msg]) alive))"

fun send_control :: "channel_frame \<Rightarrow> frame_sink \<Rightarrow> send_result" where
  "send_control msg (Queued data control alive) =
     (if \<not> alive then Gone else Sent (Queued data (control @ [msg]) alive))"
| "send_control msg (Direct tx alive) =
     (if \<not> alive then Gone else Sent (Direct (tx @ [msg]) alive))"

fun is_closed :: "frame_sink \<Rightarrow> bool" where
  "is_closed (Queued data control alive) = (\<not> alive)"
| "is_closed (Direct tx alive) = (\<not> alive)"

section \<open>The relay loops\<close>

datatype inbound = IData bytes | IClose | IViolation

datatype relay_end = LocalEof | PeerClosed | Violation | Cancelled | TunnelGone

text \<open>
  \<open>relay_socket_to_tunnel\<close>: waiting for credit, reading at most what it took, sending the frame
  it read, or ended. The events are what the awaits deliver: a turn of \<open>take\<close>, the bytes a read
  returned (none for end of file and for an error), the outcome of the send, the cancellation.
\<close>

datatype s2t_pc = S_Take | S_Read nat | S_Send bytes | S_End relay_end

datatype s2t_event = E_Take | E_Read bytes | E_Sent | E_SendFailed | E_Cancel

fun relay_socket_to_tunnel :: "i32 \<Rightarrow> s2t_event \<Rightarrow> s2t_pc \<times> send_credit \<Rightarrow>
    (s2t_pc \<times> send_credit \<times> channel_frame list) option" where
  "relay_socket_to_tunnel i E_Take (S_Take, sc) =
     (case take_turn MAX_FRAME sc of
        Some (n, sc') \<Rightarrow> Some (S_Read n, sc', [])
      | None \<Rightarrow> None)"
| "relay_socket_to_tunnel i E_Cancel (S_Take, sc) = Some (S_End Cancelled, sc, [])"
| "relay_socket_to_tunnel i (E_Read got) (S_Read allow, sc) =
     (if length got \<le> allow then
        let spent = (if got = [] then 0 else charge (length got));
            sc' = (if unat spent < allow then credit_add (of_nat allow - spent) sc else sc)
        in Some (if got = [] then S_End LocalEof else S_Send got, sc', [])
      else None)"
| "relay_socket_to_tunnel i E_Cancel (S_Read allow, sc) =
     Some (S_End Cancelled, credit_add (of_nat allow) sc, [])"
| "relay_socket_to_tunnel i E_Sent (S_Send got, sc) = Some (S_Take, sc, [data_msg i got])"
| "relay_socket_to_tunnel i E_SendFailed (S_Send got, sc) = Some (S_End TunnelGone, sc, [])"
| "relay_socket_to_tunnel i _ _ = None"

text \<open>
  \<open>relay_tunnel_to_socket\<close>: fetching the next chunk, writing it, or ended. A fetch takes the
  buffered chunks first and then the inbound queue, whose senders may be gone.
\<close>

datatype t2s_pc = T_Next | T_Write bytes | T_End relay_end

datatype t2s_event = F_Next | F_Written | F_WriteFailed | F_UpdateFailed | F_Cancel

record t2s_state =
  t_pc :: t2s_pc
  t_pending :: "bytes list"
  t_inbox :: "inbound list"
  t_senders :: bool
  t_window :: recv_window

fun relay_tunnel_to_socket :: "i32 \<Rightarrow> t2s_event \<Rightarrow> t2s_state \<Rightarrow> (t2s_state \<times> channel_frame list) option" where
  "relay_tunnel_to_socket i F_Next s =
     (if t_pc s \<noteq> T_Next then None
      else case t_pending s of
        c # cs \<Rightarrow> Some (s\<lparr>t_pc := T_Write c, t_pending := cs\<rparr>, [])
      | [] \<Rightarrow>
          (case t_inbox s of
             IData c # q \<Rightarrow> Some (s\<lparr>t_pc := T_Write c, t_inbox := q\<rparr>, [])
           | IClose # q \<Rightarrow> Some (s\<lparr>t_pc := T_End PeerClosed, t_inbox := q\<rparr>, [])
           | IViolation # q \<Rightarrow> Some (s\<lparr>t_pc := T_End Violation, t_inbox := q\<rparr>, [])
           | [] \<Rightarrow> if t_senders s then None else Some (s\<lparr>t_pc := T_End TunnelGone\<rparr>, [])))"
| "relay_tunnel_to_socket i F_Written s =
     (case t_pc s of
        T_Write c \<Rightarrow>
          (case drained (length c) (t_window s) of
             (Some add, w) \<Rightarrow> Some (s\<lparr>t_pc := T_Next, t_window := w\<rparr>, [window_update_msg i add])
           | (None, w) \<Rightarrow> Some (s\<lparr>t_pc := T_Next, t_window := w\<rparr>, []))
      | _ \<Rightarrow> None)"
| "relay_tunnel_to_socket i F_UpdateFailed s =
     (case t_pc s of
        T_Write c \<Rightarrow>
          (case drained (length c) (t_window s) of
             (Some add, w) \<Rightarrow> Some (s\<lparr>t_pc := T_End TunnelGone, t_window := w\<rparr>, [])
           | (None, w) \<Rightarrow> None)
      | _ \<Rightarrow> None)"
| "relay_tunnel_to_socket i F_WriteFailed s =
     (case t_pc s of T_Write c \<Rightarrow> Some (s\<lparr>t_pc := T_End LocalEof\<rparr>, []) | _ \<Rightarrow> None)"
| "relay_tunnel_to_socket i F_Cancel s =
     (case t_pc s of
        T_Next \<Rightarrow> if t_pending s = [] then Some (s\<lparr>t_pc := T_End Cancelled\<rparr>, []) else None
      | T_Write c \<Rightarrow> Some (s\<lparr>t_pc := T_End Cancelled\<rparr>, [])
      | T_End e \<Rightarrow> None)"

text \<open>The end of \<open>run_channel\<close>: whether \<open>close\<close> is sent, from how the two halves ended.\<close>

definition sends_close :: "relay_end \<Rightarrow> relay_end \<Rightarrow> bool" where
  "sends_close first second =
     (let peer_closed = first = PeerClosed \<or> second = PeerClosed;
          tunnel_gone = first = TunnelGone \<or> second = TunnelGone;
          local_reason = first \<in> {LocalEof, Violation} \<or> second \<in> {LocalEof, Violation}
      in \<not> peer_closed \<and> \<not> tunnel_gone \<and> local_reason)"

section \<open>Facts of the machines\<close>

text \<open>What the socket-to-tunnel half holds of its credit: the amount it took, or the frame it has to send.\<close>

fun held :: "s2t_pc \<Rightarrow> nat" where
  "held (S_Read n) = n"
| "held (S_Send got) = cost (length got)"
| "held _ = 0"

text \<open>A well-formed half: it took at least a minimum charge and at most a frame, and never reads more than it took.\<close>

fun s2t_ok :: "s2t_pc \<Rightarrow> bool" where
  "s2t_ok (S_Read n) = (64 \<le> n \<and> n \<le> MAX_FRAME)"
| "s2t_ok (S_Send got) = (got \<noteq> [] \<and> length got \<le> MAX_FRAME)"
| "s2t_ok _ = True"

lemma unat_refund: "n \<le> MAX_FRAME \<Longrightarrow> unat sp \<le> n \<Longrightarrow> unat (of_nat n - sp :: u32) = n - unat sp"
  by (simp add: unat_sub word_le_nat_alt unat_of_nat MAX_FRAME_def)

text \<open>
  A turn of the loop neither creates nor loses credit, as long as the total stays below the cap:
  what leaves the credit is held or charged to the frame sent.
\<close>

lemma relay_socket_to_tunnel_conserves:
  assumes "relay_socket_to_tunnel i ev (pc, sc) = Some (pc', sc', fs)" "ev \<noteq> E_SendFailed" "s2t_ok pc"
    and "unat (credit sc) + held pc \<le> 262144"
  shows "s2t_ok pc' \<and> unat (credit sc') + held pc' + sum_list (map (\<lambda>f. case f of DataFrame _ d \<Rightarrow> cost (length d) | _ \<Rightarrow> 0) fs)
      = unat (credit sc) + held pc"
proof (cases pc)
  case S_Take
  show ?thesis
  proof (cases ev)
    case E_Take
    with assms S_Take obtain n where n: "take_turn MAX_FRAME sc = Some (n, sc')" "pc' = S_Read n" "fs = []"
      by (auto split: option.splits)
    moreover have "\<not> unat (credit sc) < 64" using n fc.take_None[of MAX_FRAME sc] by auto
    ultimately show ?thesis using fc.take_Some[OF n(1)] S_Take by (auto simp: MAX_FRAME_def)
  qed (use assms S_Take in auto)
next
  case (S_Read allow)
  then have allow: "64 \<le> allow" "allow \<le> MAX_FRAME" using assms(3) by auto
  show ?thesis
  proof (cases ev)
    case (E_Read got)
    define spent where "spent = (if got = [] then 0 else charge (length got))"
    have got: "length got \<le> allow" using assms(1) S_Read E_Read by (auto split: if_splits)
    have sp: "unat spent = (if got = [] then 0 else cost (length got))" by (simp add: spent_def cost_def)
    have le: "unat spent \<le> allow" using sp got allow cost_small[of "length got"] by auto
    have "unat (credit sc') = unat (credit sc) + (allow - unat spent)"
    proof (cases "unat spent < allow")
      case True
      then have "sc' = credit_add (of_nat allow - spent) sc"
        using assms(1) S_Read E_Read got by (auto simp: Let_def spent_def split: if_splits)
      then show ?thesis using fc.add_below[of sc "of_nat allow - spent"] assms(4) S_Read
          unat_refund[OF allow(2) le] by simp
    next
      case False
      then have "sc' = sc" using assms(1) S_Read E_Read got by (auto simp: Let_def spent_def split: if_splits)
      then show ?thesis using le False by simp
    qed
    moreover have "pc' = (if got = [] then S_End LocalEof else S_Send got)" "fs = []"
      using assms(1) S_Read E_Read got by (auto simp: Let_def)
    ultimately show ?thesis using sp le S_Read got allow by auto
  next
    case E_Cancel
    then have "unat (of_nat allow :: u32) = allow" using allow by (simp add: unat_of_nat MAX_FRAME_def)
    then show ?thesis using assms E_Cancel S_Read fc.add_below[of sc "of_nat allow"] by auto
  qed (use assms S_Read in auto)
next
  case (S_Send got)
  then show ?thesis using assms by (cases ev) (auto simp: data_msg_def)
next
  case (S_End e)
  then show ?thesis using assms by (cases ev) auto
qed

end
