(* ===== verification/Mux_Table.thy ===== *)
theory Mux_Table
  imports Mux_Channel
begin

text \<open>
  The channel tables of the two ends of a tunnel. An entry and its channel task share the
  inbound queue, the credit and the window, and the task outlives the entry: the shared parts
  are objects of a store, and the table maps a channel id to an object.
\<close>

section \<open>Objects and tables\<close>

record chan_obj =
  ch_inbox :: "inbound list"
  ch_rx :: bool
  ch_tx :: bool
  ch_credit :: send_credit
  ch_window :: recv_window
  ch_opened :: bool
  ch_addr :: string
  ch_rdp :: bool

definition chan_new :: "send_credit \<Rightarrow> recv_window \<Rightarrow> string \<Rightarrow> bool \<Rightarrow> chan_obj" where
  "chan_new sc w addr rdp =
     \<lparr>ch_inbox = [], ch_rx = True, ch_tx = True, ch_credit = sc, ch_window = w,
      ch_opened = False, ch_addr = addr, ch_rdp = rdp\<rparr>"

record chan_table =
  channels :: "(i32, nat) hmap"
  objs :: "chan_obj list"

text \<open>
  \<open>send\<close> on the inbound queue succeeds while the task holds the receiver; dropping the entry drops
  the only sender.
\<close>

definition inbound_send :: "inbound \<Rightarrow> chan_obj \<Rightarrow> chan_obj" where
  "inbound_send x ob = (if ch_rx ob then ob\<lparr>ch_inbox := ch_inbox ob @ [x]\<rparr> else ob)"

definition drop_entry :: "chan_obj \<Rightarrow> chan_obj" where
  "drop_entry ob = ob\<lparr>ch_tx := False\<rparr>"

definition upd_obj :: "nat \<Rightarrow> (chan_obj \<Rightarrow> chan_obj) \<Rightarrow> 'a chan_table_scheme \<Rightarrow> 'a chan_table_scheme" where
  "upd_obj r f t = t\<lparr>objs := (objs t)[r := f (objs t ! r)]\<rparr>"

text \<open>\<open>channels.remove(&id)\<close>, with what the caller sends down the removed entry's queue.\<close>

definition remove_chan :: "i32 \<Rightarrow> inbound option \<Rightarrow> 'a chan_table_scheme \<Rightarrow> 'a chan_table_scheme" where
  "remove_chan i x t =
     (case hm_get (channels t) i of
        None \<Rightarrow> t
      | Some r \<Rightarrow>
          upd_obj r (\<lambda>ob. drop_entry (case x of Some m \<Rightarrow> inbound_send m ob | None \<Rightarrow> ob))
            (t\<lparr>channels := hm_remove i (channels t)\<rparr>))"

text \<open>
  The \<open>Data\<close> arm both ends share: charge the window, deliver, and drop the entry at once when
  the peer overran the window or the task is gone.
\<close>

definition demux_data :: "i32 \<Rightarrow> bytes \<Rightarrow> 'a chan_table_scheme \<Rightarrow> 'a chan_table_scheme" where
  "demux_data i d t =
     (case hm_get (channels t) i of
        None \<Rightarrow> t
      | Some r \<Rightarrow>
          let ob = objs t ! r;
              (accepted, w) = accept (length d) (ch_window ob);
              t1 = upd_obj r (\<lambda>ob. ob\<lparr>ch_window := w\<rparr>) t
          in if accepted \<and> ch_rx ob then upd_obj r (inbound_send (IData d)) t1
             else remove_chan i (if accepted then None else Some IViolation) t1)"

definition demux_update :: "i32 \<Rightarrow> u32 \<Rightarrow> 'a chan_table_scheme \<Rightarrow> 'a chan_table_scheme" where
  "demux_update i add t =
     (case hm_get (channels t) i of
        None \<Rightarrow> t
      | Some r \<Rightarrow> upd_obj r (\<lambda>ob. ob\<lparr>ch_credit := credit_add add (ch_credit ob)\<rparr>) t)"

text \<open>\<open>clear\<close>: every entry, and with it every sender, goes.\<close>

definition clear_chans :: "'a chan_table_scheme \<Rightarrow> 'a chan_table_scheme" where
  "clear_chans t = t\<lparr>channels := [], objs := map drop_entry (objs t)\<rparr>"

text \<open>A new channel: a fresh object, and its entry.\<close>

definition insert_chan :: "i32 \<Rightarrow> chan_obj \<Rightarrow> 'a chan_table_scheme \<Rightarrow> 'a chan_table_scheme" where
  "insert_chan i ob t =
     t\<lparr>channels := hm_insert i (length (objs t)) (channels t), objs := objs t @ [ob]\<rparr>"

text \<open>The channel task ends: it drops the receiver.\<close>

definition task_ends :: "nat \<Rightarrow> 'a chan_table_scheme \<Rightarrow> 'a chan_table_scheme" where
  "task_ends r t = (if r < length (objs t) then upd_obj r (\<lambda>ob. ob\<lparr>ch_rx := False\<rparr>) t else t)"

section \<open>The table invariant\<close>

text \<open>
  Keys are distinct, entries point to objects of the store, no two entries share one, and an
  object has its sender exactly while an entry holds it.
\<close>

definition table_ok :: "'a chan_table_scheme \<Rightarrow> bool" where
  "table_ok t \<longleftrightarrow> hm_ok (channels t) \<and> distinct (map snd (channels t))
     \<and> (\<forall>r < length (objs t). ch_tx (objs t ! r) = (r \<in> snd ` set (channels t)))
     \<and> snd ` set (channels t) \<subseteq> {..< length (objs t)}"

text \<open>The object a frame for channel \<open>i\<close> concerns.\<close>

definition obj_of :: "'a chan_table_scheme \<Rightarrow> i32 \<Rightarrow> chan_obj option" where
  "obj_of t i = map_option (\<lambda>r. objs t ! r) (hm_get (channels t) i)"

lemma hm_get_in: "hm_get m k = Some v \<Longrightarrow> v \<in> snd ` set m"
  by (force dest: map_of_SomeD)

lemma table_ok_ref: "table_ok t \<Longrightarrow> hm_get (channels t) i = Some r \<Longrightarrow> r < length (objs t)"
  using hm_get_in by (fastforce simp: table_ok_def)

lemma distinct_snd_filter: "distinct (map snd m) \<Longrightarrow> distinct (map snd (filter P m))"
  by (simp add: distinct_map_filter)

lemma hm_get_inj:
  "distinct (map snd m) \<Longrightarrow> hm_get m i = Some r \<Longrightarrow> hm_get m j = Some r \<Longrightarrow> i = j"
  by (metis distinct_map eq_snd_iff inj_onD map_of_SomeD fst_conv)

lemma snd_hm_remove:
  assumes "hm_ok m" "distinct (map snd m)" "hm_get m i = Some r"
  shows "snd ` set (hm_remove i m) = snd ` set m - {r}"
proof -
  have ir: "(i, r) \<in> set m" using assms(3) by (rule map_of_SomeD)
  have "set (hm_remove i m) = set m - {(i, r)}"
    using assms(1) ir by (auto simp: hm_remove_def hm_ok_def dest: eq_key_imp_eq_value)
  moreover have "inj_on snd (set m)" using assms(2) by (simp add: distinct_map)
  ultimately show ?thesis using ir inj_on_image_set_diff[of snd "set m" "set m" "{(i, r)}"] by auto
qed

lemma table_ok_upd:
  assumes "table_ok t" "\<And>ob. ch_tx (f ob) = ch_tx ob"
  shows "table_ok (upd_obj r f t)"
  using assms by (auto simp: table_ok_def upd_obj_def nth_list_update_any)

lemma table_ok_remove: "table_ok t \<Longrightarrow> table_ok (remove_chan i x t)"
proof (cases "hm_get (channels t) i")
  case (Some r)
  assume t: "table_ok t"
  define f where "f = (\<lambda>ob. drop_entry (case x of Some m \<Rightarrow> inbound_send m ob | None \<Rightarrow> ob))"
  have f: "\<not> ch_tx (f ob)" for ob by (simp add: f_def drop_entry_def)
  have r: "r < length (objs t)" using table_ok_ref[OF t Some] .
  have s: "snd ` set (hm_remove i (channels t)) = snd ` set (channels t) - {r}"
    using snd_hm_remove[OF _ _ Some] t by (simp add: table_ok_def)
  have d: "distinct (map snd (hm_remove i (channels t)))"
    using t by (simp add: table_ok_def hm_remove_def distinct_snd_filter)
  show ?thesis
    using t r s d f Some unfolding table_ok_def remove_chan_def f_def[symmetric]
    by (auto simp: upd_obj_def nth_list_update)
qed (simp add: remove_chan_def)

lemma inbound_send_tx [simp]: "ch_tx (inbound_send x ob) = ch_tx ob"
  by (simp add: inbound_send_def)

lemma table_ok_demux_data: "table_ok t \<Longrightarrow> table_ok (demux_data i d t)"
  by (auto simp: demux_data_def Let_def split: option.splits prod.splits
      intro!: table_ok_upd table_ok_remove)

lemma table_ok_demux_update: "table_ok t \<Longrightarrow> table_ok (demux_update i a t)"
  by (auto simp: demux_update_def split: option.splits intro!: table_ok_upd)

lemma table_ok_clear: "table_ok t \<Longrightarrow> table_ok (clear_chans t)"
  by (auto simp: table_ok_def clear_chans_def drop_entry_def hm_ok_def)

lemma table_ok_insert:
  assumes "table_ok t" "hm_get (channels t) i = None" "ch_tx ob"
  shows "table_ok (insert_chan i ob t)"
proof -
  have "length (objs t) \<notin> snd ` set (channels t)" using assms(1) by (auto simp: table_ok_def)
  moreover have "hm_insert i (length (objs t)) (channels t) = channels t @ [(i, length (objs t))]"
    using assms(2) by (rule hm_insert_fresh)
  moreover have "hm_ok (hm_insert i (length (objs t)) (channels t))"
    using assms(1) by (simp add: table_ok_def hm_ok_insert)
  ultimately show ?thesis
    using assms by (auto simp: table_ok_def insert_chan_def nth_append less_Suc_eq)
qed

lemma table_ok_task_ends: "table_ok t \<Longrightarrow> table_ok (task_ends r t)"
  by (auto simp: task_ends_def intro!: table_ok_upd)

lemmas table_ok_intros =
  table_ok_remove table_ok_demux_data table_ok_demux_update table_ok_clear table_ok_task_ends

section \<open>Isolation\<close>

text \<open>A frame for one channel leaves every other channel's entry and object alone.\<close>

lemma obj_of_upd_other:
  assumes "table_ok t" "j \<noteq> i" "hm_get (channels t) i = Some r"
  shows "obj_of (upd_obj r f t) j = obj_of t j"
proof (cases "hm_get (channels t) j")
  case (Some r')
  then have "r' \<noteq> r" using hm_get_inj[of "channels t" i r j] assms by (auto simp: table_ok_def)
  with Some show ?thesis by (simp add: obj_of_def upd_obj_def)
qed (simp add: obj_of_def upd_obj_def)

lemma obj_of_remove_other:
  assumes "table_ok t" "j \<noteq> i"
  shows "obj_of (remove_chan i x t) j = obj_of t j"
proof (cases "hm_get (channels t) i")
  case (Some r)
  show ?thesis
    using obj_of_upd_other[OF assms Some] assms(2) Some
    by (simp add: remove_chan_def obj_of_def upd_obj_def hm_simps)
qed (simp add: remove_chan_def)

lemma hm_get_channels_upd [simp]: "channels (upd_obj r f t) = channels t"
  by (simp add: upd_obj_def)

lemma obj_of_demux_data_other:
  assumes "table_ok t" "j \<noteq> i"
  shows "obj_of (demux_data i d t) j = obj_of t j"
proof (cases "hm_get (channels t) i")
  case (Some r)
  have "table_ok (upd_obj r (ch_window_update (\<lambda>_. w)) t)" for w
    using assms(1) by (simp add: table_ok_upd)
  moreover have "obj_of (upd_obj r (ch_window_update (\<lambda>_. w)) t) j = obj_of t j" for w
    by (rule obj_of_upd_other[OF assms Some])
  ultimately show ?thesis using assms(2) Some
    by (simp add: demux_data_def Let_def obj_of_upd_other[of _ j i] obj_of_remove_other split: prod.split)
qed (simp add: demux_data_def)

lemma obj_of_demux_update_other: "table_ok t \<Longrightarrow> j \<noteq> i \<Longrightarrow> obj_of (demux_update i a t) j = obj_of t j"
  by (auto simp: demux_update_def obj_of_upd_other split: option.splits)

end
