(* ===== verification/Mux_Server.thy ===== *)
theory Mux_Server
  imports Mux_Table
begin

text \<open>
  The controlled side of a multiplexed tunnel (\<open>src/server/port_forward_mux.rs\<close>): the frame
  handler with its permission, capacity and target checks, and the life of a channel task up to
  the relay.
\<close>

section \<open>State and operations\<close>

text \<open>\<open>Connection::normalize_port_forward_target\<close>: the address a request is checked against.\<close>

definition normalize_port_forward_target :: "string \<Rightarrow> i32 \<Rightarrow> string \<times> bool" where
  "normalize_port_forward_target host port =
     (let (host, port, is_rdp) =
            (if host = ''RDP'' \<and> port = 0 then (''localhost'', 3389, True) else (host, port, False));
          host = (if host = [] then ''localhost'' else host)
      in (host @ '':'' @ show_int (sint port), is_rdp))"

definition pending_fits :: "nat \<Rightarrow> nat \<Rightarrow> bool" where
  "pending_fits charged add_len \<longleftrightarrow>
     min (charged + unat (charge add_len)) USIZE_MAX \<le> unat INITIAL_WINDOW"

record pf_mux = chan_table +
  tx :: "channel_frame list"
  login_target :: string
  mux_teardown :: bool

definition mux_new :: "string \<Rightarrow> pf_mux" where
  "mux_new target =
     \<lparr>channels = [], objs = [], tx = [], login_target = target, mux_teardown = False\<rparr>"

definition mux_reply :: "channel_frame \<Rightarrow> pf_mux \<Rightarrow> pf_mux" where
  "mux_reply msg m = m\<lparr>tx := tx m @ [msg]\<rparr>"

text \<open>\<open>retain\<close> drops the entries whose task is gone.\<close>

definition drop_dead :: "pf_mux \<Rightarrow> pf_mux" where
  "drop_dead m =
     (let dead = (\<lambda>r. \<not> ch_rx (objs m ! r));
          gone = map snd (filter (\<lambda>(i, r). dead r) (channels m))
      in m\<lparr>channels := hm_retain (\<lambda>_ r. \<not> dead r) (channels m),
           objs := map (\<lambda>r. if r \<in> set gone then drop_entry (objs m ! r) else objs m ! r) [0 ..< length (objs m)]\<rparr>)"

definition on_open :: "i32 \<Rightarrow> string \<Rightarrow> i32 \<Rightarrow> u32 \<Rightarrow> bool \<Rightarrow> pf_mux \<Rightarrow> pf_mux" where
  "on_open i host port window permitted m0 =
     (let m = drop_dead m0 in
      if \<not> permitted then mux_reply (opened_msg i False ''No permission of IP tunneling'' 0) m
      else if MAX_CHANNELS \<le> length (channels m) then
        mux_reply (opened_msg i False ''Too many port forward channels'' 0) m
      else if hm_get (channels m) i \<noteq> None then m
      else
        let (addr, is_rdp) = normalize_port_forward_target host port in
        if addr \<noteq> login_target m then
          mux_reply (opened_msg i False ''Port forward target not authorized'' 0) m
        else
          insert_chan i
            (chan_new (credit_new (effective_window window)) (recv_new INITIAL_WINDOW) addr is_rdp) m)"

fun handle :: "channel_frame \<Rightarrow> bool \<Rightarrow> pf_mux \<Rightarrow> pf_mux" where
  "handle (Open i host port window) tunnel_permitted m = on_open i host port window tunnel_permitted m"
| "handle (DataFrame i d) _ m = demux_data i d m"
| "handle (CloseFrame i) _ m = remove_chan i (Some IClose) m"
| "handle (WindowUpdate i add) _ m = demux_update i add m"
| "handle (Opened i success message window) _ m = m"
| "handle Unset _ m = m"

definition mux_close_all :: "pf_mux \<Rightarrow> pf_mux" where
  "mux_close_all m = (clear_chans m)\<lparr>mux_teardown := True\<rparr>"

section \<open>The channel task\<close>

text \<open>
  \<open>run_controlled_channel\<close> up to the relay. The command arm is biased before the connect arm:
  the connect result is looked at only when no command is queued and the queue is open.
\<close>

definition unreachable_message :: "string \<Rightarrow> bool \<Rightarrow> string" where
  "unreachable_message addr is_rdp =
     ''Failed to access remote '' @ (if is_rdp then ''RDP'' else addr) @
     ''. Please make sure it is reachable/open.''"

datatype cc_phase = Connecting nat | Relaying | Returned

datatype cc_event = G_Command | G_Connected | G_ConnectFailed | G_OpenedLost

record cc_state = t2s_state +
  phase :: cc_phase

definition run_controlled_channel :: "i32 \<Rightarrow> string \<Rightarrow> bool \<Rightarrow> cc_event \<Rightarrow> cc_state \<Rightarrow> (cc_state \<times> channel_frame list) option" where
  "run_controlled_channel i addr is_rdp ev s =
     (case phase s of
        Connecting pending_len \<Rightarrow>
          (case ev of
             G_Command \<Rightarrow>
               (case t_inbox s of
                  IData b # q \<Rightarrow>
                    if \<not> pending_fits pending_len (length b) then
                      Some (s\<lparr>t_inbox := q, phase := Returned\<rparr>, [close_msg i])
                    else
                      Some (s\<lparr>t_inbox := q, t_pending := t_pending s @ [b],
                              phase := Connecting (pending_len + unat (charge (length b)))\<rparr>, [])
                | IClose # q \<Rightarrow> Some (s\<lparr>t_inbox := q, phase := Returned\<rparr>, [])
                | IViolation # q \<Rightarrow> Some (s\<lparr>t_inbox := q, phase := Returned\<rparr>, [close_msg i])
                | [] \<Rightarrow> if t_senders s then None else Some (s\<lparr>phase := Returned\<rparr>, []))
           | G_Connected \<Rightarrow>
               if t_inbox s = [] \<and> t_senders s then
                 Some (s\<lparr>t_window := grant (CHANNEL_WINDOW - INITIAL_WINDOW) (t_window s),
                         t_pc := T_Next, phase := Relaying\<rparr>,
                       [opened_msg i True [] CHANNEL_WINDOW])
               else None
           | G_OpenedLost \<Rightarrow>
               if t_inbox s = [] \<and> t_senders s then
                 Some (s\<lparr>t_window := grant (CHANNEL_WINDOW - INITIAL_WINDOW) (t_window s), phase := Returned\<rparr>, [])
               else None
           | G_ConnectFailed \<Rightarrow>
               if t_inbox s = [] \<and> t_senders s then
                 Some (s\<lparr>phase := Returned\<rparr>, [opened_msg i False (unreachable_message addr is_rdp) 0])
               else None)
      | _ \<Rightarrow> None)"

section \<open>The invariant of the handler\<close>

definition mux_ok :: "pf_mux \<Rightarrow> bool" where
  "mux_ok m \<longleftrightarrow> table_ok m \<and> length (channels m) \<le> MAX_CHANNELS
     \<and> (\<forall>ob \<in> set (objs m). ch_addr ob = login_target m)"

lemma table_ok_drop_dead: "table_ok m \<Longrightarrow> table_ok (drop_dead m)"
  by (auto simp: table_ok_def drop_dead_def Let_def hm_retain_def hm_ok_filter distinct_snd_filter
      drop_entry_def)

lemma mux_ok_new: "mux_ok (mux_new target)"
  by (simp add: mux_ok_def mux_new_def table_ok_def)

text \<open>Facts of the table operations on the handler's extra fields.\<close>

lemma login_target_ops [simp]:
  "login_target (upd_obj r f m) = login_target m"
  "login_target (remove_chan i x m) = login_target m"
  "login_target (demux_data i d m) = login_target m"
  "login_target (demux_update i a m) = login_target m"
  "login_target (clear_chans m) = login_target m"
  "login_target (insert_chan i ob m) = login_target m"
  "login_target (task_ends r m) = login_target m"
  "login_target (drop_dead m) = login_target m"
  by (simp_all add: upd_obj_def remove_chan_def demux_data_def demux_update_def clear_chans_def
      insert_chan_def task_ends_def drop_dead_def Let_def split: option.splits prod.splits)

lemma length_channels_ops:
  "length (channels (remove_chan i x m)) \<le> length (channels m)"
  "length (channels (demux_data i d m)) \<le> length (channels m)"
  "length (channels (demux_update i a m)) \<le> length (channels m)"
  "length (channels (drop_dead m)) \<le> length (channels m)"
  using length_hm_remove_le[of i "channels m"]
  by (auto simp: upd_obj_def remove_chan_def demux_data_def demux_update_def
      drop_dead_def Let_def length_hm_retain_le split: option.splits prod.splits)

text \<open>No table operation changes the targets the objects were made for.\<close>

definition addrs :: "'a chan_table_scheme \<Rightarrow> string list" where
  "addrs t = map ch_addr (objs t)"

lemma ch_addr_ops [simp]:
  "ch_addr (inbound_send x ob) = ch_addr ob" "ch_addr (drop_entry ob) = ch_addr ob"
  by (simp_all add: inbound_send_def drop_entry_def)

lemma addrs_upd [simp]:
  assumes "\<And>ob. ch_addr (f ob) = ch_addr ob"
  shows "addrs (upd_obj r f t) = addrs t"
proof (cases "r < length (objs t)")
  case True
  have "map ch_addr ((objs t)[r := f (objs t ! r)]) = (map ch_addr (objs t))[r := map ch_addr (objs t) ! r]"
    using True assms by (simp add: map_update)
  then show ?thesis by (simp add: addrs_def upd_obj_def)
qed (simp add: addrs_def upd_obj_def list_update_beyond not_less)

lemma addrs_ops [simp]:
  "addrs (remove_chan i x t) = addrs t"
  "addrs (demux_data i d t) = addrs t"
  "addrs (demux_update i a t) = addrs t"
  "addrs (clear_chans t) = addrs t"
  "addrs (task_ends r t) = addrs t"
proof -
  have c: "addrs (t\<lparr>channels := cs\<rparr>) = addrs t" for t :: "'a chan_table_scheme" and cs by (simp add: addrs_def)
  show r: "addrs (remove_chan i x t) = addrs t" for i x and t :: "'a chan_table_scheme"
    by (simp add: remove_chan_def c split: option.split)
  show "addrs (demux_data i d t) = addrs t"
    by (simp add: demux_data_def Let_def r split: option.split prod.split)
  show "addrs (demux_update i a t) = addrs t" by (simp add: demux_update_def split: option.split)
  show "addrs (clear_chans t) = addrs t" by (simp add: addrs_def clear_chans_def)
  show "addrs (task_ends r t) = addrs t" by (simp add: task_ends_def)
qed

lemma addrs_drop_dead [simp]: "addrs (drop_dead m) = addrs m"
  by (auto simp: addrs_def drop_dead_def Let_def intro: nth_equalityI)

lemma mux_ok_alt: "mux_ok m \<longleftrightarrow> table_ok m \<and> length (channels m) \<le> MAX_CHANNELS \<and> set (addrs m) \<subseteq> {login_target m}"
  by (auto simp: mux_ok_def addrs_def)

lemma mux_ok_drop_dead: "mux_ok m \<Longrightarrow> mux_ok (drop_dead m)"
  using length_channels_ops(4)[of m] by (auto simp: mux_ok_alt table_ok_drop_dead)

lemma mux_ok_reply [simp]: "mux_ok (mux_reply f m) = mux_ok m"
  by (simp add: mux_ok_def mux_reply_def table_ok_def)

lemma mux_ok_insert:
  assumes "mux_ok m" "length (channels m) < MAX_CHANNELS" "hm_get (channels m) i = None"
    "ch_tx ob" "ch_addr ob = login_target m"
  shows "mux_ok (insert_chan i ob m)"
  using assms table_ok_insert[of m i ob]
  by (auto simp: mux_ok_def insert_chan_def length_hm_insert)

lemma mux_ok_on_open:
  assumes "mux_ok m" shows "mux_ok (on_open i host port w p m)"
proof -
  have "mux_ok (drop_dead m)" using assms by (rule mux_ok_drop_dead)
  then show ?thesis
    by (simp add: on_open_def Let_def chan_new_def mux_ok_insert split: prod.split)
qed

lemma mux_ok_shrink:
  assumes "mux_ok m" "table_ok m'" "length (channels m') \<le> length (channels m)" "addrs m' = addrs m"
    "login_target m' = login_target m"
  shows "mux_ok m'"
  using assms by (auto simp: mux_ok_alt)

lemma mux_ok_handle:
  assumes "mux_ok m" shows "mux_ok (handle f p m)"
proof -
  have t: "table_ok m" using assms by (simp add: mux_ok_def)
  show ?thesis
    by (cases f) (use assms in \<open>auto intro!: mux_ok_on_open mux_ok_shrink[OF assms]
        simp: table_ok_intros[OF t] length_channels_ops\<close>)
qed

lemma mux_ok_close_all: "mux_ok m \<Longrightarrow> mux_ok (mux_close_all m)"
  using table_ok_clear[of m] by (auto simp: mux_ok_def mux_close_all_def clear_chans_def table_ok_def)

text \<open>
  The handler among its tasks: it handles a frame with the permission as it stands, a task works
  on its own object or ends, and the connection closes the whole tunnel.
\<close>

inductive mux_step :: "pf_mux \<Rightarrow> pf_mux \<Rightarrow> bool" where
  mux_frame: "mux_step m (handle f permitted m)"
| mux_task: "ch_tx ob = ch_tx (objs m ! r) \<Longrightarrow> ch_addr ob = ch_addr (objs m ! r) \<Longrightarrow>
    r < length (objs m) \<Longrightarrow> mux_step m (upd_obj r (\<lambda>_. ob) (m\<lparr>tx := tx m @ fs\<rparr>))"
| mux_task_end: "mux_step m (task_ends r m)"
| mux_closing: "mux_step m (mux_close_all m)"

abbreviation mux_init :: "string \<Rightarrow> pf_mux \<Rightarrow> bool" where
  "mux_init target m \<equiv> m = mux_new target"

lemma login_target_handle [simp]: "login_target (handle f p m) = login_target m"
  by (cases f) (simp_all add: on_open_def Let_def mux_reply_def split: prod.split)

lemma mux_step_login_target: "mux_step m m' \<Longrightarrow> login_target m' = login_target m"
  by (induction rule: mux_step.induct) (simp_all add: mux_close_all_def)

lemma mux_step_ok:
  assumes "mux_step m m'" "mux_ok m" shows "mux_ok m'"
  using assms
proof (induction rule: mux_step.induct)
  case (mux_task ob m r fs)
  have "table_ok (upd_obj r (\<lambda>_. ob) (m\<lparr>tx := tx m @ fs\<rparr>))"
    using mux_task by (auto simp: mux_ok_def table_ok_def upd_obj_def nth_list_update_any)
  moreover have "map ch_addr ((objs m)[r := ob]) = map ch_addr (objs m)"
    using mux_task by (metis list_update_id map_update)
  ultimately show ?case
    by (intro mux_ok_shrink[OF mux_task(4)]) (auto simp: upd_obj_def addrs_def)
next
  case (mux_task_end m r)
  then show ?case
    by (intro mux_ok_shrink[OF mux_task_end]) (simp_all add: mux_ok_def table_ok_task_ends, simp add: task_ends_def)
qed (auto intro: mux_ok_handle mux_ok_close_all)

interpretation mux: inductive_invariant "mux_init target" mux_step "\<lambda>m. mux_ok m \<and> login_target m = target"
  by unfold_locales (auto simp: mux_ok_new mux_step_ok mux_step_login_target, simp add: mux_new_def)

section \<open>Properties\<close>

text \<open>
  C11: a tunnel serves its login's target and nothing else. In every state the controlled side
  can reach, whatever frames the peer sends and however the tasks interleave, every channel
  ever opened connects to the address the login was approved for, and at most 256 entries exist.
\<close>

theorem tunnel_serves_only_login_target:
  assumes "reach (mux_init target) mux_step m"
  shows "(\<forall>ob \<in> set (objs m). ch_addr ob = target) \<and> length (channels m) \<le> MAX_CHANNELS"
  using mux.reach_inv[OF assms] by (auto simp: mux_ok_def)

theorem tunnel_serves_only_login_target_witness:
  "let m = handle (Open 7 ''h'' 80 0) True (mux_new ''h:80'')
   in map ch_addr (objs m) = [''h:80''] \<and> (\<forall>ob \<in> set (objs m). ch_addr ob = ''h:80'') \<and> length (channels m) \<le> MAX_CHANNELS"
proof -
  have "reach (mux_init ''h:80'') mux_step (handle (Open 7 ''h'' 80 0) True (mux_new ''h:80''))"
    by (rule reach_one[of _ "mux_new ''h:80''"]) (simp_all only: mux_frame)
  from tunnel_serves_only_login_target[OF this] show ?thesis
    by (simp add: Let_def on_open_def mux_new_def drop_dead_def normalize_port_forward_target_def
        MAX_CHANNELS_def insert_chan_def chan_new_def show_int_def show_nat.simps hm_retain_def)
qed


text \<open>
  C18: overrunning the window costs the peer its channel and nothing else. A data frame that costs
  more than the channel's remaining window removes the entry at once, leaves a violation at the
  end of the task's queue without delivering the data, makes every later frame for that id other
  than an open a no-op, and leaves every other channel as it was.
\<close>

theorem window_overrun_closes_channel:
  assumes "table_ok m" "hm_get (channels m) i = Some r" "ch_rx (objs m ! r)"
    and "unat (remaining (ch_window (objs m ! r))) < cost (length d)"
    and m'_def: "m' = handle (DataFrame i d) permitted m"
  shows "hm_get (channels m') i = None
    \<and> ch_inbox (objs m' ! r) = ch_inbox (objs m ! r) @ [IViolation]
    \<and> ch_window (objs m' ! r) = ch_window (objs m ! r)
    \<and> (\<forall>e. handle (DataFrame i e) permitted m' = m') \<and> handle (CloseFrame i) permitted m' = m'
    \<and> (\<forall>a. handle (WindowUpdate i a) permitted m' = m')
    \<and> (\<forall>j. j \<noteq> i \<longrightarrow> obj_of m' j = obj_of m j)"
proof -
  have r: "r < length (objs m)" using table_ok_ref[OF assms(1,2)] .
  have "accept (length d) (ch_window (objs m ! r)) = (False, ch_window (objs m ! r))"
    using assms(4) by (rule accept_overrun)
  then have m': "m' = remove_chan i (Some IViolation) m"
    using assms(2) r by (simp add: m'_def demux_data_def Let_def upd_obj_def)
  have gone: "hm_get (channels m') i = None"
    using assms(2) by (simp add: m' remove_chan_def upd_obj_def hm_simps)
  moreover have "ch_inbox (objs m' ! r) = ch_inbox (objs m ! r) @ [IViolation]
    \<and> ch_window (objs m' ! r) = ch_window (objs m ! r)"
    using assms(2,3) r by (simp add: m' remove_chan_def upd_obj_def drop_entry_def inbound_send_def)
  moreover have "handle (DataFrame i e) permitted m' = m'" "handle (CloseFrame i) permitted m' = m'"
    "handle (WindowUpdate i a) permitted m' = m'" for e a
    using gone by (simp_all add: demux_data_def remove_chan_def demux_update_def)
  moreover have "j \<noteq> i \<Longrightarrow> obj_of m' j = obj_of m j" for j
    unfolding m'_def by (simp add: obj_of_demux_data_other[OF assms(1)])
  ultimately show ?thesis by blast
qed

text \<open>A tunnel with one open channel and a two-byte frame against an exhausted window.\<close>

definition overrun_mux :: pf_mux where
  "overrun_mux = insert_chan 7 ((chan_new (credit_new 0) (recv_new 0) ''h:80'' False)
     \<lparr>ch_window := \<lparr>remaining = 63, drained_since_update = 0\<rparr>\<rparr>) (mux_new ''h:80'')"

theorem window_overrun_closes_channel_witness:
  "hm_get (channels (handle (DataFrame 7 [1, 2]) True overrun_mux)) 7 = None
   \<and> ch_inbox (objs (handle (DataFrame 7 [1, 2]) True overrun_mux) ! 0) = [IViolation]"
proof -
  have "table_ok overrun_mux"
    unfolding overrun_mux_def
    by (rule table_ok_insert) (use mux_ok_new in \<open>simp_all add: mux_ok_def\<close>, simp_all add: mux_new_def chan_new_def)
  from window_overrun_closes_channel[OF this, of 7 0 "[1, 2]", OF _ _ _ refl]
  show ?thesis
    by (simp add: overrun_mux_def insert_chan_def mux_new_def chan_new_def cost_eq)
qed

end
