(* ===== verification/Mux_Tunnel.thy ===== *)
theory Mux_Tunnel
  imports Mux_Table
begin

text \<open>
  The controller's side of a multiplexed tunnel (\<open>src/port_forward_mux.rs\<close>, module \<open>tunnel\<close>): the
  handle that opens channels and takes the peer's frames, the throttled reports of refused
  channels, the listener's view of the tunnel, and the loop that owns the stream.
\<close>

section \<open>The handle\<close>

definition REPORT_AGAIN_AFTER :: nat where "REPORT_AGAIN_AFTER = 10 * 10 ^ 9"
definition MAX_REPORTED_OPEN_ERRORS :: nat where "MAX_REPORTED_OPEN_ERRORS = 8"

text \<open>Instants are nanoseconds on the monotonic clock.\<close>

record tunnel_handle = chan_table +
  sink :: frame_sink
  next_id :: i32
  reported :: "(string, nat) hmap"
  th_teardown :: bool

definition handle_new :: tunnel_handle where
  "handle_new =
     \<lparr>channels = [], objs = [], sink = Queued [] [] True, next_id = 1, reported = [], th_teardown = False\<rparr>"

text \<open>
  The search for a free id: \<open>fetch_add\<close> wraps around, and the loop goes on while the id is taken.
  The fuel bounds the turns; running out of it is \<open>None\<close>.
\<close>

fun alloc_id :: "nat \<Rightarrow> i32 \<Rightarrow> (i32, nat) hmap \<Rightarrow> (i32 \<times> i32) option" where
  "alloc_id 0 n chans = None"
| "alloc_id (Suc fuel) n chans =
     (if hm_get chans n = None then Some (n, n + 1) else alloc_id fuel (n + 1) chans)"

text \<open>
  \<open>open\<close> returns the handle with the new entry, the channel's id and the frame its task sends
  first. The outer \<open>None\<close> is an id search that does not end. The part under the channels' lock is
  a definition of its own: the tunnel may end between the check of the sink and the lock.
\<close>

definition open_locked :: "string \<Rightarrow> i32 \<Rightarrow> tunnel_handle \<Rightarrow> (string, tunnel_handle \<times> i32 \<times> channel_frame) result option" where
  "open_locked host port h =
     (if MAX_CHANNELS \<le> length (channels h) then Some (Err ''too many port forward channels'')
      else case alloc_id (Suc MAX_CHANNELS) (next_id h) (channels h) of
        None \<Rightarrow> None
      | Some (i, n) \<Rightarrow>
          Some (Ok (insert_chan i (chan_new (credit_new INITIAL_WINDOW) (recv_new CHANNEL_WINDOW) [] False)
                      (h\<lparr>next_id := n\<rparr>),
                    i, open_msg i host port CHANNEL_WINDOW)))"

definition tunnel_open :: "string \<Rightarrow> i32 \<Rightarrow> tunnel_handle \<Rightarrow> (string, tunnel_handle \<times> i32 \<times> channel_frame) result option" where
  "tunnel_open host port h =
     (if is_closed (sink h) then Some (Err ''port forward tunnel is gone'') else open_locked host port h)"

text \<open>The end of a channel's task: it drops the receiver and removes its entry, by id.\<close>

definition channel_done :: "i32 \<Rightarrow> nat \<Rightarrow> tunnel_handle \<Rightarrow> tunnel_handle" where
  "channel_done i r h = remove_chan i None (task_ends r h)"

definition first_report_at :: "string \<Rightarrow> nat \<Rightarrow> tunnel_handle \<Rightarrow> string option \<times> tunnel_handle" where
  "first_report_at message now h =
     (if message = [] then (None, h)
      else
        let kept = hm_retain (\<lambda>_ last. now - last < REPORT_AGAIN_AFTER) (reported h) in
        if hm_get kept message \<noteq> None then (None, h\<lparr>reported := hm_modify message (\<lambda>_. now) kept\<rparr>)
        else if MAX_REPORTED_OPEN_ERRORS \<le> length kept then (None, h\<lparr>reported := kept\<rparr>)
        else (Some message, h\<lparr>reported := hm_insert message now kept\<rparr>))"

fun on_frame :: "nat \<Rightarrow> channel_frame \<Rightarrow> tunnel_handle \<Rightarrow> string option \<times> tunnel_handle" where
  "on_frame now (Opened i success message w) h =
     (if success then
        (None, case hm_get (channels h) i of
           Some r \<Rightarrow>
             if ch_opened (objs h ! r) then h
             else upd_obj r (\<lambda>ob. ob\<lparr>ch_opened := True, ch_credit := raise_initial w (ch_credit ob)\<rparr>) h
         | None \<Rightarrow> h)
      else case hm_get (channels h) i of
        Some r \<Rightarrow> first_report_at message now (remove_chan i (Some IClose) h)
      | None \<Rightarrow> (None, h))"
| "on_frame now (DataFrame i d) h = (None, demux_data i d h)"
| "on_frame now (CloseFrame i) h = (None, remove_chan i (Some IClose) h)"
| "on_frame now (WindowUpdate i add) h = (None, demux_update i add h)"
| "on_frame now (Open i host port w) h = (None, h)"
| "on_frame now Unset h = (None, h)"

definition close_all :: "tunnel_handle \<Rightarrow> tunnel_handle" where
  "close_all h = (clear_chans h)\<lparr>th_teardown := True\<rparr>"

section \<open>The listener's view and the tunnel loop\<close>

datatype tunnel_state = TS_Unset | TS_Muxed | TS_Legacy | TS_Failed

datatype claim_result = Claimed | ClaimMuxed | ClaimLegacy

fun claim :: "tunnel_state \<Rightarrow> claim_result" where
  "claim TS_Unset = Claimed"
| "claim TS_Failed = Claimed"
| "claim TS_Muxed = ClaimMuxed"
| "claim TS_Legacy = ClaimLegacy"

text \<open>
  The tunnel as one state: what the listener reads, the handle it would get, the frames written
  to the stream and the errors shown. The stream's reads and writes, the parsed messages and the
  listener's lifetime are the events; the channel tasks send into the sink.
\<close>

record tunnel =
  ts_state :: tunnel_state
  ts_handle :: tunnel_handle
  ts_running :: bool
  ts_wire :: "channel_frame list"
  ts_errors :: "string list"

definition set_muxed :: "tunnel \<Rightarrow> tunnel" where
  "set_muxed t = t\<lparr>ts_state := TS_Muxed, ts_handle := handle_new, ts_running := True, ts_wire := []\<rparr>"

definition set_legacy :: "tunnel \<Rightarrow> tunnel" where
  "set_legacy t = t\<lparr>ts_state := TS_Legacy\<rparr>"

definition set_failed :: "tunnel \<Rightarrow> tunnel" where
  "set_failed t = t\<lparr>ts_state := TS_Failed\<rparr>"

definition tunnel_new :: tunnel where
  "tunnel_new =
     \<lparr>ts_state = TS_Unset, ts_handle = handle_new\<lparr>sink := Queued [] [] False\<rparr>, ts_running = False,
      ts_wire = [], ts_errors = []\<rparr>"

text \<open>The loop's end: the queues' receivers are dropped with it.\<close>

definition loop_ends :: "tunnel \<Rightarrow> tunnel" where
  "loop_ends t =
     t\<lparr>ts_handle := (close_all (ts_handle t))\<lparr>sink := Queued [] [] False\<rparr>,
       ts_state := TS_Unset, ts_running := False\<rparr>"

datatype loop_event =
  L_Control bool
| L_Frame nat channel_frame
| L_Other
| L_CloseReason string
| L_ReadError
| L_ReadTimeout
| L_Data bool
| L_Lifetime

fun tunnel_loop :: "loop_event \<Rightarrow> tunnel \<Rightarrow> tunnel option" where
  "tunnel_loop (L_Control sent) t =
     (case sink (ts_handle t) of
        Queued data (msg # control) True \<Rightarrow>
          let t' = t\<lparr>ts_handle := (ts_handle t)\<lparr>sink := Queued data control True\<rparr>\<rparr> in
          Some (if sent then t'\<lparr>ts_wire := ts_wire t @ [msg]\<rparr> else loop_ends t')
      | _ \<Rightarrow> None)"
| "tunnel_loop (L_Frame now f) t =
     (case on_frame now f (ts_handle t) of
        (err, h) \<Rightarrow> Some (t\<lparr>ts_handle := h,
                            ts_errors := ts_errors t @ (case err of Some e \<Rightarrow> [e] | None \<Rightarrow> [])\<rparr>))"
| "tunnel_loop L_Other t = Some t"
| "tunnel_loop (L_CloseReason r) t = Some (loop_ends t)"
| "tunnel_loop L_ReadError t = Some (loop_ends t)"
| "tunnel_loop L_ReadTimeout t = Some (loop_ends t)"
| "tunnel_loop (L_Data sent) t =
     (case sink (ts_handle t) of
        Queued (msg # data) control True \<Rightarrow>
          let t' = t\<lparr>ts_handle := (ts_handle t)\<lparr>sink := Queued data control True\<rparr>\<rparr> in
          Some (if sent then t'\<lparr>ts_wire := ts_wire t @ [msg]\<rparr> else loop_ends t')
      | _ \<Rightarrow> None)"
| "tunnel_loop L_Lifetime t = Some (loop_ends t)"

section \<open>The id search\<close>

lemma alloc_id_None:
  "alloc_id fuel n chans = None \<Longrightarrow> k < fuel \<Longrightarrow> hm_get chans (n + of_nat k) \<noteq> None"
proof (induction fuel arbitrary: n k)
  case (Suc fuel)
  show ?case
  proof (cases k)
    case 0
    then show ?thesis using Suc.prems(1) by (simp split: if_splits)
  next
    case (Suc k')
    then show ?thesis using Suc.prems Suc.IH[of "n + 1" k'] by (simp add: add.assoc split: if_splits)
  qed
qed simp

lemma alloc_id_enough:
  assumes "hm_ok chans" "length chans < fuel" "fuel \<le> 2 ^ 32"
  shows "alloc_id fuel n chans \<noteq> None"
proof
  assume none: "alloc_id fuel n chans = None"
  have inj: "inj_on (\<lambda>k. n + of_nat k :: i32) {..<fuel}"
  proof (rule inj_onI)
    fix j k assume jk: "j \<in> {..<fuel}" "k \<in> {..<fuel}" and eq: "n + of_nat j = (n + of_nat k :: i32)"
    then have "unat (of_nat j :: i32) = unat (of_nat k :: i32)" by simp
    then show "j = k" using jk assms(3) by (simp add: unat_of_nat)
  qed
  have "(\<lambda>k. n + of_nat k :: i32) ` {..<fuel} \<subseteq> dom (hm_get chans)"
    using alloc_id_None[OF none] by auto
  then have "fuel \<le> card (dom (hm_get chans))"
    using card_mono[OF finite_dom_map_of] card_image[OF inj] by fastforce
  then show False using assms(1,2) by (simp add: card_dom_hm)
qed

lemma alloc_id_hit: "hm_get chans n = None \<Longrightarrow> 0 < fuel \<Longrightarrow> alloc_id fuel n chans = Some (n, n + 1)"
  by (cases fuel) simp_all

lemma alloc_id_fresh: "alloc_id fuel n chans = Some (i, n') \<Longrightarrow> hm_get chans i = None"
  by (induction fuel arbitrary: n) (auto split: if_splits)

section \<open>The tunnel among its tasks\<close>

text \<open>
  The loop, the listener and the channel tasks interleave. A task sends only \<open>window_update\<close> on
  the control queue and everything else on the ordered queue; the second component records the
  frames handed to the ordered queue since the tunnel was made, oldest first.
\<close>

fun is_update :: "channel_frame \<Rightarrow> bool" where
  "is_update (WindowUpdate i a) = True"
| "is_update _ = False"

inductive tunnel_step :: "tunnel \<times> channel_frame list \<Rightarrow> tunnel \<times> channel_frame list \<Rightarrow> bool" where
  tn_loop: "ts_running t \<Longrightarrow> tunnel_loop ev t = Some t' \<Longrightarrow> tunnel_step (t, log) (t', log)"
| tn_muxed: "claim (ts_state t) = Claimed \<Longrightarrow> tunnel_step (t, log) (set_muxed t, [])"
| tn_legacy: "claim (ts_state t) = Claimed \<Longrightarrow> tunnel_step (t, log) (set_legacy t, log)"
| tn_failed: "claim (ts_state t) = Claimed \<Longrightarrow> tunnel_step (t, log) (set_failed t, log)"
| tn_open: "open_locked host port (ts_handle t) = Some (Ok (h, i, f)) \<Longrightarrow> tunnel_step (t, log) (t\<lparr>ts_handle := h\<rparr>, log)"
| tn_ordered: "\<not> is_update f \<Longrightarrow> send_ordered f (sink (ts_handle t)) = Sent s \<Longrightarrow>
    tunnel_step (t, log) (t\<lparr>ts_handle := (ts_handle t)\<lparr>sink := s\<rparr>\<rparr>, log @ [f])"
| tn_control: "is_update f \<Longrightarrow> send_control f (sink (ts_handle t)) = Sent s \<Longrightarrow>
    tunnel_step (t, log) (t\<lparr>ts_handle := (ts_handle t)\<lparr>sink := s\<rparr>\<rparr>, log)"
| tn_task: "ch_tx ob = ch_tx (objs (ts_handle t) ! r) \<Longrightarrow> r < length (objs (ts_handle t)) \<Longrightarrow>
    tunnel_step (t, log) (t\<lparr>ts_handle := upd_obj r (\<lambda>_. ob) (ts_handle t)\<rparr>, log)"
| tn_done: "tunnel_step (t, log) (t\<lparr>ts_handle := channel_done i r (ts_handle t)\<rparr>, log)"

abbreviation tunnel_init :: "tunnel \<times> channel_frame list \<Rightarrow> bool" where
  "tunnel_init st \<equiv> st = (tunnel_new, [])"

text \<open>
  The handle's table is well formed and bounded; the state says \<open>Muxed\<close> only while the loop runs
  with its queues open; and what was handed to the ordered queue is on the wire or still queued,
  in order.
\<close>

fun queued_ok :: "tunnel \<Rightarrow> channel_frame list \<Rightarrow> frame_sink \<Rightarrow> bool" where
  "queued_ok t log (Queued data control alive) =
     (list_all is_update control \<and> (\<forall>f \<in> set log. \<not> is_update f)
      \<and> (if ts_running t then alive \<and> filter (\<lambda>f. \<not> is_update f) (ts_wire t) @ data = log
         else \<not> alive \<and> (\<exists>rest. log = filter (\<lambda>f. \<not> is_update f) (ts_wire t) @ rest)))"
| "queued_ok t log (Direct tx alive) = False"

definition handle_ok :: "tunnel_handle \<Rightarrow> bool" where
  "handle_ok h \<longleftrightarrow> table_ok h \<and> length (channels h) \<le> MAX_CHANNELS"

fun tunnel_ok :: "tunnel \<times> channel_frame list \<Rightarrow> bool" where
  "tunnel_ok (t, log) =
     (handle_ok (ts_handle t) \<and> (ts_state t = TS_Muxed \<longleftrightarrow> ts_running t)
      \<and> queued_ok t log (sink (ts_handle t)))"

lemma sink_ops [simp]:
  "sink (upd_obj r f h) = sink h" "sink (remove_chan i x h) = sink h" "sink (demux_data i d h) = sink h"
  "sink (demux_update i a h) = sink h" "sink (clear_chans h) = sink h" "sink (insert_chan i ob h) = sink h"
  "sink (task_ends r h) = sink h"
  by (simp_all add: upd_obj_def remove_chan_def demux_data_def demux_update_def clear_chans_def
      insert_chan_def task_ends_def Let_def split: option.splits prod.splits)

lemma first_report_keeps [simp]:
  "channels (snd (first_report_at m now h)) = channels h" "objs (snd (first_report_at m now h)) = objs h"
  "sink (snd (first_report_at m now h)) = sink h"
  by (simp_all add: first_report_at_def Let_def)

lemma sink_on_frame [simp]: "sink (snd (on_frame now f h)) = sink h"
  by (cases f) (auto split: option.splits)

lemma sink_channel_done [simp]: "sink (channel_done i r h) = sink h"
  by (simp add: channel_done_def)

lemma handle_ok_report [simp]: "handle_ok (snd (first_report_at m now h)) = handle_ok h"
  by (simp add: handle_ok_def table_ok_def)

lemma handle_ok_shrink:
  "handle_ok h \<Longrightarrow> table_ok h' \<Longrightarrow> length (channels h') \<le> length (channels h) \<Longrightarrow> handle_ok h'"
  by (auto simp: handle_ok_def)

lemma length_channels_remove: "length (channels (remove_chan i x t)) \<le> length (channels t)"
  by (auto simp: remove_chan_def length_hm_remove_le split: option.splits)

lemma length_channels_demux [simp]:
  "length (channels (demux_data i d t)) \<le> length (channels t)"
  "length (channels (demux_update i a t)) = length (channels t)"
  using length_channels_remove[of i _ t]
  by (auto simp: demux_data_def demux_update_def Let_def remove_chan_def length_hm_remove_le
      split: option.splits prod.splits)

lemma channels_task_ends [simp]: "channels (task_ends r t) = channels t"
  by (simp add: task_ends_def)

lemma handle_ok_ops:
  assumes "handle_ok h"
  shows "handle_ok (remove_chan i x h)" "handle_ok (demux_data i d h)" "handle_ok (demux_update i a h)"
    "handle_ok (clear_chans h)" "handle_ok (channel_done i r h)"
proof -
  have t: "table_ok h" using assms by (simp add: handle_ok_def)
  show "handle_ok (remove_chan i x h)" "handle_ok (demux_data i d h)" "handle_ok (demux_update i a h)"
    "handle_ok (clear_chans h)"
    by (auto intro!: handle_ok_shrink[OF assms] table_ok_intros[OF t] length_channels_remove
        simp: clear_chans_def[of h, THEN arg_cong[of _ _ channels]])
  show "handle_ok (channel_done i r h)"
    using length_channels_remove[of i None "task_ends r h"]
    by (auto intro!: handle_ok_shrink[OF assms] table_ok_remove table_ok_task_ends t simp: channel_done_def)
qed

lemma handle_ok_upd: "handle_ok h \<Longrightarrow> (\<And>ob. ch_tx (f ob) = ch_tx ob) \<Longrightarrow> handle_ok (upd_obj r f h)"
  by (simp add: handle_ok_def table_ok_upd)

lemma handle_ok_on_frame: "handle_ok h \<Longrightarrow> handle_ok (snd (on_frame now f h))"
  by (cases f) (auto simp: handle_ok_ops handle_ok_upd split: option.splits)

lemma open_locked_total: "handle_ok h \<Longrightarrow> open_locked host port h \<noteq> None"
  using alloc_id_enough[of "channels h" "Suc MAX_CHANNELS" "next_id h"]
  by (auto simp: open_locked_def handle_ok_def table_ok_def MAX_CHANNELS_def split: option.splits)

lemma open_lockedE:
  assumes "open_locked host port h = Some (Ok (h', i, f))"
  obtains n where "hm_get (channels h) i = None" "length (channels h) < MAX_CHANNELS"
    "f = Open i host port CHANNEL_WINDOW"
    "h' = insert_chan i (chan_new (credit_new INITIAL_WINDOW) (recv_new CHANNEL_WINDOW) [] False) (h\<lparr>next_id := n\<rparr>)"
  using assms by (auto simp: open_locked_def open_msg_def dest: alloc_id_fresh split: if_splits option.splits)

lemma handle_ok_open:
  assumes "handle_ok h" "open_locked host port h = Some (Ok (h', i, f))"
  shows "handle_ok h' \<and> sink h' = sink h"
proof -
  obtain n where n: "hm_get (channels h) i = None" "length (channels h) < MAX_CHANNELS"
    and h': "h' = insert_chan i (chan_new (credit_new INITIAL_WINDOW) (recv_new CHANNEL_WINDOW) [] False) (h\<lparr>next_id := n\<rparr>)"
    using open_lockedE[OF assms(2)] .
  have "table_ok (h\<lparr>next_id := n\<rparr>)" using assms(1) by (simp add: handle_ok_def table_ok_def)
  then show ?thesis
    using table_ok_insert[of "h\<lparr>next_id := n\<rparr>" i] n
    by (auto simp: h' handle_ok_def chan_new_def) (simp add: insert_chan_def length_hm_insert)
qed

lemma queued_ok_cong:
  "ts_running t' = ts_running t \<Longrightarrow> ts_wire t' = ts_wire t \<Longrightarrow> queued_ok t' log s = queued_ok t log s"
  by (cases s) simp_all

text \<open>A stopped loop leaves a closed sink, an empty table and the raised teardown behind.\<close>

lemma tunnel_ok_loop_ends:
  assumes "tunnel_ok (t, log)" "ts_running t"
    and "handle_ok h" "\<exists>rest. log = filter (\<lambda>f. \<not> is_update f) (ts_wire t) @ rest"
  shows "tunnel_ok (loop_ends (t\<lparr>ts_handle := h\<rparr>), log)"
proof -
  have "\<forall>f \<in> set log. \<not> is_update f" using assms(1) by (cases "sink (ts_handle t)") simp_all
  moreover have "handle_ok ((close_all h)\<lparr>sink := s\<rparr>)" for s
    using handle_ok_ops(4)[OF assms(3)] by (simp add: close_all_def handle_ok_def table_ok_def)
  ultimately show ?thesis using assms(4) by (simp add: loop_ends_def)
qed

lemma running_sink:
  assumes "tunnel_ok (t, log)" "ts_running t"
  obtains data control where "sink (ts_handle t) = Queued data control True" "list_all is_update control"
    "filter (\<lambda>f. \<not> is_update f) (ts_wire t) @ data = log" "\<forall>f \<in> set log. \<not> is_update f"
  using assms by (cases "sink (ts_handle t)") auto

lemma handle_ok_sink [simp]: "handle_ok (h\<lparr>sink := s\<rparr>) = handle_ok h"
  by (simp add: handle_ok_def table_ok_def)

lemma tunnel_ok_loop:
  assumes ok: "tunnel_ok (t, log)" and run: "ts_running t" and step: "tunnel_loop ev t = Some t'"
  shows "tunnel_ok (t', log)"
proof -
  obtain data control where sk: "sink (ts_handle t) = Queued data control True" "list_all is_update control"
    "filter (\<lambda>f. \<not> is_update f) (ts_wire t) @ data = log" "\<forall>f \<in> set log. \<not> is_update f"
    using running_sink[OF ok run] .
  have h: "handle_ok (ts_handle t)" "ts_state t = TS_Muxed" using ok run by simp_all
  have ends: "handle_ok h \<Longrightarrow> tunnel_ok (loop_ends (t\<lparr>ts_handle := h\<rparr>), log)" for h
    using tunnel_ok_loop_ends[OF ok run] sk(3) by blast
  have same: "t\<lparr>ts_handle := ts_handle t\<rparr> = t" by simp
  show ?thesis
  proof (cases ev)
    case (L_Control sent)
    with step sk(1) obtain m c where c: "control = m # c" by (cases control) auto
    let ?t = "t\<lparr>ts_handle := (ts_handle t)\<lparr>sink := Queued data c True\<rparr>\<rparr>"
    have t': "t' = (if sent then ?t\<lparr>ts_wire := ts_wire t @ [m]\<rparr> else loop_ends ?t)"
      using step sk(1) L_Control c by (simp add: Let_def)
    have "is_update m" "list_all is_update c" using sk(2) c by simp_all
    then have "tunnel_ok (?t\<lparr>ts_wire := ts_wire t @ [m]\<rparr>, log)" using h run sk(3,4) by simp
    then show ?thesis unfolding t' using ends[of "(ts_handle t)\<lparr>sink := Queued data c True\<rparr>"] h(1)
      by (simp del: tunnel_ok.simps)
  next
    case (L_Data sent)
    with step sk(1) obtain m d where d: "data = m # d" by (cases data) auto
    let ?t = "t\<lparr>ts_handle := (ts_handle t)\<lparr>sink := Queued d control True\<rparr>\<rparr>"
    have t': "t' = (if sent then ?t\<lparr>ts_wire := ts_wire t @ [m]\<rparr> else loop_ends ?t)"
      using step sk(1) L_Data d by (simp add: Let_def)
    have "\<not> is_update m" using sk(3,4) d by auto
    then have "tunnel_ok (?t\<lparr>ts_wire := ts_wire t @ [m]\<rparr>, log)" using h run sk(2,3,4) d by simp
    then show ?thesis unfolding t' using ends[of "(ts_handle t)\<lparr>sink := Queued d control True\<rparr>"] h(1)
      by (simp del: tunnel_ok.simps)
  next
    case (L_Frame now f)
    with step obtain err h' where "on_frame now f (ts_handle t) = (err, h')" "ts_handle t' = h'"
      "ts_state t' = ts_state t" "ts_running t' = ts_running t" "ts_wire t' = ts_wire t"
      by (auto split: prod.splits)
    then show ?thesis
      using handle_ok_on_frame[OF h(1), of now f] sink_on_frame[of now f "ts_handle t"] h sk run
      by simp
  qed (use step ok ends[OF h(1), unfolded same] in auto)
qed

lemma alive_running: "tunnel_ok (t, log) \<Longrightarrow> \<not> is_closed (sink (ts_handle t)) \<Longrightarrow> ts_running t"
  by (cases "sink (ts_handle t)") (simp_all split: if_splits)

lemma sent_alive:
  "send_ordered f s = Sent s' \<Longrightarrow> \<not> is_closed s" "send_control f s = Sent s' \<Longrightarrow> \<not> is_closed s"
  by (cases s; simp split: if_splits)+

lemma tunnel_ok_send:
  assumes ok: "tunnel_ok (t, log)" and f: "\<not> is_update f" "send_ordered f (sink (ts_handle t)) = Sent s"
  shows "tunnel_ok (t\<lparr>ts_handle := (ts_handle t)\<lparr>sink := s\<rparr>\<rparr>, log @ [f])"
proof -
  have run: "ts_running t" using alive_running[OF ok] sent_alive f(2) by blast
  obtain data control where sk: "sink (ts_handle t) = Queued data control True" "list_all is_update control"
    "filter (\<lambda>f. \<not> is_update f) (ts_wire t) @ data = log" "\<forall>f \<in> set log. \<not> is_update f"
    using running_sink[OF ok run] .
  have "s = Queued (data @ [f]) control True" using f(2) sk(1) by (simp split: if_splits)
  then show ?thesis using ok run sk f(1) by simp
qed

lemma tunnel_ok_control:
  assumes ok: "tunnel_ok (t, log)" and f: "is_update f" "send_control f (sink (ts_handle t)) = Sent s"
  shows "tunnel_ok (t\<lparr>ts_handle := (ts_handle t)\<lparr>sink := s\<rparr>\<rparr>, log)"
proof -
  have run: "ts_running t" using alive_running[OF ok] sent_alive f(2) by blast
  obtain data control where sk: "sink (ts_handle t) = Queued data control True" "list_all is_update control"
    "filter (\<lambda>f. \<not> is_update f) (ts_wire t) @ data = log" "\<forall>f \<in> set log. \<not> is_update f"
    using running_sink[OF ok run] .
  have "s = Queued data (control @ [f]) True" using f(2) sk(1) by (simp split: if_splits)
  then show ?thesis using ok run sk f(1) by simp
qed

lemma tunnel_ok_handle:
  assumes "tunnel_ok (t, log)" "handle_ok h" "sink h = sink (ts_handle t)"
  shows "tunnel_ok (t\<lparr>ts_handle := h\<rparr>, log)"
  using assms queued_ok_cong[of "t\<lparr>ts_handle := h\<rparr>" t] by simp

lemma tunnel_ok_state:
  assumes "tunnel_ok (t, log)" "claim (ts_state t) = Claimed" "st \<noteq> TS_Muxed"
  shows "tunnel_ok (t\<lparr>ts_state := st\<rparr>, log)"
  using assms queued_ok_cong[of "t\<lparr>ts_state := st\<rparr>" t] by (cases "ts_state t") auto

lemma tunnel_ok_step: "tunnel_step st st' \<Longrightarrow> tunnel_ok st \<Longrightarrow> tunnel_ok st'"
proof (induction rule: tunnel_step.induct)
  case (tn_loop t ev t' log)
  then show ?case using tunnel_ok_loop by blast
next
  case (tn_muxed t log)
  show ?case by (simp add: set_muxed_def handle_new_def handle_ok_def table_ok_def)
next
  case (tn_open host port t h i f log)
  then show ?case using handle_ok_open[of "ts_handle t"] tunnel_ok_handle[of t log h] by simp
next
  case (tn_task ob t r log)
  have "table_ok (upd_obj r (\<lambda>_. ob) (ts_handle t))"
    using tn_task by (auto simp: handle_ok_def table_ok_def upd_obj_def nth_list_update_any)
  then show ?case using tn_task by (intro tunnel_ok_handle) (auto simp: handle_ok_def)
next
  case (tn_done t log i r)
  then show ?case by (intro tunnel_ok_handle) (auto simp: handle_ok_ops)
qed (simp_all only: tunnel_ok_send tunnel_ok_control set_legacy_def set_failed_def tunnel_ok_state
      tunnel_state.distinct not_False_eq_True)

interpretation tn: inductive_invariant tunnel_init tunnel_step tunnel_ok
  by unfold_locales
    (auto simp: tunnel_ok_step tunnel_new_def handle_new_def handle_ok_def table_ok_def simp del: tunnel_ok.simps
      intro: tunnel_ok.simps[THEN iffD2])

section \<open>Throttled reports\<close>

text \<open>
  A run of refusals: each a message and the instant it arrived. The result is what was shown,
  oldest first, with the handle afterwards.
\<close>

fun report_run :: "(string \<times> nat) list \<Rightarrow> tunnel_handle \<Rightarrow> (string \<times> nat) list \<times> tunnel_handle" where
  "report_run [] h = ([], h)"
| "report_run ((m, now) # rs) h =
     (let (shown, h') = first_report_at m now h; (rest, h'') = report_run rs h' in
      ((case shown of Some e \<Rightarrow> [(e, now)] | None \<Rightarrow> []) @ rest, h''))"

text \<open>
  What is remembered at an instant: at most eight messages, among them every message shown less
  than ten seconds ago, and two showings of a message are ten seconds apart.
\<close>

definition reports_ok :: "nat \<Rightarrow> (string \<times> nat) list \<Rightarrow> tunnel_handle \<Rightarrow> bool" where
  "reports_ok now shown h \<longleftrightarrow>
     hm_ok (reported h) \<and> length (reported h) \<le> MAX_REPORTED_OPEN_ERRORS
   \<and> (\<forall>(m, t) \<in> set shown. t \<le> now \<and> (now - t < REPORT_AGAIN_AFTER \<longrightarrow>
        (\<exists>l. hm_get (reported h) m = Some l \<and> t \<le> l \<and> l \<le> now)))"

definition shown_within :: "nat \<Rightarrow> (string \<times> nat) list \<Rightarrow> (string \<times> nat) list" where
  "shown_within T shown = filter (\<lambda>(m, t). T \<le> t \<and> t < T + REPORT_AGAIN_AFTER) shown"

definition throttled :: "(string \<times> nat) list \<Rightarrow> bool" where
  "throttled shown \<longleftrightarrow> (\<forall>T. distinct (map fst (shown_within T shown))
     \<and> length (shown_within T shown) \<le> MAX_REPORTED_OPEN_ERRORS)"

lemma length_retain_bound: "length m \<le> n \<Longrightarrow> length (hm_retain P m) \<le> n"
  using length_hm_retain_le[of P m] by simp

lemma reports_ok_kept:
  assumes "reports_ok now0 shown h" "now0 \<le> now"
    and kept: "kept = hm_retain (\<lambda>_ last. now - last < REPORT_AGAIN_AFTER) (reported h)"
  shows "(m, t) \<in> set shown \<Longrightarrow> now - t < REPORT_AGAIN_AFTER \<Longrightarrow>
      \<exists>l. hm_get kept m = Some l \<and> t \<le> l \<and> l \<le> now"
    and "hm_ok kept" "length kept \<le> MAX_REPORTED_OPEN_ERRORS"
proof -
  assume mt: "(m, t) \<in> set shown" "now - t < REPORT_AGAIN_AFTER"
  then have "now0 - t < REPORT_AGAIN_AFTER" using assms(2) by simp
  then obtain l where "hm_get (reported h) m = Some l" "t \<le> l" "l \<le> now0"
    using assms(1) mt(1) by (fastforce simp: reports_ok_def)
  then show "\<exists>l. hm_get kept m = Some l \<and> t \<le> l \<and> l \<le> now"
    using assms(1,2) mt(2) by (auto simp: kept hm_get_retain reports_ok_def)
qed (use assms(1) in \<open>auto simp: reports_ok_def kept length_retain_bound\<close>)

lemma shown_before: "reports_ok now0 shown h \<Longrightarrow> now0 \<le> now \<Longrightarrow> (m, t) \<in> set shown \<Longrightarrow> t \<le> now"
  by (fastforce simp: reports_ok_def)

lemma first_report_step:
  assumes ok: "reports_ok now0 shown h" "throttled shown" and now: "now0 \<le> now"
    and step: "first_report_at m now h = (e, h')"
  shows "reports_ok now (shown @ (case e of Some x \<Rightarrow> [(x, now)] | None \<Rightarrow> [])) h'
    \<and> throttled (shown @ (case e of Some x \<Rightarrow> [(x, now)] | None \<Rightarrow> []))"
proof -
  define kept where "kept = hm_retain (\<lambda>_ last. now - last < REPORT_AGAIN_AFTER) (reported h)"
  note k = reports_ok_kept[OF ok(1) now kept_def] and before = shown_before[OF ok(1) now]
  consider (empty) "m = []" "e = None" "h' = h"
    | (again) "m \<noteq> []" "hm_get kept m \<noteq> None" "e = None" "h' = h\<lparr>reported := hm_modify m (\<lambda>_. now) kept\<rparr>"
    | (full) "e = None" "h' = h\<lparr>reported := kept\<rparr>"
    | (new) "e = Some m" "hm_get kept m = None" "length kept < MAX_REPORTED_OPEN_ERRORS"
        "h' = h\<lparr>reported := hm_insert m now kept\<rparr>"
    using step by (auto simp: first_report_at_def Let_def kept_def[symmetric] split: if_splits)
  then show ?thesis
  proof cases
    case empty
    have "reports_ok now shown h"
      using ok(1) before now k(2) unfolding reports_ok_def
      by (fastforce dest: diff_le_mono[OF now, THEN le_less_trans])
    then show ?thesis using ok(2) empty by simp
  next
    case again
    have "reports_ok now shown h'"
      using k before again by (auto simp: reports_ok_def hm_simps)
    then show ?thesis using ok(2) again by simp
  next
    case full
    then show ?thesis using k before ok(2) by (auto simp: reports_ok_def)
  next
    case new
    have r: "reports_ok now (shown @ [(m, now)]) h'"
      using k before new by (fastforce simp: reports_ok_def hm_simps length_hm_insert)
    have "distinct (map fst (shown_within T (shown @ [(m, now)])))
        \<and> length (shown_within T (shown @ [(m, now)])) \<le> MAX_REPORTED_OPEN_ERRORS" for T
    proof (cases "T \<le> now \<and> now < T + REPORT_AGAIN_AFTER")
      case True
      let ?w = "shown_within T shown"
      have sub: "fst ` set ?w \<subseteq> dom (hm_get kept)"
      proof
        fix x assume "x \<in> fst ` set ?w"
        then obtain t where "(x, t) \<in> set shown" "T \<le> t" by (auto simp: shown_within_def)
        moreover from this have "now - t < REPORT_AGAIN_AFTER" using True by linarith
        ultimately show "x \<in> dom (hm_get kept)" using k(1)[of x t] by blast
      qed
      have d: "distinct (map fst ?w)" using ok(2) by (simp add: throttled_def)
      have "length ?w \<le> length kept"
        using card_mono[OF finite_dom_map_of sub] distinct_card[OF d] card_dom_hm[OF k(2)] by simp
      then show ?thesis using True d sub new by (auto simp: shown_within_def)
    next
      case False
      then have "shown_within T (shown @ [(m, now)]) = shown_within T shown" by (auto simp: shown_within_def)
      then show ?thesis using ok(2) by (simp add: throttled_def)
    qed
    then show ?thesis using r new by (simp add: throttled_def)
  qed
qed

lemma report_run_throttled:
  assumes "reports_ok now0 shown h" "throttled shown" "sorted (now0 # map snd rs)"
  shows "throttled (shown @ fst (report_run rs h))"
  using assms
proof (induction rs arbitrary: now0 shown h)
  case (Cons r rs)
  obtain m now where r: "r = (m, now)" by fastforce
  obtain e h' where e: "first_report_at m now h = (e, h')" by fastforce
  let ?s = "shown @ (case e of Some x \<Rightarrow> [(x, now)] | None \<Rightarrow> [])"
  have "reports_ok now ?s h'" "throttled ?s"
    using first_report_step[OF Cons.prems(1,2) _ e] Cons.prems(3) r by auto
  then have "throttled (?s @ fst (report_run rs h'))"
    using Cons.IH[of now ?s h'] Cons.prems(3) r by simp
  then show ?case by (simp add: r e case_prod_beta Let_def)
qed simp

section \<open>Properties\<close>

text \<open>
  C19: opening a channel always ends and never reuses a live id. In every reachable state of the
  tunnel the id search stops within 257 turns even when the counter wraps onto live channels;
  an accepted open adds exactly one entry, under an id that had none, with an empty queue and the
  initial credit, and leaves at most 256 entries.
\<close>

theorem tunnel_open_fresh:
  assumes "reach tunnel_init tunnel_step (t, log)"
  shows "tunnel_open host port (ts_handle t) \<noteq> None
    \<and> (\<forall>h i f. tunnel_open host port (ts_handle t) = Some (Ok (h, i, f)) \<longrightarrow>
         hm_get (channels (ts_handle t)) i = None \<and> f = Open i host port CHANNEL_WINDOW
       \<and> channels h = channels (ts_handle t) @ [(i, length (objs (ts_handle t)))]
       \<and> length (channels h) \<le> MAX_CHANNELS
       \<and> (\<exists>ob. objs h = objs (ts_handle t) @ [ob] \<and> ch_inbox ob = [] \<and> unat (credit (ch_credit ob)) = 65536))"
proof -
  have ok: "handle_ok (ts_handle t)" using tn.reach_inv[OF assms] by simp
  have "open_locked host port (ts_handle t) = Some (Ok (h, i, f)) \<Longrightarrow>
         hm_get (channels (ts_handle t)) i = None \<and> f = Open i host port CHANNEL_WINDOW
       \<and> channels h = channels (ts_handle t) @ [(i, length (objs (ts_handle t)))]
       \<and> length (channels h) \<le> MAX_CHANNELS
       \<and> (\<exists>ob. objs h = objs (ts_handle t) @ [ob] \<and> ch_inbox ob = [] \<and> unat (credit (ch_credit ob)) = 65536)" for h i f
    by (erule open_lockedE) (simp add: insert_chan_def hm_insert_fresh chan_new_def credit_new_def width_simps)
  moreover have "tunnel_open host port (ts_handle t) = Some (Ok (h, i, f)) \<Longrightarrow>
      open_locked host port (ts_handle t) = Some (Ok (h, i, f))" for h i f
    by (simp add: tunnel_open_def split: if_splits)
  moreover have "tunnel_open host port (ts_handle t) \<noteq> None"
    using open_locked_total[OF ok] by (simp add: tunnel_open_def)
  ultimately show ?thesis by blast
qed

theorem tunnel_open_fresh_witness:
  "tunnel_open ''h'' 80 (ts_handle (set_muxed tunnel_new)) =
     Some (Ok (insert_chan 1 (chan_new (credit_new INITIAL_WINDOW) (recv_new CHANNEL_WINDOW) [] False) (handle_new\<lparr>next_id := 2\<rparr>),
               1, Open 1 ''h'' 80 CHANNEL_WINDOW))
   \<and> hm_get (channels (ts_handle (set_muxed tunnel_new))) 1 = None"
proof -
  have "reach tunnel_init tunnel_step (set_muxed tunnel_new, [])"
    by (rule reach_one[of _ "(tunnel_new, [])"]) (simp, rule tn_muxed, simp add: tunnel_new_def)
  from tunnel_open_fresh[OF this, of "''h''" 80] show ?thesis
    by (simp add: tunnel_open_def open_locked_def set_muxed_def handle_new_def MAX_CHANNELS_def open_msg_def alloc_id_hit)
qed



text \<open>
  C21: frames whose order matters keep it. While the loop runs, the frames on the wire other than
  window updates, followed by those still in the data queue, are exactly the frames the channel
  tasks handed over, in the order they did; once it has ended the wire holds a prefix of them. So
  \<open>open\<close> precedes its channel's data and \<open>close\<close> follows it.
\<close>

theorem ordered_frames_keep_order:
  assumes "reach tunnel_init tunnel_step (t, log)"
  shows "\<exists>data. log = filter (\<lambda>f. \<not> is_update f) (ts_wire t) @ data
     \<and> (ts_running t \<longrightarrow> (\<exists>control. sink (ts_handle t) = Queued data control True))"
  using tn.reach_inv[OF assms] by (cases "sink (ts_handle t)") (auto split: if_splits)

theorem ordered_frames_keep_order_witness:
  "let t = (set_muxed tunnel_new)\<lparr>ts_handle := handle_new\<lparr>sink := Queued [CloseFrame 3] [] True\<rparr>\<rparr> in
     \<exists>data. [CloseFrame 3] = filter (\<lambda>f. \<not> is_update f) (ts_wire t) @ data
     \<and> (\<exists>control. sink (ts_handle t) = Queued data control True)"
proof -
  let ?t = "(set_muxed tunnel_new)\<lparr>ts_handle := handle_new\<lparr>sink := Queued [CloseFrame 3] [] True\<rparr>\<rparr>"
  have "reach tunnel_init tunnel_step (set_muxed tunnel_new, [])"
    by (rule reach_one[of _ "(tunnel_new, [])"]) (simp, rule tn_muxed, simp add: tunnel_new_def)
  moreover have "tunnel_step (set_muxed tunnel_new, []) (?t, [CloseFrame 3])"
    using tn_ordered[of "CloseFrame 3" "set_muxed tunnel_new" "Queued [CloseFrame 3] [] True" "[]"]
    by (simp add: set_muxed_def handle_new_def DATA_QUEUE_FRAMES_def)
  ultimately have "reach tunnel_init tunnel_step (?t, [CloseFrame 3])" by (rule reach_step)
  from ordered_frames_keep_order[OF this] show ?thesis by (simp add: set_muxed_def)
qed

text \<open>
  A repeated \<open>opened\<close> does not raise the credit again. After a first positive answer every
  further one for the same channel, whatever window it names, changes nothing at all.
\<close>

lemma repeated_opened_is_ignored:
  assumes "table_ok h" "hm_get (channels h) i = Some r"
  shows "let h1 = snd (on_frame now (Opened i True m w) h) in
      on_frame now2 (Opened i True m2 w2) h1 = (None, h1)
    \<and> (\<not> ch_opened (objs h ! r) \<longrightarrow> ch_credit (objs h1 ! r) = raise_initial w (ch_credit (objs h ! r)))"
  using assms table_ok_ref[OF assms] by (simp add: upd_obj_def)

lemma repeated_opened_is_ignored_instance:
  "let h = insert_chan 1 (chan_new (credit_new INITIAL_WINDOW) (recv_new CHANNEL_WINDOW) [] False) handle_new;
       h1 = snd (on_frame 0 (Opened 1 True [] 100000) h)
   in on_frame 5 (Opened 1 True [] 262144) h1 = (None, h1) \<and> credit (ch_credit (objs h1 ! 0)) = 100000"
proof -
  let ?h = "insert_chan 1 (chan_new (credit_new INITIAL_WINDOW) (recv_new CHANNEL_WINDOW) [] False) handle_new"
  have "table_ok ?h"
    by (rule table_ok_insert) (simp_all add: handle_new_def chan_new_def table_ok_def)
  moreover have "hm_get (channels ?h) 1 = Some 0" by (simp add: insert_chan_def handle_new_def)
  ultimately show ?thesis
    using repeated_opened_is_ignored[of ?h 1 0 0 "[]" 100000 5 "[]" 262144]
    by (simp add: Let_def insert_chan_def handle_new_def chan_new_def credit_new_def raise_initial_def
        credit_add_def window_constants effective_window_def sat_add_def upd_obj_def)
qed

text \<open>
  the user sees a bounded number of refusals. However the peer words and times its refusals,
  in any ten seconds at most eight are shown and no wording twice.
\<close>

theorem refusal_reports_throttled:
  assumes "sorted (map snd rs)"
  shows "let shown = shown_within T (fst (report_run rs handle_new)) in
     distinct (map fst shown) \<and> length shown \<le> 8"
proof -
  have "throttled ([] @ fst (report_run rs handle_new))"
    by (rule report_run_throttled[of 0])
      (use assms in \<open>auto simp: reports_ok_def handle_new_def throttled_def shown_within_def\<close>)
  then show ?thesis by (simp add: throttled_def MAX_REPORTED_OPEN_ERRORS_def)
qed

theorem refusal_reports_throttled_witness:
  "let shown = fst (report_run [(''a'', 0), (''a'', 1), (''b'', 2), (''a'', 10 * 10 ^ 9)] handle_new) in
     shown = [(''a'', 0), (''b'', 2)] \<and> distinct (map fst (shown_within 0 shown)) \<and> length (shown_within 0 shown) \<le> 8"
  using refusal_reports_throttled[of "[(''a'', 0), (''a'', 1), (''b'', 2), (''a'', 10 * 10 ^ 9)]" 0]
  by (simp add: Let_def first_report_at_def handle_new_def hm_retain_def REPORT_AGAIN_AFTER_def
      MAX_REPORTED_OPEN_ERRORS_def hm_modify_def)

end
