(* ===== verification/Mux_Link.thy ===== *)
theory Mux_Link
  imports Mux_Server Mux_Tunnel "HOL-Library.Sublist"
begin

text \<open>
  One direction of one channel between two honest ends, put together from the code's own parts:
  the sending half, the frames on their way, the receiving end's demultiplexer and channel task,
  and the credit on its way back. Shown of it: the window is never overrun, the bytes written are
  a prefix of the bytes read, and bookkeeping alone never blocks the sender.
\<close>

section \<open>One channel's share of the table operations\<close>

text \<open>
  The demultiplexers restricted to the object of one channel; an object has its sender exactly
  while the table has the entry.
\<close>

definition chan_data :: "bytes \<Rightarrow> chan_obj \<Rightarrow> chan_obj" where
  "chan_data d ob =
     (if \<not> ch_tx ob then ob
      else case accept (length d) (ch_window ob) of
        (accepted, w) \<Rightarrow>
          let ob1 = ob\<lparr>ch_window := w\<rparr> in
          if accepted \<and> ch_rx ob then inbound_send (IData d) ob1
          else drop_entry (if accepted then ob1 else inbound_send IViolation ob1))"

definition chan_close :: "chan_obj \<Rightarrow> chan_obj" where
  "chan_close ob = (if ch_tx ob then drop_entry (inbound_send IClose ob) else ob)"

definition chan_update :: "u32 \<Rightarrow> chan_obj \<Rightarrow> chan_obj" where
  "chan_update a ob = (if ch_tx ob then ob\<lparr>ch_credit := credit_add a (ch_credit ob)\<rparr> else ob)"

definition chan_opened :: "u32 \<Rightarrow> chan_obj \<Rightarrow> chan_obj" where
  "chan_opened w ob =
     (if ch_tx ob \<and> \<not> ch_opened ob then ob\<lparr>ch_opened := True, ch_credit := raise_initial w (ch_credit ob)\<rparr> else ob)"

fun rx_frame :: "channel_frame \<Rightarrow> chan_obj \<Rightarrow> chan_obj" where
  "rx_frame (DataFrame i d) ob = chan_data d ob"
| "rx_frame (CloseFrame i) ob = chan_close ob"
| "rx_frame _ ob = ob"

fun tx_frame :: "channel_frame \<Rightarrow> chan_obj \<Rightarrow> chan_obj" where
  "tx_frame (Opened i s m w) ob = (if s then chan_opened w ob else chan_close ob)"
| "tx_frame (WindowUpdate i a) ob = chan_update a ob"
| "tx_frame (CloseFrame i) ob = chan_close ob"
| "tx_frame _ ob = ob"

lemma table_tx:
  "table_ok t \<Longrightarrow> hm_get (channels t) i = Some r \<Longrightarrow> r < length (objs t) \<and> ch_tx (objs t ! r)"
  using table_ok_ref[of t i r] hm_get_in[of "channels t" i r] by (simp add: table_ok_def)

text \<open>
  The restriction is faithful: on the entry's object the whole handlers do exactly this, and the
  entry survives exactly when the object keeps its sender.
\<close>

lemma handle_obj:
  assumes "table_ok m" "hm_get (channels m) i = Some r" "f = DataFrame i d \<or> f = CloseFrame i"
  shows "objs (handle f p m) ! r = rx_frame f (objs m ! r)"
    and "hm_get (channels (handle f p m)) i = (if ch_tx (rx_frame f (objs m ! r)) then Some r else None)"
  using assms(3) assms(2) table_tx[OF assms(1,2)]
  by (auto simp: demux_data_def remove_chan_def upd_obj_def chan_data_def chan_close_def Let_def
      drop_entry_def inbound_send_def hm_simps split: prod.splits if_splits)

lemma on_frame_obj:
  assumes "table_ok h" "hm_get (channels h) i = Some r" "f = Opened i s m w \<or> f = WindowUpdate i a \<or> f = CloseFrame i"
  shows "objs (snd (on_frame now f h)) ! r = tx_frame f (objs h ! r)"
    and "hm_get (channels (snd (on_frame now f h))) i = (if ch_tx (tx_frame f (objs h ! r)) then Some r else None)"
  using assms(3) assms(2) table_tx[OF assms(1,2)]
  by (auto simp: demux_update_def remove_chan_def upd_obj_def chan_opened_def chan_update_def chan_close_def
      drop_entry_def inbound_send_def hm_simps split: if_splits)

section \<open>The link\<close>

text \<open>
  The state: what was read from the sending socket, the sending half, its object, the frames on
  the wire, the receiving object, the receiving task, what it wrote to its socket, and the frames
  on the way back.
\<close>

record link =
  lk_read :: bytes
  lk_pc :: s2t_pc
  lk_so :: chan_obj
  lk_wire :: "channel_frame list"
  lk_ro :: chan_obj
  lk_phase :: cc_phase
  lk_tpc :: t2s_pc
  lk_pend :: "bytes list"
  lk_written :: bytes
  lk_back :: "channel_frame list"

definition relay_view :: "link \<Rightarrow> t2s_state" where
  "relay_view l = \<lparr>t_pc = lk_tpc l, t_pending = lk_pend l, t_inbox = ch_inbox (lk_ro l),
     t_senders = ch_tx (lk_ro l), t_window = ch_window (lk_ro l)\<rparr>"

definition task_view :: "link \<Rightarrow> cc_state" where
  "task_view l = \<lparr>t_pc = lk_tpc l, t_pending = lk_pend l, t_inbox = ch_inbox (lk_ro l),
     t_senders = ch_tx (lk_ro l), t_window = ch_window (lk_ro l), phase = lk_phase l\<rparr>"

definition put_relay :: "'a t2s_state_scheme \<Rightarrow> link \<Rightarrow> link" where
  "put_relay s l = l\<lparr>lk_tpc := t_pc s, lk_pend := t_pending s,
     lk_ro := (lk_ro l)\<lparr>ch_inbox := t_inbox s, ch_window := t_window s\<rparr>\<rparr>"

text \<open>What a turn of the writing half puts on the socket; an abandoned write may have got part of it out.\<close>

fun writes :: "t2s_event \<Rightarrow> nat \<Rightarrow> t2s_pc \<Rightarrow> bytes" where
  "writes F_Written k (T_Write c) = c"
| "writes F_UpdateFailed k (T_Write c) = c"
| "writes F_WriteFailed k (T_Write c) = take k c"
| "writes F_Cancel k (T_Write c) = take k c"
| "writes _ k _ = []"

fun reads :: "s2t_event \<Rightarrow> bytes" where
  "reads (E_Read got) = got"
| "reads _ = []"

inductive link_step :: "i32 \<Rightarrow> link \<Rightarrow> link \<Rightarrow> bool" for i :: i32 where
  ln_send: "relay_socket_to_tunnel i ev (lk_pc l, ch_credit (lk_so l)) = Some (pc, sc, fs) \<Longrightarrow>
    link_step i l (l\<lparr>lk_pc := pc, lk_so := (lk_so l)\<lparr>ch_credit := sc\<rparr>, lk_wire := lk_wire l @ fs,
                     lk_read := lk_read l @ reads ev\<rparr>)"
| ln_close: "lk_pc l = S_End e \<Longrightarrow> link_step i l (l\<lparr>lk_wire := lk_wire l @ [close_msg i]\<rparr>)"
| ln_deliver: "lk_wire l = f # fs \<Longrightarrow> link_step i l (l\<lparr>lk_wire := fs, lk_ro := rx_frame f (lk_ro l)\<rparr>)"
| ln_connect: "run_controlled_channel i addr rdp ev (task_view l) = Some (s, fs) \<Longrightarrow>
    link_step i l ((put_relay s l)\<lparr>lk_phase := phase s, lk_back := lk_back l @ fs\<rparr>)"
| ln_relay: "lk_phase l = Relaying \<Longrightarrow> relay_tunnel_to_socket i ev (relay_view l) = Some (s, fs) \<Longrightarrow>
    link_step i l ((put_relay s l)\<lparr>lk_written := lk_written l @ writes ev k (lk_tpc l), lk_back := lk_back l @ fs\<rparr>)"
| ln_task_end: "lk_phase l = Returned \<or> lk_tpc l = T_End e \<Longrightarrow>
    link_step i l (l\<lparr>lk_ro := (lk_ro l)\<lparr>ch_rx := False\<rparr>\<rparr>)"
| ln_back: "lk_back l = f # fs \<Longrightarrow> link_step i l (l\<lparr>lk_back := fs, lk_so := tx_frame f (lk_so l)\<rparr>)"
| ln_drop: "link_step i l (l\<lparr>lk_so := drop_entry (lk_so l)\<rparr>)"
| ln_drop_rx: "link_step i l (l\<lparr>lk_ro := drop_entry (lk_ro l)\<rparr>)"

text \<open>
  The two directions. Towards the controlled side the receiver still has to connect and grants
  the initial window only; towards the controller the full window is granted at once and no
  \<open>opened\<close> will come. The objects are those \<open>on_open\<close> and \<open>open\<close> make.
\<close>

definition link_new :: "send_credit \<Rightarrow> recv_window \<Rightarrow> cc_phase \<Rightarrow> bool \<Rightarrow> link" where
  "link_new sc w ph opened =
     \<lparr>lk_read = [], lk_pc = S_Take, lk_so = (chan_new sc (recv_new 0) [] False)\<lparr>ch_opened := opened\<rparr>,
      lk_wire = [], lk_ro = chan_new (credit_new 0) w [] False, lk_phase = ph, lk_tpc = T_Next,
      lk_pend = [], lk_written = [], lk_back = []\<rparr>"

definition link_init :: "link \<Rightarrow> bool" where
  "link_init l \<longleftrightarrow>
     l = link_new (credit_new INITIAL_WINDOW) (recv_new INITIAL_WINDOW) (Connecting 0) False
   \<or> l = link_new (credit_new (effective_window CHANNEL_WINDOW)) (recv_new CHANNEL_WINDOW) Relaying True"

section \<open>Invariants\<close>

fun frame_bytes :: "channel_frame \<Rightarrow> bytes" where
  "frame_bytes (DataFrame i d) = d"
| "frame_bytes _ = []"

fun frame_cost :: "channel_frame \<Rightarrow> nat" where
  "frame_cost (DataFrame i d) = cost (length d)"
| "frame_cost _ = 0"

fun in_bytes :: "inbound \<Rightarrow> bytes" where
  "in_bytes (IData d) = d"
| "in_bytes _ = []"

fun in_cost :: "inbound \<Rightarrow> nat" where
  "in_cost (IData d) = cost (length d)"
| "in_cost _ = 0"

fun pc_bytes :: "s2t_pc \<Rightarrow> bytes" where
  "pc_bytes (S_Send got) = got"
| "pc_bytes _ = []"

fun tpc_bytes :: "t2s_pc \<Rightarrow> bytes" where
  "tpc_bytes (T_Write c) = c"
| "tpc_bytes _ = []"

fun tpc_cost :: "t2s_pc \<Rightarrow> nat" where
  "tpc_cost (T_Write c) = cost (length c)"
| "tpc_cost _ = 0"

fun back_add :: "bool \<Rightarrow> channel_frame \<Rightarrow> nat" where
  "back_add opened (Opened i s m w) = (if s \<and> \<not> opened then unat (effective_window w) - 65536 else 0)"
| "back_add opened (WindowUpdate i a) = unat a"
| "back_add opened _ = 0"

fun says_opened :: "channel_frame \<Rightarrow> bool" where
  "says_opened (Opened i s m w) = s"
| "says_opened _ = False"

abbreviation sumf :: "('x \<Rightarrow> nat) \<Rightarrow> 'x list \<Rightarrow> nat" where
  "sumf f xs \<equiv> sum_list (map f xs)"

abbreviation catf :: "('x \<Rightarrow> bytes) \<Rightarrow> 'x list \<Rightarrow> bytes" where
  "catf f xs \<equiv> concat (map f xs)"

text \<open>
  The receiving task is up; a byte read can still arrive; both ends know the channel.
\<close>

definition task_up :: "link \<Rightarrow> bool" where
  "task_up l \<longleftrightarrow> lk_phase l \<noteq> Returned \<and> (\<forall>e. lk_tpc l \<noteq> T_End e)"

definition flowing :: "link \<Rightarrow> bool" where
  "flowing l \<longleftrightarrow> task_up l \<and> ch_tx (lk_ro l) \<and> (\<forall>e. lk_pc l \<noteq> S_End e)"

definition link_up :: "link \<Rightarrow> bool" where
  "link_up l \<longleftrightarrow> flowing l \<and> ch_rx (lk_ro l) \<and> ch_tx (lk_so l)"

text \<open>The bytes between the two sockets, oldest first, as far as they can still arrive.\<close>

definition pipeline :: "link \<Rightarrow> bytes" where
  "pipeline l = tpc_bytes (lk_tpc l) @ concat (lk_pend l) @ catf in_bytes (ch_inbox (lk_ro l))
     @ (if ch_tx (lk_ro l) then catf frame_bytes (lk_wire l) @ pc_bytes (lk_pc l) else [])"

definition bytes_inv :: "link \<Rightarrow> bool" where
  "bytes_inv l \<longleftrightarrow> prefix (lk_written l) (lk_read l)
     \<and> (task_up l \<longrightarrow> prefix (lk_written l @ pipeline l) (lk_read l))
     \<and> (flowing l \<longrightarrow> lk_written l @ pipeline l = lk_read l)"

definition spent_credit :: "link \<Rightarrow> nat" where
  "spent_credit l = unat (credit (ch_credit (lk_so l))) + held (lk_pc l) + sumf frame_cost (lk_wire l)
     + sumf (back_add (ch_opened (lk_so l))) (lk_back l)"

definition stored_cost :: "link \<Rightarrow> nat" where
  "stored_cost l = tpc_cost (lk_tpc l) + sumf (\<lambda>c. cost (length c)) (lk_pend l) + sumf in_cost (ch_inbox (lk_ro l))"

abbreviation room_of :: "link \<Rightarrow> nat" where "room_of l \<equiv> unat (remaining (ch_window (lk_ro l)))"
abbreviation owed_of :: "link \<Rightarrow> nat" where "owed_of l \<equiv> unat (drained_since_update (ch_window (lk_ro l)))"

definition cap_of :: "cc_phase \<Rightarrow> nat" where
  "cap_of ph = (case ph of Connecting _ \<Rightarrow> 65536 | _ \<Rightarrow> 262144)"

definition credit_inv :: "link \<Rightarrow> bool" where
  "credit_inv l \<longleftrightarrow> s2t_ok (lk_pc l) \<and> spent_credit l \<le> room_of l
     \<and> (link_up l \<longrightarrow> spent_credit l = room_of l)"

definition window_inv :: "link \<Rightarrow> bool" where
  "window_inv l \<longleftrightarrow> room_of l + stored_cost l + owed_of l \<le> cap_of (lk_phase l)
     \<and> (link_up l \<longrightarrow> room_of l + stored_cost l + owed_of l = cap_of (lk_phase l))
     \<and> owed_of l < 131072
     \<and> IViolation \<notin> set (ch_inbox (lk_ro l))
     \<and> (\<forall>n. lk_phase l = Connecting n \<longrightarrow>
          n = sumf (\<lambda>c. cost (length c)) (lk_pend l) \<and> owed_of l = 0 \<and> lk_tpc l = T_Next)"

text \<open>The channel is announced open once, and only by a receiver that connected.\<close>

fun opened_cond :: "cc_phase \<Rightarrow> bool \<Rightarrow> channel_frame list \<Rightarrow> bool" where
  "opened_cond (Connecting n) opened back = (filter says_opened back = [] \<and> \<not> opened)"
| "opened_cond _ opened back = (length (filter says_opened back) + (if opened then 1 else 0) \<le> 1)"

definition opened_inv :: "link \<Rightarrow> bool" where
  "opened_inv l \<longleftrightarrow> opened_cond (lk_phase l) (ch_opened (lk_so l)) (lk_back l)"

definition link_ok :: "link \<Rightarrow> bool" where
  "link_ok l \<longleftrightarrow> bytes_inv l \<and> credit_inv l \<and> window_inv l \<and> opened_inv l"

lemmas up_defs = link_up_def flowing_def task_up_def

subsection \<open>The sending half\<close>

lemma frame_cost_alt: "frame_cost = (\<lambda>f. case f of DataFrame _ d \<Rightarrow> cost (length d) | _ \<Rightarrow> 0)"
  by (rule ext) (simp split: channel_frame.split)

lemma relay_bytes:
  assumes "relay_socket_to_tunnel i ev (pc, sc) = Some (pc', sc', fs)"
  shows "prefix (catf frame_bytes fs @ pc_bytes pc') (pc_bytes pc @ reads ev)
    \<and> ((\<forall>e. pc' \<noteq> S_End e) \<longrightarrow> catf frame_bytes fs @ pc_bytes pc' = pc_bytes pc @ reads ev)
    \<and> (\<forall>e. pc \<noteq> S_End e)"
  using assms by (cases "(i, ev, (pc, sc))" rule: relay_socket_to_tunnel.cases)
    (auto simp: Let_def data_msg_def split: option.splits if_splits)

lemma send_failed_conserves:
  "relay_socket_to_tunnel i E_SendFailed (pc, sc) = Some (pc', sc', fs) \<Longrightarrow> sc' = sc \<and> held pc' = 0 \<and> fs = [] \<and> s2t_ok pc' \<and> (\<exists>e. pc' = S_End e)"
  by (cases pc) auto

lemma bytes_inv_send:
  assumes inv: "bytes_inv l"
    and step: "relay_socket_to_tunnel i ev (lk_pc l, ch_credit (lk_so l)) = Some (pc, sc, fs)"
  shows "bytes_inv (l\<lparr>lk_pc := pc, lk_so := (lk_so l)\<lparr>ch_credit := sc\<rparr>, lk_wire := lk_wire l @ fs,
                     lk_read := lk_read l @ reads ev\<rparr>)" (is "bytes_inv ?l")
proof -
  note b = relay_bytes[OF step]
  define P where "P = tpc_bytes (lk_tpc l) @ concat (lk_pend l) @ catf in_bytes (ch_inbox (lk_ro l))
      @ (if ch_tx (lk_ro l) then catf frame_bytes (lk_wire l) else [])"
  have pl: "pipeline l = P @ (if ch_tx (lk_ro l) then pc_bytes (lk_pc l) else [])"
    "pipeline ?l = P @ (if ch_tx (lk_ro l) then catf frame_bytes fs @ pc_bytes pc else [])"
    by (simp_all add: pipeline_def P_def)
  have fl: "flowing l" if "task_up l" "ch_tx (lk_ro l)" using that b by (simp add: flowing_def)
  have eq: "lk_read l @ reads ev = lk_written l @ P @ (pc_bytes (lk_pc l) @ reads ev)"
    if "task_up l" "ch_tx (lk_ro l)"
    using inv fl[OF that] pl that by (auto simp: bytes_inv_def)
  have "prefix (lk_written l @ pipeline ?l) (lk_read l @ reads ev)" if "task_up l"
  proof (cases "ch_tx (lk_ro l)")
    case True
    then show ?thesis using eq[OF that True] b pl by simp
  next
    case False
    then show ?thesis using inv that pl by (simp add: bytes_inv_def)
  qed
  moreover have "lk_written l @ pipeline ?l = lk_read l @ reads ev" if "flowing ?l"
    using eq that b pl by (simp add: flowing_def task_up_def)
  ultimately show ?thesis using inv by (simp add: bytes_inv_def task_up_def)
qed

lemma link_ok_send:
  assumes ok: "link_ok l"
    and step: "relay_socket_to_tunnel i ev (lk_pc l, ch_credit (lk_so l)) = Some (pc, sc, fs)"
  shows "link_ok (l\<lparr>lk_pc := pc, lk_so := (lk_so l)\<lparr>ch_credit := sc\<rparr>, lk_wire := lk_wire l @ fs,
                     lk_read := lk_read l @ reads ev\<rparr>)" (is "link_ok ?l")
proof -
  have le: "unat (credit (ch_credit (lk_so l))) + held (lk_pc l) \<le> 262144"
    using ok by (auto simp: link_ok_def credit_inv_def window_inv_def spent_credit_def cap_of_def
        split: cc_phase.splits)
  have up: "link_up ?l \<Longrightarrow> link_up l" using relay_bytes[OF step] by (auto simp: up_defs)
  have "credit_inv ?l"
  proof (cases "ev = E_SendFailed")
    case True
    with step have sf: "sc = ch_credit (lk_so l)" "held pc = 0" "fs = []" "s2t_ok pc" "\<exists>e. pc = S_End e"
      using send_failed_conserves by blast+
    then have "\<not> link_up ?l" by (auto simp: up_defs)
    then show ?thesis using ok sf by (simp add: link_ok_def credit_inv_def spent_credit_def)
  next
    case False
    have c: "s2t_ok pc \<and> unat (credit sc) + held pc + sumf frame_cost fs
        = unat (credit (ch_credit (lk_so l))) + held (lk_pc l)"
      using relay_socket_to_tunnel_conserves[OF step False _ le] ok
      by (simp add: frame_cost_alt link_ok_def credit_inv_def)
    then have "spent_credit ?l = spent_credit l" by (simp add: spent_credit_def)
    then show ?thesis using ok up c by (simp add: link_ok_def credit_inv_def)
  qed
  then show ?thesis
    using ok up bytes_inv_send[OF _ step]
    by (simp add: link_ok_def window_inv_def opened_inv_def stored_cost_def)
qed

lemma link_ok_close:
  assumes "link_ok l" "lk_pc l = S_End e"
  shows "link_ok (l\<lparr>lk_wire := lk_wire l @ [close_msg i]\<rparr>)" (is "link_ok ?l")
proof -
  have "\<not> flowing ?l" "pipeline ?l = pipeline l" "spent_credit ?l = spent_credit l"
    using assms(2) by (simp_all add: flowing_def pipeline_def spent_credit_def close_msg_def)
  then show ?thesis
    using assms by (simp add: link_ok_def bytes_inv_def credit_inv_def window_inv_def opened_inv_def
        stored_cost_def link_up_def task_up_def)
qed

subsection \<open>The receiving demultiplexer\<close>

text \<open>The head of the wire fits the window: what was spent never exceeds the room.\<close>

lemma wire_head_fits:
  assumes "credit_inv l" "lk_wire l = DataFrame j d # fs"
  shows "cost (length d) \<le> room_of l"
  using assms by (simp add: credit_inv_def spent_credit_def)

lemma accept_fits:
  assumes "cost n \<le> unat (remaining w)"
  obtains w' where "accept n w = (True, w')" "unat (remaining w') = unat (remaining w) - cost n"
    "drained_since_update w' = drained_since_update w"
  using assms fc.accept_ok[of n w] fc.accept_room[of n w]
  by (cases "accept n w") (auto simp: accept_def split: option.splits)

lemma link_ok_data:
  assumes ok: "link_ok l" and w: "lk_wire l = DataFrame j d # fs" and tx: "ch_tx (lk_ro l)"
  shows "link_ok (l\<lparr>lk_wire := fs, lk_ro := chan_data d (lk_ro l)\<rparr>)" (is "link_ok ?l")
proof -
  have fits: "cost (length d) \<le> room_of l" using wire_head_fits[OF _ w] ok by (simp add: link_ok_def)
  obtain w' where w': "accept (length d) (ch_window (lk_ro l)) = (True, w')"
    "unat (remaining w') = room_of l - cost (length d)"
    "drained_since_update w' = drained_since_update (ch_window (lk_ro l))"
    using accept_fits[OF fits] .
  define ro where "ro = (lk_ro l)\<lparr>ch_window := w'\<rparr>"
  have d: "chan_data d (lk_ro l) = (if ch_rx (lk_ro l) then inbound_send (IData d) ro else drop_entry ro)"
    using tx w'(1) by (simp add: chan_data_def ro_def)
  show ?thesis
  proof (cases "ch_rx (lk_ro l)")
    case True
    then have l: "?l = l\<lparr>lk_wire := fs, lk_ro := ro\<lparr>ch_inbox := ch_inbox (lk_ro l) @ [IData d]\<rparr>\<rparr>"
      using d by (simp add: inbound_send_def ro_def)
    have same: "pipeline ?l = pipeline l" "spent_credit ?l + cost (length d) = spent_credit l"
      "stored_cost ?l = stored_cost l + cost (length d)" "room_of ?l = room_of l - cost (length d)"
      "owed_of ?l = owed_of l" "link_up ?l = link_up l" "flowing ?l = flowing l" "task_up ?l = task_up l"
      unfolding l using tx w w' by (simp_all add: pipeline_def ro_def spent_credit_def stored_cost_def up_defs)
    show ?thesis using ok fits same unfolding link_ok_def bytes_inv_def credit_inv_def window_inv_def opened_inv_def
      by (auto simp: d True ro_def inbound_send_def)
  next
    case False
    then have l: "?l = l\<lparr>lk_wire := fs, lk_ro := ro\<lparr>ch_tx := False\<rparr>\<rparr>" using d by (simp add: drop_entry_def)
    have pl: "prefix (pipeline ?l) (pipeline l)" using tx unfolding l by (simp add: pipeline_def ro_def)
    have same: "spent_credit ?l + cost (length d) = spent_credit l" "stored_cost ?l = stored_cost l"
      "room_of ?l = room_of l - cost (length d)" "owed_of ?l = owed_of l" "task_up ?l = task_up l"
      "\<not> flowing ?l" "\<not> link_up ?l"
      unfolding l using w w' by (simp_all add: ro_def spent_credit_def stored_cost_def up_defs)
    have "task_up l \<Longrightarrow> prefix (lk_written l @ pipeline ?l) (lk_read l)"
      using ok pl prefix_order.trans[of "lk_written l @ pipeline ?l" "lk_written l @ pipeline l"]
      by (simp add: link_ok_def bytes_inv_def)
    then show ?thesis using ok fits same unfolding link_ok_def bytes_inv_def credit_inv_def window_inv_def opened_inv_def
      by (auto simp: d False ro_def drop_entry_def)
  qed
qed

text \<open>Losing the receiver's entry, with or without a farewell in its queue, costs only what is still on the wire.\<close>

lemma link_ok_entry_gone:
  assumes ok: "link_ok l" and ws: "sumf frame_cost ws \<le> sumf frame_cost (lk_wire l)"
    and xs: "xs = [] \<or> xs = [IClose]"
  shows "link_ok (l\<lparr>lk_wire := ws, lk_ro := (lk_ro l)\<lparr>ch_tx := False, ch_inbox := ch_inbox (lk_ro l) @ xs\<rparr>\<rparr>)"
    (is "link_ok ?l")
proof -
  have pl: "prefix (pipeline ?l) (pipeline l)" using xs by (auto simp: pipeline_def)
  have same: "spent_credit ?l \<le> spent_credit l" "stored_cost ?l = stored_cost l"
    "room_of ?l = room_of l" "owed_of ?l = owed_of l" "task_up ?l = task_up l" "\<not> flowing ?l" "\<not> link_up ?l"
    using ws xs by (auto simp: spent_credit_def stored_cost_def up_defs)
  have "task_up l \<Longrightarrow> prefix (lk_written l @ pipeline ?l) (lk_read l)"
    using ok pl prefix_order.trans[of "lk_written l @ pipeline ?l" "lk_written l @ pipeline l"]
    by (simp add: link_ok_def bytes_inv_def)
  then show ?thesis using ok same xs unfolding link_ok_def bytes_inv_def credit_inv_def window_inv_def opened_inv_def
    by auto
qed

lemma link_ok_wire_skip:
  assumes ok: "link_ok l" and w: "lk_wire l = f # fs" and f: "\<not> ch_tx (lk_ro l) \<or> frame_bytes f = [] \<and> frame_cost f = 0"
  shows "link_ok (l\<lparr>lk_wire := fs\<rparr>)" (is "link_ok ?l")
proof -
  have "pipeline ?l = pipeline l" "link_up ?l = link_up l" "flowing ?l = flowing l" "task_up ?l = task_up l"
    using w f by (auto simp: pipeline_def up_defs)
  moreover have "spent_credit ?l \<le> spent_credit l" "link_up l \<Longrightarrow> spent_credit ?l = spent_credit l"
    using w f by (auto simp: spent_credit_def up_defs)
  ultimately show ?thesis using ok
    unfolding link_ok_def bytes_inv_def credit_inv_def window_inv_def opened_inv_def stored_cost_def by auto
qed

lemma link_ok_deliver:
  assumes ok: "link_ok l" and w: "lk_wire l = f # fs"
  shows "link_ok (l\<lparr>lk_wire := fs, lk_ro := rx_frame f (lk_ro l)\<rparr>)"
proof (cases "ch_tx (lk_ro l)")
  case False
  then have "rx_frame f (lk_ro l) = lk_ro l" by (cases f) (simp_all add: chan_data_def chan_close_def)
  then show ?thesis using link_ok_wire_skip[OF ok w] False by (simp add: link.update_convs)
next
  case True
  show ?thesis
  proof (cases f)
    case (CloseFrame j)
    have "rx_frame f (lk_ro l) = (lk_ro l)\<lparr>ch_tx := False,
        ch_inbox := ch_inbox (lk_ro l) @ (if ch_rx (lk_ro l) then [IClose] else [])\<rparr>"
      using True CloseFrame by (simp add: chan_close_def drop_entry_def inbound_send_def)
    then show ?thesis using link_ok_entry_gone[OF ok, of fs] w by simp
  qed (use link_ok_data[OF ok _ True] link_ok_wire_skip[OF ok w] w in simp_all)
qed

subsection \<open>The receiving task\<close>

text \<open>Once the task is down only the bounds are left to show.\<close>

lemma link_ok_down:
  assumes "link_ok l" "\<not> task_up l'" "prefix (lk_written l') (lk_read l')"
    and "lk_pc l' = lk_pc l" "spent_credit l' \<le> room_of l'"
    and "room_of l' + stored_cost l' + owed_of l' \<le> 262144" "owed_of l' < 131072"
    and "set (ch_inbox (lk_ro l')) \<subseteq> set (ch_inbox (lk_ro l))"
    and "\<forall>n. lk_phase l' \<noteq> Connecting n" "opened_inv l'"
  shows "link_ok l'"
proof -
  have "cap_of (lk_phase l') = 262144" using assms(9) by (cases "lk_phase l'") (simp_all add: cap_of_def)
  moreover have "\<not> flowing l'" "\<not> link_up l'" using assms(2) by (simp_all add: flowing_def link_up_def)
  moreover have "s2t_ok (lk_pc l')" "IViolation \<notin> set (ch_inbox (lk_ro l'))"
    using assms(1,4,8) by (auto simp: link_ok_def credit_inv_def window_inv_def)
  ultimately show ?thesis
    using assms(2,3,5,6,7,9,10) by (simp add: link_ok_def bytes_inv_def credit_inv_def window_inv_def)
qed

lemma link_okD:
  assumes "link_ok l"
  shows "prefix (lk_written l) (lk_read l)" "task_up l \<Longrightarrow> prefix (lk_written l @ pipeline l) (lk_read l)"
    "flowing l \<Longrightarrow> lk_written l @ pipeline l = lk_read l" "s2t_ok (lk_pc l)" "spent_credit l \<le> room_of l"
    "link_up l \<Longrightarrow> spent_credit l = room_of l" "room_of l + stored_cost l + owed_of l \<le> cap_of (lk_phase l)"
    "link_up l \<Longrightarrow> room_of l + stored_cost l + owed_of l = cap_of (lk_phase l)" "owed_of l < 131072"
    "IViolation \<notin> set (ch_inbox (lk_ro l))" "opened_inv l"
    "lk_phase l = Connecting n \<Longrightarrow> n = sumf (\<lambda>c. cost (length c)) (lk_pend l) \<and> owed_of l = 0 \<and> lk_tpc l = T_Next"
  using assms by (simp_all add: link_ok_def bytes_inv_def credit_inv_def window_inv_def)

lemma writing_prefix:
  assumes "link_ok l" "task_up l"
  shows "prefix (lk_written l @ tpc_bytes (lk_tpc l)) (lk_read l)"
  using link_okD(2)[OF assms] append_prefixD[of "lk_written l @ tpc_bytes (lk_tpc l)"]
  by (simp add: pipeline_def)

lemma cap_of_le: "cap_of ph \<le> 262144"
  by (simp add: cap_of_def split: cc_phase.split)

text \<open>Turns that only move bytes between the receiver's own stations keep everything.\<close>

lemma link_ok_move:
  assumes ok: "link_ok l" and "lk_written l' = lk_written l" "lk_read l' = lk_read l" "lk_pc l' = lk_pc l"
    and "lk_wire l' = lk_wire l" "lk_so l' = lk_so l" "lk_back l' = lk_back l"
    and ro: "lk_ro l' = (lk_ro l)\<lparr>ch_inbox := q\<rparr>" "set q \<subseteq> set (ch_inbox (lk_ro l))"
    and pl: "pipeline l' = pipeline l" and st: "stored_cost l' = stored_cost l"
    and up: "task_up l" "task_up l'" and cap: "cap_of (lk_phase l') = cap_of (lk_phase l)"
    and con: "\<forall>n. lk_phase l' = Connecting n \<longrightarrow>
      n = sumf (\<lambda>c. cost (length c)) (lk_pend l') \<and> owed_of l = 0 \<and> lk_tpc l' = T_Next"
    and op: "opened_inv l'"
  shows "link_ok l'"
proof -
  have "flowing l' = flowing l" "link_up l' = link_up l"
    using assms by (auto simp: flowing_def link_up_def)
  moreover have "spent_credit l' = spent_credit l" using assms by (simp add: spent_credit_def)
  ultimately show ?thesis
    using link_okD(1-10)[OF ok] assms unfolding link_ok_def bytes_inv_def credit_inv_def window_inv_def
    by auto
qed

lemma sumf_ge: "x \<in> set xs \<Longrightarrow> f x \<le> sumf f xs"
  by (simp add: member_le_sum_list)

text \<open>While connecting, what is buffered always fits: the peer was granted the initial window only.\<close>

lemma pending_fits_inv:
  assumes "link_ok l" "lk_phase l = Connecting n" "ch_inbox (lk_ro l) = IData b # q"
  shows "pending_fits n (length b)"
  using link_okD(7,12)[OF assms(1)] assms(2,3)
  by (auto simp: pending_fits_def stored_cost_def cap_of_def cost_def)

lemma link_ok_buffer:
  assumes ok: "link_ok l" and ph: "lk_phase l = Connecting n" and ib: "ch_inbox (lk_ro l) = IData b # q"
  shows "link_ok (l\<lparr>lk_pend := lk_pend l @ [b], lk_ro := (lk_ro l)\<lparr>ch_inbox := q\<rparr>,
           lk_phase := Connecting (n + cost (length b))\<rparr>)" (is "link_ok ?l")
proof (rule link_ok_move[OF ok])
  show "opened_inv ?l" using link_okD(11)[OF ok] ph by (simp add: opened_inv_def)
qed (use ph ib link_okD(12)[OF ok ph] in
    \<open>auto simp: pipeline_def stored_cost_def cap_of_def task_up_def\<close>)

lemma connect_window:
  assumes ok: "link_ok l" and ph: "lk_phase l = Connecting n"
  shows "unat (remaining (grant (CHANNEL_WINDOW - INITIAL_WINDOW) (ch_window (lk_ro l)))) = room_of l + 196608"
    "drained_since_update (grant (CHANNEL_WINDOW - INITIAL_WINDOW) (ch_window (lk_ro l))) = drained_since_update (ch_window (lk_ro l))"
proof -
  have "room_of l \<le> 65536" using link_okD(7)[OF ok] ph by (simp add: cap_of_def)
  moreover have "unat (CHANNEL_WINDOW - INITIAL_WINDOW) = 196608" by (simp add: window_constants)
  ultimately show "unat (remaining (grant (CHANNEL_WINDOW - INITIAL_WINDOW) (ch_window (lk_ro l)))) = room_of l + 196608"
    by (simp add: grant_def width_simps)
qed (simp add: grant_def)

lemma link_ok_connected:
  assumes ok: "link_ok l" and ph: "lk_phase l = Connecting n" and q: "q = ch_inbox (lk_ro l)"
  shows "link_ok (l\<lparr>lk_tpc := T_Next, lk_ro := (lk_ro l)\<lparr>ch_inbox := q, ch_window := grant (CHANNEL_WINDOW - INITIAL_WINDOW) (ch_window (lk_ro l))\<rparr>,
     lk_phase := Relaying, lk_back := lk_back l @ [opened_msg i True [] CHANNEL_WINDOW]\<rparr>)" (is "link_ok ?l")
proof -
  note c = link_okD(12)[OF ok ph] and w = connect_window[OF ok ph]
  have o: "filter says_opened (lk_back l) = []" "\<not> ch_opened (lk_so l)"
    using link_okD(11)[OF ok] ph by (simp_all add: opened_inv_def)
  have same: "pipeline ?l = pipeline l" "stored_cost ?l = stored_cost l" "room_of ?l = room_of l + 196608"
    "owed_of ?l = owed_of l" "link_up ?l = link_up l" "flowing ?l = flowing l" "task_up ?l = task_up l"
    using c w ph by (auto simp: pipeline_def stored_cost_def up_defs q)
  have "spent_credit ?l = spent_credit l + 196608"
    using o by (simp add: spent_credit_def opened_msg_def width_simps)
  then show ?thesis
    using link_okD(1-10)[OF ok] same o ph
    by (auto simp: link_ok_def bytes_inv_def credit_inv_def window_inv_def opened_inv_def opened_msg_def cap_of_def q)
qed

text \<open>Every way the task returns while connecting.\<close>

lemma link_ok_returned:
  assumes ok: "link_ok l" and ph: "lk_phase l = Connecting n"
    and w: "unat (remaining w) = room_of l \<or> unat (remaining w) = room_of l + 196608"
      "drained_since_update w = drained_since_update (ch_window (lk_ro l))"
    and q: "set q \<subseteq> set (ch_inbox (lk_ro l))" "sumf in_cost q \<le> sumf in_cost (ch_inbox (lk_ro l))"
    and fs: "fs = [] \<or> fs = [close_msg i] \<or> fs = [opened_msg i False m 0]"
  shows "link_ok (l\<lparr>lk_ro := (lk_ro l)\<lparr>ch_inbox := q, ch_window := w\<rparr>, lk_phase := Returned, lk_back := lk_back l @ fs\<rparr>)"
    (is "link_ok ?l")
proof (rule link_ok_down[OF ok])
  note c = link_okD[OF ok] and o = link_okD(11)[OF ok, unfolded opened_inv_def ph opened_cond.simps]
  have sp: "spent_credit ?l = spent_credit l"
    using fs by (auto simp: spent_credit_def close_msg_def opened_msg_def)
  show "spent_credit ?l \<le> room_of ?l" using sp w c(5) by auto
  have "room_of l + stored_cost l + owed_of l \<le> 65536" using c(7) ph by (simp add: cap_of_def)
  moreover have "stored_cost ?l \<le> stored_cost l" using q by (simp add: stored_cost_def)
  ultimately show "room_of ?l + stored_cost ?l + owed_of ?l \<le> 262144" using w by auto
  show "opened_inv ?l" using o fs by (auto simp: opened_inv_def close_msg_def opened_msg_def)
qed (use ok w q link_okD(1,9)[OF ok] in \<open>simp_all add: task_up_def\<close>)

lemma link_ok_connect:
  assumes ok: "link_ok l" and step: "run_controlled_channel i addr rdp ev (task_view l) = Some (s, fs)"
  shows "link_ok ((put_relay s l)\<lparr>lk_phase := phase s, lk_back := lk_back l @ fs\<rparr>)"
proof -
  obtain n where ph: "lk_phase l = Connecting n"
    using step by (cases "lk_phase l") (auto simp: run_controlled_channel_def task_view_def)
  note c = link_okD[OF ok] and ret = link_ok_returned[OF ok ph] and win = connect_window[OF ok ph]
  have same: "(lk_ro l)\<lparr>ch_inbox := ch_inbox (lk_ro l), ch_window := w\<rparr> = (lk_ro l)\<lparr>ch_window := w\<rparr>" for w by simp
  show ?thesis
  proof (cases ev)
    case G_Command
    show ?thesis
    proof (cases "ch_inbox (lk_ro l)")
      case Nil
      then show ?thesis
        using step ph G_Command ret[of "ch_window (lk_ro l)" "[]" "[]"]
        by (auto simp: run_controlled_channel_def task_view_def put_relay_def split: if_splits)
    next
      case (Cons x q)
      have q: "set q \<subseteq> set (ch_inbox (lk_ro l))" "sumf in_cost q \<le> sumf in_cost (ch_inbox (lk_ro l))"
        using Cons by auto
      show ?thesis
      proof (cases x)
        case (IData b)
        then show ?thesis
          using step ph G_Command Cons pending_fits_inv[OF ok ph, of b q] link_ok_buffer[OF ok ph, of b q]
          by (auto simp: run_controlled_channel_def task_view_def put_relay_def cost_def)
      next
        case IClose
        then show ?thesis
          using step ph G_Command Cons ret[of "ch_window (lk_ro l)" q "[]"] q
          by (auto simp: run_controlled_channel_def task_view_def put_relay_def)
      next
        case IViolation
        then show ?thesis using c(10) Cons by simp
      qed
    qed
  next
    case G_Connected
    then show ?thesis
      using step ph link_ok_connected[OF ok ph, of "[]" i]
      by (auto simp: run_controlled_channel_def task_view_def put_relay_def split: if_splits)
  next
    case G_ConnectFailed
    then show ?thesis
      using step ph ret[of "ch_window (lk_ro l)" "[]" "[opened_msg i False (unreachable_message addr rdp) 0]" i "unreachable_message addr rdp"]
      by (auto simp: run_controlled_channel_def task_view_def put_relay_def split: if_splits)
  next
    case G_OpenedLost
    then show ?thesis
      using step ph ret[of "grant (CHANNEL_WINDOW - INITIAL_WINDOW) (ch_window (lk_ro l))" "[]" "[]"] win
      by (auto simp: run_controlled_channel_def task_view_def put_relay_def split: if_splits)
  qed
qed

text \<open>The relay, turn by turn.\<close>

lemma link_ok_next:
  assumes ok: "link_ok l" and ph: "lk_phase l = Relaying"
    and step: "relay_tunnel_to_socket i F_Next (relay_view l) = Some (s, fs)"
  shows "link_ok (put_relay s l) \<and> fs = []"
proof -
  have pc: "lk_tpc l = T_Next" using step by (auto simp: relay_view_def split: if_splits)
  note c = link_okD[OF ok] and [simp] = relay_view_def put_relay_def ph pc
  have op: "opened_inv (put_relay s l)" using c(11) by (simp add: opened_inv_def)
  have down: "link_ok (put_relay s l)"
    if "s = (relay_view l)\<lparr>t_pc := T_End e, t_inbox := q\<rparr>" "set q \<subseteq> set (ch_inbox (lk_ro l))"
      "sumf in_cost q \<le> sumf in_cost (ch_inbox (lk_ro l))" for e q
  proof (rule link_ok_down[OF ok])
    have "spent_credit (put_relay s l) = spent_credit l" "stored_cost (put_relay s l) \<le> stored_cost l"
      using that by (simp_all add: spent_credit_def stored_cost_def)
    then show "spent_credit (put_relay s l) \<le> room_of (put_relay s l)"
      "room_of (put_relay s l) + stored_cost (put_relay s l) + owed_of (put_relay s l) \<le> 262144"
      using that c(5,7) by (simp_all add: cap_of_def)
  qed (use that op c(1,9) in \<open>simp_all add: task_up_def\<close>)
  show ?thesis
  proof (cases "lk_pend l")
    case (Cons d ds)
    then have s: "s = (relay_view l)\<lparr>t_pc := T_Write d, t_pending := ds\<rparr>" "fs = []" using step by simp_all
    have "link_ok (put_relay s l)"
      by (rule link_ok_move[OF ok, where q = "ch_inbox (lk_ro l)"])
        (use s op Cons in \<open>simp_all add: pipeline_def stored_cost_def task_up_def\<close>)
    then show ?thesis using s by simp
  next
    case Nil
    show ?thesis
    proof (cases "ch_inbox (lk_ro l)")
      case Nil': Nil
      have same: "relay_view l\<lparr>t_pc := T_End e\<rparr> = relay_view l\<lparr>t_pc := T_End e, t_inbox := []\<rparr>" for e
        using Nil' by simp
      from Nil Nil' step have "s = relay_view l\<lparr>t_pc := T_End TunnelGone, t_inbox := []\<rparr>" "fs = []"
        by (simp_all split: if_splits)
      then show ?thesis using down[of "[]" TunnelGone] by simp
    next
      case (Cons x q)
      show ?thesis
      proof (cases x)
        case (IData d)
        then have s: "s = (relay_view l)\<lparr>t_pc := T_Write d, t_inbox := q\<rparr>" "fs = []" using step Nil Cons by simp_all
        have "link_ok (put_relay s l)"
          by (rule link_ok_move[OF ok, where q = q])
            (use s op Cons IData Nil in \<open>auto simp: pipeline_def stored_cost_def task_up_def\<close>)
        then show ?thesis using s by simp
      next
        case IClose
        then have "s = (relay_view l)\<lparr>t_pc := T_End PeerClosed, t_inbox := q\<rparr>" "fs = []" using step Nil Cons by simp_all
        then show ?thesis using down[of q PeerClosed] Cons by fastforce
      qed (use c(10) Cons in simp)
    qed
  qed
qed

lemma link_ok_written:
  assumes ok: "link_ok l" and ph: "lk_phase l = Relaying" and pc: "lk_tpc l = T_Write d"
    and dr: "drained (length d) (ch_window (lk_ro l)) = (u, w)"
    and q: "q = ch_inbox (lk_ro l)"
  shows "link_ok (l\<lparr>lk_tpc := T_Next, lk_ro := (lk_ro l)\<lparr>ch_inbox := q, ch_window := w\<rparr>,
      lk_written := lk_written l @ d,
      lk_back := lk_back l @ (case u of Some a \<Rightarrow> [window_update_msg i a] | None \<Rightarrow> [])\<rparr>)"
    (is "link_ok ?l")
proof -
  note c = link_okD[OF ok]
  have lim: "room_of l + owed_of l + cost (length d) \<le> 262144"
    using c(7) ph pc by (simp add: cap_of_def stored_cost_def)
  note dc = fc.drained_conserves[OF dr lim]
  have same: "stored_cost ?l + cost (length d) = stored_cost l" "link_up ?l = link_up l"
    "flowing ?l = flowing l" "task_up ?l = task_up l" "lk_written ?l @ pipeline ?l = lk_written l @ pipeline l"
    using pc q by (auto simp: stored_cost_def up_defs pipeline_def)
  have sp: "spent_credit ?l = spent_credit l + (case u of None \<Rightarrow> 0 | Some a \<Rightarrow> unat a)"
    by (simp add: spent_credit_def window_update_msg_def split: option.split)
  have tu: "task_up l" using ph pc by (simp add: task_up_def)
  then have "prefix (lk_written l @ d) (lk_read l)" using writing_prefix[OF ok] pc by simp
  moreover have "opened_inv ?l" using c(11) by (auto simp: opened_inv_def ph window_update_msg_def split: option.splits)
  ultimately show ?thesis
    using c(2-10) same sp dc tu ph q
    by (auto simp: link_ok_def bytes_inv_def credit_inv_def window_inv_def)
qed

lemma link_ok_stopped:
  assumes ok: "link_ok l" and ph: "lk_phase l = Relaying"
    and w: "prefix wr (lk_written l @ tpc_bytes (lk_tpc l))" "task_up l"
    and win: "win = ch_window (lk_ro l) \<or>
      (\<exists>d a. lk_tpc l = T_Write d \<and> drained (length d) (ch_window (lk_ro l)) = (Some a, win))"
  shows "link_ok (l\<lparr>lk_tpc := T_End e, lk_ro := (lk_ro l)\<lparr>ch_inbox := ch_inbox (lk_ro l), ch_window := win\<rparr>, lk_written := wr\<rparr>)"
    (is "link_ok ?l")
proof (rule link_ok_down[OF ok])
  note c = link_okD[OF ok]
  have sp: "spent_credit ?l = spent_credit l" by (simp add: spent_credit_def)
  have st: "stored_cost ?l + tpc_cost (lk_tpc l) = stored_cost l" by (simp add: stored_cost_def)
  have bound: "room_of ?l + stored_cost ?l + owed_of ?l \<le> 262144 \<and> owed_of ?l < 131072 \<and> room_of l \<le> room_of ?l"
    using win
  proof
    assume "win = ch_window (lk_ro l)"
    then show ?thesis using c(7,9) st ph by (simp add: cap_of_def)
  next
    assume "\<exists>d a. lk_tpc l = T_Write d \<and> drained (length d) (ch_window (lk_ro l)) = (Some a, win)"
    then obtain d a where d: "lk_tpc l = T_Write d" "drained (length d) (ch_window (lk_ro l)) = (Some a, win)" by blast
    have lim: "room_of l + owed_of l + cost (length d) \<le> 262144"
      using c(7) ph d(1) by (simp add: cap_of_def stored_cost_def)
    show ?thesis using fc.drained_conserves[OF d(2) lim] c(7) st d(1) ph by (auto simp: cap_of_def)
  qed
  then show "spent_credit ?l \<le> room_of ?l" "room_of ?l + stored_cost ?l + owed_of ?l \<le> 262144" "owed_of ?l < 131072"
    using sp c(5) by simp_all
  show "prefix (lk_written ?l) (lk_read ?l)"
    using w(1) writing_prefix[OF ok w(2)] prefix_order.trans by auto
qed (use link_okD(11)[OF ok] ph in \<open>simp_all add: task_up_def opened_inv_def\<close>)

lemma link_ok_relay:
  assumes ok: "link_ok l" and ph: "lk_phase l = Relaying"
    and step: "relay_tunnel_to_socket i ev (relay_view l) = Some (s, fs)"
  shows "link_ok ((put_relay s l)\<lparr>lk_written := lk_written l @ writes ev k (lk_tpc l), lk_back := lk_back l @ fs\<rparr>)"
proof (cases "ev = F_Next")
  case True
  have "(put_relay s l)\<lparr>lk_written := lk_written l @ writes ev k (lk_tpc l), lk_back := lk_back l @ fs\<rparr> = put_relay s l"
    using link_ok_next[OF ok ph] step True by (simp add: put_relay_def)
  then show ?thesis using link_ok_next[OF ok ph] step True by simp
next
  case False
  have stop: "link_ok (l\<lparr>lk_tpc := T_End e, lk_ro := (lk_ro l)\<lparr>ch_window := win\<rparr>,
      lk_written := lk_written l @ v\<rparr>)"
    if "prefix v (tpc_bytes (lk_tpc l))" "\<forall>e. lk_tpc l \<noteq> T_End e" "win = ch_window (lk_ro l) \<or>
      (\<exists>d a. lk_tpc l = T_Write d \<and> drained (length d) (ch_window (lk_ro l)) = (Some a, win))" for e v win
    using link_ok_stopped[OF ok ph, of "lk_written l @ v" win e] that ph by (simp add: task_up_def)
  show ?thesis
  proof (cases "lk_tpc l")
    case T_Next
    have st: "link_ok (l\<lparr>lk_tpc := T_End Cancelled\<rparr>)"
      using T_Next stop[of "[]" "ch_window (lk_ro l)" Cancelled] by simp
    have "l\<lparr>lk_tpc := T_End Cancelled, lk_pend := []\<rparr> = l\<lparr>lk_tpc := T_End Cancelled\<rparr>" if "lk_pend l = []"
      using that by (cases l) simp
    then have "link_ok (l\<lparr>lk_tpc := T_End Cancelled, lk_pend := []\<rparr>)" if "lk_pend l = []"
      by (rule ssubst) (use that st in simp_all)
    then show ?thesis using step False T_Next ph
      by (cases ev) (auto simp: relay_view_def put_relay_def split: if_splits)
  next
    case (T_Write d)
    obtain u w where dr: "drained (length d) (ch_window (lk_ro l)) = (u, w)" by fastforce
    note wr = link_ok_written[OF ok ph T_Write dr refl, of i]
    show ?thesis
    proof (cases ev)
      case F_Written
      then show ?thesis using step T_Write dr wr
        by (auto simp: relay_view_def put_relay_def split: option.splits)
    next
      case F_UpdateFailed
      then show ?thesis using step T_Write dr stop[of d w TunnelGone]
        by (auto simp: relay_view_def put_relay_def split: option.splits)
    next
      case F_WriteFailed
      then show ?thesis using step T_Write stop[of "take k d" "ch_window (lk_ro l)" LocalEof]
        by (auto simp: relay_view_def put_relay_def take_is_prefix)
    next
      case F_Cancel
      then show ?thesis using step T_Write stop[of "take k d" "ch_window (lk_ro l)" Cancelled]
        by (auto simp: relay_view_def put_relay_def take_is_prefix)
    qed (use False in simp)
  next
    case (T_End e)
    then show ?thesis using step False by (cases ev) (auto simp: relay_view_def)
  qed
qed

lemma link_ok_task_end:
  assumes "link_ok l" "lk_phase l = Returned \<or> lk_tpc l = T_End e"
  shows "link_ok (l\<lparr>lk_ro := (lk_ro l)\<lparr>ch_rx := False\<rparr>\<rparr>)" (is "link_ok ?l")
proof -
  have "\<not> task_up l" "\<not> task_up ?l" using assms(2) by (auto simp: task_up_def)
  then show ?thesis
    using assms(1) by (simp add: link_ok_def bytes_inv_def credit_inv_def window_inv_def opened_inv_def
        spent_credit_def stored_cost_def flowing_def link_up_def)
qed

subsection \<open>The way back\<close>

lemma sumf_back_opened: "filter says_opened fs = [] \<Longrightarrow> sumf (back_add b) fs = sumf (back_add b') fs"
proof (induction fs)
  case (Cons f fs)
  then show ?case by (cases f) (auto split: if_splits)
qed simp

lemma unat_extra: "unat (effective_window w - INITIAL_WINDOW) = unat (effective_window w) - 65536"
  by (simp add: unat_sub word_le_nat_alt width_simps)

lemma raise_initial_credit:
  assumes "unat (credit sc) + (unat (effective_window w) - 65536) \<le> 262144"
  shows "unat (credit (raise_initial w sc)) = unat (credit sc) + (unat (effective_window w) - 65536)"
  using assms fc.add_below[of sc "effective_window w - INITIAL_WINDOW"]
  by (auto simp: raise_initial_def Let_def unat_extra word_less_nat_alt)

lemma tx_frame_credit:
  assumes "unat (credit (ch_credit so)) + back_add (ch_opened so) f \<le> 262144"
    and "ch_opened so \<or> says_opened f \<Longrightarrow> filter says_opened fs = []"
  shows "unat (credit (ch_credit (tx_frame f so))) + sumf (back_add (ch_opened (tx_frame f so))) fs
      \<le> unat (credit (ch_credit so)) + sumf (back_add (ch_opened so)) (f # fs)
    \<and> (ch_tx (tx_frame f so) \<longrightarrow>
       unat (credit (ch_credit (tx_frame f so))) + sumf (back_add (ch_opened (tx_frame f so))) fs
      = unat (credit (ch_credit so)) + sumf (back_add (ch_opened so)) (f # fs))"
proof (cases f)
  case (Opened j s m w)
  show ?thesis
  proof (cases "s \<and> ch_tx so \<and> \<not> ch_opened so")
    case True
    then have "sumf (back_add True) fs = sumf (back_add False) fs"
      using assms(2) Opened by (intro sumf_back_opened) simp
    then show ?thesis
      using True Opened assms(1) raise_initial_credit[of "ch_credit so" w] by (simp add: chan_opened_def)
  next
    case False
    then show ?thesis using Opened
      by (auto simp: chan_opened_def chan_close_def drop_entry_def inbound_send_def)
  qed
next
  case (WindowUpdate j a)
  then show ?thesis using assms(1) fc.add_below[of "ch_credit so" a] by (simp add: chan_update_def)
qed (simp_all add: chan_close_def drop_entry_def inbound_send_def)

lemma tx_frame_tx: "ch_tx (tx_frame f so) \<Longrightarrow> ch_tx so"
  by (cases f) (auto simp: chan_close_def chan_opened_def chan_update_def drop_entry_def split: if_splits)

lemma tx_frame_opened: "ch_opened (tx_frame f so) \<Longrightarrow> ch_opened so \<or> says_opened f"
  by (cases f) (auto simp: chan_close_def chan_opened_def chan_update_def drop_entry_def inbound_send_def split: if_splits)

lemma tx_frame_opened_mono: "ch_opened so \<Longrightarrow> ch_opened (tx_frame f so)"
  by (cases f) (auto simp: chan_close_def chan_opened_def chan_update_def drop_entry_def inbound_send_def)

lemma opened_cond_tail:
  assumes "opened_cond ph (ch_opened so) (f # fs)"
  shows "opened_cond ph (ch_opened (tx_frame f so)) fs" "ch_opened so \<or> says_opened f \<Longrightarrow> filter says_opened fs = []"
  using assms tx_frame_opened[of f so]
  by (cases ph; auto split: if_splits)+

lemma link_ok_back:
  assumes ok: "link_ok l" and bk: "lk_back l = f # fs"
  shows "link_ok (l\<lparr>lk_back := fs, lk_so := tx_frame f (lk_so l)\<rparr>)" (is "link_ok ?l")
proof -
  note c = link_okD[OF ok] and oc = opened_cond_tail[of "lk_phase l" "lk_so l" f fs]
  have le: "unat (credit (ch_credit (lk_so l))) + back_add (ch_opened (lk_so l)) f \<le> 262144"
    using c(5,7) cap_of_le[of "lk_phase l"] bk by (simp add: spent_credit_def)
  have op: "opened_cond (lk_phase l) (ch_opened (lk_so l)) (f # fs)" using c(11) bk by (simp add: opened_inv_def)
  note t = tx_frame_credit[OF le oc(2)[OF op]]
  have sp: "spent_credit ?l \<le> spent_credit l" "ch_tx (tx_frame f (lk_so l)) \<Longrightarrow> spent_credit ?l = spent_credit l"
    using t bk by (auto simp: spent_credit_def)
  have up: "link_up ?l \<Longrightarrow> link_up l \<and> ch_tx (tx_frame f (lk_so l))" "flowing ?l = flowing l" "task_up ?l = task_up l"
    "pipeline ?l = pipeline l" "stored_cost ?l = stored_cost l"
    using tx_frame_tx by (auto simp: up_defs pipeline_def stored_cost_def)
  show ?thesis using c sp up oc(1)[OF op]
    unfolding link_ok_def bytes_inv_def credit_inv_def window_inv_def opened_inv_def by auto
qed

lemma link_ok_drop:
  assumes "link_ok l" shows "link_ok (l\<lparr>lk_so := drop_entry (lk_so l)\<rparr>)" (is "link_ok ?l")
proof -
  have "\<not> link_up ?l" "flowing ?l = flowing l" "task_up ?l = task_up l" "pipeline ?l = pipeline l"
    by (auto simp: up_defs drop_entry_def pipeline_def)
  then show ?thesis using assms
    by (simp add: link_ok_def bytes_inv_def credit_inv_def window_inv_def opened_inv_def drop_entry_def
        spent_credit_def stored_cost_def)
qed

lemma link_ok_drop_rx:
  assumes "link_ok l" shows "link_ok (l\<lparr>lk_ro := drop_entry (lk_ro l)\<rparr>)"
  using link_ok_entry_gone[OF assms, of "lk_wire l" "[]"] by (simp add: drop_entry_def)

section \<open>The invariant holds\<close>

lemma link_ok_init: "link_init l \<Longrightarrow> link_ok l"
  by (auto simp: link_init_def link_new_def link_ok_def bytes_inv_def credit_inv_def window_inv_def opened_inv_def
      spent_credit_def stored_cost_def pipeline_def cap_of_def chan_new_def credit_new_def recv_new_def width_simps)

lemma link_ok_step: "link_step i l l' \<Longrightarrow> link_ok l \<Longrightarrow> link_ok l'"
  by (induction rule: link_step.induct)
    (simp_all only: link_ok_send link_ok_close link_ok_deliver link_ok_connect link_ok_relay link_ok_task_end
      link_ok_back link_ok_drop link_ok_drop_rx)

interpretation ln: inductive_invariant link_init "link_step i" link_ok
  by unfold_locales (auto intro: link_ok_init link_ok_step)

section \<open>Properties\<close>

text \<open>
  C3: an honest peer never overruns the window. In every reachable state of a channel between two
  ends that run this code, in either direction and under every interleaving, the data frame at the
  head of the wire is accepted, no violation is ever queued, and while the controlled side is
  still connecting the bytes it has to buffer always fit. The checks that close a channel can only
  fire against a peer that breaks the protocol.
\<close>

theorem honest_peer_never_overruns:
  assumes "reach link_init (link_step i) l"
  shows "IViolation \<notin> set (ch_inbox (lk_ro l))
    \<and> (\<forall>j d fs. lk_wire l = DataFrame j d # fs \<longrightarrow> fst (accept (length d) (ch_window (lk_ro l))))
    \<and> (\<forall>n b q. lk_phase l = Connecting n \<and> ch_inbox (lk_ro l) = IData b # q \<longrightarrow> pending_fits n (length b))"
proof -
  have ok: "link_ok l" using ln.reach_inv[OF assms] .
  have "fst (accept (length d) (ch_window (lk_ro l)))" if "lk_wire l = DataFrame j d # fs" for j d fs
    using wire_head_fits[of l j d fs] that ok fc.accept_ok by (simp add: link_ok_def)
  then show ?thesis using link_okD(10)[OF ok] pending_fits_inv[OF ok] by blast
qed

text \<open>The initial state towards the controlled side, and a state with one frame on the wire.\<close>

abbreviation link0 :: link where
  "link0 \<equiv> link_new (credit_new INITIAL_WINDOW) (recv_new INITIAL_WINDOW) (Connecting 0) False"

definition link_sent :: link where
  "link_sent = link0\<lparr>lk_so := (lk_so link0)\<lparr>ch_credit := \<lparr>credit = 65472, notify = True\<rparr>\<rparr>,
      lk_wire := [DataFrame 1 [7]], lk_read := [7]\<rparr>"

lemma link_sent_reach: "reach link_init (link_step 1) link_sent"
proof -
  let ?l1 = "link0\<lparr>lk_pc := S_Read 65536, lk_so := (lk_so link0)\<lparr>ch_credit := \<lparr>credit = 0, notify = False\<rparr>\<rparr>\<rparr>"
  let ?l2 = "?l1\<lparr>lk_pc := S_Send [7], lk_so := (lk_so link0)\<lparr>ch_credit := \<lparr>credit = 65472, notify = True\<rparr>\<rparr>,
      lk_read := [7]\<rparr>"
  have "link_init link0" by (simp add: link_init_def)
  moreover have "link_step 1 link0 ?l1"
    using ln_send[of 1 E_Take link0 "S_Read 65536" "\<lparr>credit = 0, notify = False\<rparr>" "[]"]
    by (simp add: link_new_def chan_new_def credit_new_def take_turn_def window_constants)
  moreover have "link_step 1 ?l1 ?l2"
    using ln_send[of 1 "E_Read [7]" ?l1 "S_Send [7]" "\<lparr>credit = 65472, notify = True\<rparr>" "[]"]
    by (simp add: link_new_def chan_new_def charge_def window_constants try_from_usize_def credit_add_def sat_add_def)
  moreover have "link_step 1 ?l2 link_sent"
    using ln_send[of 1 E_Sent ?l2 S_Take "\<lparr>credit = 65472, notify = True\<rparr>" "[DataFrame 1 [7]]"]
    by (simp add: link_new_def chan_new_def link_sent_def data_msg_def)
  ultimately show ?thesis by (meson reach.intros)
qed

theorem honest_peer_never_overruns_witness:
  "lk_wire link_sent = [DataFrame 1 [7]] \<and> fst (accept 1 (ch_window (lk_ro link_sent)))"
  using honest_peer_never_overruns[OF link_sent_reach] by (simp add: link_sent_def)

text \<open>
  C4: bytes arrive unchanged, in order and without gaps. In every reachable state what the
  receiving side wrote to its socket is a prefix of what the sending side read from its own; and
  while both ends run, what was read is exactly what was written followed by the bytes still on
  their way.
\<close>

theorem bytes_arrive_in_order:
  assumes "reach link_init (link_step i) l"
  shows "prefix (lk_written l) (lk_read l) \<and> (flowing l \<longrightarrow> lk_read l = lk_written l @ pipeline l)"
  using ln.reach_inv[OF assms] by (auto simp: link_ok_def bytes_inv_def)

theorem bytes_arrive_in_order_witness:
  "lk_read link_sent = lk_written link_sent @ pipeline link_sent \<and> pipeline link_sent = [7]"
  using bytes_arrive_in_order[OF link_sent_reach]
  by (simp add: link_sent_def link_new_def pipeline_def flowing_def task_up_def chan_new_def)

text \<open>
  C5: flow control cannot deadlock a channel. When both ends are up and relaying, and nothing is
  left to do on the wire, on the way back or in the receiving task, a sender that asks for credit
  gets at least the minimum charge: what the receiver has not yet given back stays below its
  update threshold, and the two ends' accounts agree exactly.
\<close>

theorem sender_never_starves:
  assumes "reach link_init (link_step i) l" "link_up l" "lk_phase l = Relaying" "lk_pc l = S_Take"
    and "lk_wire l = []" "lk_back l = []" "lk_tpc l = T_Next" "lk_pend l = []" "ch_inbox (lk_ro l) = []"
  shows "(\<exists>n sc. take_turn MAX_FRAME (ch_credit (lk_so l)) = Some (n, sc) \<and> 64 \<le> n)
    \<and> unat (credit (ch_credit (lk_so l))) + owed_of l = 262144"
proof -
  have ok: "link_ok l" using ln.reach_inv[OF assms(1)] .
  have eq: "unat (credit (ch_credit (lk_so l))) + owed_of l = 262144"
    using link_okD(6,8)[OF ok assms(2)] assms(3-9) by (simp add: spent_credit_def stored_cost_def cap_of_def)
  have "take_turn MAX_FRAME (ch_credit (lk_so l)) \<noteq> None"
    using fc.taker_not_starved[OF eq] link_okD(9)[OF ok] by blast
  then obtain n sc where t: "take_turn MAX_FRAME (ch_credit (lk_so l)) = Some (n, sc)" by fastforce
  moreover have "64 \<le> n" using fc.take_Some[OF t] eq link_okD(9)[OF ok] by (auto simp: MAX_FRAME_def)
  ultimately show ?thesis using eq by blast
qed

theorem sender_never_starves_witness:
  "let l = link_new (credit_new (effective_window CHANNEL_WINDOW)) (recv_new CHANNEL_WINDOW) Relaying True
   in (\<exists>n sc. take_turn MAX_FRAME (ch_credit (lk_so l)) = Some (n, sc) \<and> 64 \<le> n)
    \<and> unat (credit (ch_credit (lk_so l))) + owed_of l = 262144"
proof -
  let ?l = "link_new (credit_new (effective_window CHANNEL_WINDOW)) (recv_new CHANNEL_WINDOW) Relaying True"
  have "reach link_init (link_step 1) ?l" by (rule reach_init) (simp add: link_init_def)
  from sender_never_starves[OF this] show ?thesis
    by (simp add: link_new_def up_defs chan_new_def)
qed

end
