(* ===== verification/Rust_Text.thy ===== *)
theory Rust_Text
  imports BGDesk_Prelude
begin

text \<open>
  The operations of Rust's standard library on text that the modelled code uses, for ASCII text:
  \<open>str::trim\<close>, \<open>str::split\<close>, \<open>str::to_lowercase\<close>, and the textual form of IPv6 addresses
  (\<open>Ipv6Addr::from_str\<close> and \<open>Display\<close>).
\<close>

section \<open>Strings\<close>

definition is_white :: "char \<Rightarrow> bool" where
  "is_white c \<longleftrightarrow> of_char c \<in> {9, 10, 11, 12, 13, 32 :: nat}"

definition trim_start :: "string \<Rightarrow> string" where
  "trim_start s = dropWhile is_white s"

definition trim :: "string \<Rightarrow> string" where
  "trim s = rev (dropWhile is_white (rev (trim_start s)))"

definition lower_char :: "char \<Rightarrow> char" where
  "lower_char c = (if 65 \<le> (of_char c :: nat) \<and> (of_char c :: nat) \<le> 90 then char_of ((of_char c :: nat) + 32) else c)"

definition to_lowercase :: "string \<Rightarrow> string" where
  "to_lowercase s = map lower_char s"

text \<open>\<open>split(c)\<close> always yields at least one piece.\<close>

fun split_char :: "char \<Rightarrow> string \<Rightarrow> string list" where
  "split_char c [] = [[]]"
| "split_char c (x # xs) =
     (if x = c then [] # split_char c xs
      else case split_char c xs of p # ps \<Rightarrow> (x # p) # ps | [] \<Rightarrow> [[x]])"

lemma split_char_not_Nil [simp]: "split_char c s \<noteq> []"
  by (cases s) (auto split: list.split)

lemma hd_split_char: "hd (split_char c s) = takeWhile (\<lambda>x. x \<noteq> c) s"
proof (induction s)
  case (Cons x xs)
  then show ?case by (cases "split_char c xs") auto
qed simp

section \<open>IPv6 addresses as text\<close>

definition digit_val :: "nat \<Rightarrow> char \<Rightarrow> nat option" where
  "digit_val radix c =
     (let n = of_char c;
          v = (if 48 \<le> n \<and> n \<le> 57 then n - 48
               else if 97 \<le> n \<and> n \<le> 122 then n - 87
               else if 65 \<le> n \<and> n \<le> 90 then n - 55 else 99)
      in if v < radix then Some v else None)"

text \<open>
  \<open>read_number\<close>: at most \<open>maxd\<close> digits, a value of at most \<open>maxv\<close>, and a leading zero only where
  allowed; it either consumes the number or fails. The digits are followed by a non-digit.
\<close>

definition read_number :: "nat \<Rightarrow> nat \<Rightarrow> nat \<Rightarrow> bool \<Rightarrow> string \<Rightarrow> (nat \<times> string) option" where
  "read_number radix maxd maxv zero_prefix s =
     (let ds = takeWhile (\<lambda>c. digit_val radix c \<noteq> None) s;
          rest = dropWhile (\<lambda>c. digit_val radix c \<noteq> None) s;
          v = foldl (\<lambda>a c. a * radix + the (digit_val radix c)) 0 ds
      in if ds = [] \<or> maxd < length ds \<or> maxv < v then None
         else if \<not> zero_prefix \<and> hd ds = CHR ''0'' \<and> 1 < length ds then None
         else Some (v, rest))"

fun read_given_char :: "char \<Rightarrow> string \<Rightarrow> string option" where
  "read_given_char c (x # xs) = (if x = c then Some xs else None)"
| "read_given_char c [] = None"

text \<open>\<open>read_separator\<close>: the separator is expected before every element but the first.\<close>

definition read_separator :: "char \<Rightarrow> nat \<Rightarrow> (string \<Rightarrow> ('a \<times> string) option) \<Rightarrow> string \<Rightarrow> ('a \<times> string) option" where
  "read_separator sep index inner s =
     (if 0 < index then case read_given_char sep s of Some s' \<Rightarrow> inner s' | None \<Rightarrow> None else inner s)"

fun read_octets :: "nat \<Rightarrow> nat \<Rightarrow> string \<Rightarrow> (nat list \<times> string) option" where
  "read_octets i 0 s = Some ([], s)"
| "read_octets i (Suc n) s =
     (case read_separator CHR ''.'' i (read_number 10 3 255 False) s of
        None \<Rightarrow> None
      | Some (v, s') \<Rightarrow> (case read_octets (Suc i) n s' of None \<Rightarrow> None | Some (vs, r) \<Rightarrow> Some (v # vs, r)))"

definition read_ipv4_addr :: "string \<Rightarrow> (nat list \<times> string) option" where
  "read_ipv4_addr s = read_octets 0 4 s"

text \<open>The groups read, whether they ended in an IPv4 address, and the rest of the text.\<close>

fun read_groups :: "nat \<Rightarrow> nat \<Rightarrow> string \<Rightarrow> nat list \<times> bool \<times> string" where
  "read_groups i 0 s = ([], False, s)"
| "read_groups i (Suc left) s =
     (case (if 0 < left then read_separator CHR '':'' i read_ipv4_addr s else None) of
        Some ([a, b, c, d], r) \<Rightarrow> ([a * 256 + b, c * 256 + d], True, r)
      | _ \<Rightarrow>
        (case read_separator CHR '':'' i (read_number 16 4 65535 True) s of
           Some (g, r) \<Rightarrow> (case read_groups (Suc i) left r of (gs, v4, r') \<Rightarrow> (g # gs, v4, r'))
         | None \<Rightarrow> ([], False, s)))"

definition read_ipv6_addr :: "string \<Rightarrow> (nat list \<times> string) option" where
  "read_ipv6_addr s =
     (case read_groups 0 8 s of
        (head, head_v4, r) \<Rightarrow>
          if length head = 8 then Some (head, r)
          else if head_v4 then None
          else (case read_given_char CHR '':'' r of
            None \<Rightarrow> None
          | Some r1 \<Rightarrow>
            (case read_given_char CHR '':'' r1 of
               None \<Rightarrow> None
             | Some r2 \<Rightarrow>
               (case read_groups 0 (8 - (length head + 1)) r2 of
                  (ts, _, r3) \<Rightarrow> Some (head @ replicate (8 - length head - length ts) 0 @ ts, r3)))))"

definition word_of_groups :: "nat list \<Rightarrow> 128 word" where
  "word_of_groups gs = foldl (\<lambda>a g. push_bit 16 a OR of_nat g) 0 gs"

definition ipv6_from_str :: "string \<Rightarrow> 128 word option" where
  "ipv6_from_str s = (case read_ipv6_addr s of Some (gs, []) \<Rightarrow> Some (word_of_groups gs) | _ \<Rightarrow> None)"

text \<open>The segments of an address, and \<open>Display\<close>.\<close>

definition segments :: "128 word \<Rightarrow> nat list" where
  "segments a = map (\<lambda>i. unat (take_bit 16 (drop_bit (16 * i) a))) (rev [0 ..< 8])"

fun show_hex :: "nat \<Rightarrow> string" where
  "show_hex n = (if n < 16 then [''0123456789abcdef'' ! n] else show_hex (n div 16) @ [''0123456789abcdef'' ! (n mod 16)])"

declare show_hex.simps [simp del]

text \<open>The first longest run of zero segments: its start and length.\<close>

fun zero_runs :: "nat \<Rightarrow> nat \<times> nat \<Rightarrow> nat \<times> nat \<Rightarrow> nat list \<Rightarrow> nat \<times> nat" where
  "zero_runs i longest cur [] = longest"
| "zero_runs i longest (st, n) (x # xs) =
     (if x = 0 then
        let cur = (if n = 0 then (i, 1) else (st, Suc n)) in
        zero_runs (Suc i) (if snd longest < snd cur then cur else longest) cur xs
      else zero_runs (Suc i) longest (0, 0) xs)"

fun join_with :: "char \<Rightarrow> string list \<Rightarrow> string" where
  "join_with c [] = []"
| "join_with c [x] = x"
| "join_with c (x # y # ys) = x @ [c] @ join_with c (y # ys)"

definition ipv6_to_string :: "128 word \<Rightarrow> string" where
  "ipv6_to_string a =
     (let segs = segments a in
      if take 6 segs = [0, 0, 0, 0, 0, 65535] then
        ''::ffff:'' @ join_with CHR ''.'' (map show_nat [segs ! 6 div 256, segs ! 6 mod 256, segs ! 7 div 256, segs ! 7 mod 256])
      else
        case zero_runs 0 (0, 0) (0, 0) segs of
          (start, len) \<Rightarrow>
            if 1 < len then
              join_with CHR '':'' (map show_hex (take start segs)) @ ''::'' @
              join_with CHR '':'' (map show_hex (drop (start + len) segs))
            else join_with CHR '':'' (map show_hex segs))"

end
