(* ===== verification/Id_Whitelist.thy ===== *)
theory Id_Whitelist
  imports Rust_Text
begin

text \<open>
  The id whitelist (\<open>src/server/connection.rs\<close>, \<open>id_whitelist_allows\<close> and \<open>wildcard_match\<close>): the
  iterative glob matcher with its single backtracking point, and its agreement with the
  recursive reading of \<open>*\<close> and \<open>?\<close>.
\<close>

section \<open>The matcher\<close>

text \<open>
  The loop over the two positions. \<open>star\<close> remembers the pattern position after the last star and
  the text position that star's run ends at. The result is the final pattern position, or \<open>None\<close>
  for the early \<open>return false\<close>.
\<close>

function wm_loop :: "string \<Rightarrow> string \<Rightarrow> nat \<Rightarrow> nat \<Rightarrow> (nat \<times> nat) option \<Rightarrow> nat option" where
  "wm_loop p t pi ti star =
     (if ti < length t then
        if pi < length p \<and> p ! pi = CHR ''*'' then wm_loop p t (pi + 1) ti (Some (pi + 1, ti))
        else if pi < length p \<and> (p ! pi = CHR ''?'' \<or> p ! pi = t ! ti) then wm_loop p t (pi + 1) (ti + 1) star
        else case star of
          Some (sp, st) \<Rightarrow> wm_loop p t sp (st + 1) (Some (sp, st + 1))
        | None \<Rightarrow> None
      else Some pi)"
  by pat_completeness auto
termination
proof (relation "measures
    [\<lambda>(p, t, pi, ti, star). case star of None \<Rightarrow> length t + 1 | Some (sp, st) \<Rightarrow> length t - min st ti,
     \<lambda>(p, t, pi, ti, star). if ti < length t then 1 + (length t - ti) + (length p - pi) else 0]", goal_cases)
  case (2 p t pi ti star)
  then show ?case by (cases star) auto
next
  case (3 p t pi ti star)
  then show ?case by (cases star) auto
qed auto

declare wm_loop.simps [simp del]

definition wildcard_match :: "string \<Rightarrow> string \<Rightarrow> bool" where
  "wildcard_match pattern text =
     (let p = to_lowercase (trim pattern); t = to_lowercase (trim text) in
      case wm_loop p t 0 0 None of
        None \<Rightarrow> False
      | Some pi \<Rightarrow> dropWhile (\<lambda>c. c = CHR ''*'') (drop pi p) = [])"

text \<open>\<open>id_whitelist_allows\<close>: the full id or the part before the first \<open>@\<close> matches an entry.\<close>

definition id_whitelist_allows :: "string list \<Rightarrow> string \<Rightarrow> bool" where
  "id_whitelist_allows id_whitelist my_id =
     (if id_whitelist = [] then True
      else
        let bare_id = (case split_char CHR ''@'' my_id of b # _ \<Rightarrow> b | [] \<Rightarrow> my_id)
        in list_ex (\<lambda>x. wildcard_match x my_id \<or> wildcard_match x bare_id) id_whitelist)"

text \<open>The option's text: entries separated by commas, trimmed, the empty ones dropped.\<close>

definition parse_id_whitelist :: "string \<Rightarrow> string list" where
  "parse_id_whitelist opt = filter (\<lambda>x. x \<noteq> []) (map trim (split_char CHR '','' opt))"

section \<open>What a pattern means\<close>

fun glob :: "string \<Rightarrow> string \<Rightarrow> bool" where
  "glob [] t = (t = [])"
| "glob (c # p) t =
     (if c = CHR ''*'' then (\<exists>k \<le> length t. glob p (drop k t))
      else case t of [] \<Rightarrow> False | x # xs \<Rightarrow> (c = CHR ''?'' \<or> c = x) \<and> glob p xs)"

lemma glob_star: "glob (CHR ''*'' # p) t \<longleftrightarrow> (\<exists>k \<le> length t. glob p (drop k t))"
  by simp

text \<open>A star-free part of a pattern consumes as many characters as it has.\<close>

lemma glob_segment:
  assumes "CHR ''*'' \<notin> set s" "glob (s @ p) t"
  shows "length s \<le> length t \<and> glob p (drop (length s) t)"
  using assms
proof (induction s arbitrary: t)
  case (Cons c s)
  then show ?case by (cases t) auto
qed simp

lemma glob_Nil_iff: "glob p [] \<longleftrightarrow> dropWhile (\<lambda>c. c = CHR ''*'') p = []"
  by (induction p) auto

section \<open>The loop against the meaning\<close>

text \<open>
  The invariant of the loop: between the remembered position and the current one the pattern has
  no star and has consumed text one for one.
\<close>

definition wm_inv :: "string \<Rightarrow> string \<Rightarrow> nat \<Rightarrow> nat \<Rightarrow> (nat \<times> nat) option \<Rightarrow> bool" where
  "wm_inv p t pi ti star \<longleftrightarrow> pi \<le> length p \<and> ti \<le> length t \<and>
     (case star of None \<Rightarrow> True
      | Some (sp, st) \<Rightarrow> sp \<le> pi \<and> st \<le> ti \<and> pi - sp = ti - st
          \<and> CHR ''*'' \<notin> set (take (pi - sp) (drop sp p)))"

text \<open>What is left to decide: the rest matches here, or after moving the last star's run further.\<close>

definition wm_goal :: "string \<Rightarrow> string \<Rightarrow> nat \<Rightarrow> nat \<Rightarrow> (nat \<times> nat) option \<Rightarrow> bool" where
  "wm_goal p t pi ti star \<longleftrightarrow> glob (drop pi p) (drop ti t) \<or>
     (case star of None \<Rightarrow> False
      | Some (sp, st) \<Rightarrow> \<exists>k. st < k \<and> k \<le> length t \<and> glob (drop sp p) (drop k t))"

text \<open>Moving an earlier star further is never better than moving to the current position.\<close>

lemma wm_later:
  assumes inv: "wm_inv p t pi ti (Some (sp, st))" and k: "st < k" "k \<le> length t" "glob (drop sp p) (drop k t)"
  shows "\<exists>k'. ti < k' \<and> k' \<le> length t \<and> glob (drop pi p) (drop k' t)"
proof -
  let ?s = "take (pi - sp) (drop sp p)"
  have "sp \<le> pi" using inv by (simp add: wm_inv_def)
  then have "drop (pi - sp) (drop sp p) = drop pi p" by simp
  then have s: "drop sp p = ?s @ drop pi p" "length ?s = ti - st"
    using inv append_take_drop_id[of "pi - sp" "drop sp p"] by (auto simp: wm_inv_def)
  have "length ?s \<le> length (drop k t) \<and> glob (drop pi p) (drop (length ?s) (drop k t))"
    by (rule glob_segment) (use inv k(3) s(1) in \<open>auto simp: wm_inv_def\<close>)
  then show ?thesis
    using s(2) k inv by (intro exI[of _ "k + (ti - st)"]) (auto simp: wm_inv_def add.commute)
qed

lemma wm_goal_star:
  assumes inv: "wm_inv p t pi ti star" and "pi < length p" "p ! pi = CHR ''*''"
  shows "wm_goal p t pi ti star \<longleftrightarrow> wm_goal p t (pi + 1) ti (Some (pi + 1, ti))"
proof -
  have d: "drop pi p = CHR ''*'' # drop (pi + 1) p" using assms(2,3) by (simp add: Cons_nth_drop_Suc[symmetric])
  have here: "glob (drop pi p) (drop j t) \<longleftrightarrow> (\<exists>k. j \<le> k \<and> k \<le> length t \<and> glob (drop (pi + 1) p) (drop k t))"
    if "j \<le> length t" for j
  proof
    assume "glob (drop pi p) (drop j t)"
    then obtain k where "k \<le> length t - j" "glob (drop (pi + 1) p) (drop (k + j) t)" unfolding d glob_star by auto
    then show "\<exists>k. j \<le> k \<and> k \<le> length t \<and> glob (drop (pi + 1) p) (drop k t)" using that by (intro exI[of _ "k + j"]) auto
  next
    assume "\<exists>k. j \<le> k \<and> k \<le> length t \<and> glob (drop (pi + 1) p) (drop k t)"
    then obtain k where "j \<le> k" "k \<le> length t" "glob (drop (pi + 1) p) (drop k t)" by blast
    then show "glob (drop pi p) (drop j t)" unfolding d glob_star by (intro exI[of _ "k - j"]) auto
  qed
  have ti: "ti \<le> length t" using inv by (simp add: wm_inv_def)
  have "wm_goal p t (pi + 1) ti (Some (pi + 1, ti)) \<longleftrightarrow> glob (drop pi p) (drop ti t)"
    unfolding here[OF ti] wm_goal_def using ti by (auto simp: le_less)
  moreover have "glob (drop pi p) (drop ti t)"
    if "star = Some (sp, st)" "st < k" "k \<le> length t" "glob (drop sp p) (drop k t)" for sp st k
    using wm_later[of p t pi ti sp st k] that inv here ti by (meson less_imp_le order_trans)
  ultimately show ?thesis by (cases star) (auto simp: wm_goal_def)
qed

lemma wm_goal_char:
  assumes inv: "wm_inv p t pi ti star" and "ti < length t" "pi < length p" "p ! pi \<noteq> CHR ''*''"
  shows "glob (drop pi p) (drop ti t) \<longleftrightarrow>
    (p ! pi = CHR ''?'' \<or> p ! pi = t ! ti) \<and> glob (drop (pi + 1) p) (drop (ti + 1) t)"
proof -
  have "drop pi p = p ! pi # drop (pi + 1) p" "drop ti t = t ! ti # drop (ti + 1) t"
    using assms(2,3) by (simp_all add: Cons_nth_drop_Suc)
  then show ?thesis using assms(4) by simp
qed

lemma wm_inv_advance:
  assumes inv: "wm_inv p t pi ti star" and "ti < length t" "pi < length p" "p ! pi \<noteq> CHR ''*''"
  shows "wm_inv p t (pi + 1) (ti + 1) star"
proof (cases star)
  case (Some q)
  obtain sp st where q: "q = (sp, st)" by fastforce
  have le: "sp \<le> pi" "st \<le> ti" "pi - sp = ti - st" using inv Some q by (simp_all add: wm_inv_def)
  have "take (Suc (pi - sp)) (drop sp p) = take (pi - sp) (drop sp p) @ [p ! pi]"
    using le(1) assms(3) by (subst take_Suc_conv_app_nth) auto
  then show ?thesis using inv Some q assms le by (auto simp: wm_inv_def Suc_diff_le)
qed (use assms in \<open>simp add: wm_inv_def\<close>)

lemma wm_goal_retry:
  assumes "st < length t"
  shows "wm_goal p t sp (st + 1) (Some (sp, st + 1)) \<longleftrightarrow>
    (\<exists>k. st < k \<and> k \<le> length t \<and> glob (drop sp p) (drop k t))"
proof -
  have "(\<exists>k. st < k \<and> P k) \<longleftrightarrow> P (st + 1) \<or> (\<exists>k. st + 1 < k \<and> P k)" for P
    by (metis Suc_eq_plus1 Suc_lessD Suc_lessI lessI)
  then show ?thesis using assms by (simp add: wm_goal_def)
qed

lemma wm_loop_correct:
  "wm_inv p t pi ti star \<Longrightarrow>
     (case wm_loop p t pi ti star of None \<Rightarrow> False | Some q \<Rightarrow> dropWhile (\<lambda>c. c = CHR ''*'') (drop q p) = [])
     \<longleftrightarrow> wm_goal p t pi ti star"
proof (induction p t pi ti star rule: wm_loop.induct)
  case (1 p t pi ti star)
  note inv = "1.prems"
  show ?case
  proof (cases "ti < length t")
    case False
    then have ti: "ti = length t" using inv by (simp add: wm_inv_def)
    have "\<not> (\<exists>k. st < k \<and> k \<le> length t \<and> glob (drop sp p) (drop k t))" if "star = Some (sp, st)" for sp st
      using wm_later[of p t pi ti sp st] inv that ti by fastforce
    then have "wm_goal p t pi ti star \<longleftrightarrow> glob (drop pi p) []"
      using ti by (auto simp: wm_goal_def split: option.splits)
    then show ?thesis using False by (simp add: wm_loop.simps[of p t pi ti] glob_Nil_iff)
  next
    case ti: True
    show ?thesis
    proof (cases "pi < length p \<and> p ! pi = CHR ''*''")
      case True
      have "wm_inv p t (pi + 1) ti (Some (pi + 1, ti))" using inv True by (simp add: wm_inv_def)
      then show ?thesis using "1.IH"(1)[OF ti True] wm_goal_star[OF inv] True ti
        by (simp add: wm_loop.simps[of p t pi ti])
    next
      case ns: False
      show ?thesis
      proof (cases "pi < length p \<and> (p ! pi = CHR ''?'' \<or> p ! pi = t ! ti)")
        case True
        then have pc: "pi < length p" "p ! pi \<noteq> CHR ''*''" using ns by auto
        have "wm_goal p t (pi + 1) (ti + 1) star \<longleftrightarrow> wm_goal p t pi ti star"
          using wm_goal_char[OF inv ti pc] True by (simp add: wm_goal_def)
        then show ?thesis using "1.IH"(2)[OF ti ns True] wm_inv_advance[OF inv ti pc] True ns ti
          by (simp add: wm_loop.simps[of p t pi ti])
      next
        case False
        have no: "\<not> glob (drop pi p) (drop ti t)"
        proof (cases "pi < length p")
          case True
          then show ?thesis using wm_goal_char[OF inv ti True] ns False by blast
        qed (use ti in simp)
        show ?thesis
        proof (cases star)
          case None
          then show ?thesis using no ti ns False by (auto simp: wm_loop.simps[of p t pi ti] wm_goal_def)
        next
          case (Some q)
          obtain sp st where q: "q = (sp, st)" by fastforce
          have "wm_inv p t sp (st + 1) (Some (sp, st + 1))" using inv Some q ti by (auto simp: wm_inv_def)
          moreover have "wm_goal p t sp (st + 1) (Some (sp, st + 1)) \<longleftrightarrow> wm_goal p t pi ti star"
            using no Some q wm_goal_retry[of st t p sp] inv ti by (simp add: wm_goal_def wm_inv_def)
          ultimately show ?thesis
            using "1.IH"(3)[OF ti ns False Some] q Some ns False ti by (auto simp: wm_loop.simps[of p t pi ti])
        qed
      qed
    qed
  qed
qed

section \<open>Properties\<close>

text \<open>
  C26: the whitelist's matcher decides exactly what its patterns mean. The iterative matcher, which
  keeps one backtracking point and always ends, accepts a text if and only if the trimmed,
  lower-cased pattern matches the trimmed, lower-cased text, where a star stands for any run of
  characters and a question mark for one; an id is allowed exactly when the list is empty or some
  entry matches the whole id or its part before the first \<open>@\<close>.
\<close>

theorem wildcard_match_is_glob:
  "(wildcard_match pattern text \<longleftrightarrow> glob (to_lowercase (trim pattern)) (to_lowercase (trim text)))
   \<and> (id_whitelist_allows entries my_id \<longleftrightarrow> entries = [] \<or>
        (\<exists>x \<in> set entries. wildcard_match x my_id \<or> wildcard_match x (takeWhile (\<lambda>c. c \<noteq> CHR ''@'') my_id)))"
proof -
  let ?p = "to_lowercase (trim pattern)" and ?t = "to_lowercase (trim text)"
  have "wm_inv ?p ?t 0 0 None" by (simp add: wm_inv_def)
  from wm_loop_correct[OF this] have "wildcard_match pattern text = glob ?p ?t"
    by (simp add: wildcard_match_def Let_def wm_goal_def)
  moreover have "(case split_char CHR ''@'' my_id of b # _ \<Rightarrow> b | [] \<Rightarrow> my_id) = takeWhile (\<lambda>c. c \<noteq> CHR ''@'') my_id"
    using hd_split_char[of "CHR ''@''" my_id] by (cases "split_char CHR ''@'' my_id") auto
  ultimately show ?thesis
    by (simp add: id_whitelist_allows_def Let_def list_ex_iff)
qed

end
