(* ===== verification/Login_Guard.thy ===== *)
theory Login_Guard
  imports Id_Whitelist
begin

text \<open>
  What stands between a guesser and a login (\<open>src/server/connection.rs\<close> and
  \<open>src/server/login_failure_check.rs\<close>): the failure counters per address and per IPv6 prefix, the
  backoff of operating-system logins, the id whitelist's limiter and the rotation of the
  temporary password.
\<close>

section \<open>Failure counters\<close>

text \<open>An entry: the minute of the last failure, the failures in that minute, all failures.\<close>

type_synonym failure = "int \<times> int \<times> int"
type_synonym failures = "(string, failure) hmap"

datatype alarm_audit_type =
  ExceedThirtyAttempts | SixAttemptsWithinOneMinute | ExceedIPv6PrefixAttempts | TerminalOsLoginBackoff | IdWhitelist

definition mask_u128 :: "128 word \<Rightarrow> nat \<Rightarrow> 128 word" where
  "mask_u128 addr pre = addr AND (if pre = 0 \<or> 128 < pre then 0 else push_bit (128 - pre) (- 1))"

definition get_ipv6_prefixes :: "string \<Rightarrow> (string \<times> string \<times> string) option" where
  "get_ipv6_prefixes ip =
     (let ip_only = trim (case split_char CHR ''%'' ip of x # _ \<Rightarrow> x | [] \<Rightarrow> ip) in
      case ipv6_from_str ip_only of
        None \<Rightarrow> None
      | Some a \<Rightarrow> Some (ipv6_to_string (mask_u128 a 64) @ ''/64'',
                        ipv6_to_string (mask_u128 a 56) @ ''/56'',
                        ipv6_to_string (mask_u128 a 48) @ ''/48''))"

fun bump_failure_entry :: "failure \<Rightarrow> int \<Rightarrow> failure" where
  "bump_failure_entry (m, c, n) time =
     (if m = time then (m, wrap_i32 (c + 1), wrap_i32 (n + 1)) else (time, 1, wrap_i32 (n + 1)))"

definition failure_of :: "failures \<Rightarrow> string \<Rightarrow> failure" where
  "failure_of m key = (case hm_get m key of Some f \<Rightarrow> f | None \<Rightarrow> (0, 0, 0))"

definition bump_key :: "int \<Rightarrow> failures \<Rightarrow> string \<Rightarrow> failures" where
  "bump_key time m key = hm_insert key (bump_failure_entry (failure_of m key) time) m"

definition update_failure :: "string \<Rightarrow> failure \<Rightarrow> int \<Rightarrow> bool \<Rightarrow> failures \<Rightarrow> failures" where
  "update_failure ip fail time remove m =
     (if remove then
        (if fst fail \<noteq> 0 then
           (case get_ipv6_prefixes ip of
              Some (p64, p56, p48) \<Rightarrow> hm_remove ip (hm_remove p48 (hm_remove p56 (hm_remove p64 m)))
            | None \<Rightarrow> hm_remove ip m)
         else m)
      else
        (case get_ipv6_prefixes ip of
           Some (p64, p56, p48) \<Rightarrow> bump_key time (foldl (bump_key time) m [p64, p56, p48]) ip
         | None \<Rightarrow> bump_key time m ip))"

text \<open>A refusal carries the message sent and the alarm posted.\<close>

type_synonym refusal = "string \<times> alarm_audit_type"

definition check_failure_ipv6_prefix :: "failures \<Rightarrow> int \<Rightarrow> string \<Rightarrow> nat \<Rightarrow> int \<Rightarrow> ((failure \<times> int) \<times> refusal) option" where
  "check_failure_ipv6_prefix m time pre pre_num thresh =
     (if thresh < snd (snd (failure_of m pre)) then
        Some ((failure_of m pre, time),
              (''Too many wrong attempts for IPv6 prefix /'' @ show_nat pre_num, ExceedIPv6PrefixAttempts))
      else None)"

definition minute_of :: "int \<Rightarrow> int" where
  "minute_of now_ms = wrap_i32 (rust_div now_ms 60000)"

definition check_own_address :: "failures \<Rightarrow> string \<Rightarrow> int \<Rightarrow> (failure \<times> int) \<times> refusal option" where
  "check_own_address m ip time =
     (let fail = failure_of m ip in
      ((fail, time),
       if 30 < snd (snd fail) then Some (''Too many wrong attempts'', ExceedThirtyAttempts)
       else if time = fst fail \<and> 6 < fst (snd fail) then Some (''Please try 1 minute later'', SixAttemptsWithinOneMinute)
       else None))"

definition check_failure :: "failures \<Rightarrow> string \<Rightarrow> int \<Rightarrow> (failure \<times> int) \<times> refusal option" where
  "check_failure m ip now_ms =
     (let time = minute_of now_ms in
      case get_ipv6_prefixes ip of
        None \<Rightarrow> check_own_address m ip time
      | Some (p64, p56, p48) \<Rightarrow>
          (case check_failure_ipv6_prefix m time p64 64 60 of
             Some (f, r) \<Rightarrow> (f, Some r)
           | None \<Rightarrow>
             (case check_failure_ipv6_prefix m time p56 56 80 of
                Some (f, r) \<Rightarrow> (f, Some r)
              | None \<Rightarrow>
                (case check_failure_ipv6_prefix m time p48 48 100 of
                   Some (f, r) \<Rightarrow> (f, Some r)
                 | None \<Rightarrow> check_own_address m ip time))))"

text \<open>
  The password arm of the login handler, as far as the counters go: check, validate, count or
  forget.
\<close>

datatype outcome = Refused refusal | Rejected | Accepted

definition password_attempt :: "string \<Rightarrow> int \<Rightarrow> bool \<Rightarrow> failures \<Rightarrow> outcome \<times> failures" where
  "password_attempt ip now_ms valid m =
     (case check_failure m ip now_ms of
        (_, Some r) \<Rightarrow> (Refused r, m)
      | ((fail, time), None) \<Rightarrow>
          if \<not> valid then (Rejected, update_failure ip fail time False m)
          else (Accepted, update_failure ip fail time True m))"

section \<open>The id whitelist's limiter\<close>

definition ID_WHITELIST_FAILURE_DECAY_MINUTES :: int where "ID_WHITELIST_FAILURE_DECAY_MINUTES = 10"

definition failure_keys :: "string \<Rightarrow> string list" where
  "failure_keys ip = ip # (case get_ipv6_prefixes ip of Some (p64, p56, p48) \<Rightarrow> [p64, p56, p48] | None \<Rightarrow> [])"

definition decay_stale_failures :: "failures \<Rightarrow> string list \<Rightarrow> int \<Rightarrow> int \<Rightarrow> failures" where
  "decay_stale_failures m keys now win =
     foldl (\<lambda>m key. case hm_get m key of
              Some v \<Rightarrow> if win \<le> clamp_i32 (now - fst v) then hm_remove key m else m
            | None \<Rightarrow> m) m keys"

definition clear_failures :: "failures \<Rightarrow> string list \<Rightarrow> failures" where
  "clear_failures m keys = foldl (\<lambda>m key. hm_remove key m) m keys"

definition check_id_whitelist :: "string \<Rightarrow> string \<Rightarrow> string \<Rightarrow> int \<Rightarrow> failures \<Rightarrow> refusal option \<times> failures" where
  "check_id_whitelist opt my_id ip now_ms m0 =
     (let id_whitelist = parse_id_whitelist opt in
      if id_whitelist = [] then (None, m0)
      else
        let m = decay_stale_failures m0 (failure_keys ip) (minute_of now_ms) ID_WHITELIST_FAILURE_DECAY_MINUTES in
        case check_failure m ip now_ms of
          (_, Some r) \<Rightarrow> (Some r, m)
        | ((fail, time), None) \<Rightarrow>
            if id_whitelist_allows id_whitelist my_id then (None, m)
            else (Some (''Your ID is blocked by the peer'', IdWhitelist), update_failure ip fail time False m))"

section \<open>Operating-system logins\<close>

text \<open>\<open>src/server/login_failure_check.rs\<close>; instants are milliseconds of the wall clock.\<close>

definition OS_CREDENTIAL_LOGIN_TOTAL_IDLE_RESET_MS :: int where
  "OS_CREDENTIAL_LOGIN_TOTAL_IDLE_RESET_MS = 120 * 60 * 1000"
definition OS_CREDENTIAL_LOGIN_BACKOFF_BASE_SECONDS :: int where
  "OS_CREDENTIAL_LOGIN_BACKOFF_BASE_SECONDS = 15"
definition OS_CREDENTIAL_LOGIN_BACKOFF_MAX_SECONDS :: int where
  "OS_CREDENTIAL_LOGIN_BACKOFF_MAX_SECONDS = 30 * 60"

datatype failure_scope = DefaultScope | TerminalOsLogin

record os_policy_decision =
  allowed :: bool
  login_error :: "string option"
  audit :: "alarm_audit_type option"

record os_failure_state =
  total_failures :: int
  backoff_until_ms :: "int option"
  last_failure_ms :: "int option"

definition os_failure_default :: os_failure_state where
  "os_failure_default = \<lparr>total_failures = 0, backoff_until_ms = None, last_failure_ms = None\<rparr>"

definition is_os_credential_scope :: "failure_scope \<Rightarrow> bool" where
  "is_os_credential_scope scope = (scope = TerminalOsLogin)"

fun backoff_audit_type_for_scope :: "failure_scope \<Rightarrow> alarm_audit_type option" where
  "backoff_audit_type_for_scope TerminalOsLogin = Some TerminalOsLoginBackoff"
| "backoff_audit_type_for_scope DefaultScope = None"

definition os_credential_login_backoff_seconds :: "int \<Rightarrow> int" where
  "os_credential_login_backoff_seconds tot =
     (if tot \<le> 2 then 0
      else
        let exp = min (tot - 3) 7;
            seconds = OS_CREDENTIAL_LOGIN_BACKOFF_BASE_SECONDS * 2 ^ nat exp
        in min seconds OS_CREDENTIAL_LOGIN_BACKOFF_MAX_SECONDS)"

definition normalize_backoff :: "int \<Rightarrow> os_failure_state \<Rightarrow> os_failure_state" where
  "normalize_backoff now_ms st =
     (case backoff_until_ms st of
        Some until_ms \<Rightarrow> if until_ms \<le> now_ms then st\<lparr>backoff_until_ms := None\<rparr> else st
      | None \<Rightarrow> st)"

definition reset_totals_on_idle :: "int \<Rightarrow> os_failure_state \<Rightarrow> os_failure_state" where
  "reset_totals_on_idle now_ms st =
     (case last_failure_ms st of
        Some last_ms \<Rightarrow>
          if OS_CREDENTIAL_LOGIN_TOTAL_IDLE_RESET_MS \<le> clamp_i64 (now_ms - last_ms) then os_failure_default else st
      | None \<Rightarrow> st)"

definition allow_decision :: os_policy_decision where
  "allow_decision = \<lparr>allowed = True, login_error = None, audit = None\<rparr>"

definition block_decision :: "string \<Rightarrow> alarm_audit_type option \<Rightarrow> os_policy_decision" where
  "block_decision err alarm = \<lparr>allowed = False, login_error = Some err, audit = alarm\<rparr>"

definition remaining_seconds :: "int \<Rightarrow> int \<Rightarrow> int" where
  "remaining_seconds until_ms now_ms =
     (let remaining_ms = max (until_ms - now_ms) 0 in max (rust_div (remaining_ms + 999) 1000) 1)"

definition evaluate_os_credential_policy :: "failure_scope \<Rightarrow> int \<Rightarrow> os_failure_state \<Rightarrow> os_policy_decision \<times> os_failure_state" where
  "evaluate_os_credential_policy scope now_ms st0 =
     (if \<not> is_os_credential_scope scope then (allow_decision, st0)
      else
        let st = normalize_backoff now_ms (reset_totals_on_idle now_ms st0) in
        case backoff_until_ms st of
          Some until_ms \<Rightarrow>
            let secs = remaining_seconds until_ms now_ms;
                seconds_label = (if secs = 1 then ''second'' else ''seconds'')
            in (block_decision (''Please try again in '' @ show_int secs @ '' '' @ seconds_label @ ''.'')
                  (backoff_audit_type_for_scope scope), st)
        | None \<Rightarrow> (allow_decision, st))"

definition record_os_credential_failure :: "failure_scope \<Rightarrow> int \<Rightarrow> os_failure_state \<Rightarrow> os_failure_state" where
  "record_os_credential_failure scope now_ms st0 =
     (if \<not> is_os_credential_scope scope then st0
      else
        let st1 = normalize_backoff now_ms (reset_totals_on_idle now_ms st0);
            st = st1\<lparr>total_failures := clamp_i32 (total_failures st1 + 1), last_failure_ms := Some now_ms\<rparr>;
            backoff_seconds = os_credential_login_backoff_seconds (total_failures st)
        in if 0 < backoff_seconds then st\<lparr>backoff_until_ms := Some (now_ms + backoff_seconds * 1000)\<rparr> else st)"

text \<open>
  The two entry points that pick the policy by scope: the counters of map \<open>i\<close> for an ordinary
  login, the backoff for an operating-system login.
\<close>

record login_guard =
  login_failures :: "failures list"
  os_state :: os_failure_state

definition check_failure_with_scope :: "nat \<Rightarrow> string \<Rightarrow> failure_scope \<Rightarrow> int \<Rightarrow> login_guard \<Rightarrow>
    ((failure \<times> int) \<times> (string option \<times> alarm_audit_type option) option) \<times> login_guard" where
  "check_failure_with_scope i ip scope now_ms g =
     (if scope = TerminalOsLogin then
        let (decision, st) = evaluate_os_credential_policy scope now_ms (os_state g) in
        ((((0, 0, 0), minute_of now_ms),
          if allowed decision then None else Some (login_error decision, audit decision)), g\<lparr>os_state := st\<rparr>)
      else
        let (f, res) = check_failure (login_failures g ! i) ip now_ms in
        ((f, map_option (\<lambda>(msg, alarm). (Some msg, Some alarm)) res), g))"

definition update_failure_with_scope :: "string \<Rightarrow> failure \<times> int \<Rightarrow> bool \<Rightarrow> nat \<Rightarrow> failure_scope \<Rightarrow> int \<Rightarrow> login_guard \<Rightarrow> login_guard" where
  "update_failure_with_scope ip ft remove i scope now_ms g =
     (if scope = TerminalOsLogin then
        if \<not> remove then g\<lparr>os_state := record_os_credential_failure scope now_ms (os_state g)\<rparr> else g
      else g\<lparr>login_failures := (login_failures g)
                [i := update_failure ip (fst ft) (snd ft) remove (login_failures g ! i)]\<rparr>)"

section \<open>The temporary password\<close>

definition MAX_CONSECUTIVE_FAILURES :: int where "MAX_CONSECUTIVE_FAILURES = 10"

record temp_state =
  tp_password :: string
  tp_failures :: int

text \<open>
  \<open>check_update_temporary_password\<close>. The current temporary password and the one a rotation would
  make are arguments; the result is the state and the password afterwards.
\<close>

definition check_update_temporary_password :: "bool \<Rightarrow> bool \<Rightarrow> string \<Rightarrow> string \<Rightarrow> temp_state \<Rightarrow> temp_state \<times> string" where
  "check_update_temporary_password temporary_enabled success current_password fresh_password st0 =
     (if \<not> temporary_enabled then (st0, current_password)
      else if current_password = [] then (st0, current_password)
      else
        let st = (if tp_password st0 \<noteq> current_password
                  then \<lparr>tp_password = current_password, tp_failures = 0\<rparr> else st0)
        in if success then (st\<lparr>tp_failures := 0\<rparr>, current_password)
           else
             let st = st\<lparr>tp_failures := wrap_i32 (tp_failures st + 1)\<rparr> in
             if tp_failures st < MAX_CONSECUTIVE_FAILURES then (st, current_password)
             else (\<lparr>tp_password = fresh_password, tp_failures = 0\<rparr>, fresh_password))"

section \<open>Counting guesses\<close>

abbreviation minute_at :: "failures \<Rightarrow> string \<Rightarrow> int" where "minute_at m k \<equiv> fst (failure_of m k)"
abbreviation in_minute :: "failures \<Rightarrow> string \<Rightarrow> int" where "in_minute m k \<equiv> fst (snd (failure_of m k))"
abbreviation total_at :: "failures \<Rightarrow> string \<Rightarrow> int" where "total_at m k \<equiv> snd (snd (failure_of m k))"

definition bump_keys :: "string \<Rightarrow> string list" where
  "bump_keys ip = (case get_ipv6_prefixes ip of Some (p64, p56, p48) \<Rightarrow> [p64, p56, p48, ip] | None \<Rightarrow> [ip])"

lemma ip_bumped [simp]: "ip \<in> set (bump_keys ip)"
  by (auto simp: bump_keys_def split: option.splits)

lemma length_bump_keys: "length (bump_keys ip) \<le> 4"
  by (auto simp: bump_keys_def split: option.splits)

lemma update_failure_bumps: "update_failure ip f t False m = foldl (bump_key t) m (bump_keys ip)"
  by (auto simp: update_failure_def bump_keys_def split: option.splits)

lemma failure_of_bump:
  "failure_of (bump_key t m k) k' = (if k' = k then bump_failure_entry (failure_of m k) t else failure_of m k')"
  by (simp add: failure_of_def bump_key_def hm_simps)

text \<open>Counters in a range that cannot wrap.\<close>

definition counters_within :: "int \<Rightarrow> failures \<Rightarrow> bool" where
  "counters_within b m \<longleftrightarrow> (\<forall>k. 0 \<le> in_minute m k \<and> in_minute m k \<le> total_at m k \<and> total_at m k \<le> b)"

lemma bump_within:
  assumes "counters_within b m" "0 \<le> b" "b < 1000"
  shows "counters_within (b + 1) (bump_key t m k)"
    and "total_at (bump_key t m k) k = total_at m k + 1" "minute_at (bump_key t m k) k = t"
    and "in_minute (bump_key t m k) k = (if minute_at m k = t then in_minute m k + 1 else 1)"
proof -
  obtain a c n where f: "failure_of m k = (a, c, n)" by (metis prod_cases3)
  note b = assms(2,3)
  have r: "0 \<le> c" "c \<le> n" "n \<le> b" using assms(1) f by (metis counters_within_def fst_conv snd_conv)+
  have e: "bump_failure_entry (a, c, n) t = (if a = t then (a, c + 1, n + 1) else (t, 1, n + 1))"
  proof -
    have "c + 1 < 2 ^ 31" "n + 1 < 2 ^ 31" "- (2 ^ 31) \<le> c + 1" "- (2 ^ 31) \<le> n + 1"
      using r b by auto
    then show ?thesis by (simp only: bump_failure_entry.simps wrap_i32_id)
  qed
  show "total_at (bump_key t m k) k = total_at m k + 1" "minute_at (bump_key t m k) k = t"
    "in_minute (bump_key t m k) k = (if minute_at m k = t then in_minute m k + 1 else 1)"
    by (simp_all add: failure_of_bump f e del: bump_failure_entry.simps)
  show "counters_within (b + 1) (bump_key t m k)"
    unfolding counters_within_def
  proof
    fix k'
    show "0 \<le> in_minute (bump_key t m k) k' \<and> in_minute (bump_key t m k) k' \<le> total_at (bump_key t m k) k'
        \<and> total_at (bump_key t m k) k' \<le> b + 1"
    proof (cases "k' = k")
      case True
      then show ?thesis using r assms(2) by (simp add: failure_of_bump f e del: bump_failure_entry.simps)
    next
      case False
      have "0 \<le> in_minute m k' \<and> in_minute m k' \<le> total_at m k' \<and> total_at m k' \<le> b"
        using assms(1) by (simp add: counters_within_def)
      then show ?thesis using False by (simp add: failure_of_bump)
    qed
  qed
qed

text \<open>One rejected attempt: what happens to the counters of each key.\<close>

lemma bumps:
  assumes "counters_within b m" "0 \<le> b" "b + int (length ks) < 1000"
  shows "counters_within (b + int (length ks)) (foldl (bump_key t) m ks)
    \<and> total_at (foldl (bump_key t) m ks) k = total_at m k + int (count_list ks k)
    \<and> (k \<notin> set ks \<longrightarrow> failure_of (foldl (bump_key t) m ks) k = failure_of m k)
    \<and> (k \<in> set ks \<longrightarrow> minute_at (foldl (bump_key t) m ks) k = t
         \<and> (if minute_at m k = t then in_minute m k + 1 else 1) \<le> in_minute (foldl (bump_key t) m ks) k)"
  using assms
proof (induction ks arbitrary: m b)
  case (Cons x ks)
  note w = bump_within[OF Cons.prems(1,2), of t x]
  have b: "b < 1000" "b + 1 + int (length ks) < 1000" using Cons.prems(2,3) by simp_all
  have eq: "b + 1 + int (length ks) = b + int (length (x # ks))" by simp
  have b1: "0 \<le> b + 1" using Cons.prems(2) by simp
  note ih = Cons.IH[OF w(1)[OF b(1)] b1 b(2), unfolded eq]
  show ?case
  proof (cases "k = x")
    case True
    then show ?thesis using ih w(2-4)[OF b(1)] by (cases "x \<in> set ks") (simp_all split: if_splits)
  next
    case False
    then have "failure_of (bump_key t m x) k = failure_of m k" by (simp add: failure_of_bump)
    then show ?thesis using ih False by (simp split: if_splits)
  qed
qed simp

lemma check_allowed:
  assumes "check_failure m ip now = (f, None)"
  shows "total_at m ip \<le> 30" "\<not> (minute_of now = minute_at m ip \<and> 6 < in_minute m ip)"
    "k \<in> set (bump_keys ip) \<Longrightarrow> total_at m k \<le> 100"
    "get_ipv6_prefixes ip = Some (p64, p56, p48) \<Longrightarrow> total_at m p64 \<le> 60 \<and> total_at m p56 \<le> 80 \<and> total_at m p48 \<le> 100"
    "f = (failure_of m ip, minute_of now)"
  using assms
  by (auto simp: check_failure_def check_failure_ipv6_prefix_def check_own_address_def Let_def bump_keys_def
      split: option.splits if_splits)

text \<open>
  A run of wrong guesses, each from some address at some instant. The result is the guesses that
  were really compared with the password, oldest first.
\<close>

fun guess_run :: "(string \<times> int) list \<Rightarrow> failures \<Rightarrow> (string \<times> int) list \<times> failures" where
  "guess_run [] m = ([], m)"
| "guess_run ((ip, now) # gs) m =
     (let (res, m1) = password_attempt ip now False m; (rest, m2) = guess_run gs m1
      in (if res = Rejected then (ip, now) # rest else rest, m2))"

definition compared :: "(string \<times> int \<Rightarrow> bool) \<Rightarrow> (string \<times> int) list \<Rightarrow> int" where
  "compared P done = int (length (filter P done))"

lemma compared_snoc [simp]: "compared P (done @ [g]) = compared P done + (if P g then 1 else 0)"
  by (simp add: compared_def)

lemma compared_Nil [simp]: "compared P [] = 0"
  by (simp add: compared_def)

text \<open>Guesses that count towards a key, and those that use it as their /64, /56 or /48 prefix.\<close>

definition uses_key :: "string \<Rightarrow> string \<times> int \<Rightarrow> bool" where
  "uses_key k g \<longleftrightarrow> k \<in> set (bump_keys (fst g))"

definition uses_prefix :: "nat \<Rightarrow> string \<Rightarrow> string \<times> int \<Rightarrow> bool" where
  "uses_prefix n k g \<longleftrightarrow>
     (case get_ipv6_prefixes (fst g) of
        Some (p64, p56, p48) \<Rightarrow> (n = 64 \<and> k = p64) \<or> (n = 56 \<and> k = p56) \<or> (n = 48 \<and> k = p48)
      | None \<Rightarrow> False)"

definition prefix_limit :: "nat \<Rightarrow> int" where
  "prefix_limit n = (if n = 64 then 61 else if n = 56 then 81 else 101)"

lemma compared_mono: "(\<And>g. P g \<Longrightarrow> Q g) \<Longrightarrow> compared P xs \<le> compared Q xs"
  by (induction xs) (auto simp: compared_def)

lemma uses_own: "fst g = k \<Longrightarrow> uses_key k g" and uses_prefix_key: "uses_prefix n k g \<Longrightarrow> uses_key k g"
  by (auto simp: uses_key_def uses_prefix_def bump_keys_def split: option.splits)

text \<open>
  The counters bound what has been compared: every key's total counts at least the guesses that
  used it, and a guess is compared only below the limits.
\<close>

definition totals_inv :: "(string \<times> int) list \<Rightarrow> failures \<Rightarrow> bool" where
  "totals_inv done m \<longleftrightarrow> counters_within 104 m
     \<and> (\<forall>k. compared (uses_key k) done \<le> total_at m k)
     \<and> (\<forall>k. compared (\<lambda>g. fst g = k) done \<le> 31)
     \<and> (\<forall>n k. n \<in> {64, 56, 48} \<longrightarrow> compared (uses_prefix n k) done \<le> prefix_limit n)"

lemma rejected_step:
  assumes "password_attempt ip now False m = (res, m')"
  shows "if res = Rejected then check_failure m ip now = ((failure_of m ip, minute_of now), None)
      \<and> m' = foldl (bump_key (minute_of now)) m (bump_keys ip) else m' = m"
  using assms check_allowed(5)[of m ip now]
  by (auto simp: password_attempt_def update_failure_bumps split: prod.splits option.splits)

lemma within_after:
  assumes w: "counters_within 104 m" and ok: "check_failure m ip now = (f, None)"
    and m': "m' = foldl (bump_key t) m (bump_keys ip)"
  shows "counters_within 104 m'"
    and "total_at m' k = total_at m k + int (count_list (bump_keys ip) k)"
    and "k \<notin> set (bump_keys ip) \<Longrightarrow> failure_of m' k = failure_of m k"
    and "k \<in> set (bump_keys ip) \<Longrightarrow> minute_at m' k = t
      \<and> (if minute_at m k = t then in_minute m k + 1 else 1) \<le> in_minute m' k"
proof -
  have len: "int (length (bump_keys ip)) \<le> 4" using length_bump_keys[of ip] by simp
  note b = bumps[OF w, of "bump_keys ip" t, folded m']
  show tot: "total_at m' k = total_at m k + int (count_list (bump_keys ip) k)" for k using b len by simp
  show same: "k \<notin> set (bump_keys ip) \<Longrightarrow> failure_of m' k = failure_of m k" for k using b len by simp
  show "k \<in> set (bump_keys ip) \<Longrightarrow> minute_at m' k = t
      \<and> (if minute_at m k = t then in_minute m k + 1 else 1) \<le> in_minute m' k" using b len by simp
  have le: "total_at m' k \<le> 104" for k
  proof (cases "k \<in> set (bump_keys ip)")
    case True
    then show ?thesis
      using check_allowed(3)[OF ok True] tot[of k] count_le_length[of "bump_keys ip" k] len by linarith
  next
    case False
    then show ?thesis using same w by (simp add: counters_within_def)
  qed
  have "counters_within (104 + int (length (bump_keys ip))) m'" using b len by simp
  then show "counters_within 104 m'" using le by (simp add: counters_within_def)
qed

lemma totals_step:
  assumes inv: "totals_inv done m" and ok: "check_failure m ip now = (f, None)"
    and m': "m' = foldl (bump_key t) m (bump_keys ip)"
  shows "totals_inv (done @ [(ip, now)]) m'"
proof -
  have w: "counters_within 104 m" using inv by (simp add: totals_inv_def)
  note a = within_after[OF w ok m'] and c = check_allowed[OF ok]
  have tot: "compared (uses_key k) done \<le> total_at m k" for k using inv by (simp add: totals_inv_def)
  have "compared (uses_key k) (done @ [(ip, now)]) \<le> total_at m' k" for k
  proof (cases "k \<in> set (bump_keys ip)")
    case True
    then have "1 \<le> int (count_list (bump_keys ip) k)" using count_list_0_iff[of "bump_keys ip" k] by linarith
    then show ?thesis using tot[of k] a(2)[of k] True by (simp add: uses_key_def)
  next
    case False
    then show ?thesis using tot[of k] a(2)[of k] by (simp add: uses_key_def)
  qed
  moreover have "compared (\<lambda>g. fst g = k) (done @ [(ip, now)]) \<le> 31" for k
  proof (cases "k = ip")
    case True
    have "compared (\<lambda>g. fst g = ip) done \<le> compared (uses_key ip) done"
      by (rule compared_mono) (rule uses_own)
    then show ?thesis using tot[of ip] c(1) True by simp
  next
    case False
    then show ?thesis using inv by (auto simp: totals_inv_def)
  qed
  moreover have "compared (uses_prefix n k) (done @ [(ip, now)]) \<le> prefix_limit n" if "n \<in> {64, 56, 48}" for n k
  proof (cases "uses_prefix n k (ip, now)")
    case True
    then obtain p64 p56 p48 where p: "get_ipv6_prefixes ip = Some (p64, p56, p48)"
      "(n = 64 \<and> k = p64) \<or> (n = 56 \<and> k = p56) \<or> (n = 48 \<and> k = p48)"
      by (auto simp: uses_prefix_def split: option.splits)
    have "compared (uses_prefix n k) done \<le> total_at m k"
      by (rule order_trans[OF compared_mono tot]) (rule uses_prefix_key)
    then show ?thesis using True c(4)[OF p(1)] p(2) by (auto simp: prefix_limit_def)
  next
    case False
    then show ?thesis using inv that by (auto simp: totals_inv_def)
  qed
  ultimately show ?thesis using a(1) by (auto simp: totals_inv_def)
qed

text \<open>The minute's counter: at most seven comparisons per address and minute, while time does not go back.\<close>

definition at_minute :: "string \<Rightarrow> int \<Rightarrow> string \<times> int \<Rightarrow> bool" where
  "at_minute k u g \<longleftrightarrow> fst g = k \<and> minute_of (snd g) = u"

definition minute_inv :: "int \<Rightarrow> (string \<times> int) list \<Rightarrow> failures \<Rightarrow> bool" where
  "minute_inv now done m \<longleftrightarrow> counters_within 104 m \<and> 0 \<le> now \<and> (\<forall>k. minute_at m k \<le> now)
     \<and> (\<forall>k u. compared (at_minute k u) done \<le> 7
          \<and> (0 < compared (at_minute k u) done \<longrightarrow> u \<le> minute_at m k)
          \<and> (u = minute_at m k \<longrightarrow> compared (at_minute k u) done \<le> in_minute m k))"

lemma minute_step:
  assumes inv: "minute_inv t0 done m" and t: "t0 \<le> minute_of now" and ok: "check_failure m ip now = (f, None)"
    and m': "m' = foldl (bump_key (minute_of now)) m (bump_keys ip)"
  shows "minute_inv (minute_of now) (done @ [(ip, now)]) m'"
proof -
  let ?u = "minute_of now" and ?d = "done @ [(ip, now)]"
  have w: "counters_within 104 m" using inv by (simp add: minute_inv_def)
  note a = within_after[OF w ok m'] and c = check_allowed(2)[OF ok]
  have old: "compared (at_minute k u) done \<le> 7" "0 < compared (at_minute k u) done \<Longrightarrow> u \<le> minute_at m k"
    "u = minute_at m k \<Longrightarrow> compared (at_minute k u) done \<le> in_minute m k" "minute_at m k \<le> t0" for k u
    using inv by (simp_all add: minute_inv_def)
  have nn: "0 \<le> compared P xs" for P xs by (simp add: compared_def)
  have zero: "compared (at_minute k ?u) done = 0" if "minute_at m k \<noteq> ?u" for k
    using old(2)[of k ?u] old(4)[of k] t that nn[of "at_minute k ?u" "done"] by linarith
  have new: "compared (at_minute k u) ?d = compared (at_minute k u) done + (if k = ip \<and> u = ?u then 1 else 0)" for k u
    by (auto simp: at_minute_def)
  have main: "compared (at_minute k u) ?d \<le> 7 \<and> (0 < compared (at_minute k u) ?d \<longrightarrow> u \<le> minute_at m' k)
      \<and> (u = minute_at m' k \<longrightarrow> compared (at_minute k u) ?d \<le> in_minute m' k) \<and> minute_at m' k \<le> ?u" for k u
  proof (cases "k \<in> set (bump_keys ip)")
    case True
    have mk: "minute_at m' k = ?u" "(if minute_at m k = ?u then in_minute m k + 1 else 1) \<le> in_minute m' k"
      using a(4)[OF True] by simp_all
    have le7: "compared (at_minute k u) ?d \<le> 7"
    proof (cases "k = ip \<and> u = ?u")
      case True
      then show ?thesis using new[of k u] old(3)[of u k] zero[of k] c by (cases "minute_at m k = ?u") auto
    next
      case False
      then show ?thesis using new[of k u] old(1)[of k u] by auto
    qed
    have "compared (at_minute k ?u) ?d \<le> in_minute m' k"
      using new[of k ?u] old(3)[of ?u k] zero[of k] mk(2) by (cases "minute_at m k = ?u") auto
    moreover have "0 < compared (at_minute k u) ?d \<Longrightarrow> u \<le> ?u"
      using new[of k u] old(2)[of k u] old(4)[of k] t by (auto split: if_splits)
    ultimately show ?thesis using le7 mk(1) by auto
  next
    case False
    then have "k \<noteq> ip" by auto
    then show ?thesis using a(3)[OF False] new[of k u] old(1)[of k u] old(2)[of k u] old(3)[of u k] old(4)[of k] t by auto
  qed
  have "0 \<le> ?u" using inv t by (simp add: minute_inv_def)
  then show ?thesis using a(1) main by (simp add: minute_inv_def)
qed

lemma guess_run_inv:
  assumes "totals_inv done m"
  shows "totals_inv (done @ fst (guess_run gs m)) (snd (guess_run gs m))"
  using assms
proof (induction gs arbitrary: "done" m)
  case (Cons g gs)
  obtain ip now where g: "g = (ip, now)" by fastforce
  obtain res m1 where r: "password_attempt ip now False m = (res, m1)" by fastforce
  note st = rejected_step[OF r]
  show ?case
  proof (cases "res = Rejected")
    case True
    then have "totals_inv (done @ [(ip, now)]) m1" using st totals_step[OF Cons.prems] by simp
    from Cons.IH[OF this] show ?thesis using True by (simp add: g r case_prod_beta Let_def)
  next
    case False
    then show ?thesis using st Cons.IH[OF Cons.prems] by (simp add: g r case_prod_beta Let_def)
  qed
qed simp

lemma guess_run_minutes:
  assumes "minute_inv t0 done m" "sorted (t0 # map (\<lambda>g. minute_of (snd g)) gs)"
  shows "\<exists>t. minute_inv t (done @ fst (guess_run gs m)) (snd (guess_run gs m))"
  using assms
proof (induction gs arbitrary: "done" m t0)
  case (Cons g gs)
  obtain ip now where g: "g = (ip, now)" by fastforce
  obtain res m1 where r: "password_attempt ip now False m = (res, m1)" by fastforce
  note st = rejected_step[OF r]
  have t: "t0 \<le> minute_of now" "sorted (minute_of now # map (\<lambda>g. minute_of (snd g)) gs)" "sorted (t0 # map (\<lambda>g. minute_of (snd g)) gs)"
    using Cons.prems(2) g by auto
  show ?case
  proof (cases "res = Rejected")
    case True
    then have "minute_inv (minute_of now) (done @ [(ip, now)]) m1" using st minute_step[OF Cons.prems(1) t(1)] by simp
    from Cons.IH[OF this t(2)] show ?thesis using True by (simp add: g r case_prod_beta Let_def)
  next
    case False
    then show ?thesis using st Cons.IH[OF Cons.prems(1) t(3)] by (simp add: g r case_prod_beta Let_def)
  qed
qed auto

lemma totals_inv_init: "totals_inv [] []" and minute_inv_init: "minute_inv 0 [] []"
  by (auto simp: totals_inv_def minute_inv_def counters_within_def failure_of_def prefix_limit_def)

section \<open>The backoff as a state machine\<close>

text \<open>
  The policy's state with the clock of its last use; the clock does not go back. A step consults
  the policy or records a failure, for either scope.
\<close>

inductive os_step :: "os_failure_state \<times> int \<Rightarrow> os_failure_state \<times> int \<Rightarrow> bool" where
  os_evaluate: "c \<le> now \<Longrightarrow> os_step (st, c) (snd (evaluate_os_credential_policy scope now st), now)"
| os_record: "c \<le> now \<Longrightarrow> os_step (st, c) (record_os_credential_failure scope now st, now)"

definition os_init :: "os_failure_state \<times> int \<Rightarrow> bool" where
  "os_init q \<longleftrightarrow> fst q = os_failure_default"

abbreviation backoff :: "int \<Rightarrow> int" where "backoff \<equiv> os_credential_login_backoff_seconds"

fun os_ok :: "os_failure_state \<times> int \<Rightarrow> bool" where
  "os_ok (st, c) =
     (case last_failure_ms st of
        None \<Rightarrow> total_failures st = 0 \<and> backoff_until_ms st = None
      | Some l \<Rightarrow> l \<le> c \<and> 1 \<le> total_failures st \<and> total_failures st < 2 ^ 31 \<and>
          (case backoff_until_ms st of
             None \<Rightarrow> l + 1000 * backoff (total_failures st) \<le> c
           | Some u \<Rightarrow> 3 \<le> total_failures st \<and> u = l + 1000 * backoff (total_failures st)))"

lemma backoff_range: "0 \<le> backoff n" "backoff n \<le> 1800" "0 < backoff n \<longleftrightarrow> 3 \<le> n"
  by (auto simp: os_credential_login_backoff_seconds_def Let_def
      OS_CREDENTIAL_LOGIN_BACKOFF_BASE_SECONDS_def OS_CREDENTIAL_LOGIN_BACKOFF_MAX_SECONDS_def)

lemma os_ok_default [simp]: "os_ok (os_failure_default, c)"
  by (simp add: os_failure_default_def)

lemma os_ok_reset: "os_ok (st, c) \<Longrightarrow> os_ok (reset_totals_on_idle now st, c)"
  by (auto simp: reset_totals_on_idle_def simp del: os_ok.simps split: option.split)

lemma os_ok_normalize: "os_ok (st, c) \<Longrightarrow> c \<le> now \<Longrightarrow> os_ok (normalize_backoff now st, now)"
  by (auto simp: normalize_backoff_def split: option.splits)

lemma os_ok_evaluate: "os_ok (st, c) \<Longrightarrow> c \<le> now \<Longrightarrow> os_ok (snd (evaluate_os_credential_policy scope now st), now)"
  using os_ok_normalize[OF os_ok_reset, of st c now now]
  by (auto simp: evaluate_os_credential_policy_def Let_def split: option.splits)

lemma os_ok_record:
  assumes "os_ok (st, c)" "c \<le> now"
  shows "os_ok (record_os_credential_failure scope now st, now)"
proof (cases "is_os_credential_scope scope")
  case True
  define st1 where "st1 = normalize_backoff now (reset_totals_on_idle now st)"
  have ok: "os_ok (st1, now)" unfolding st1_def using assms by (intro os_ok_normalize os_ok_reset)
  then have tot: "0 \<le> total_failures st1" "total_failures st1 < 2 ^ 31" by (auto split: option.splits)
  define n where "n = clamp_i32 (total_failures st1 + 1)"
  have n: "1 \<le> n" "n < 2 ^ 31" "total_failures st1 \<le> n" using tot by (auto simp: n_def clamp_i32_def)
  have none: "n \<le> 2 \<Longrightarrow> backoff_until_ms st1 = None" using ok n(3) by (auto split: option.splits)
  have "record_os_credential_failure scope now st =
      (if 3 \<le> n then st1\<lparr>total_failures := n, last_failure_ms := Some now, backoff_until_ms := Some (now + backoff n * 1000)\<rparr>
       else st1\<lparr>total_failures := n, last_failure_ms := Some now\<rparr>)"
    using True backoff_range(3)[of n] by (simp add: record_os_credential_failure_def Let_def st1_def[symmetric] n_def[symmetric])
  then show ?thesis using n none backoff_range(1,3)[of n] by (auto simp: not_le)
next
  case False
  then show ?thesis using assms by (auto simp: record_os_credential_failure_def split: option.splits)
qed

interpretation os: inductive_invariant os_init os_step os_ok
proof
  fix s t assume "os_ok s" "os_step s t"
  from this(2,1) show "os_ok t"
    by (induction rule: os_step.induct) (simp_all only: os_ok_evaluate os_ok_record)
qed (metis os_init_def os_ok_default prod.collapse)

text \<open>What the policy answers in a well-formed state.\<close>

lemma evaluate_answer:
  assumes ok: "os_ok (st, c)" and now: "c \<le> now"
  shows "fst (evaluate_os_credential_policy TerminalOsLogin now st) =
    (case last_failure_ms st of
       Some l \<Rightarrow>
         if l + 1000 * backoff (total_failures st) \<le> now then allow_decision
         else let n = remaining_seconds (l + 1000 * backoff (total_failures st)) now in
           block_decision (''Please try again in '' @ show_int n @ '' '' @ (if n = 1 then ''second'' else ''seconds'') @ ''.'')
             (Some TerminalOsLoginBackoff)
     | None \<Rightarrow> allow_decision)"
proof (cases "last_failure_ms st")
  case None
  then show ?thesis using ok
    by (simp add: evaluate_os_credential_policy_def is_os_credential_scope_def reset_totals_on_idle_def normalize_backoff_def)
next
  case (Some l)
  have idle: "7200000 \<le> clamp_i64 (now - l) \<longleftrightarrow> 7200000 \<le> now - l" by (auto simp: clamp_i64_def)
  have "backoff (total_failures st) \<le> 1800" by (rule backoff_range)
  then show ?thesis using ok now Some idle
    by (auto simp: evaluate_os_credential_policy_def is_os_credential_scope_def reset_totals_on_idle_def
        normalize_backoff_def OS_CREDENTIAL_LOGIN_TOTAL_IDLE_RESET_MS_def os_failure_default_def Let_def split: option.splits)
qed

lemma remaining_seconds_exact:
  assumes "now < u" "n = remaining_seconds u now"
  shows "1 \<le> n" "u \<le> now + 1000 * n" "now + 1000 * (n - 1) < u"
proof -
  have "n = (u - now + 999) div 1000" using assms by (auto simp: remaining_seconds_def Let_def)
  then have "u - now + 999 = 1000 * n + (u - now + 999) mod 1000" by simp
  moreover have "0 \<le> (u - now + 999) mod 1000" "(u - now + 999) mod 1000 < 1000" by simp_all
  ultimately show "1 \<le> n" "u \<le> now + 1000 * n" "now + 1000 * (n - 1) < u" using assms(1) by auto
qed

section \<open>Runs against the temporary password\<close>

text \<open>
  A run of wrong attempts: the password each was compared with. The rotations take their
  passwords from a supply.
\<close>

fun temp_run :: "nat \<Rightarrow> (nat \<Rightarrow> string) \<Rightarrow> nat \<Rightarrow> string \<Rightarrow> temp_state \<Rightarrow> string list" where
  "temp_run 0 pws j pw st = []"
| "temp_run (Suc k) pws j pw st =
     (case check_update_temporary_password True False pw (pws j) st of
        (st', pw') \<Rightarrow> pw # temp_run k pws (Suc j) pw' st')"

text \<open>Failures already counted against the current password.\<close>

definition temp_count :: "string \<Rightarrow> temp_state \<Rightarrow> int" where
  "temp_count pw st = (if tp_password st = pw then tp_failures st else 0)"

lemma temp_step:
  assumes "pw \<noteq> []" "0 \<le> temp_count pw st" "temp_count pw st < 10"
    and "check_update_temporary_password True False pw f st = (st', pw')"
  shows "(temp_count pw st < 9 \<and> pw' = pw \<and> temp_count pw st' = temp_count pw st + 1)
    \<or> (temp_count pw st = 9 \<and> pw' = f \<and> temp_count f st' = 0)"
  using assms by (auto simp: check_update_temporary_password_def temp_count_def Let_def MAX_CONSECUTIVE_FAILURES_def
      split: if_splits)

lemma temp_run_other:
  assumes "\<And>i. j \<le> i \<Longrightarrow> pws i \<noteq> q \<and> pws i \<noteq> []" "pw \<noteq> q" "pw \<noteq> []"
    "0 \<le> temp_count pw st" "temp_count pw st < 10"
  shows "count_list (temp_run k pws j pw st) q = 0"
  using assms
proof (induction k arbitrary: j pw st)
  case (Suc k)
  obtain st' pw' where e: "check_update_temporary_password True False pw (pws j) st = (st', pw')" by fastforce
  have "pw' \<noteq> q \<and> pw' \<noteq> [] \<and> 0 \<le> temp_count pw' st' \<and> temp_count pw' st' < 10"
    using temp_step[OF Suc.prems(3-5) e] Suc.prems by auto
  then show ?case using Suc.IH[of "Suc j" pw' st'] Suc.prems e by simp
qed simp

lemma temp_run_count:
  assumes "\<And>i. j \<le> i \<Longrightarrow> pws i \<noteq> pw \<and> pws i \<noteq> []" "pw \<noteq> []" "0 \<le> temp_count pw st" "temp_count pw st < 10"
  shows "int (count_list (temp_run k pws j pw st) pw) \<le> 10 - temp_count pw st"
  using assms
proof (induction k arbitrary: j st)
  case (Suc k)
  obtain st' pw' where e: "check_update_temporary_password True False pw (pws j) st = (st', pw')" by fastforce
  from temp_step[OF Suc.prems(2-4) e] show ?case
  proof
    assume a: "temp_count pw st < 9 \<and> pw' = pw \<and> temp_count pw st' = temp_count pw st + 1"
    then show ?thesis using Suc.IH[of "Suc j" st'] Suc.prems e by simp
  next
    assume a: "temp_count pw st = 9 \<and> pw' = pws j \<and> temp_count (pws j) st' = 0"
    have "count_list (temp_run k pws (Suc j) pw' st') pw = 0"
      by (rule temp_run_other) (use a Suc.prems in auto)
    then show ?thesis using a e by simp
  qed
qed simp

section \<open>Properties\<close>

text \<open>
  guessing is bounded per address and per IPv6 network. In any run of wrong passwords, from any
  mix of addresses and at any times, at most 31 guesses from one address are ever compared with
  the password, at most 61 from one /64 network, 81 from one /56 and 101 from one /48; the others
  are refused without a comparison.
\<close>

theorem guesses_bounded:
  "let done = fst (guess_run gs []) in
     compared (\<lambda>g. fst g = ip) done \<le> 31 \<and> compared (uses_prefix 64 k) done \<le> 61
   \<and> compared (uses_prefix 56 k) done \<le> 81 \<and> compared (uses_prefix 48 k) done \<le> 101"
  using guess_run_inv[OF totals_inv_init, of gs] by (simp add: totals_inv_def prefix_limit_def Let_def)



text \<open>
  the backoff of operating-system logins is exact. In every state the policy can reach while
  the clock does not go back, an attempt is allowed if and only if the last failure is older than
  the backoff its count demands; a refused attempt is told a number of seconds between 1 and 1800,
  waiting that long is enough, and waiting one second less is not.
\<close>

theorem os_backoff_exact:
  assumes "reach os_init os_step (st, c)" "c \<le> now" "last_failure_ms st = Some l"
    and u: "u = l + 1000 * os_credential_login_backoff_seconds (total_failures st)"
  shows "(allowed (fst (evaluate_os_credential_policy TerminalOsLogin now st)) \<longleftrightarrow> u \<le> now)
    \<and> (now < u \<longrightarrow> (\<exists>n. 1 \<le> n \<and> n \<le> 1800 \<and> u \<le> now + 1000 * n \<and> now + 1000 * (n - 1) < u
         \<and> login_error (fst (evaluate_os_credential_policy TerminalOsLogin now st)) =
             Some (''Please try again in '' @ show_int n @ '' '' @ (if n = 1 then ''second'' else ''seconds'') @ ''.'')))"
proof -
  have ok: "os_ok (st, c)" using os.reach_inv[OF assms(1)] .
  note e = evaluate_answer[OF ok assms(2), unfolded assms(3), simplified option.case u[symmetric]]
  have "l \<le> now" using ok assms(2,3) by simp
  then have "u \<le> now + 1800000" using backoff_range(2)[of "total_failures st"] u by simp
  then have "remaining_seconds u now \<le> 1800" if "now < u"
    using remaining_seconds_exact(3)[OF that refl] unfolding right_diff_distrib by linarith
  then show ?thesis using e remaining_seconds_exact[of now u, OF _ refl]
    by (auto simp: allow_decision_def block_decision_def Let_def intro!: exI[of _ "remaining_seconds u now"])
qed

text \<open>Three failures in a row; the next attempt, ten seconds later, has five seconds to wait.\<close>

definition os_three :: os_failure_state where
  "os_three = foldl (\<lambda>st now. record_os_credential_failure TerminalOsLogin now st) os_failure_default [0, 1000, 2000]"

theorem os_backoff_exact_witness:
  "\<not> allowed (fst (evaluate_os_credential_policy TerminalOsLogin 12000 os_three))
   \<and> (\<exists>n :: int. 1 \<le> n \<and> 17000 \<le> 12000 + 1000 * n \<and> 12000 + 1000 * (n - 1) < 17000)"
proof -
  let ?r = "record_os_credential_failure TerminalOsLogin"
  have "reach os_init os_step (os_failure_default, 0)" by (rule reach_init) (simp add: os_init_def)
  then have "reach os_init os_step (?r 0 os_failure_default, 0)" by (rule reach_step) (rule os_record, simp)
  then have "reach os_init os_step (?r 1000 (?r 0 os_failure_default), 1000)" by (rule reach_step) (rule os_record, simp)
  then have "reach os_init os_step (?r 2000 (?r 1000 (?r 0 os_failure_default)), 2000)"
    by (rule reach_step) (rule os_record, simp)
  then have r: "reach os_init os_step (os_three, 2000)" by (simp add: os_three_def)
  have three: "os_three = \<lparr>total_failures = 3, backoff_until_ms = Some 17000, last_failure_ms = Some 2000\<rparr>"
    by (simp add: os_three_def record_os_credential_failure_def is_os_credential_scope_def os_failure_default_def
        reset_totals_on_idle_def normalize_backoff_def Let_def clamp_i32_def clamp_i64_def
        OS_CREDENTIAL_LOGIN_TOTAL_IDLE_RESET_MS_def os_credential_login_backoff_seconds_def
        OS_CREDENTIAL_LOGIN_BACKOFF_BASE_SECONDS_def OS_CREDENTIAL_LOGIN_BACKOFF_MAX_SECONDS_def)
  have u: "(17000 :: int) = 2000 + 1000 * os_credential_login_backoff_seconds (total_failures os_three)"
    by (simp add: three os_credential_login_backoff_seconds_def
        OS_CREDENTIAL_LOGIN_BACKOFF_BASE_SECONDS_def OS_CREDENTIAL_LOGIN_BACKOFF_MAX_SECONDS_def)
  from os_backoff_exact[OF r _ _ u, of 12000] show ?thesis by (auto simp: three)
qed

text \<open>
  a temporary password survives at most ten wrong attempts. In any run of wrong attempts, as
  long as a rotation never brings back a password already in use, no password value is compared
  more than ten times before it is replaced.
\<close>

theorem temporary_password_ten_guesses:
  assumes "pw \<noteq> []" "tp_password st \<noteq> pw" "\<And>i. pws i \<noteq> pw \<and> pws i \<noteq> []"
  shows "count_list (temp_run k pws 0 pw st) pw \<le> 10"
  using temp_run_count[of 0 pws pw st k] assms by (simp add: temp_count_def)

theorem temporary_password_ten_guesses_witness:
  "count_list (temp_run 12 (\<lambda>i. CHR ''n'' # show_nat i) 0 ''abc'' \<lparr>tp_password = [], tp_failures = 0\<rparr>) ''abc'' \<le> 10"
  by (rule temporary_password_ten_guesses) simp_all

end
