(* ===== verification/F32.thy ===== *)
theory F32
  imports Complex_Main
begin

text \<open>
  The \<open>f32\<close> arithmetic of the bitrate controller. The controller only ever meets finite,
  non-negative, normal values, so a value is the rational it stands for and every operation is the
  exact one followed by rounding to 24 significant bits, ties to even, as IEEE 754 prescribes.
\<close>

section \<open>Rounding\<close>

type_synonym f32 = rat

text \<open>The binary exponent, found by halving and doubling; the fuel covers every \<open>f32\<close>.\<close>

fun f32_exp :: "nat \<Rightarrow> rat \<Rightarrow> int" where
  "f32_exp 0 x = 0"
| "f32_exp (Suc n) x = (if 2 \<le> x then f32_exp n (x / 2) + 1 else if x < 1 then f32_exp n (x * 2) - 1 else 0)"

definition round_even :: "rat \<Rightarrow> int" where
  "round_even x =
     (let n = \<lfloor>x\<rfloor>; d = x - of_int n in
      if d < 1 / 2 then n else if 1 / 2 < d then n + 1 else if even n then n else n + 1)"

text \<open>\<open>2\<close> to an integer power, computing.\<close>

definition pow2 :: "int \<Rightarrow> rat" where
  "pow2 e = (if 0 \<le> e then 2 ^ nat e else 1 / 2 ^ nat (- e))"

definition f32_round :: "rat \<Rightarrow> f32" where
  "f32_round x =
     (if x \<le> 0 then 0
      else let s = pow2 (23 - f32_exp 200 x) in of_int (round_even (x * s)) / s)"

definition f32_add :: "f32 \<Rightarrow> f32 \<Rightarrow> f32" where "f32_add x y = f32_round (x + y)"
definition f32_mul :: "f32 \<Rightarrow> f32 \<Rightarrow> f32" where "f32_mul x y = f32_round (x * y)"
definition f32_div :: "f32 \<Rightarrow> f32 \<Rightarrow> f32" where "f32_div x y = f32_round (x / y)"
definition f32_of_nat :: "nat \<Rightarrow> f32" where "f32_of_nat n = f32_round (of_nat n)"

text \<open>\<open>f32::ceil() as u32\<close>, which saturates.\<close>

definition f32_ceil_u32 :: "f32 \<Rightarrow> nat" where
  "f32_ceil_u32 x = min (nat \<lceil>x\<rceil>) (2 ^ 32 - 1)"

text \<open>\<open>clamp\<close> of the standard library panics when its bounds are crossed: \<open>None\<close>.\<close>

definition clamp :: "'a::linorder \<Rightarrow> 'a \<Rightarrow> 'a \<Rightarrow> 'a option" where
  "clamp lo hi x = (if lo \<le> hi then Some (if x < lo then lo else if hi < x then hi else x) else None)"

lemma clamp_Some: "lo \<le> hi \<Longrightarrow> \<exists>y. clamp lo hi x = Some y \<and> lo \<le> y \<and> y \<le> hi"
  by (auto simp: clamp_def not_less)

lemma clampD: "clamp lo hi x = Some y \<Longrightarrow> lo \<le> y \<and> y \<le> hi"
  by (auto simp: clamp_def split: if_splits)

section \<open>The rounding error\<close>

lemma pow2_pos [simp]: "0 < pow2 e"
  by (simp add: pow2_def)

lemma pow2_Suc: "pow2 (e + 1) = 2 * pow2 e"
proof (cases "0 \<le> e")
  case True
  then show ?thesis by (simp add: pow2_def nat_add_distrib)
next
  case False
  then have "nat (- e) = Suc (nat (- (e + 1)))" by simp
  then show ?thesis using False by (auto simp: pow2_def)
qed

lemma pow2_pred: "pow2 (e - 1) = pow2 e / 2"
  using pow2_Suc[of "e - 1"] by simp

lemma pow2_add_nat: "pow2 (a + int n) = pow2 a * 2 ^ n"
proof (induction n)
  case (Suc n)
  have "pow2 (a + int (Suc n)) = pow2 ((a + int n) + 1)" by (simp add: ac_simps)
  then show ?case using Suc pow2_Suc by simp
qed simp

lemma pow2_add: "pow2 (a + b) = pow2 a * pow2 b"
proof (cases "0 \<le> b")
  case True
  then show ?thesis using pow2_add_nat[of a "nat b"] by (simp add: pow2_def)
next
  case False
  have "pow2 ((a + b) + int (nat (- b))) = pow2 (a + b) * 2 ^ nat (- b)" by (rule pow2_add_nat)
  then show ?thesis using False by (simp add: pow2_def[of b] field_simps)
qed

lemma pow2_mono: "a \<le> b \<Longrightarrow> pow2 a \<le> pow2 b"
  using pow2_add_nat[of a "nat (b - a)"] mult_left_mono[of 1 "2 ^ nat (b - a)" "pow2 a"] pow2_pos[of a] by simp

lemma f32_exp_correct:
  "pow2 e \<le> x \<Longrightarrow> x < pow2 (e + 1) \<Longrightarrow> nat \<bar>e\<bar> < n \<Longrightarrow> f32_exp n x = e"
proof (induction n arbitrary: e x)
  case (Suc n)
  consider "e = 0" | "1 \<le> e" | "e \<le> - 1" by linarith
  then show ?case
  proof cases
    case 1
    then show ?thesis using Suc.prems by (simp add: pow2_def)
  next
    case 2
    then have "2 \<le> x" using pow2_mono[of 1 e] Suc.prems(1) by (simp add: pow2_def)
    moreover have "f32_exp n (x / 2) = e - 1"
      by (rule Suc.IH) (use Suc.prems 2 pow2_pred[of e] pow2_Suc[of e] in \<open>auto simp: field_simps\<close>)
    ultimately show ?thesis by simp
  next
    case 3
    then have "x < 1" using pow2_mono[of "e + 1" 0] Suc.prems(2) by (simp add: pow2_def[of 0])
    moreover have "f32_exp n (x * 2) = e + 1"
      by (rule Suc.IH) (use Suc.prems 3 pow2_Suc[of e] pow2_Suc[of "e + 1"] in auto)
    ultimately show ?thesis by simp
  qed
qed simp

lemma round_even_error: "\<bar>of_int (round_even x) - x\<bar> \<le> 1 / 2"
proof -
  have "of_int \<lfloor>x\<rfloor> \<le> x" "x < of_int \<lfloor>x\<rfloor> + 1" by linarith+
  then show ?thesis by (auto simp: round_even_def Let_def abs_le_iff)
qed

lemma round_even_int [simp]: "round_even (of_int n) = n"
  by (simp add: round_even_def)

text \<open>A value with its exponent in range is rounded with a relative error of at most \<open>2 ^ -24\<close>.\<close>

lemma f32_round_error:
  assumes "pow2 e \<le> x" "x < pow2 (e + 1)" "\<bar>e\<bar> < 200"
  shows "\<bar>f32_round x - x\<bar> \<le> x / 2 ^ 24"
proof -
  define s where "s = pow2 (23 - e)"
  have s: "0 < s" by (simp add: s_def)
  have x: "0 < x" using assms(1) pow2_pos[of e] by linarith
  have "f32_exp 200 x = e" by (rule f32_exp_correct) (use assms in auto)
  then have r: "f32_round x = of_int (round_even (x * s)) / s" using x by (simp add: f32_round_def s_def Let_def)
  have one: "pow2 e * s = 2 ^ 23" using pow2_add[of e "23 - e"] by (simp add: s_def pow2_def[of 23])
  have "f32_round x - x = (of_int (round_even (x * s)) - x * s) / s"
    using s by (simp add: r diff_divide_distrib)
  then have "\<bar>f32_round x - x\<bar> \<le> (1 / 2) / s"
    using divide_right_mono[OF round_even_error[of "x * s"], of s] s by (simp add: abs_divide)
  also have "\<dots> = pow2 e / 2 ^ 24" using one s by (simp add: divide_eq_eq eq_divide_eq)
  also have "\<dots> \<le> x / 2 ^ 24" using assms(1) by simp
  finally show ?thesis .
qed

lemma f32_round_small:
  assumes "1 / 8 \<le> x" "x < 64"
  shows "\<bar>f32_round x - x\<bar> \<le> x / 2 ^ 24"
proof -
  have p: "pow2 (- 3) = 1 / 8" "pow2 (- 2) = 1 / 4" "pow2 (- 1) = 1 / 2" "pow2 0 = 1" "pow2 1 = 2"
    "pow2 2 = 4" "pow2 3 = 8" "pow2 4 = 16" "pow2 5 = 32" "pow2 6 = 64"
    by (simp_all add: pow2_def)
  consider "x < 1 / 4" | "1 / 4 \<le> x" "x < 1 / 2" | "1 / 2 \<le> x" "x < 1" | "1 \<le> x" "x < 2" | "2 \<le> x" "x < 4"
    | "4 \<le> x" "x < 8" | "8 \<le> x" "x < 16" | "16 \<le> x" "x < 32" | "32 \<le> x"
    by linarith
  then show ?thesis
    using f32_round_error[of "- 3" x] f32_round_error[of "- 2" x] f32_round_error[of "- 1" x] f32_round_error[of 0 x]
      f32_round_error[of 1 x] f32_round_error[of 2 x] f32_round_error[of 3 x] f32_round_error[of 4 x]
      f32_round_error[of 5 x] assms
    by cases (simp_all add: p)
qed

text \<open>Rounding does not pass the bound 40, which it represents.\<close>

lemma round_even_le: "x \<le> of_int n \<Longrightarrow> round_even x \<le> n"
proof (cases "x = of_int n")
  case False
  assume "x \<le> of_int n"
  then have "\<lfloor>x\<rfloor> < n" using False by (simp add: floor_less_iff)
  then show ?thesis by (auto simp: round_even_def Let_def)
qed simp

lemma f32_round_le_40:
  assumes "1 / 8 \<le> x" "x \<le> 40"
  shows "f32_round x \<le> 40"
proof (cases "32 \<le> x")
  case True
  have "f32_exp 200 x = 5" by (rule f32_exp_correct) (use True assms in \<open>simp_all add: pow2_def\<close>)
  then have r: "f32_round x = of_int (round_even (x * 262144)) / 262144"
    using True by (simp add: f32_round_def Let_def pow2_def)
  have "round_even (x * 262144) \<le> 10485760" by (rule round_even_le) (use assms in simp)
  then have "(of_int (round_even (x * 262144)) :: rat) \<le> of_int 10485760" by (simp only: of_int_le_iff)
  then show ?thesis unfolding r by simp
next
  case False
  then have "x < 64" by simp
  then have "f32_round x - x \<le> x / 2 ^ 24" using abs_le_D1[OF f32_round_small[OF assms(1)]] by blast
  then have "f32_round x \<le> x + x / 16777216" by simp
  then show ?thesis using False by linarith
qed

end
