(* ===== verification/Qos_Delay.thy ===== *)
theory Qos_Delay
  imports BGDesk_Prelude F32
begin

text \<open>
  One viewer's share of the video quality controller (\<open>src/server/video_qos.rs\<close>): the baseline of
  its round-trip delay, the confirmation counters, and the bounded reductions, recoveries and
  accelerations of its frame rate. A \<open>u32\<close> is a natural number, and every unchecked addition is
  reduced modulo \<open>2 ^ 32\<close>.
\<close>

section \<open>Constants\<close>

definition u32_add :: "nat \<Rightarrow> nat \<Rightarrow> nat" where "u32_add a b = (a + b) mod 2 ^ 32"

definition FPS :: nat where "FPS = 30"
definition MIN_FPS :: nat where "MIN_FPS = 1"
definition MAX_FPS :: nat where "MAX_FPS = 120"
definition INIT_FPS :: nat where "INIT_FPS = 15"
definition MIN_AUTO_FPS :: nat where "MIN_AUTO_FPS = 5"
definition HISTORY_DELAY_LEN :: nat where "HISTORY_DELAY_LEN = 2"
definition DELAY_THRESHOLD_150MS :: nat where "DELAY_THRESHOLD_150MS = 150"
definition RESTORE_GUARD_SAMPLES :: nat where "RESTORE_GUARD_SAMPLES = 5"
definition WINDOW_SAMPLES :: nat where "WINDOW_SAMPLES = 20"
definition MAX_INCREASE_MS :: nat where "MAX_INCREASE_MS = 50"
definition U8_MAX :: nat where "U8_MAX = 255"

lemmas fps_consts = FPS_def MIN_FPS_def MAX_FPS_def INIT_FPS_def MIN_AUTO_FPS_def

section \<open>The delay baseline\<close>

record rtt_calculator =
  baseline :: "nat option"
  samples :: "nat list"

definition rtt_new :: rtt_calculator where "rtt_new = \<lparr>baseline = None, samples = []\<rparr>"

text \<open>\<open>VecDeque\<close> used as a bounded history: the oldest goes when it is full.\<close>

definition push_bounded :: "nat \<Rightarrow> nat \<Rightarrow> nat list \<Rightarrow> nat list" where
  "push_bounded cap x xs = (if cap \<le> length xs then tl xs else xs) @ [x]"

fun min_opt :: "nat list \<Rightarrow> nat option" where
  "min_opt [] = None"
| "min_opt (x # xs) = Some (fold min xs x)"

definition rtt_update :: "nat \<Rightarrow> rtt_calculator \<Rightarrow> rtt_calculator" where
  "rtt_update delay r0 =
     (let xs = push_bounded WINDOW_SAMPLES delay (samples r0);
          b = min (case baseline r0 of Some b \<Rightarrow> b | None \<Rightarrow> delay) delay;
          r = \<lparr>baseline = Some b, samples = xs\<rparr>;
          half = WINDOW_SAMPLES div 2
      in if length xs < WINDOW_SAMPLES then r
         else case (min_opt (take half xs), min_opt (drop half xs)) of
           (Some older_min, Some recent_min) \<Rightarrow>
             if min (older_min + 10) (2 ^ 32 - 1) < recent_min then r
             else
               let rise = min older_min recent_min - b in
               if 0 < rise then
                 r\<lparr>baseline := Some (u32_add b (max 1 (min (rise div 2) MAX_INCREASE_MS)))\<rparr>
               else r
         | _ \<Rightarrow> r)"

abbreviation get_rtt :: "rtt_calculator \<Rightarrow> nat" where
  "get_rtt r \<equiv> (case baseline r of Some b \<Rightarrow> b | None \<Rightarrow> 0)"

section \<open>A viewer's delay record\<close>

record user_delay =
  stall_ticks :: nat
  delay_history :: "nat list"
  ud_fps :: "nat option"
  rtt_calc :: rtt_calculator
  quick_increase_fps_count :: nat
  increase_fps_count :: nat
  consecutive_bad_samples :: nat
  fps_bad_samples :: nat
  good_samples :: nat
  replies_after_bitrate_reduction :: "nat option"
  fps_before_congestion :: "nat option"
  samples_since_restore :: "nat option"
  stall_reference_fps :: "nat option"
  startup_good_samples :: nat

definition user_delay_new :: user_delay where
  "user_delay_new =
     \<lparr>stall_ticks = 0, delay_history = [], ud_fps = None, rtt_calc = rtt_new, quick_increase_fps_count = 0,
      increase_fps_count = 0, consecutive_bad_samples = 0, fps_bad_samples = 0, good_samples = 0,
      replies_after_bitrate_reduction = None, fps_before_congestion = None, samples_since_restore = None,
      stall_reference_fps = None, startup_good_samples = 0\<rparr>"

definition add_delay :: "nat \<Rightarrow> user_delay \<Rightarrow> user_delay" where
  "add_delay delay d = d\<lparr>delay_history := push_bounded HISTORY_DELAY_LEN delay (delay_history d)\<rparr>"

definition avg_delay :: "user_delay \<Rightarrow> nat" where
  "avg_delay d =
     (if delay_history d = [] then DELAY_THRESHOLD_150MS
      else foldl u32_add 0 (delay_history d) div length (delay_history d) - get_rtt (rtt_calc d))"

definition on_reduction :: "nat \<Rightarrow> user_delay \<Rightarrow> user_delay" where
  "on_reduction current_fps d =
     d\<lparr>startup_good_samples := U8_MAX, good_samples := 0, fps_bad_samples := 0,
       fps_before_congestion := (if fps_before_congestion d = None then Some current_fps else fps_before_congestion d)\<rparr>"

definition recover :: "nat \<Rightarrow> nat \<Rightarrow> user_delay \<Rightarrow> nat \<times> user_delay" where
  "recover current_fps fps d =
     (let gradual = u32_add current_fps (max (current_fps div 10) 1);
          level = (case fps_before_congestion d of Some l \<Rightarrow> if current_fps < l then Some l else None | None \<Rightarrow> None)
      in case level of
           Some l \<Rightarrow>
             if good_samples d = 2 \<or> good_samples d = 3 then
               (max fps l, d\<lparr>fps_before_congestion := None, samples_since_restore := Some 0\<rparr>)
             else (gradual, d)
         | None \<Rightarrow>
             if good_samples d = 3 then
               (max fps (u32_add current_fps (max (current_fps div 5) 2)), d\<lparr>fps_before_congestion := None\<rparr>)
             else (gradual, d))"

definition restored_lately :: "user_delay \<Rightarrow> bool" where
  "restored_lately d = (case samples_since_restore d of Some n \<Rightarrow> n \<le> RESTORE_GUARD_SAMPLES | None \<Rightarrow> False)"

definition limit_fps_change :: "nat \<Rightarrow> nat \<Rightarrow> nat \<Rightarrow> bool \<Rightarrow> bool \<Rightarrow> user_delay \<Rightarrow> nat \<times> user_delay" where
  "limit_fps_change current_fps fps delay0 bitrate_first braked d0 =
     (let delay = delay0 - get_rtt (rtt_calc d0);
          d1 = d0\<lparr>samples_since_restore := map_option (\<lambda>n. min (n + 1) U8_MAX) (samples_since_restore d0)\<rparr>
      in if delay < DELAY_THRESHOLD_150MS then
           recover current_fps fps
             (d1\<lparr>consecutive_bad_samples := 0, fps_bad_samples := 0, replies_after_bitrate_reduction := None,
                 good_samples := min (good_samples d1 + 1) 3\<rparr>)
         else
           let d2 = d1\<lparr>consecutive_bad_samples := min (consecutive_bad_samples d1 + 1) 3,
                       fps_bad_samples := min (fps_bad_samples d1 + 1) 3,
                       replies_after_bitrate_reduction :=
                         map_option (\<lambda>n. min (n + 1) 2) (replies_after_bitrate_reduction d1)\<rparr>;
               failed_restore = (600 \<le> delay \<and> restored_lately d2);
               d3 = (if restored_lately d2 \<and> (failed_restore \<or> 3 \<le> consecutive_bad_samples d2)
                     then d2\<lparr>fps_before_congestion := Some (current_fps - current_fps div 4), samples_since_restore := None\<rparr>
                     else d2)
           in if current_fps \<le> fps \<or> braked then (current_fps, d3)
              else if \<not> failed_restore \<and> delay < 1000 \<and>
                   (fps_bad_samples d3 < 3 \<or>
                    (bitrate_first \<and> (case replies_after_bitrate_reduction d3 of Some n \<Rightarrow> n | None \<Rightarrow> 0) < 2))
                then (current_fps, d3)
              else
                let divisor = (if 1000 \<le> delay \<or> failed_restore then 2 else 5) in
                (max fps (current_fps - max (current_fps div divisor) 1), on_reduction current_fps d3))"

definition accelerate_startup :: "nat \<Rightarrow> nat \<Rightarrow> nat \<Rightarrow> nat \<Rightarrow> bool \<Rightarrow> user_delay \<Rightarrow> nat \<times> user_delay" where
  "accelerate_startup current_fps fps cap delay braked d =
     (if startup_good_samples d = U8_MAX then (fps, d)
      else
        let excess = delay - get_rtt (rtt_calc d) in
        if braked \<or> 50 \<le> excess \<or> cap \<le> current_fps then (fps, d\<lparr>startup_good_samples := U8_MAX\<rparr>)
        else
          let d1 = d\<lparr>startup_good_samples := startup_good_samples d + 1\<rparr> in
          if startup_good_samples d1 < 2 then (fps, d1)
          else
            let accelerated = min (max fps (min (current_fps * 2) (2 ^ 32 - 1))) cap in
            (accelerated, d1\<lparr>startup_good_samples := (if cap \<le> accelerated then U8_MAX else 0)\<rparr>))"

definition needs_bitrate_reduction :: "user_delay \<Rightarrow> bool" where
  "needs_bitrate_reduction d \<longleftrightarrow> 2 \<le> consecutive_bad_samples d \<or> 2 \<le> stall_ticks d"

definition ratio_reduction :: "user_delay \<Rightarrow> f32 option" where
  "ratio_reduction d =
     (if \<not> needs_bitrate_reduction d then None
      else
        let excess = avg_delay d; confirmed = 3 \<le> consecutive_bad_samples d in
        Some (f32_round
          (if excess < 200 then 95 / 100
           else if excess < 300 then 9 / 10
           else if excess < 500 then (if confirmed then 7 / 10 else 85 / 100)
           else if confirmed then 5 / 10 else 8 / 10)))"

section \<open>The baseline stays a floor\<close>

lemma fold_min_le: "fold min xs x \<le> (x :: nat) \<and> (\<forall>y \<in> set xs. fold min xs x \<le> y)"
proof (induction xs arbitrary: x)
  case (Cons a xs)
  from Cons[of "min a x"] show ?case by auto
qed simp

lemma min_opt_le: "min_opt xs = Some m \<Longrightarrow> y \<in> set xs \<Longrightarrow> m \<le> y"
  using fold_min_le by (cases xs) auto

lemma fold_min_in: "fold min xs (x :: nat) \<in> insert x (set xs)"
proof (induction xs arbitrary: x)
  case (Cons a xs)
  from Cons[of "min a x"] show ?case by (auto simp: min_def split: if_splits)
qed simp

lemma min_opt_in: "min_opt xs = Some m \<Longrightarrow> m \<in> set xs"
  using fold_min_in by (cases xs) auto

lemma set_push_bounded: "set (push_bounded n x xs) \<subseteq> insert x (set xs)"
  by (cases xs) (auto simp: push_bounded_def)

lemma length_push_bounded: "length xs \<le> n \<Longrightarrow> 0 < n \<Longrightarrow> length (push_bounded n x xs) \<le> n"
  by (auto simp: push_bounded_def)

definition rtt_ok :: "rtt_calculator \<Rightarrow> bool" where
  "rtt_ok r \<longleftrightarrow> length (samples r) \<le> WINDOW_SAMPLES \<and> (\<forall>s \<in> set (samples r). s < 2 ^ 32)
     \<and> (case baseline r of None \<Rightarrow> samples r = [] | Some b \<Rightarrow> samples r \<noteq> [] \<and> (\<forall>s \<in> set (samples r). b \<le> s))"

text \<open>One update: the new baseline is below the whole window and at most 50 above the old one.\<close>

lemma rtt_update_ok:
  assumes ok: "rtt_ok r" and d: "delay < 2 ^ 32"
  shows "rtt_ok (rtt_update delay r)"
    and "samples (rtt_update delay r) = push_bounded WINDOW_SAMPLES delay (samples r)"
    and "baseline r = Some b \<Longrightarrow> get_rtt (rtt_update delay r) \<le> b + 50"
proof -
  define xs where "xs = push_bounded WINDOW_SAMPLES delay (samples r)"
  define b0 where "b0 = min (case baseline r of Some b \<Rightarrow> b | None \<Rightarrow> delay) delay"
  have xs: "set xs \<subseteq> insert delay (set (samples r))" "xs \<noteq> []" "length xs \<le> WINDOW_SAMPLES"
    using set_push_bounded length_push_bounded[of "samples r" WINDOW_SAMPLES] ok
    by (auto simp: xs_def push_bounded_def rtt_ok_def WINDOW_SAMPLES_def)
  have b0: "\<forall>s \<in> set xs. b0 \<le> s" using xs(1) ok by (auto simp: b0_def rtt_ok_def min_le_iff_disj split: option.splits)
  have lt: "\<forall>s \<in> set xs. s < 2 ^ 32" using xs(1) ok d by (auto simp: rtt_ok_def)
  have old: "baseline r = Some b \<Longrightarrow> b0 \<le> b" by (simp add: b0_def)
  have "\<exists>k. rtt_update delay r = \<lparr>baseline = Some (b0 + k), samples = xs\<rparr> \<and> k \<le> 50 \<and> (\<forall>s \<in> set xs. b0 + k \<le> s)"
  proof (cases "\<exists>o_min r_min. WINDOW_SAMPLES \<le> length xs \<and> min_opt (take (WINDOW_SAMPLES div 2) xs) = Some o_min
      \<and> min_opt (drop (WINDOW_SAMPLES div 2) xs) = Some r_min \<and> r_min \<le> min (o_min + 10) (2 ^ 32 - 1)
      \<and> b0 < min o_min r_min")
    case True
    then obtain om rm where m: "WINDOW_SAMPLES \<le> length xs" "min_opt (take (WINDOW_SAMPLES div 2) xs) = Some om"
      "min_opt (drop (WINDOW_SAMPLES div 2) xs) = Some rm" "rm \<le> min (om + 10) (2 ^ 32 - 1)" "b0 < min om rm" by blast
    define k where "k = max 1 (min ((min om rm - b0) div 2) MAX_INCREASE_MS)"
    have k: "k \<le> 50" "b0 + k \<le> min om rm" using m(5) by (auto simp: k_def MAX_INCREASE_MS_def)
    have win: "min om rm \<le> s" if "s \<in> set xs" for s
    proof -
      have "s \<in> set (take (WINDOW_SAMPLES div 2) xs) \<or> s \<in> set (drop (WINDOW_SAMPLES div 2) xs)"
        using that by (metis append_take_drop_id Un_iff set_append)
      then show ?thesis using min_opt_le[OF m(2)] min_opt_le[OF m(3)] by fastforce
    qed
    have "om < 2 ^ 32" using min_opt_in[OF m(2)] lt in_set_takeD by fastforce
    then have "b0 + k < 2 ^ 32" using k(2) by simp
    moreover have "rtt_update delay r = \<lparr>baseline = Some (u32_add b0 k), samples = xs\<rparr>"
      using m by (auto simp: rtt_update_def Let_def xs_def[symmetric] b0_def[symmetric] k_def)
    moreover have "\<forall>s \<in> set xs. b0 + k \<le> s" using k(2) win order_trans by blast
    ultimately show ?thesis using k(1) by (intro exI[of _ k]) (simp add: u32_add_def)
  next
    case False
    then have "rtt_update delay r = \<lparr>baseline = Some b0, samples = xs\<rparr>"
      by (auto simp: rtt_update_def Let_def xs_def[symmetric] b0_def[symmetric] not_le not_less split: option.splits)
    then show ?thesis using b0 by (intro exI[of _ 0]) auto
  qed
  then obtain k where k: "rtt_update delay r = \<lparr>baseline = Some (b0 + k), samples = xs\<rparr>" "k \<le> 50"
    "\<forall>s \<in> set xs. b0 + k \<le> s" by blast
  show "rtt_ok (rtt_update delay r)" using k xs lt by (simp add: rtt_ok_def)
  show "samples (rtt_update delay r) = push_bounded WINDOW_SAMPLES delay (samples r)" by (simp add: k xs_def)
  show "baseline r = Some b \<Longrightarrow> get_rtt (rtt_update delay r) \<le> b + 50" using old k by simp
qed

lemma rtt_ok_new: "rtt_ok rtt_new"
  by (simp add: rtt_ok_def rtt_new_def)

lemma rtt_ok_run: "\<forall>d \<in> set ds. d < 2 ^ 32 \<Longrightarrow> rtt_ok r \<Longrightarrow> rtt_ok (fold rtt_update ds r)"
  by (induction ds arbitrary: r) (simp_all add: rtt_update_ok)

section \<open>Properties\<close>

text \<open>
  the baseline never exceeds what was measured. After any sequence of delays the baseline is at
  most every delay still in the window of twenty, in particular the latest, so the excess delay
  the controller acts on is exact; and one reply can raise it by at most 50 ms, while a lower
  delay lowers it at once.
\<close>

theorem rtt_baseline_is_floor:
  assumes "\<forall>d \<in> set (ds @ [delay]). d < 2 ^ 32"
  shows "\<exists>b. baseline (fold rtt_update (ds @ [delay]) rtt_new) = Some b \<and> b \<le> delay
     \<and> (\<forall>s \<in> set (samples (fold rtt_update (ds @ [delay]) rtt_new)). b \<le> s)
     \<and> (\<forall>b0. baseline (fold rtt_update ds rtt_new) = Some b0 \<longrightarrow> b \<le> b0 + 50)"
proof -
  let ?r = "fold rtt_update ds rtt_new"
  have ok: "rtt_ok ?r" and d: "delay < 2 ^ 32" using rtt_ok_run[OF _ rtt_ok_new] assms by auto
  note u = rtt_update_ok[OF ok d]
  have "delay \<in> set (samples (rtt_update delay ?r))" by (simp add: u(2) push_bounded_def)
  then show ?thesis using u(1,3) by (auto simp: rtt_ok_def split: option.splits)
qed

theorem rtt_baseline_is_floor_witness:
  "\<exists>b. baseline (fold rtt_update ([40, 30] @ [35]) rtt_new) = Some b \<and> b \<le> 35"
  using rtt_baseline_is_floor[of "[40, 30]" 35] by auto

text \<open>
  the frame rate is only reduced on evidence, and only by so much. A reply lowers a viewer's
  frame rate only when its excess delay is at least 150 ms, it does not answer a probe that was
  already braked for, and either this is the third bad reply since the last reduction, or the
  excess reaches a second, or it reaches 600 ms within five replies of a fast restore. The new
  rate is at least four fifths of the old (or one less), in the last two cases at least half; and
  the level to return to is remembered.
\<close>

theorem fps_reduced_only_on_evidence:
  assumes res: "limit_fps_change cur fps delay bitrate_first braked d = (r, d')" and "r < cur" "cur \<le> 120"
    and e: "excess = delay - get_rtt (rtt_calc d)"
  shows "150 \<le> excess \<and> \<not> braked
    \<and> (1000 \<le> excess \<or> (600 \<le> excess \<and> (\<exists>n < 5. samples_since_restore d = Some n)) \<or> 2 \<le> fps_bad_samples d)
    \<and> cur - max (cur div 2) 1 \<le> r
    \<and> (excess < 600 \<longrightarrow> cur - max (cur div 5) 1 \<le> r \<and> 2 \<le> fps_bad_samples d)
    \<and> (\<exists>l. fps_before_congestion d' = Some l)"
proof -
  have grow: "cur \<le> u32_add cur k" if "k \<le> 120" for k using that assms(3) by (simp add: u32_add_def)
  have k: "max (cur div 10) 1 \<le> 120" "max (cur div 5) 2 \<le> 120" using assms(3) by auto
  have rec: "cur \<le> fst (recover cur fps d1)" for d1
    using grow[OF k(1)] grow[OF k(2)] by (auto simp: recover_def Let_def le_max_iff_disj split: option.splits)
  define d1 where "d1 = d\<lparr>samples_since_restore := map_option (\<lambda>n. min (n + 1) U8_MAX) (samples_since_restore d)\<rparr>"
  define d2 where "d2 = d1\<lparr>consecutive_bad_samples := min (consecutive_bad_samples d1 + 1) 3,
    fps_bad_samples := min (fps_bad_samples d1 + 1) 3,
    replies_after_bitrate_reduction := map_option (\<lambda>n. min (n + 1) 2) (replies_after_bitrate_reduction d1)\<rparr>"
  define failed where "failed = (600 \<le> excess \<and> restored_lately d2)"
  define d3 where "d3 = (if restored_lately d2 \<and> (failed \<or> 3 \<le> consecutive_bad_samples d2)
     then d2\<lparr>fps_before_congestion := Some (cur - cur div 4), samples_since_restore := None\<rparr> else d2)"
  have e150: "150 \<le> excess"
  proof (rule ccontr)
    assume "\<not> 150 \<le> excess"
    then have "\<exists>d1. (r, d') = recover cur fps d1"
      using res e by (auto simp: limit_fps_change_def Let_def DELAY_THRESHOLD_150MS_def dest: sym)
    then show False using rec assms(2) by (metis fst_conv not_le)
  qed
  then have lim: "(r, d') = (if cur \<le> fps \<or> braked then (cur, d3)
      else if \<not> failed \<and> excess < 1000 \<and> (fps_bad_samples d3 < 3 \<or>
           (bitrate_first \<and> (case replies_after_bitrate_reduction d3 of Some n \<Rightarrow> n | None \<Rightarrow> 0) < 2)) then (cur, d3)
      else (max fps (cur - max (cur div (if 1000 \<le> excess \<or> failed then 2 else 5)) 1), on_reduction cur d3))"
    using res
    unfolding limit_fps_change_def Let_def e[symmetric] d1_def[symmetric] d2_def[symmetric]
      failed_def[symmetric] d3_def[symmetric] DELAY_THRESHOLD_150MS_def
    by (simp split del: if_split)
  have b: "fps_bad_samples d3 = min (fps_bad_samples d + 1) 3" by (simp add: d3_def d2_def d1_def)
  have f: "failed \<Longrightarrow> 600 \<le> excess \<and> (\<exists>n < 5. samples_since_restore d = Some n)"
    by (auto simp: failed_def restored_lately_def d2_def d1_def RESTORE_GUARD_SAMPLES_def U8_MAX_def split: option.splits)
  have r: "\<not> braked" "failed \<or> 1000 \<le> excess \<or> 3 \<le> fps_bad_samples d3" "d' = on_reduction cur d3"
    and ge: "cur - max (cur div (if 1000 \<le> excess \<or> failed then 2 else 5)) 1 \<le> r"
    using lim assms(2) by (auto split: if_splits)
  have level: "\<exists>l. fps_before_congestion d' = Some l"
    unfolding r(3) by (auto simp: on_reduction_def)
  have "cur - max (cur div 2) 1 \<le> cur - max (cur div 5) 1" by (intro diff_le_mono2 max.mono div_le_mono2) simp_all
  then have half: "cur - max (cur div 2) 1 \<le> r" using ge by (simp only: split: if_splits)
  have fifth: "cur - max (cur div 5) 1 \<le> r" if "\<not> failed" "excess < 1000" using ge that by simp
  have three: "3 \<le> fps_bad_samples d3 \<longleftrightarrow> 2 \<le> fps_bad_samples d" unfolding b by auto
  have "1000 \<le> excess \<or> (600 \<le> excess \<and> (\<exists>n < 5. samples_since_restore d = Some n)) \<or> 2 \<le> fps_bad_samples d"
    using r(2) f three by blast
  moreover have "cur - max (cur div 5) 1 \<le> r \<and> 2 \<le> fps_bad_samples d" if "excess < 600"
  proof -
    have nf: "\<not> failed" using f that by linarith
    moreover have "\<not> 1000 \<le> excess" using that by linarith
    ultimately show ?thesis using r(2) three fifth by linarith
  qed
  ultimately show ?thesis using e150 r(1) half level by blast
qed

theorem fps_reduced_only_on_evidence_witness:
  "let d = user_delay_new\<lparr>rtt_calc := \<lparr>baseline = Some 10, samples = [10]\<rparr>, fps_bad_samples := 2\<rparr> in
   fst (limit_fps_change 30 10 400 False False d) = 24 \<and> 30 - max (30 div 5) 1 \<le> fst (limit_fps_change 30 10 400 False False d)"
proof -
  let ?d = "user_delay_new\<lparr>rtt_calc := \<lparr>baseline = Some 10, samples = [10]\<rparr>, fps_bad_samples := 2\<rparr>"
  obtain r d' where l: "limit_fps_change 30 10 400 False False ?d = (r, d')" by fastforce
  have r: "r = 24"
    using l by (simp add: limit_fps_change_def user_delay_new_def Let_def DELAY_THRESHOLD_150MS_def restored_lately_def)
  show ?thesis using fps_reduced_only_on_evidence[OF l _ _ refl] l r by simp
qed

end
