(* ===== verification/Video_Qos.thy ===== *)
theory Video_Qos
  imports Qos_Delay "HOL-Library.Monad_Syntax" "HOL-Library.Code_Target_Nat"
begin

text \<open>
  The video quality controller (\<open>src/server/video_qos.rs\<close>, \<open>VideoQoS\<close>; the quality levels are
  those of \<open>libs/scrap/src/common/codec.rs\<close>): viewers and displays, the frame rate and bitrate
  ratio shared by all of them, and every operation that changes them. Instants are nanoseconds
  of the monotonic clock. \<open>None\<close> is a panic of \<open>clamp\<close>.
\<close>

section \<open>Constants and data\<close>

definition BR_MAX :: f32 where "BR_MAX = f32_round 40"
definition BR_MIN :: f32 where "BR_MIN = f32_round (2 / 10)"
definition BR_MIN_HIGH_RESOLUTION :: f32 where "BR_MIN_HIGH_RESOLUTION = f32_round (1 / 10)"
definition MAX_BR_MULTIPLE :: f32 where "MAX_BR_MULTIPLE = f32_round 1"
definition BR_BEST :: f32 where "BR_BEST = f32_round (15 / 10)"
definition BR_BALANCED :: f32 where "BR_BALANCED = f32_round (67 / 100)"
definition BR_SPEED :: f32 where "BR_SPEED = f32_round (5 / 10)"
definition ADJUST_RATIO_INTERVAL :: nat where "ADJUST_RATIO_INTERVAL = 3"
definition DYNAMIC_SCREEN_THRESHOLD :: nat where "DYNAMIC_SCREEN_THRESHOLD = 2"

datatype quality = Best | Balanced | Low | Custom f32

fun quality_ratio :: "quality \<Rightarrow> f32" where
  "quality_ratio Best = BR_BEST"
| "quality_ratio Balanced = BR_BALANCED"
| "quality_ratio Low = BR_SPEED"
| "quality_ratio (Custom v) = v"

record user_data =
  auto_adjust_fps :: "nat option"
  custom_fps :: "nat option"
  u_quality :: "(int \<times> quality) option"
  u_delay :: user_delay
  u_record :: bool
  joined_at :: "nat option"

definition user_data_new :: user_data where
  "user_data_new = \<lparr>auto_adjust_fps = None, custom_fps = None, u_quality = None, u_delay = user_delay_new,
     u_record = False, joined_at = None\<rparr>"

definition fps_cap :: "user_data \<Rightarrow> nat option" where
  "fps_cap u =
     (let fps = (case custom_fps u of Some f \<Rightarrow> f | None \<Rightarrow> FPS);
          fps = (case auto_adjust_fps u of Some a \<Rightarrow> if fps = 0 \<or> a < fps then a else fps | None \<Rightarrow> fps)
      in clamp MIN_FPS MAX_FPS fps)"

record display_data =
  send_counter :: nat
  support_changing_quality :: bool

record video_qos =
  q_fps :: nat
  q_ratio :: f32
  q_users :: "(i32, user_data) hmap"
  q_displays :: "(string, display_data) hmap"
  bitrate_store :: nat
  adjust_ratio_instant :: nat
  abr_config :: bool
  first_reply_adjusts_ratio :: bool

definition qos_default :: "bool \<Rightarrow> nat \<Rightarrow> video_qos" where
  "qos_default not_linux now =
     \<lparr>q_fps = FPS, q_ratio = BR_BALANCED, q_users = [], q_displays = [], bitrate_store = 0,
      adjust_ratio_instant = now, abr_config = True, first_reply_adjusts_ratio = not_linux\<rparr>"

definition since_secs :: "nat \<Rightarrow> nat \<Rightarrow> nat" where
  "since_secs now instant = (now - instant) div 10 ^ 9"

section \<open>Reading the state\<close>

definition get_fps :: "video_qos \<Rightarrow> nat" where
  "get_fps q = (if MIN_FPS \<le> q_fps q \<and> q_fps q \<le> MAX_FPS then q_fps q else FPS)"

definition store_bitrate :: "nat \<Rightarrow> video_qos \<Rightarrow> video_qos" where
  "store_bitrate b q = q\<lparr>bitrate_store := b\<rparr>"

definition get_ratio :: "video_qos \<Rightarrow> f32 \<times> video_qos" where
  "get_ratio q =
     (let q = (if q_ratio q < BR_MIN_HIGH_RESOLUTION \<or> BR_MAX < q_ratio q then q\<lparr>q_ratio := BR_BALANCED\<rparr> else q)
      in (q_ratio q, q))"

definition get_record :: "video_qos \<Rightarrow> bool" where
  "get_record q = list_ex (\<lambda>(_, u). u_record u) (q_users q)"

definition set_support_changing_quality :: "string \<Rightarrow> bool \<Rightarrow> video_qos \<Rightarrow> video_qos" where
  "set_support_changing_quality name support q =
     q\<lparr>q_displays := hm_modify name (\<lambda>d. d\<lparr>support_changing_quality := support\<rparr>) (q_displays q)\<rparr>"

definition in_vbr_state :: "video_qos \<Rightarrow> bool" where
  "in_vbr_state q \<longleftrightarrow> abr_config q \<and> list_all (\<lambda>(_, d). support_changing_quality d) (q_displays q)"

text \<open>\<open>max_by\<close> keeps the last of several greatest elements.\<close>

fun max_by_time :: "(int \<times> quality) list \<Rightarrow> (int \<times> quality) option" where
  "max_by_time [] = None"
| "max_by_time (x # xs) =
     (case max_by_time xs of None \<Rightarrow> Some x | Some y \<Rightarrow> if fst x \<le> fst y then Some y else Some x)"

definition latest_quality :: "video_qos \<Rightarrow> quality" where
  "latest_quality q =
     (case max_by_time (List.map_filter (\<lambda>(_, u). u_quality u) (q_users q)) of
        Some (_, x) \<Rightarrow> x
      | None \<Rightarrow> Balanced)"

definition min_ratio :: "video_qos \<Rightarrow> f32" where
  "min_ratio q =
     (let current_bitrate = bitrate_store q;
          ratio_1mbps =
            (if 0 < current_bitrate
             then Some (max (f32_div (f32_mul (q_ratio q) (f32_round 1000)) (f32_of_nat current_bitrate)) BR_MIN_HIGH_RESOLUTION)
             else None);
          lower = (\<lambda>m. case ratio_1mbps of Some r \<Rightarrow> if r < m then r else m | None \<Rightarrow> m)
      in case latest_quality q of
           Best \<Rightarrow> max (lower (f32_div BR_BEST (f32_round (25 / 10)))) BR_MIN
         | Balanced \<Rightarrow> max (lower (min (f32_div BR_BALANCED (f32_round 2)) (f32_round (4 / 10)))) BR_MIN_HIGH_RESOLUTION
         | _ \<Rightarrow> BR_MIN_HIGH_RESOLUTION)"

definition can_reduce_bitrate :: "video_qos \<Rightarrow> bool" where
  "can_reduce_bitrate q \<longleftrightarrow>
     in_vbr_state q \<and> q_displays q \<noteq> [] \<and> f32_mul (min_ratio q) (f32_round (102 / 100)) < q_ratio q"

definition reset_send_counters :: "video_qos \<Rightarrow> video_qos" where
  "reset_send_counters q = q\<lparr>q_displays := hm_map_values (\<lambda>_ d. d\<lparr>send_counter := 0\<rparr>) (q_displays q)\<rparr>"

section \<open>The two adjustments\<close>

fun all_caps :: "(i32, user_data) hmap \<Rightarrow> nat list option" where
  "all_caps [] = Some []"
| "all_caps ((_, u) # us) = do { c \<leftarrow> fps_cap u; cs \<leftarrow> all_caps us; Some (c # cs) }"

definition highest_fps :: "video_qos \<Rightarrow> nat option" where
  "highest_fps q = do {
     caps \<leftarrow> all_caps (q_users q);
     clamp MIN_FPS MAX_FPS (case min_opt caps of Some m \<Rightarrow> m | None \<Rightarrow> FPS) }"

definition adjust_fps :: "nat \<Rightarrow> video_qos \<Rightarrow> video_qos option" where
  "adjust_fps now q = do {
     highest \<leftarrow> highest_fps q;
     let fps = (case min_opt (map (\<lambda>(_, u). case ud_fps (u_delay u) of Some f \<Rightarrow> f | None \<Rightarrow> INIT_FPS) (q_users q)) of
                  Some m \<Rightarrow> m | None \<Rightarrow> INIT_FPS);
     let fps = (if list_ex (\<lambda>(_, u). case joined_at u of Some j \<Rightarrow> since_secs now j < 1 | None \<Rightarrow> False) (q_users q)
                then min fps INIT_FPS else fps);
     fps \<leftarrow> clamp MIN_FPS highest fps;
     Some (q\<lparr>q_fps := fps\<rparr>) }"

fun reduce_min :: "f32 list \<Rightarrow> f32 option" where
  "reduce_min [] = None"
| "reduce_min (x # xs) = Some (fold min xs x)"

text \<open>The new ratio before the clamp, from the reduction asked for or the headroom there is.\<close>

definition next_ratio :: "f32 \<Rightarrow> nat \<Rightarrow> f32 option \<Rightarrow> nat \<Rightarrow> bool \<Rightarrow> f32" where
  "next_ratio current_ratio current_bitrate reduction max_delay dynamic_screen =
     (let ratio_add_150kbps =
            (if 0 < current_bitrate
             then Some (f32_div (f32_mul (f32_of_nat (u32_add current_bitrate 150)) current_ratio) (f32_of_nat current_bitrate))
             else None);
          v = (case reduction of
                 Some factor \<Rightarrow> f32_mul current_ratio factor
               | None \<Rightarrow>
                   if max_delay < 50 then (if dynamic_screen then f32_mul current_ratio (f32_round (115 / 100)) else current_ratio)
                   else if max_delay < 100 then (if dynamic_screen then f32_mul current_ratio (f32_round (11 / 10)) else current_ratio)
                   else if dynamic_screen then f32_mul current_ratio (f32_round (105 / 100)) else current_ratio)
      in case ratio_add_150kbps of
           Some r \<Rightarrow> if r < v \<and> current_ratio < r \<and> BR_SPEED \<le> current_ratio then r else v
         | None \<Rightarrow> v)"

text \<open>
  The end of an adjustment: the viewers whose evidence was used start counting replies, and the new
  ratio takes effect.
\<close>

definition apply_ratio :: "nat \<Rightarrow> bool \<Rightarrow> f32 \<Rightarrow> video_qos \<Rightarrow> video_qos" where
  "apply_ratio now reduced v q =
     (let users =
        (if reduced then
           hm_map_values (\<lambda>_ u.
             if needs_bitrate_reduction (u_delay u) \<and> replies_after_bitrate_reduction (u_delay u) = None
             then u\<lparr>u_delay := (u_delay u)\<lparr>replies_after_bitrate_reduction := Some (if v < q_ratio q then 0 else 2)\<rparr>\<rparr>
             else u) (q_users q)
         else q_users q)
      in (reset_send_counters (q\<lparr>q_users := users, q_ratio := v\<rparr>))\<lparr>adjust_ratio_instant := now\<rparr>)"

definition adjust_ratio :: "nat \<Rightarrow> bool \<Rightarrow> video_qos \<Rightarrow> video_qos option" where
  "adjust_ratio now dynamic_screen q =
     (if \<not> in_vbr_state q then Some q
      else if q_users q = [] then Some q
      else
        let max_delay = foldl max 0 (map (\<lambda>(_, u). avg_delay (u_delay u)) (q_users q));
            reduction = reduce_min (List.map_filter (\<lambda>(_, u). ratio_reduction (u_delay u)) (q_users q))
        in if reduction = None \<and> DELAY_THRESHOLD_150MS \<le> max_delay then Some (reset_send_counters q)
           else do {
             v \<leftarrow> clamp (min_ratio q) (f32_mul (quality_ratio (latest_quality q)) MAX_BR_MULTIPLE)
                    (next_ratio (q_ratio q) (bitrate_store q) reduction max_delay dynamic_screen);
             Some (apply_ratio now (reduction \<noteq> None) v q) })"

section \<open>Sessions\<close>

definition on_connection_open :: "bool \<Rightarrow> nat \<Rightarrow> i32 \<Rightarrow> video_qos \<Rightarrow> video_qos" where
  "on_connection_open enable_abr now i q =
     q\<lparr>q_users := hm_insert i (user_data_new\<lparr>joined_at := Some now\<rparr>) (q_users q), abr_config := enable_abr\<rparr>"

definition on_connection_close :: "nat \<Rightarrow> i32 \<Rightarrow> video_qos \<Rightarrow> video_qos option" where
  "on_connection_close now i q =
     (let q = q\<lparr>q_users := hm_remove i (q_users q)\<rparr> in
      if q_users q = [] then Some (qos_default (first_reply_adjusts_ratio q) now) else adjust_fps now q)"

definition user_custom_fps :: "i32 \<Rightarrow> nat \<Rightarrow> video_qos \<Rightarrow> video_qos" where
  "user_custom_fps i fps q =
     (if fps < MIN_FPS \<or> MAX_FPS < fps then q
      else q\<lparr>q_users := hm_modify i (\<lambda>u. u\<lparr>custom_fps := Some fps\<rparr>) (q_users q)\<rparr>)"

definition user_auto_adjust_fps :: "i32 \<Rightarrow> nat \<Rightarrow> video_qos \<Rightarrow> video_qos" where
  "user_auto_adjust_fps i fps q =
     (if fps < MIN_FPS \<or> MAX_FPS < fps then q
      else q\<lparr>q_users := hm_modify i (\<lambda>u. u\<lparr>auto_adjust_fps := Some fps\<rparr>) (q_users q)\<rparr>)"

text \<open>The image quality of the protocol; a custom one carries its percentage above the low byte.\<close>

definition convert_quality :: "int \<Rightarrow> quality option" where
  "convert_quality x =
     (if x = 3 then Some Balanced else if x = 2 then Some Low else if x = 4 then Some Best
      else do {
        let b = f32_div (f32_of_nat (nat ((x div 256) mod 4096) * 2)) (f32_round 100);
        v \<leftarrow> clamp BR_MIN BR_MAX b;
        Some (Custom v) })"

definition user_image_quality :: "int \<Rightarrow> i32 \<Rightarrow> int \<Rightarrow> video_qos \<Rightarrow> video_qos option" where
  "user_image_quality time i image_quality q = do {
     x \<leftarrow> convert_quality image_quality;
     Some (if hm_get (q_users q) i = None then q
           else let q = q\<lparr>q_users := hm_modify i (\<lambda>u. u\<lparr>u_quality := Some (time, x)\<rparr>) (q_users q)\<rparr>
                in q\<lparr>q_ratio := quality_ratio (latest_quality q)\<rparr>) }"

definition user_record :: "i32 \<Rightarrow> bool \<Rightarrow> video_qos \<Rightarrow> video_qos" where
  "user_record i v q = q\<lparr>q_users := hm_modify i (\<lambda>u. u\<lparr>u_record := v\<rparr>) (q_users q)\<rparr>"

definition new_display :: "string \<Rightarrow> video_qos \<Rightarrow> video_qos" where
  "new_display name q =
     q\<lparr>q_displays := hm_insert name \<lparr>send_counter = 0, support_changing_quality = False\<rparr> (q_displays q)\<rparr>"

definition remove_display :: "string \<Rightarrow> video_qos \<Rightarrow> video_qos" where
  "remove_display name q = q\<lparr>q_displays := hm_remove name (q_displays q)\<rparr>"

definition update_display_data :: "nat \<Rightarrow> string \<Rightarrow> nat \<Rightarrow> video_qos \<Rightarrow> video_qos option" where
  "update_display_data now name sent q = do {
     q \<leftarrow> adjust_fps now (q\<lparr>q_displays := hm_modify name (\<lambda>d. d\<lparr>send_counter := send_counter d + sent\<rparr>) (q_displays q)\<rparr>);
     if in_vbr_state q then
       if ADJUST_RATIO_INTERVAL \<le> since_secs now (adjust_ratio_instant q) then
         adjust_ratio now
           (list_ex (\<lambda>(_, d). ADJUST_RATIO_INTERVAL * DYNAMIC_SCREEN_THRESHOLD \<le> send_counter d) (q_displays q)) q
       else Some q
     else Some (q\<lparr>q_ratio := quality_ratio (latest_quality q)\<rparr>) }"

section \<open>Replies and stalls\<close>

text \<open>
  The frame rate a reply suggests before it is limited: \<open>quick\<close> is the counter of good replies in a
  row, also returned.
\<close>

definition suggest_fps :: "nat \<Rightarrow> nat \<Rightarrow> nat \<Rightarrow> nat \<Rightarrow> nat \<Rightarrow> nat \<Rightarrow> nat \<times> nat" where
  "suggest_fps min_fps normal_fps avg old_avg fps quick =
     (if avg < 50 then
        let quick = quick + 1;
            step = (if fps < normal_fps then 1 else 0);
            (quick, step) = (if 3 \<le> quick then (0, 5) else (quick, step))
        in (max min_fps (u32_add fps step), quick)
      else if avg < 100 then
        (max min_fps (u32_add fps (if avg < old_avg then (if fps < normal_fps then 1 else 0) else 0)), quick)
      else if avg < DELAY_THRESHOLD_150MS then (max min_fps fps, quick)
      else
        let dividend_ms = DELAY_THRESHOLD_150MS * min_fps;
            devide_fps = f32_ceil_u32 (f32_div (f32_of_nat fps)
                           (f32_div (f32_of_nat avg) (f32_of_nat DELAY_THRESHOLD_150MS)))
        in (if avg < 200 then max min_fps devide_fps
            else if avg < 300 then min min_fps devide_fps
            else if avg < 600 then dividend_ms div avg
            else min (dividend_ms div avg) devide_fps, quick))"

text \<open>
  A reply up to the final clamp: the delay record closes the outstanding probe and takes the new
  delay in, and the suggested frame rate is limited. The result is the rate and the record.
\<close>

definition reply_target :: "f32 \<Rightarrow> bool \<Rightarrow> nat \<Rightarrow> nat \<Rightarrow> user_delay \<Rightarrow> nat \<times> user_delay" where
  "reply_target target_ratio bitrate_first delay0 user_cap d0 =
     (let (min_fps, normal_fps) =
            (if BR_BEST \<le> target_ratio then (8, 16) else if BR_BALANCED \<le> target_ratio then (10, 20) else (12, 24));
          delay = max delay0 10;
          braked = (stall_reference_fps d0 \<noteq> None);
          d = d0\<lparr>stall_ticks := 0, stall_reference_fps := None\<rparr>;
          old_avg_delay = avg_delay d;
          d = (if braked then d else d\<lparr>rtt_calc := rtt_update delay (rtt_calc d)\<rparr>);
          d = add_delay delay d;
          avg = max (avg_delay d) 10;
          current_fps = (case ud_fps d of Some f \<Rightarrow> f | None \<Rightarrow> min INIT_FPS user_cap);
          (fps, quick) = suggest_fps min_fps normal_fps avg old_avg_delay current_fps (quick_increase_fps_count d);
          inc = (if avg < DELAY_THRESHOLD_150MS then increase_fps_count d + 1 else 0);
          (fps, inc) = (if 3 \<le> inc then (u32_add fps 1, 0) else (fps, inc));
          quick = (if 50 < avg then 0 else quick);
          d = d\<lparr>quick_increase_fps_count := quick, increase_fps_count := inc\<rparr>;
          fps = (if bitrate_first then max fps min_fps else fps);
          fps = max fps (min MIN_AUTO_FPS user_cap);
          (fps, d) = limit_fps_change current_fps fps delay bitrate_first braked d
      in accelerate_startup current_fps fps user_cap delay braked d)"

text \<open>A reply's effect on its viewer, whether it was the first, and whether the bitrate is to be cut.\<close>

definition user_reply :: "f32 \<Rightarrow> bool \<Rightarrow> nat \<Rightarrow> user_data \<Rightarrow> (user_data \<times> bool \<times> bool) option" where
  "user_reply target_ratio bitrate_first delay u = do {
     user_cap \<leftarrow> fps_cap u;
     let (fps, d) = reply_target target_ratio bitrate_first delay user_cap (u_delay u);
     let reduce_bitrate = (bitrate_first \<and> needs_bitrate_reduction d \<and> replies_after_bitrate_reduction d = None);
     fps \<leftarrow> clamp MIN_FPS user_cap fps;
     let first_reply = (ud_fps d = None);
     Some (u\<lparr>u_delay := d\<lparr>ud_fps := Some fps\<rparr>\<rparr>, first_reply, reduce_bitrate) }"

definition user_network_delay :: "nat \<Rightarrow> i32 \<Rightarrow> nat \<Rightarrow> video_qos \<Rightarrow> video_qos option" where
  "user_network_delay now i delay q = do {
     (q, first_reply, reduce_bitrate) \<leftarrow>
       (case hm_get (q_users q) i of
          None \<Rightarrow> Some (q, False, False)
        | Some u \<Rightarrow> do {
            (u', a, r) \<leftarrow> user_reply (quality_ratio (latest_quality q)) (can_reduce_bitrate q) delay u;
            Some (q\<lparr>q_users := hm_modify i (\<lambda>_. u') (q_users q)\<rparr>, a, r) });
     q \<leftarrow> adjust_fps now q;
     q \<leftarrow> (if first_reply \<and> first_reply_adjusts_ratio q
              \<and> ADJUST_RATIO_INTERVAL \<le> since_secs now (adjust_ratio_instant q)
           then adjust_ratio now False q else Some q);
     if reduce_bitrate \<and> ADJUST_RATIO_INTERVAL \<le> since_secs now (adjust_ratio_instant q)
     then adjust_ratio now False q else Some q }"

definition user_stall :: "nat \<Rightarrow> user_data \<Rightarrow> user_data option" where
  "user_stall elapsed u = do {
     let d = u_delay u;
     let d = add_delay (elapsed mod 2 ^ 32) (d\<lparr>stall_ticks := min (stall_ticks d + 1) U8_MAX\<rparr>);
     user_cap \<leftarrow> fps_cap u;
     let (reference, d) =
       (case stall_reference_fps d of
          Some r \<Rightarrow> (r, d)
        | None \<Rightarrow>
            let r = (case ud_fps d of Some f \<Rightarrow> f | None \<Rightarrow> min INIT_FPS user_cap)
            in (r, on_reduction r (d\<lparr>stall_reference_fps := Some r\<rparr>)));
     let divisor = 2 ^ min ((elapsed div 1000) mod 2 ^ 32 - 1) 5;
     let current = (case ud_fps d of Some f \<Rightarrow> f | None \<Rightarrow> reference);
     fps \<leftarrow> clamp (min MIN_AUTO_FPS user_cap) user_cap (reference div divisor);
     Some (u\<lparr>u_delay := d\<lparr>ud_fps := Some (min fps current)\<rparr>\<rparr>) }"

definition user_delay_response_elapsed :: "nat \<Rightarrow> i32 \<Rightarrow> nat \<Rightarrow> video_qos \<Rightarrow> video_qos option" where
  "user_delay_response_elapsed now i elapsed q =
     (case hm_get (q_users q) i of
        None \<Rightarrow> Some q
      | Some u \<Rightarrow>
          if elapsed \<le> 2000 then Some q
          else do {
            u' \<leftarrow> user_stall elapsed u;
            adjust_fps now (q\<lparr>q_users := hm_modify i (\<lambda>_. u') (q_users q)\<rparr>) })"

section \<open>Values of the constants\<close>

lemma br_products:
  "f32_mul BR_BEST MAX_BR_MULTIPLE = 3 / 2" "f32_mul BR_BALANCED MAX_BR_MULTIPLE = 11240735 / 16777216"
  "f32_mul BR_SPEED MAX_BR_MULTIPLE = 1 / 2"
  "f32_div BR_BEST (f32_round (25 / 10)) = 10066330 / 16777216"
  "f32_div BR_BALANCED (f32_round 2) = 11240735 / 33554432"
  by code_simp+

lemma br_values:
  "BR_MAX = 40" "BR_MIN = 13421773 / 67108864" "BR_MIN_HIGH_RESOLUTION = 13421773 / 134217728"
  "MAX_BR_MULTIPLE = 1" "BR_BEST = 3 / 2" "BR_BALANCED = 11240735 / 16777216" "BR_SPEED = 1 / 2"
  by code_simp+

section \<open>The invariant\<close>

definition quality_ok :: "quality \<Rightarrow> bool" where
  "quality_ok x = (case x of Custom v \<Rightarrow> BR_MIN \<le> v \<and> v \<le> BR_MAX | _ \<Rightarrow> True)"

definition user_ok :: "user_data \<Rightarrow> bool" where
  "user_ok u \<longleftrightarrow> (\<forall>t x. u_quality u = Some (t, x) \<longrightarrow> quality_ok x)
     \<and> (\<forall>f. ud_fps (u_delay u) = Some f \<longrightarrow> 1 \<le> f \<and> f \<le> 120)
     \<and> (stall_reference_fps (u_delay u) \<noteq> None \<longrightarrow> ud_fps (u_delay u) \<noteq> None)"

definition qos_ok :: "video_qos \<Rightarrow> bool" where
  "qos_ok q \<longleftrightarrow> (\<forall>(i, u) \<in> set (q_users q). user_ok u) \<and> 1 \<le> q_fps q \<and> q_fps q \<le> 120
     \<and> BR_MIN_HIGH_RESOLUTION \<le> q_ratio q \<and> q_ratio q \<le> BR_MAX"

lemma quality_ratio_range:
  assumes "quality_ok x"
  shows "BR_MIN_HIGH_RESOLUTION \<le> quality_ratio x \<and> quality_ratio x \<le> BR_MAX"
  using assms by (cases x) (auto simp: quality_ok_def br_values)

lemma max_ratio_range:
  assumes "quality_ok x"
  shows "f32_mul (quality_ratio x) MAX_BR_MULTIPLE \<le> BR_MAX"
    and "x = Low \<or> (\<exists>v. x = Custom v) \<Longrightarrow> BR_MIN_HIGH_RESOLUTION \<le> f32_mul (quality_ratio x) MAX_BR_MULTIPLE"
proof -
  have c: "f32_round v \<le> 40 \<and> 13421773 / 134217728 \<le> f32_round v" if "x = Custom v" for v
  proof -
    have v: "13421773 / 67108864 \<le> v" "v \<le> 40" using assms that by (auto simp: quality_ok_def br_values)
    then have "\<bar>f32_round v - v\<bar> \<le> v / 2 ^ 24" by (intro f32_round_small) auto
    then have "- (f32_round v - v) \<le> v / 2 ^ 24" by (rule abs_le_D2)
    then have "v - v / 2 ^ 24 \<le> f32_round v" by linarith
    moreover have "v / 2 ^ 24 \<le> v / 4" using v(1) by (intro divide_left_mono) auto
    ultimately show ?thesis using f32_round_le_40[of v] v by auto
  qed
  have cu: "f32_mul (quality_ratio (Custom v)) MAX_BR_MULTIPLE = f32_round v" for v
    by (simp add: f32_mul_def br_values(4))
  show "f32_mul (quality_ratio x) MAX_BR_MULTIPLE \<le> BR_MAX"
  proof (cases x)
    case (Custom v)
    then show ?thesis using c cu by (simp add: br_values(1))
  qed (simp_all add: br_products br_values(1))
  show "x = Low \<or> (\<exists>v. x = Custom v) \<Longrightarrow> BR_MIN_HIGH_RESOLUTION \<le> f32_mul (quality_ratio x) MAX_BR_MULTIPLE"
  proof (cases x)
    case (Custom v)
    then show ?thesis using c cu by (simp add: br_values(3))
  qed (simp_all add: br_products br_values(3))
qed

lemma max_by_time_in: "max_by_time xs = Some x \<Longrightarrow> x \<in> set xs"
  by (induction xs arbitrary: x) (auto split: option.splits if_splits)

definition users_ok :: "video_qos \<Rightarrow> bool" where
  "users_ok q \<longleftrightarrow> (\<forall>(i, u) \<in> set (q_users q). user_ok u)"

lemma users_okD: "users_ok q \<Longrightarrow> hm_get (q_users q) i = Some u \<Longrightarrow> user_ok u"
  using map_of_SomeD by (fastforce simp: users_ok_def)

lemma users_ok_modify:
  assumes "users_ok q" "\<And>u. user_ok u \<Longrightarrow> user_ok (f u)"
  shows "users_ok (q\<lparr>q_users := hm_modify i f (q_users q)\<rparr>)"
  using assms by (auto simp: users_ok_def hm_modify_def)

lemma latest_quality_ok: "users_ok q \<Longrightarrow> quality_ok (latest_quality q)"
proof -
  assume u: "users_ok q"
  have "quality_ok x" if "max_by_time (List.map_filter (\<lambda>(_, u). u_quality u) (q_users q)) = Some (t, x)" for t x
    using max_by_time_in[OF that] u by (auto simp: List.map_filter_def users_ok_def user_ok_def split: prod.splits)
  then show ?thesis by (auto simp: latest_quality_def quality_ok_def[of Balanced] split: option.splits)
qed

lemma min_ratio_range:
  assumes "users_ok q"
  shows "BR_MIN_HIGH_RESOLUTION \<le> min_ratio q"
    and "min_ratio q \<le> f32_mul (quality_ratio (latest_quality q)) MAX_BR_MULTIPLE"
proof -
  define r where "r = f32_div (f32_mul (q_ratio q) (f32_round 1000)) (f32_of_nat (bitrate_store q))"
  define lower where "lower = (\<lambda>m. case (if 0 < bitrate_store q then Some (max r BR_MIN_HIGH_RESOLUTION) else None) of
      Some r \<Rightarrow> if r < m then r else m | None \<Rightarrow> m)"
  have low: "lower m \<le> m" for m by (simp add: lower_def)
  have mr: "min_ratio q = (case latest_quality q of
      Best \<Rightarrow> max (lower (f32_div BR_BEST (f32_round (25 / 10)))) BR_MIN
    | Balanced \<Rightarrow> max (lower (min (f32_div BR_BALANCED (f32_round 2)) (f32_round (4 / 10)))) BR_MIN_HIGH_RESOLUTION
    | _ \<Rightarrow> BR_MIN_HIGH_RESOLUTION)"
    unfolding min_ratio_def Let_def lower_def r_def by (rule refl)
  show "BR_MIN_HIGH_RESOLUTION \<le> min_ratio q"
    unfolding mr by (cases "latest_quality q") (auto simp: br_values(2,3) le_max_iff_disj)
  note ok = latest_quality_ok[OF assms]
  show "min_ratio q \<le> f32_mul (quality_ratio (latest_quality q)) MAX_BR_MULTIPLE"
  proof (cases "latest_quality q")
    case Best
    have "lower (f32_div BR_BEST (f32_round (25 / 10))) \<le> 10066330 / 16777216"
      using low[of "f32_div BR_BEST (f32_round (25 / 10))"] unfolding br_products(4) .
    then show ?thesis
      unfolding mr Best quality.case quality_ratio.simps br_products(1) br_values(2) by (intro max.boundedI) auto
  next
    case Balanced
    have "lower (min (f32_div BR_BALANCED (f32_round 2)) (f32_round (4 / 10))) \<le> 11240735 / 33554432"
      using low[of "min (f32_div BR_BALANCED (f32_round 2)) (f32_round (4 / 10))"]
      unfolding br_products(5) by (rule order_trans) (rule min.cobounded1)
    then show ?thesis
      unfolding mr Balanced quality.case quality_ratio.simps br_products(2) br_values(3) by (intro max.boundedI) auto
  qed (use max_ratio_range(2)[OF ok] in \<open>simp_all add: mr\<close>)
qed

lemma fps_cap_range: obtains c where "fps_cap u = Some c" "1 \<le> c" "c \<le> 120"
  using clamp_Some[of MIN_FPS MAX_FPS] by (fastforce simp: fps_cap_def Let_def fps_consts)

lemma all_caps_range: "\<exists>cs. all_caps us = Some cs \<and> length cs = length us \<and> (\<forall>c \<in> set cs. 1 \<le> c \<and> c \<le> 120)
    \<and> (\<forall>(i, u) \<in> set us. the (fps_cap u) \<in> set cs)"
proof (induction us)
  case (Cons p us)
  obtain i u where p: "p = (i, u)" by fastforce
  obtain c where "fps_cap u = Some c" "1 \<le> c" "c \<le> 120" using fps_cap_range .
  then show ?case using Cons p by auto
qed simp

lemma adjust_fps_Some:
  assumes "users_ok q"
  shows "\<exists>f. adjust_fps now q = Some (q\<lparr>q_fps := f\<rparr>) \<and> 1 \<le> f \<and> f \<le> 120
    \<and> (\<forall>(i, u) \<in> set (q_users q). f \<le> the (fps_cap u) \<and> (\<forall>g. ud_fps (u_delay u) = Some g \<longrightarrow> f \<le> g))"
proof -
  obtain cs where cs: "all_caps (q_users q) = Some cs" "length cs = length (q_users q)"
    "\<forall>c \<in> set cs. 1 \<le> c \<and> c \<le> 120" "\<forall>(i, u) \<in> set (q_users q). the (fps_cap u) \<in> set cs"
    using all_caps_range by blast
  define m where "m = (case min_opt cs of Some m \<Rightarrow> m | None \<Rightarrow> FPS)"
  have m: "1 \<le> m" "m \<le> 120" using cs(3) min_opt_in[of cs] by (auto simp: m_def FPS_def split: option.splits)
  have mle: "m \<le> c" if "c \<in> set cs" for c
    using that min_opt_le[of cs _ c] by (cases cs) (auto simp: m_def)
  have hi: "highest_fps q = Some m" using m by (simp add: highest_fps_def cs m_def[symmetric] clamp_def fps_consts)
  define fs where "fs = map (\<lambda>(_, u). case ud_fps (u_delay u) of Some f \<Rightarrow> f | None \<Rightarrow> INIT_FPS) (q_users q)"
  define f0 where "f0 = (case min_opt fs of Some m \<Rightarrow> m | None \<Rightarrow> INIT_FPS)"
  have fs: "1 \<le> x" if "x \<in> set fs" for x
    using that assms by (auto simp: fs_def users_ok_def user_ok_def INIT_FPS_def split: option.splits prod.splits)
  have f0: "1 \<le> f0" using min_opt_in[of fs] fs by (auto simp: f0_def INIT_FPS_def split: option.splits)
  have f0le: "f0 \<le> g" if "(i, u) \<in> set (q_users q)" "ud_fps (u_delay u) = Some g" for i u g
  proof -
    have "g \<in> set fs" using that by (force simp: fs_def)
    then show ?thesis using min_opt_le[of fs _ g] by (cases fs) (auto simp: f0_def)
  qed
  obtain f1 where f1: "f1 \<le> f0" "1 \<le> f1" and adj: "adjust_fps now q = do { f \<leftarrow> clamp MIN_FPS m f1; Some (q\<lparr>q_fps := f\<rparr>) }"
  proof -
    let ?j = "list_ex (\<lambda>(_, u). case joined_at u of Some j \<Rightarrow> since_secs now j < 1 | None \<Rightarrow> False) (q_users q)"
    show thesis
      by (rule that[of "if ?j then min f0 INIT_FPS else f0"])
        (use f0 in \<open>simp_all add: adjust_fps_def hi Let_def fs_def[symmetric] f0_def[symmetric] INIT_FPS_def\<close>)
  qed
  then have "adjust_fps now q = Some (q\<lparr>q_fps := min f1 m\<rparr>)" using m by (auto simp: clamp_def MIN_FPS_def min_def)
  moreover have "min f1 m \<le> the (fps_cap u)" if "(i, u) \<in> set (q_users q)" for i u
    using cs(4) mle that by fastforce
  moreover have "min f1 m \<le> g" if "(i, u) \<in> set (q_users q)" "ud_fps (u_delay u) = Some g" for i u g
    using f0le[OF that] f1(1) by simp
  ultimately show ?thesis using f1 m by (intro exI[of _ "min f1 m"]) auto
qed

lemma qos_ok_alt: "qos_ok q \<longleftrightarrow> users_ok q \<and> 1 \<le> q_fps q \<and> q_fps q \<le> 120
    \<and> BR_MIN_HIGH_RESOLUTION \<le> q_ratio q \<and> q_ratio q \<le> BR_MAX"
  by (simp add: qos_ok_def users_ok_def)

lemma users_ok_cong: "q_users q = q_users q' \<Longrightarrow> users_ok q = users_ok q'"
  by (simp add: users_ok_def)

lemma adjust_fps_ok:
  assumes "users_ok q" "BR_MIN_HIGH_RESOLUTION \<le> q_ratio q" "q_ratio q \<le> BR_MAX"
  shows "\<exists>q'. adjust_fps now q = Some q' \<and> qos_ok q'"
  using adjust_fps_Some[OF assms(1), of now] assms by (auto simp: qos_ok_alt users_ok_def)

lemma reset_send_counters_ok [simp]: "qos_ok (reset_send_counters q) = qos_ok q"
  by (simp add: reset_send_counters_def qos_ok_def)

lemma user_ok_replies [simp]:
  "user_ok (u\<lparr>u_delay := (u_delay u)\<lparr>replies_after_bitrate_reduction := x\<rparr>\<rparr>) = user_ok u"
  by (simp add: user_ok_def)

lemma apply_ratio_ok:
  assumes "qos_ok q" "BR_MIN_HIGH_RESOLUTION \<le> v" "v \<le> BR_MAX"
  shows "qos_ok (apply_ratio now reduced v q)"
  using assms by (auto simp: qos_ok_def apply_ratio_def reset_send_counters_def Let_def hm_map_values_def)

text \<open>The bounds of the clamp never cross, whatever quality the viewers asked for.\<close>

lemma ratio_clamp:
  assumes "users_ok q"
  obtains y where "clamp (min_ratio q) (f32_mul (quality_ratio (latest_quality q)) MAX_BR_MULTIPLE) v = Some y"
    "BR_MIN_HIGH_RESOLUTION \<le> y" "y \<le> BR_MAX"
  using clamp_Some[OF min_ratio_range(2)[OF assms], of v] min_ratio_range(1)[OF assms]
    max_ratio_range(1)[OF latest_quality_ok[OF assms]] by (meson order_trans)

lemma if_both: "P x \<Longrightarrow> P y \<Longrightarrow> P (if b then x else y)"
  by simp

lemma ratio_bind:
  assumes "users_ok q" "\<And>y. BR_MIN_HIGH_RESOLUTION \<le> y \<Longrightarrow> y \<le> BR_MAX \<Longrightarrow> P (f y)"
  shows "P (clamp (min_ratio q) (f32_mul (quality_ratio (latest_quality q)) MAX_BR_MULTIPLE) v \<bind> f)"
  using ratio_clamp[OF assms(1), of v] assms(2) by (metis bind.bind_lunit)

lemma adjust_ratio_ok:
  assumes ok: "qos_ok q"
  shows "\<exists>q'. adjust_ratio now dyn q = Some q' \<and> qos_ok q'"
proof -
  have u: "users_ok q" using ok by (simp add: qos_ok_alt)
  have app: "\<exists>q'. Some (apply_ratio now red v q) = Some q' \<and> qos_ok q'"
    if "BR_MIN_HIGH_RESOLUTION \<le> v" "v \<le> BR_MAX" for red v
    using apply_ratio_ok[OF ok that] by blast
  show ?thesis
    unfolding adjust_ratio_def Let_def
    by (intro if_both[where P = "\<lambda>z. \<exists>q'. z = Some q' \<and> qos_ok q'"]
        ratio_bind[OF u, where P = "\<lambda>z. \<exists>q'. z = Some q' \<and> qos_ok q'"] app) (use ok in simp_all)
qed

lemma clamp_bind:
  assumes "1 \<le> c" "c \<le> 120" "\<And>y. 1 \<le> y \<Longrightarrow> y \<le> 120 \<Longrightarrow> P (f y)"
  shows "P (clamp MIN_FPS c x \<bind> f)"
proof -
  obtain y where "clamp MIN_FPS c x = Some y" "1 \<le> y" "y \<le> 120"
    using clamp_Some[of MIN_FPS c x] assms(1,2) by (auto simp: MIN_FPS_def)
  then show ?thesis using assms(3) by simp
qed

lemma user_reply_ok:
  assumes "user_ok u"
  shows "\<exists>u' a r. user_reply t b delay u = Some (u', a, r) \<and> user_ok u'"
proof -
  obtain c where c: "fps_cap u = Some c" "1 \<le> c" "c \<le> 120" using fps_cap_range .
  show ?thesis
    unfolding user_reply_def Let_def split_beta c(1) bind.bind_lunit
    by (rule clamp_bind[OF c(2,3)]) (use assms in \<open>simp add: user_ok_def\<close>)
qed

lemma user_stall_ok:
  assumes ok: "user_ok u"
  shows "\<exists>u' f. user_stall elapsed u = Some u' \<and> user_ok u' \<and> ud_fps (u_delay u') = Some f
    \<and> (\<forall>g. ud_fps (u_delay u) = Some g \<longrightarrow> f \<le> g \<and> min g (min 5 (the (fps_cap u))) \<le> f)"
proof -
  obtain c where c: "fps_cap u = Some c" "1 \<le> c" "c \<le> 120" using fps_cap_range .
  define d where "d = add_delay (elapsed mod 2 ^ 32) ((u_delay u)\<lparr>stall_ticks := min (stall_ticks (u_delay u) + 1) U8_MAX\<rparr>)"
  have same: "ud_fps d = ud_fps (u_delay u)" "stall_reference_fps d = stall_reference_fps (u_delay u)"
    by (simp_all add: d_def add_delay_def)
  define r where "r = (case stall_reference_fps d of Some r \<Rightarrow> r
    | None \<Rightarrow> (case ud_fps d of Some f \<Rightarrow> f | None \<Rightarrow> min INIT_FPS c))"
  define d' where "d' = (case stall_reference_fps d of Some r \<Rightarrow> d
    | None \<Rightarrow> on_reduction r (d\<lparr>stall_reference_fps := Some r\<rparr>))"
  define dv :: nat where "dv = 2 ^ min ((elapsed div 1000) mod 2 ^ 32 - 1) 5"
  have st: "user_stall elapsed u = do {
      fps \<leftarrow> clamp (min MIN_AUTO_FPS c) c (r div dv);
      Some (u\<lparr>u_delay := d'\<lparr>ud_fps := Some (min fps (case ud_fps d' of Some f \<Rightarrow> f | None \<Rightarrow> r))\<rparr>\<rparr>) }"
  proof (cases "stall_reference_fps d")
    case None
    then show ?thesis
      unfolding user_stall_def Let_def d_def[symmetric] c(1) bind.bind_lunit dv_def[symmetric] d'_def r_def None
      by (simp only: option.case prod.case)
  next
    case (Some a)
    then show ?thesis
      unfolding user_stall_def Let_def d_def[symmetric] c(1) bind.bind_lunit dv_def[symmetric] d'_def r_def Some
      by (simp only: option.case prod.case)
  qed
  have fps': "ud_fps d' = ud_fps (u_delay u)" by (simp add: d'_def on_reduction_def same split: option.split)
  obtain y where y: "clamp (min MIN_AUTO_FPS c) c (r div dv) = Some y" "min MIN_AUTO_FPS c \<le> y" "y \<le> c"
    using clamp_Some[of "min MIN_AUTO_FPS c" c "r div dv"] by auto
  define f where "f = min y (case ud_fps (u_delay u) of Some f \<Rightarrow> f | None \<Rightarrow> r)"
  have r1: "ud_fps (u_delay u) = None \<Longrightarrow> 1 \<le> r"
    using ok c(2) by (auto simp: r_def same user_ok_def INIT_FPS_def split: option.splits)
  have f: "1 \<le> f" "f \<le> 120"
    using y c r1 ok by (auto simp: f_def MIN_AUTO_FPS_def user_ok_def split: option.split)
  have eq: "user_stall elapsed u = Some (u\<lparr>u_delay := d'\<lparr>ud_fps := Some f\<rparr>\<rparr>)"
    using y(1) by (simp add: st fps' f_def)
  have "f \<le> g \<and> min g (min 5 c) \<le> f" if "ud_fps (u_delay u) = Some g" for g
    using that y(2) by (auto simp: f_def MIN_AUTO_FPS_def)
  then show ?thesis using f ok c(1) by (auto simp: eq user_ok_def)
qed

section \<open>Runs of the controller\<close>

datatype qos_op =
  O_Open bool i32
| O_Close i32
| O_CustomFps i32 nat
| O_AutoFps i32 nat
| O_Quality int i32 int
| O_Record i32 bool
| O_Delay i32 nat
| O_Elapsed i32 nat
| O_NewDisplay string
| O_RemoveDisplay string
| O_Support string bool
| O_Display string nat
| O_Bitrate nat
| O_Ratio

fun qos_apply :: "nat \<Rightarrow> qos_op \<Rightarrow> video_qos \<Rightarrow> video_qos option" where
  "qos_apply now (O_Open abr i) q = Some (on_connection_open abr now i q)"
| "qos_apply now (O_Close i) q = on_connection_close now i q"
| "qos_apply now (O_CustomFps i f) q = Some (user_custom_fps i f q)"
| "qos_apply now (O_AutoFps i f) q = Some (user_auto_adjust_fps i f q)"
| "qos_apply now (O_Quality t i x) q = user_image_quality t i x q"
| "qos_apply now (O_Record i v) q = Some (user_record i v q)"
| "qos_apply now (O_Delay i d) q = user_network_delay now i d q"
| "qos_apply now (O_Elapsed i e) q = user_delay_response_elapsed now i e q"
| "qos_apply now (O_NewDisplay n) q = Some (new_display n q)"
| "qos_apply now (O_RemoveDisplay n) q = Some (remove_display n q)"
| "qos_apply now (O_Support n b) q = Some (set_support_changing_quality n b q)"
| "qos_apply now (O_Display n c) q = update_display_data now n c q"
| "qos_apply now (O_Bitrate b) q = Some (store_bitrate b q)"
| "qos_apply now O_Ratio q = Some (snd (get_ratio q))"

fun qos_run :: "(nat \<times> qos_op) list \<Rightarrow> video_qos \<Rightarrow> video_qos option" where
  "qos_run [] q = Some q"
| "qos_run ((now, op) # ops) q = qos_apply now op q \<bind> qos_run ops"

lemma balanced_range: "BR_MIN_HIGH_RESOLUTION \<le> BR_BALANCED \<and> BR_BALANCED \<le> BR_MAX"
  by (simp add: br_values)

lemma qos_ok_default: "qos_ok (qos_default b now)"
  by (simp add: qos_ok_def qos_default_def FPS_def balanced_range)

lemma user_ok_new: "user_ok (user_data_new\<lparr>joined_at := j\<rparr>)"
  by (simp add: user_ok_def user_data_new_def user_delay_new_def)

lemma users_ok_insert: "users_ok q \<Longrightarrow> user_ok u \<Longrightarrow> users_ok (q\<lparr>q_users := hm_insert i u (q_users q)\<rparr>)"
proof -
  have "set (hm_insert i u m) \<subseteq> insert (i, u) (set m)" for m by (induction m) (auto split: if_splits)
  then show "users_ok q \<Longrightarrow> user_ok u \<Longrightarrow> users_ok (q\<lparr>q_users := hm_insert i u (q_users q)\<rparr>)"
    by (fastforce simp: users_ok_def)
qed

lemma latest_ratio_range:
  "users_ok q \<Longrightarrow> BR_MIN_HIGH_RESOLUTION \<le> quality_ratio (latest_quality q) \<and> quality_ratio (latest_quality q) \<le> BR_MAX"
  by (intro quality_ratio_range latest_quality_ok)

lemma convert_quality_ok: "\<exists>v. convert_quality x = Some v \<and> quality_ok v"
proof -
  define b where "b = f32_div (f32_of_nat (nat ((x div 256) mod 4096) * 2)) (f32_round 100)"
  have "BR_MIN \<le> BR_MAX" by (simp add: br_values(1,2))
  then obtain v where "clamp BR_MIN BR_MAX b = Some v" "BR_MIN \<le> v" "v \<le> BR_MAX" using clamp_Some by blast
  then show ?thesis by (simp add: convert_quality_def Let_def b_def quality_ok_def)
qed

lemma image_quality_ok:
  assumes "qos_ok q"
  shows "\<exists>q'. user_image_quality t i x q = Some q' \<and> qos_ok q'"
proof -
  obtain v where v: "convert_quality x = Some v" "quality_ok v" using convert_quality_ok by blast
  define q' where "q' = q\<lparr>q_users := hm_modify i (\<lambda>u. u\<lparr>u_quality := Some (t, v)\<rparr>) (q_users q)\<rparr>"
  have "users_ok q'" unfolding q'_def
    by (rule users_ok_modify) (use assms v in \<open>auto simp: qos_ok_alt user_ok_def\<close>)
  then have "qos_ok (q'\<lparr>q_ratio := quality_ratio (latest_quality q')\<rparr>)"
    using assms latest_ratio_range[of q'] by (simp add: qos_ok_alt q'_def users_ok_def)
  then show ?thesis using assms v by (simp add: user_image_quality_def q'_def[symmetric])
qed

lemma network_delay_ok:
  assumes ok: "qos_ok q"
  shows "\<exists>q'. user_network_delay now i delay q = Some q' \<and> qos_ok q'"
proof -
  let ?start = "case hm_get (q_users q) i of
      None \<Rightarrow> Some (q, False, False)
    | Some u \<Rightarrow> do {
        (u', a, r) \<leftarrow> user_reply (quality_ratio (latest_quality q)) (can_reduce_bitrate q) delay u;
        Some (q\<lparr>q_users := hm_modify i (\<lambda>_. u') (q_users q)\<rparr>, a, r) }"
  obtain q1 a r where s: "?start = Some (q1, a, r)" "qos_ok q1"
  proof (cases "hm_get (q_users q) i")
    case (Some u)
    then have "user_ok u" using users_okD ok by (auto simp: qos_ok_alt)
    then obtain u' a r where u': "user_reply (quality_ratio (latest_quality q)) (can_reduce_bitrate q) delay u = Some (u', a, r)" "user_ok u'"
      using user_reply_ok by blast
    have "users_ok (q\<lparr>q_users := hm_modify i (\<lambda>_. u') (q_users q)\<rparr>)"
      by (rule users_ok_modify) (use ok u'(2) in \<open>auto simp: qos_ok_alt\<close>)
    then have "qos_ok (q\<lparr>q_users := hm_modify i (\<lambda>_. u') (q_users q)\<rparr>)" using ok by (simp add: qos_ok_alt)
    then show ?thesis using that Some u' by simp
  next
    case None
    show ?thesis by (rule that[of q False False]) (use None ok in simp_all)
  qed
  obtain q2 where q2: "adjust_fps now q1 = Some q2" "qos_ok q2" using adjust_fps_ok[of q1 now] s(2) by (auto simp: qos_ok_alt)
  have step: "\<exists>q'. (if b then adjust_ratio now False q else Some q) = Some q' \<and> qos_ok q'" if "qos_ok q" for b q
    using adjust_ratio_ok[OF that] that by simp
  obtain q3 where q3: "(if a \<and> first_reply_adjusts_ratio q2 \<and> ADJUST_RATIO_INTERVAL \<le> since_secs now (adjust_ratio_instant q2)
      then adjust_ratio now False q2 else Some q2) = Some q3" "qos_ok q3" using step[OF q2(2)] by blast
  have "user_network_delay now i delay q =
      (if r \<and> ADJUST_RATIO_INTERVAL \<le> since_secs now (adjust_ratio_instant q3) then adjust_ratio now False q3 else Some q3)"
    unfolding user_network_delay_def s(1) by (simp only: bind.bind_lunit prod.case q2(1) q3(1))
  then show ?thesis using step[OF q3(2)] by simp
qed

lemma users_ok_sub: "users_ok q \<Longrightarrow> set (q_users q') \<subseteq> set (q_users q) \<Longrightarrow> users_ok q'"
  by (auto simp: users_ok_def)

lemma connection_close_ok:
  assumes "qos_ok q"
  shows "\<exists>q'. on_connection_close now i q = Some q' \<and> qos_ok q'"
proof -
  have "users_ok (q\<lparr>q_users := hm_remove i (q_users q)\<rparr>)"
    by (rule users_ok_sub[of q]) (use assms in \<open>auto simp: qos_ok_alt hm_remove_def\<close>)
  then have "\<exists>q'. adjust_fps now (q\<lparr>q_users := hm_remove i (q_users q)\<rparr>) = Some q' \<and> qos_ok q'"
    by (rule adjust_fps_ok) (use assms in \<open>simp_all add: qos_ok_alt\<close>)
  then show ?thesis using qos_ok_default by (simp add: on_connection_close_def Let_def)
qed

lemma delay_response_ok:
  assumes "qos_ok q"
  shows "\<exists>q'. user_delay_response_elapsed now i elapsed q = Some q' \<and> qos_ok q'"
proof (cases "hm_get (q_users q) i")
  case (Some u)
  then have "user_ok u" using users_okD assms by (auto simp: qos_ok_alt)
  then obtain u' where u': "user_stall elapsed u = Some u'" "user_ok u'" using user_stall_ok by blast
  have "users_ok (q\<lparr>q_users := hm_modify i (\<lambda>_. u') (q_users q)\<rparr>)"
    by (rule users_ok_modify) (use assms u'(2) in \<open>auto simp: qos_ok_alt\<close>)
  then have "\<exists>q'. adjust_fps now (q\<lparr>q_users := hm_modify i (\<lambda>_. u') (q_users q)\<rparr>) = Some q' \<and> qos_ok q'"
    by (rule adjust_fps_ok) (use assms in \<open>simp_all add: qos_ok_alt\<close>)
  then show ?thesis using assms Some u' by (simp add: user_delay_response_elapsed_def)
qed (use assms in \<open>simp add: user_delay_response_elapsed_def\<close>)

lemma update_display_ok:
  assumes "qos_ok q"
  shows "\<exists>q'. update_display_data now name sent q = Some q' \<and> qos_ok q'"
proof -
  define q0 where "q0 = q\<lparr>q_displays := hm_modify name (\<lambda>d. d\<lparr>send_counter := send_counter d + sent\<rparr>) (q_displays q)\<rparr>"
  have "users_ok q0" by (rule users_ok_sub[of q]) (use assms in \<open>simp_all add: qos_ok_alt q0_def\<close>)
  then obtain q1 where q1: "adjust_fps now q0 = Some q1" "qos_ok q1"
    using adjust_fps_ok[of q0 now] assms by (auto simp: qos_ok_alt q0_def)
  have "users_ok (q1\<lparr>q_ratio := r\<rparr>)" for r by (rule users_ok_sub[of q1]) (use q1(2) in \<open>simp_all add: qos_ok_alt\<close>)
  then have "qos_ok (q1\<lparr>q_ratio := quality_ratio (latest_quality q1)\<rparr>)"
    using q1(2) latest_ratio_range[of q1] by (simp add: qos_ok_alt)
  then show ?thesis using q1(2) adjust_ratio_ok[OF q1(2)]
    by (simp add: update_display_data_def q0_def[symmetric] q1(1))
qed

lemma qos_ok_modify:
  assumes "qos_ok q" "\<And>u. user_ok u \<Longrightarrow> user_ok (f u)"
  shows "qos_ok (q\<lparr>q_users := hm_modify i f (q_users q)\<rparr>)"
  using users_ok_modify[of q f i] assms by (simp add: qos_ok_alt)

lemma qos_ok_displays [simp]: "qos_ok (q\<lparr>q_displays := d\<rparr>) = qos_ok q" "qos_ok (q\<lparr>bitrate_store := b\<rparr>) = qos_ok q"
  by (simp_all add: qos_ok_def)

lemma connection_open_ok: "qos_ok q \<Longrightarrow> qos_ok (on_connection_open abr now i q)"
  using users_ok_insert[of q "user_data_new\<lparr>joined_at := Some now\<rparr>" i] user_ok_new
  by (simp add: on_connection_open_def qos_ok_alt users_ok_def)

lemma qos_apply_ok:
  assumes "qos_ok q"
  shows "\<exists>q'. qos_apply now op q = Some q' \<and> qos_ok q'"
proof (cases op)
  case O_Ratio
  then show ?thesis using assms by (auto simp: get_ratio_def qos_ok_alt balanced_range users_ok_def)
next
  case (O_CustomFps i f)
  then show ?thesis using assms qos_ok_modify[OF assms] by (simp add: user_custom_fps_def user_ok_def)
next
  case (O_AutoFps i f)
  then show ?thesis using assms qos_ok_modify[OF assms] by (simp add: user_auto_adjust_fps_def user_ok_def)
next
  case (O_Record i v)
  then show ?thesis using qos_ok_modify[OF assms] by (simp add: user_record_def user_ok_def)
qed (use assms connection_open_ok connection_close_ok image_quality_ok network_delay_ok delay_response_ok update_display_ok in
  \<open>auto simp: new_display_def remove_display_def set_support_changing_quality_def store_bitrate_def\<close>)

lemma qos_run_ok: "qos_ok q \<Longrightarrow> \<exists>q'. qos_run ops q = Some q' \<and> qos_ok q'"
proof (induction ops arbitrary: q)
  case (Cons p ops)
  obtain now op where p: "p = (now, op)" by fastforce
  obtain q1 where "qos_apply now op q = Some q1" "qos_ok q1" using qos_apply_ok[OF Cons.prems] by blast
  then show ?case using Cons.IH p by simp
qed simp

section \<open>Pacing\<close>

text \<open>The shared frame rate is at most what every viewer may have and what every viewer keeps up with.\<close>

definition fps_follows :: "video_qos \<Rightarrow> bool" where
  "fps_follows q \<longleftrightarrow> (\<forall>(i, u) \<in> set (q_users q).
     q_fps q \<le> the (fps_cap u) \<and> (\<forall>g. ud_fps (u_delay u) = Some g \<longrightarrow> q_fps q \<le> g))"

lemma adjust_fps_follows: "users_ok q \<Longrightarrow> adjust_fps now q = Some q' \<Longrightarrow> fps_follows q'"
  using adjust_fps_Some[of q now] by (fastforce simp: fps_follows_def)

lemma fps_cap_replies [simp]: "fps_cap (u\<lparr>u_delay := d\<rparr>) = fps_cap u"
  by (simp add: fps_cap_def)

lemma apply_ratio_follows [simp]: "fps_follows (apply_ratio now red v q) = fps_follows q"
  by (auto simp: fps_follows_def apply_ratio_def reset_send_counters_def Let_def hm_map_values_def split_beta)

lemma adjust_ratio_follows:
  assumes "adjust_ratio now dyn q = Some q'" "fps_follows q"
  shows "fps_follows q'"
proof -
  have r: "fps_follows (reset_send_counters q)" using assms(2) by (simp add: fps_follows_def reset_send_counters_def)
  show ?thesis using assms r unfolding adjust_ratio_def Let_def
    by (auto simp: bind_eq_Some_conv split: if_splits)
qed

text \<open>The operations that end by recomputing the shared frame rate.\<close>

fun paces :: "qos_op \<Rightarrow> bool" where
  "paces (O_Delay _ _) = True"
| "paces (O_Display _ _) = True"
| "paces (O_Close _) = True"
| "paces _ = False"

lemma network_delay_follows:
  assumes ok: "qos_ok q" and run: "user_network_delay now i delay q = Some q'"
  shows "fps_follows q'"
proof -
  let ?start = "case hm_get (q_users q) i of
      None \<Rightarrow> Some (q, False, False)
    | Some u \<Rightarrow> do {
        (u', a, r) \<leftarrow> user_reply (quality_ratio (latest_quality q)) (can_reduce_bitrate q) delay u;
        Some (q\<lparr>q_users := hm_modify i (\<lambda>_. u') (q_users q)\<rparr>, a, r) }"
  have start: "users_ok q1" if s: "?start = Some (q1, a, r)" for q1 a r
  proof (cases "hm_get (q_users q) i")
    case None
    then show ?thesis using s ok by (simp add: qos_ok_alt)
  next
    case (Some u)
    then have "user_ok u" using users_okD ok by (auto simp: qos_ok_alt)
    then obtain u' a' r' where u': "user_reply (quality_ratio (latest_quality q)) (can_reduce_bitrate q) delay u = Some (u', a', r')" "user_ok u'"
      using user_reply_ok by blast
    then have "q1 = q\<lparr>q_users := hm_modify i (\<lambda>_. u') (q_users q)\<rparr>" using s Some by simp
    then show ?thesis using users_ok_modify[of q "\<lambda>_. u'" i] ok u'(2) by (simp add: qos_ok_alt)
  qed
  have step: "fps_follows b" if "(if c then adjust_ratio now False a else Some a) = Some b" "fps_follows a" for a b c
    using that adjust_ratio_follows by (auto split: if_splits)
  obtain q1 a r q2 q3 where "?start = Some (q1, a, r)" and q2: "adjust_fps now q1 = Some q2"
    and q3: "(if a \<and> first_reply_adjusts_ratio q2 \<and> ADJUST_RATIO_INTERVAL \<le> since_secs now (adjust_ratio_instant q2)
      then adjust_ratio now False q2 else Some q2) = Some q3"
    and q4: "(if r \<and> ADJUST_RATIO_INTERVAL \<le> since_secs now (adjust_ratio_instant q3)
      then adjust_ratio now False q3 else Some q3) = Some q'"
    using run unfolding user_network_delay_def bind_eq_Some_conv[of ?start]
    by (auto simp: bind_eq_Some_conv[of "adjust_fps _ _"] bind_eq_Some_conv[of "if _ then _ else _"])
  then have "fps_follows q2" using adjust_fps_follows start by blast
  then show ?thesis using step[OF q4 step[OF q3]] by blast
qed

lemma update_display_follows:
  assumes "qos_ok q" "update_display_data now name sent q = Some q'"
  shows "fps_follows q'"
proof -
  define q0 where "q0 = q\<lparr>q_displays := hm_modify name (\<lambda>d. d\<lparr>send_counter := send_counter d + sent\<rparr>) (q_displays q)\<rparr>"
  have "users_ok q0" by (rule users_ok_sub[of q]) (use assms in \<open>simp_all add: qos_ok_alt q0_def\<close>)
  then have "fps_follows q1" if "adjust_fps now q0 = Some q1" for q1 using adjust_fps_follows that by blast
  moreover have "fps_follows (q1\<lparr>q_ratio := r\<rparr>) = fps_follows q1" for q1 r by (simp add: fps_follows_def)
  ultimately show ?thesis using assms(2) adjust_ratio_follows
    unfolding update_display_data_def q0_def[symmetric] bind_eq_Some_conv by (auto split: if_splits)
qed

lemma paces_follows:
  assumes ok: "qos_ok q" and run: "qos_apply now op q = Some q'" and op: "paces op"
  shows "fps_follows q'"
proof (cases op)
  case (O_Close i)
  have "users_ok (q\<lparr>q_users := hm_remove i (q_users q)\<rparr>)"
    by (rule users_ok_sub[of q]) (use ok in \<open>auto simp: qos_ok_alt hm_remove_def\<close>)
  moreover have "fps_follows (qos_default b now)" for b by (simp add: fps_follows_def qos_default_def)
  ultimately show ?thesis using run O_Close adjust_fps_follows
    by (auto simp: on_connection_close_def Let_def split: if_splits)
qed (use run op ok network_delay_follows update_display_follows in auto)

lemma qos_run_append: "qos_run (xs @ ys) q = qos_run xs q \<bind> qos_run ys"
proof (induction xs arbitrary: q)
  case (Cons p xs)
  obtain now op where "p = (now, op)" by fastforce
  then show ?case using Cons by (cases "qos_apply now op q") simp_all
qed simp

section \<open>Properties\<close>

text \<open>
  C40: Whatever viewers and displays come and go and whatever delays, qualities, frame rates and
  bitrates they report, in any order and at any times, the controller never panics in a clamp, the
  frame rate it hands the capturer stays between 1 and 120, and the ratio it hands the encoder stays
  between the lowest ratio of a high resolution and the greatest one.
\<close>

theorem qos_never_panics:
  "\<exists>q. qos_run ops (qos_default not_linux start) = Some q
     \<and> get_fps q = q_fps q \<and> 1 \<le> get_fps q \<and> get_fps q \<le> 120
     \<and> get_ratio q = (q_ratio q, q) \<and> BR_MIN_HIGH_RESOLUTION \<le> q_ratio q \<and> q_ratio q \<le> BR_MAX"
proof -
  obtain q where "qos_run ops (qos_default not_linux start) = Some q" "qos_ok q"
    using qos_run_ok[OF qos_ok_default] by blast
  then show ?thesis by (auto simp: qos_ok_def get_fps_def get_ratio_def fps_consts)
qed

text \<open>
  After every reply of a viewer, every report of a display and every departure, the frame rate
  of the shared stream is at most the cap of every viewer still connected and at most the rate every
  one of them was last found to keep up with: the slowest viewer sets the pace.
\<close>

theorem slowest_viewer_sets_pace:
  assumes "qos_run (ops @ [(now, op)]) (qos_default not_linux start) = Some q" and "paces op"
  shows "\<forall>(i, u) \<in> set (q_users q).
     q_fps q \<le> the (fps_cap u) \<and> (\<forall>g. ud_fps (u_delay u) = Some g \<longrightarrow> q_fps q \<le> g)"
proof -
  obtain q0 where "qos_run ops (qos_default not_linux start) = Some q0" "qos_ok q0"
    using qos_run_ok[OF qos_ok_default] by blast
  then have "fps_follows q" using assms paces_follows[of q0 now op q] by (simp add: qos_run_append bind_eq_Some_conv)
  then show ?thesis by (simp add: fps_follows_def)
qed

theorem slowest_viewer_sets_pace_witness:
  "\<exists>q. qos_run ([(0, O_Open True 1), (0, O_Open True 2), (5, O_CustomFps 2 12)] @ [(10 ^ 9, O_Delay 1 20)])
         (qos_default True 0) = Some q
     \<and> (\<forall>(i, u) \<in> set (q_users q). q_fps q \<le> the (fps_cap u) \<and> (\<forall>g. ud_fps (u_delay u) = Some g \<longrightarrow> q_fps q \<le> g))"
proof -
  obtain q where q: "qos_run ([(0, O_Open True 1), (0, O_Open True 2), (5, O_CustomFps 2 12)] @ [(10 ^ 9, O_Delay 1 20)])
      (qos_default True 0) = Some q" using qos_run_ok[OF qos_ok_default] by blast
  then show ?thesis using slowest_viewer_sets_pace[OF q] by simp
qed

text \<open>
  While a viewer owes a reply for more than two seconds the brake never raises its rate, and
  never takes it below 5 frames per second unless it was already lower or its cap is.
\<close>

theorem stall_brake_bounded:
  assumes "qos_run ops (qos_default not_linux start) = Some q"
    and "hm_get (q_users q) i = Some u" and "ud_fps (u_delay u) = Some g" and "2000 < elapsed"
  shows "\<exists>u' f. user_stall elapsed u = Some u'
     \<and> user_delay_response_elapsed now i elapsed q = adjust_fps now (q\<lparr>q_users := hm_modify i (\<lambda>_. u') (q_users q)\<rparr>)
     \<and> ud_fps (u_delay u') = Some f \<and> f \<le> g \<and> min g (min 5 (the (fps_cap u))) \<le> f"
proof -
  have "qos_ok q" using qos_run_ok[OF qos_ok_default, of ops not_linux start] assms(1) by auto
  then have "user_ok u" using users_okD assms(2) by (auto simp: qos_ok_alt)
  then obtain u' f where "user_stall elapsed u = Some u'" "ud_fps (u_delay u') = Some f"
    "f \<le> g" "min g (min 5 (the (fps_cap u))) \<le> f" using user_stall_ok[of u elapsed] assms(3) by blast
  then show ?thesis using assms(2,4) by (simp add: user_delay_response_elapsed_def)
qed

theorem stall_brake_bounded_witness:
  "\<exists>q u u' f. qos_run [(0, O_Open True 1), (10 ^ 9, O_Delay 1 20)] (qos_default True 0) = Some q
     \<and> hm_get (q_users q) 1 = Some u \<and> user_stall 5000 u = Some u' \<and> ud_fps (u_delay u') = Some f
     \<and> f \<le> the (ud_fps (u_delay u))"
proof -
  let ?ops = "[(0, O_Open True 1), (10 ^ 9, O_Delay 1 20)]"
  have ev: "map_option (\<lambda>q. map_option (\<lambda>u. ud_fps (u_delay u)) (hm_get (q_users q) 1)) (qos_run ?ops (qos_default True 0))
      = Some (Some (Some 16))" by code_simp
  then obtain q where q: "qos_run ?ops (qos_default True 0) = Some q"
    "map_option (\<lambda>u. ud_fps (u_delay u)) (hm_get (q_users q) 1) = Some (Some 16)" by auto
  then obtain u where u: "hm_get (q_users q) 1 = Some u" "ud_fps (u_delay u) = Some 16" by auto
  show ?thesis using stall_brake_bounded[OF q(1) u, of 5000 0] q(1) u by auto
qed

end
