(* ===== verification/Transfer_Path.thy ===== *)
theory Transfer_Path
  imports Rust_Text
begin

text \<open>
  File names of the file transfer (\<open>libs/base/src/fs.rs\<close>): the checks on names and paths that a
  peer sends, and the paths built from them. Paths are Unix paths; the parameter \<open>windows\<close> of the
  name check is \<open>cfg!(windows)\<close>.
\<close>

section \<open>Paths of the standard library\<close>

datatype component = RootDir | CurDir | ParentDir | Normal string

definition to_component :: "string \<Rightarrow> component" where
  "to_component s = (if s = ''..'' then ParentDir else Normal s)"

definition has_root :: "string \<Rightarrow> bool" where
  "has_root p \<longleftrightarrow> (case p of c # _ \<Rightarrow> c = CHR ''/'' | [] \<Rightarrow> False)"

definition pieces :: "string \<Rightarrow> string list" where
  "pieces p = filter (\<lambda>s. s \<noteq> []) (split_char CHR ''/'' p)"

text \<open>\<open>Path::components\<close>: a \<open>.\<close> is kept only at the start of a relative path.\<close>

definition path_components :: "string \<Rightarrow> component list" where
  "path_components p =
     (if has_root p then [RootDir] else case pieces p of s # _ \<Rightarrow> if s = ''.'' then [CurDir] else [] | [] \<Rightarrow> [])
     @ map to_component (filter (\<lambda>s. s \<noteq> ''.'') (pieces p))"

text \<open>\<open>PathBuf::push\<close>: an absolute path replaces, a relative one is appended after a separator.\<close>

definition path_push :: "string \<Rightarrow> string \<Rightarrow> string" where
  "path_push p name =
     (if has_root name then name
      else if p = [] \<or> last p = CHR ''/'' then p @ name
      else p @ ''/'' @ name)"

text \<open>What a path denotes to the operating system: its components without the \<open>.\<close> ones.\<close>

definition fs_key :: "string \<Rightarrow> component list" where
  "fs_key p = filter (\<lambda>c. c \<noteq> CurDir) (path_components p)"

section \<open>Errors\<close>

datatype fs_error =
  NullBytes | PathTraversal | AbsolutePath | EmptyFileName | SymlinkComponent | ValidateFailed | InvalidComponent
| EmptyArgument | ArgumentNullBytes | EmptyNewName | NotExists | WrongId | WrongFileNumber | StreamIsNone | NoDigestForBuf | Io

text \<open>What \<open>symlink_metadata\<close> says about a path.\<close>

datatype stat = IsLink | IsOther | NotFound | StatFailed

section \<open>Names\<close>

definition get_ext :: "string \<Rightarrow> string" where
  "get_ext name = (if CHR ''.'' \<in> set name then rev (takeWhile (\<lambda>c. c \<noteq> CHR ''.'') (rev name)) else [])"

definition is_compressed_file :: "string \<Rightarrow> bool" where
  "is_compressed_file name \<longleftrightarrow>
     get_ext name \<in> set [''xz'', ''gz'', ''zip'', ''7z'', ''rar'', ''bz2'', ''tgz'', ''png'', ''jpg'']"

text \<open>\<open>str::split\<close> with a predicate.\<close>

fun split_pred :: "(char \<Rightarrow> bool) \<Rightarrow> string \<Rightarrow> string list" where
  "split_pred P [] = [[]]"
| "split_pred P (x # xs) =
     (if P x then [] # split_pred P xs
      else case split_pred P xs of p # ps \<Rightarrow> (x # p) # ps | [] \<Rightarrow> [[x]])"

definition is_ascii_alphabetic :: "char \<Rightarrow> bool" where
  "is_ascii_alphabetic c \<longleftrightarrow> (let n = of_char c :: nat in 65 \<le> n \<and> n \<le> 90 \<or> 97 \<le> n \<and> n \<le> 122)"

abbreviation backslash :: char where "backslash \<equiv> char_of (92 :: nat)"
abbreviation nul :: char where "nul \<equiv> char_of (0 :: nat)"

definition validate_file_name_no_traversal :: "bool \<Rightarrow> string \<Rightarrow> (fs_error, unit) result" where
  "validate_file_name_no_traversal windows name =
     (if nul \<in> set name then Err NullBytes
      else if list_ex (\<lambda>s. s = ''..'')
                (filter (\<lambda>s. s \<noteq> []) (split_pred (\<lambda>c. c = CHR ''/'' \<or> windows \<and> c = backslash) name))
      then Err PathTraversal
      else if windows then
        if 2 \<le> length name \<and> is_ascii_alphabetic (name ! 0) \<and> name ! 1 = CHR '':'' then Err AbsolutePath
        else if has_root name \<or> (name \<noteq> [] \<and> hd name = backslash) then Err AbsolutePath
        else Ok ()
      else if has_root name then Err AbsolutePath
      else Ok ())"

fun validate_names :: "bool \<Rightarrow> string list \<Rightarrow> (fs_error, unit) result" where
  "validate_names windows [] = Ok ()"
| "validate_names windows (n # ns) =
     (if n = [] then Err EmptyFileName
      else case validate_file_name_no_traversal windows n of Inl e \<Rightarrow> Err e | Inr _ \<Rightarrow> validate_names windows ns)"

definition validate_transfer_file_names :: "bool \<Rightarrow> string list \<Rightarrow> (fs_error, unit) result" where
  "validate_transfer_file_names windows names =
     (if length names = 1 \<and> hd names = [] then Ok () else validate_names windows names)"

definition validate_fs_path_argument :: "string \<Rightarrow> (fs_error, unit) result" where
  "validate_fs_path_argument path =
     (if path = [] then Err EmptyArgument else if nul \<in> set path then Err ArgumentNullBytes else Ok ())"

fun check_components :: "(string \<Rightarrow> stat) \<Rightarrow> string \<Rightarrow> component list \<Rightarrow> (fs_error, unit) result" where
  "check_components st current [] = Ok ()"
| "check_components st current (Normal seg # cs) =
     (let current = path_push current seg in
      case st current of
        IsLink \<Rightarrow> Err SymlinkComponent
      | IsOther \<Rightarrow> check_components st current cs
      | NotFound \<Rightarrow> check_components st current cs
      | StatFailed \<Rightarrow> Err ValidateFailed)"
| "check_components st current (CurDir # cs) = check_components st current cs"
| "check_components st current (RootDir # cs) = Err InvalidComponent"
| "check_components st current (ParentDir # cs) = Err InvalidComponent"

definition validate_no_symlink_components :: "(string \<Rightarrow> stat) \<Rightarrow> string \<Rightarrow> string \<Rightarrow> (fs_error, unit) result" where
  "validate_no_symlink_components st base name =
     (if name = [] then Ok () else check_components st base (path_components name))"

definition transfer_join :: "string \<Rightarrow> string \<Rightarrow> string" where
  "transfer_join p name = (if name = [] then p else path_push p name)"

definition join_validated_path :: "bool \<Rightarrow> (string \<Rightarrow> stat) \<Rightarrow> string \<Rightarrow> string \<Rightarrow> (fs_error, string) result" where
  "join_validated_path windows st base name =
     (case validate_file_name_no_traversal windows name of
        Inl e \<Rightarrow> Err e
      | Inr _ \<Rightarrow>
          (case validate_no_symlink_components st base name of
             Inl e \<Rightarrow> Err e
           | Inr _ \<Rightarrow> Ok (transfer_join base name)))"

text \<open>\<open>transform_windows_path\<close> on one name.\<close>

definition transform_windows_name :: "string \<Rightarrow> string" where
  "transform_windows_name name = map (\<lambda>c. if c = backslash then CHR ''/'' else c) name"

section \<open>Splitting and joining\<close>

lemma split_pred_char: "split_pred (\<lambda>c. c = d) s = split_char d s"
  by (induction s) (auto split: list.split)

lemma split_char_append: "split_char c (a @ c # b) = split_char c a @ split_char c b"
proof (induction a)
  case (Cons x a)
  then show ?case by (cases "split_char c a") auto
qed simp

lemma split_char_snoc_sep: "split_char c (a @ [c]) = split_char c a @ [[]]"
  using split_char_append[of c a "[]"] by simp

lemma split_char_no_sep: "s \<in> set (split_char c p) \<Longrightarrow> c \<notin> set s"
proof (induction p arbitrary: s)
  case (Cons x p)
  then show ?case by (cases "split_char c p") (auto split: if_splits)
qed simp

lemma split_char_set: "s \<in> set (split_char c p) \<Longrightarrow> set s \<subseteq> set p"
proof (induction p arbitrary: s)
  case (Cons x p)
  then show ?case by (cases "split_char c p") (fastforce split: if_splits)+
qed simp

lemma split_char_id: "c \<notin> set s \<Longrightarrow> split_char c s = [s]"
  by (induction s) auto

lemma pieces_sep: "pieces (a @ CHR ''/'' # b) = pieces a @ pieces b"
  by (simp add: pieces_def split_char_append)

lemma pieces_push:
  assumes "\<not> has_root name"
  shows "pieces (path_push p name) = pieces p @ pieces name"
proof (cases "p = [] \<or> last p = CHR ''/''")
  case False
  then show ?thesis using assms by (simp add: path_push_def pieces_sep)
next
  case True
  show ?thesis
  proof (cases "p = []")
    case False
    then obtain a where a: "p = a @ [CHR ''/'']" using True by (metis append_butlast_last_id)
    then show ?thesis using assms pieces_sep[of a name] pieces_sep[of a "[]"] by (simp add: path_push_def) (simp add: pieces_def)
  qed (use assms in \<open>simp add: path_push_def pieces_def\<close>)
qed

text \<open>The pieces that count.\<close>

definition segs :: "string \<Rightarrow> string list" where
  "segs p = filter (\<lambda>s. s \<noteq> ''.'') (pieces p)"

lemma fs_key_segs: "fs_key p = (if has_root p then [RootDir] else []) @ map to_component (segs p)"
proof -
  have c: "to_component s \<noteq> CurDir" for s by (simp add: to_component_def)
  show ?thesis by (auto simp: fs_key_def path_components_def segs_def filter_map o_def c split: list.split)
qed

lemma segs_push: "\<not> has_root name \<Longrightarrow> segs (path_push p name) = segs p @ segs name"
  by (simp add: segs_def pieces_push)

lemma has_root_push: "\<not> has_root name \<Longrightarrow> p \<noteq> [] \<Longrightarrow> has_root (path_push p name) = has_root p"
  by (cases p) (auto simp: path_push_def has_root_def)

lemma fs_key_push:
  assumes "\<not> has_root name"
  shows "fs_key (path_push p name) = fs_key p @ map to_component (segs name)"
proof (cases "p = []")
  case True
  then have "path_push p name = name" using assms by (simp add: path_push_def)
  then show ?thesis using True assms by (simp add: fs_key_segs) (simp add: has_root_def segs_def pieces_def)
next
  case False
  then show ?thesis using assms by (simp add: fs_key_segs has_root_push segs_push)
qed

lemma fs_key_join:
  "\<not> has_root name \<Longrightarrow> fs_key (transfer_join p name) = fs_key p @ map to_component (segs name)"
  by (cases "name = []") (auto simp: transfer_join_def fs_key_push segs_def pieces_def)

section \<open>What the checks guarantee\<close>

text \<open>A segment that names an entry of a directory and nothing else.\<close>

definition plain_seg :: "string \<Rightarrow> bool" where
  "plain_seg s \<longleftrightarrow> s \<noteq> [] \<and> s \<noteq> ''.'' \<and> s \<noteq> ''..'' \<and> CHR ''/'' \<notin> set s \<and> nul \<notin> set s"

lemma validate_name_iff:
  "validate_file_name_no_traversal False name = Ok () \<longleftrightarrow>
     nul \<notin> set name \<and> \<not> has_root name \<and> ''..'' \<notin> set (segs name)"
  by (auto simp: validate_file_name_no_traversal_def split_pred_char segs_def pieces_def list_ex_iff)

lemma plain_segs:
  assumes "validate_file_name_no_traversal False name = Ok ()" "s \<in> set (segs name)"
  shows "plain_seg s"
  using assms split_char_no_sep[of s "CHR ''/''" name] split_char_set[of s "CHR ''/''" name]
  by (auto simp: validate_name_iff plain_seg_def segs_def pieces_def)

lemma to_component_plain: "plain_seg s \<Longrightarrow> to_component s = Normal s"
  by (simp add: plain_seg_def to_component_def)

lemma map_to_component_plain: "(\<And>s. s \<in> set ss \<Longrightarrow> plain_seg s) \<Longrightarrow> map to_component ss = map Normal ss"
  by (simp add: to_component_plain)

text \<open>The directory entries the walk looks at: those of every beginning of the name.\<close>

fun walk :: "string \<Rightarrow> string list \<Rightarrow> string list" where
  "walk p [] = []"
| "walk p (s # ss) = path_push p s # walk (path_push p s) ss"

lemma check_components_plain:
  "check_components st p (map Normal ss) = Ok () \<longleftrightarrow> (\<forall>q \<in> set (walk p ss). st q = IsOther \<or> st q = NotFound)"
proof (induction ss arbitrary: p)
  case (Cons s ss)
  show ?case by (cases "st (path_push p s)") (auto simp: Cons.IH Let_def)
qed simp

lemma path_components_plain:
  assumes "validate_file_name_no_traversal False name = Ok ()"
  shows "\<exists>dot. path_components name = dot @ map Normal (segs name) \<and> dot \<in> {[], [CurDir]}"
  using assms map_to_component_plain[of "segs name"] plain_segs[OF assms]
  by (auto simp: path_components_def segs_def[symmetric] validate_name_iff split: list.split)

lemma validate_links_iff:
  assumes "validate_file_name_no_traversal False name = Ok ()"
  shows "validate_no_symlink_components st base name = Ok () \<longleftrightarrow>
    (\<forall>q \<in> set (walk base (segs name)). st q = IsOther \<or> st q = NotFound)"
proof -
  obtain dot where d: "path_components name = dot @ map Normal (segs name)" "dot \<in> {[], [CurDir]}"
    using path_components_plain[OF assms] by blast
  show ?thesis
  proof (cases "name = []")
    case True
    then show ?thesis by (simp add: validate_no_symlink_components_def segs_def pieces_def)
  next
    case False
    then show ?thesis using d check_components_plain[of st base "segs name"] by (auto simp: validate_no_symlink_components_def)
  qed
qed

lemma join_validated_iff:
  "join_validated_path False st base name = Ok p \<longleftrightarrow>
     validate_file_name_no_traversal False name = Ok ()
     \<and> (\<forall>q \<in> set (walk base (segs name)). st q = IsOther \<or> st q = NotFound) \<and> p = transfer_join base name"
  using validate_links_iff[of name st base]
  by (cases "validate_file_name_no_traversal False name"; cases "validate_no_symlink_components st base name")
    (auto simp: join_validated_path_def)

lemma has_root_seg: "CHR ''/'' \<notin> set s \<Longrightarrow> \<not> has_root s"
  by (cases s) (auto simp: has_root_def)

lemma fs_key_walk:
  "\<forall>s \<in> set ss. plain_seg s \<Longrightarrow> q \<in> set (walk p ss) \<Longrightarrow>
   \<exists>n. 0 < n \<and> n \<le> length ss \<and> fs_key q = fs_key p @ map Normal (take n ss)"
proof (induction ss arbitrary: p)
  case (Cons s ss)
  have s: "plain_seg s" using Cons.prems by simp
  then have "pieces s = [s]" by (simp add: plain_seg_def pieces_def split_char_id)
  then have seg: "segs s = [s]" using s by (simp add: segs_def plain_seg_def)
  have r: "\<not> has_root s" using s has_root_seg by (simp add: plain_seg_def)
  have k: "fs_key (path_push p s) = fs_key p @ [Normal s]" using fs_key_push[OF r] seg to_component_plain[OF s] by simp
  consider "q = path_push p s" | "q \<in> set (walk (path_push p s) ss)" using Cons.prems(2) by auto
  then show ?case
  proof cases
    case 1
    then show ?thesis using k by (intro exI[of _ 1]) simp
  next
    case 2
    then obtain n where "0 < n" "n \<le> length ss" "fs_key q = fs_key (path_push p s) @ map Normal (take n ss)"
      using Cons.IH[of "path_push p s"] Cons.prems(1) by auto
    then show ?thesis using k by (intro exI[of _ "Suc n"]) simp
  qed
qed simp

section \<open>Properties\<close>

text \<open>
  A name a peer sends is accepted only if the path it leads to is the base directory followed
  by the name's own segments: no segment is empty, \<open>.\<close>, \<open>..\<close> or contains a separator or a null
  byte, the base is never replaced by an absolute name, and no directory entry on the way below
  the base, the file itself included, is a symbolic link when it is checked.
\<close>

theorem validated_path_stays_inside:
  assumes "join_validated_path False st base name = Ok p"
  shows "fs_key p = fs_key base @ map Normal (segs name)
     \<and> (\<forall>s \<in> set (segs name). plain_seg s)
     \<and> (\<forall>q \<in> set (walk base (segs name)). st q \<noteq> IsLink)"
proof -
  have v: "validate_file_name_no_traversal False name = Ok ()" and p: "p = transfer_join base name"
    and l: "\<forall>q \<in> set (walk base (segs name)). st q = IsOther \<or> st q = NotFound"
    using assms by (auto simp: join_validated_iff)
  have "fs_key p = fs_key base @ map to_component (segs name)"
    using v p fs_key_join by (simp add: validate_name_iff)
  then show ?thesis using map_to_component_plain[of "segs name"] plain_segs[OF v] l by fastforce
qed

theorem validated_path_stays_inside_witness:
  "join_validated_path False (\<lambda>_. NotFound) ''/home/u'' ''./a//b.txt'' = Ok ''/home/u/./a//b.txt''
   \<and> fs_key ''/home/u/./a//b.txt'' = fs_key ''/home/u'' @ map Normal (segs ''./a//b.txt'')"
proof -
  have "join_validated_path False (\<lambda>_. NotFound) ''/home/u'' ''./a//b.txt'' = Ok ''/home/u/./a//b.txt''" by code_simp
  then show ?thesis using validated_path_stays_inside by blast
qed

end
