(* ===== verification/Transfer_Fs.thy ===== *)
theory Transfer_Fs
  imports Transfer_Path
begin

text \<open>
  The file system as the file transfer sees it: names that lead to directories, symbolic links or
  files, the contents of the files apart from their names, and the calls of the standard library
  (\<open>std::fs\<close>, and \<open>tokio::fs\<close> which forwards to it) that \<open>libs/base/src/fs.rs\<close> makes. An open file
  is its contents and a position, so it survives the renaming or removal of its name. Where the
  operating system refuses a call for its own reasons (permissions, a full or failing disk) the
  state says so: \<open>denied\<close> for names, \<open>broken\<close> for contents.
\<close>

section \<open>State\<close>

type_synonym key = "component list"

datatype node = N_Dir | N_Link key | N_File nat

record fsys =
  names :: "key \<Rightarrow> node option"
  contents :: "nat \<Rightarrow> bytes"
  mtime :: "nat \<Rightarrow> nat"
  next_file :: nat
  denied :: "key \<Rightarrow> bool"
  broken :: "nat \<Rightarrow> bool"

section \<open>Calls\<close>

text \<open>The root and the current directory always exist.\<close>

definition key_is_dir :: "fsys \<Rightarrow> key \<Rightarrow> bool" where
  "key_is_dir fs k \<longleftrightarrow> k = [] \<or> k = [RootDir] \<or> names fs k = Some N_Dir"

definition fs_stat :: "fsys \<Rightarrow> string \<Rightarrow> stat" where
  "fs_stat fs p =
     (if denied fs (fs_key p) then StatFailed
      else if key_is_dir fs (fs_key p) then IsOther
      else case names fs (fs_key p) of
             None \<Rightarrow> NotFound
           | Some (N_Link _) \<Rightarrow> IsLink
           | Some _ \<Rightarrow> IsOther)"

text \<open>A link in the last place is followed, up to the kernel's limit of 40.\<close>

fun follow :: "nat \<Rightarrow> fsys \<Rightarrow> key \<Rightarrow> key option" where
  "follow n fs k =
     (case names fs k of
        Some (N_Link t) \<Rightarrow> (case n of 0 \<Rightarrow> None | Suc m \<Rightarrow> follow m fs t)
      | _ \<Rightarrow> Some k)"

declare follow.simps [simp del]

definition target :: "fsys \<Rightarrow> string \<Rightarrow> key option" where
  "target fs p = follow 40 fs (fs_key p)"

definition fs_exists :: "fsys \<Rightarrow> string \<Rightarrow> bool" where
  "fs_exists fs p = (case target fs p of None \<Rightarrow> False | Some k \<Rightarrow> key_is_dir fs k \<or> names fs k \<noteq> None)"

text \<open>The file a path leads to.\<close>

definition fs_file :: "fsys \<Rightarrow> string \<Rightarrow> nat option" where
  "fs_file fs p =
     (case target fs p of
        None \<Rightarrow> None
      | Some k \<Rightarrow> if key_is_dir fs k then None else case names fs k of Some (N_File i) \<Rightarrow> Some i | _ \<Rightarrow> None)"

text \<open>Opening for reading or, without truncation, for writing.\<close>

definition fs_open :: "fsys \<Rightarrow> string \<Rightarrow> nat option" where
  "fs_open fs p = (if denied fs (fs_key p) then None else fs_file fs p)"

text \<open>\<open>File::create\<close>: truncate what is there, or make a new file in an existing directory.\<close>

definition fs_create :: "fsys \<Rightarrow> string \<Rightarrow> (fsys \<times> nat) option" where
  "fs_create fs p =
     (case target fs p of
        None \<Rightarrow> None
      | Some k \<Rightarrow>
          if denied fs k \<or> key_is_dir fs k then None
          else case names fs k of
                 Some (N_File i) \<Rightarrow> Some (fs\<lparr>contents := (contents fs)(i := [])\<rparr>, i)
               | Some _ \<Rightarrow> None
               | None \<Rightarrow>
                   if key_is_dir fs (butlast k)
                   then Some (fs\<lparr>names := (names fs)(k \<mapsto> N_File (next_file fs)),
                                contents := (contents fs)(next_file fs := []), next_file := next_file fs + 1\<rparr>, next_file fs)
                   else None)"

text \<open>\<open>OpenOptions::new().create(true).write(true).open\<close>.\<close>

definition fs_open_create :: "fsys \<Rightarrow> string \<Rightarrow> (fsys \<times> nat) option" where
  "fs_open_create fs p =
     (case fs_file fs p of
        Some i \<Rightarrow> if denied fs (fs_key p) then None else Some (fs, i)
      | None \<Rightarrow> fs_create fs p)"

definition fs_remove_file :: "fsys \<Rightarrow> string \<Rightarrow> fsys option" where
  "fs_remove_file fs p =
     (let k = fs_key p in
      if denied fs k \<or> key_is_dir fs k \<or> names fs k = None then None
      else Some (fs\<lparr>names := (names fs)(k := None)\<rparr>))"

text \<open>\<open>rename\<close> of something that is not a directory; a link is renamed itself.\<close>

definition fs_rename :: "fsys \<Rightarrow> string \<Rightarrow> string \<Rightarrow> fsys option" where
  "fs_rename fs a b =
     (let ka = fs_key a; kb = fs_key b in
      if denied fs ka \<or> denied fs kb \<or> key_is_dir fs ka \<or> key_is_dir fs kb \<or> \<not> key_is_dir fs (butlast kb) then None
      else case names fs ka of
             None \<Rightarrow> None
           | Some n \<Rightarrow> if ka = kb then Some fs else Some (fs\<lparr>names := (names fs)(ka := None, kb \<mapsto> n)\<rparr>))"

definition fs_set_mtime :: "fsys \<Rightarrow> string \<Rightarrow> nat \<Rightarrow> fsys option" where
  "fs_set_mtime fs p t =
     (case fs_open fs p of None \<Rightarrow> None | Some i \<Rightarrow> Some (fs\<lparr>mtime := (mtime fs)(i := t)\<rparr>))"

text \<open>\<open>create_dir_all\<close>: the missing directories from the outside in, as far as it gets.\<close>

fun make_dirs :: "fsys \<Rightarrow> key \<Rightarrow> component list \<Rightarrow> fsys" where
  "make_dirs fs k [] = fs"
| "make_dirs fs k (c # cs) =
     (let k = k @ [c] in
      if key_is_dir fs k then make_dirs fs k cs
      else if names fs k = None \<and> \<not> denied fs k then make_dirs (fs\<lparr>names := (names fs)(k \<mapsto> N_Dir)\<rparr>) k cs
      else fs)"

definition create_parent :: "fsys \<Rightarrow> string \<Rightarrow> fsys" where
  "create_parent fs p = make_dirs fs [] (butlast (fs_key p))"

text \<open>Reading and writing an open file at its position.\<close>

definition write_at :: "bytes \<Rightarrow> nat \<Rightarrow> bytes \<Rightarrow> bytes" where
  "write_at old pos new = take pos (old @ replicate (pos - length old) 0) @ new @ drop (pos + length new) old"

definition fs_write :: "fsys \<Rightarrow> nat \<Rightarrow> nat \<Rightarrow> bytes \<Rightarrow> fsys option" where
  "fs_write fs i pos bs =
     (if broken fs i then None else Some (fs\<lparr>contents := (contents fs)(i := write_at (contents fs i) pos bs)\<rparr>))"

text \<open>\<open>std::fs::write\<close>: create and write.\<close>

definition fs_put :: "fsys \<Rightarrow> string \<Rightarrow> bytes \<Rightarrow> fsys option" where
  "fs_put fs p bs = (case fs_create fs p of None \<Rightarrow> None | Some (fs', i) \<Rightarrow> fs_write fs' i 0 bs)"

definition try_fs :: "fsys \<Rightarrow> fsys option \<Rightarrow> fsys" where
  "try_fs fs r = (case r of Some fs' \<Rightarrow> fs' | None \<Rightarrow> fs)"

section \<open>Facts\<close>

lemma write_at_end [simp]: "write_at old (length old) new = old @ new"
  by (simp add: write_at_def)

lemma follow_not_link: "(\<And>t. names fs k \<noteq> Some (N_Link t)) \<Longrightarrow> follow n fs k = Some k"
  by (auto simp: follow.simps split: option.split node.split)

lemma key_is_dir_names [simp]: "key_is_dir (fs\<lparr>contents := c\<rparr>) = key_is_dir fs" "key_is_dir (fs\<lparr>mtime := m\<rparr>) = key_is_dir fs"
  by (auto simp: key_is_dir_def fun_eq_iff)

text \<open>\<open>create_dir_all\<close> adds directories on the way to its target and changes nothing else.\<close>

lemma make_dirs_frame:
  "denied (make_dirs fs k cs) = denied fs \<and> broken (make_dirs fs k cs) = broken fs
   \<and> contents (make_dirs fs k cs) = contents fs \<and> next_file (make_dirs fs k cs) = next_file fs
   \<and> mtime (make_dirs fs k cs) = mtime fs"
  by (induction cs arbitrary: fs k) (simp_all add: Let_def)

lemma make_dirs_names:
  "names (make_dirs fs k cs) x = names fs x
   \<or> (names fs x = None \<and> names (make_dirs fs k cs) x = Some N_Dir \<and> (\<exists>n. 0 < n \<and> n \<le> length cs \<and> x = k @ take n cs))"
proof (induction cs arbitrary: fs k)
  case (Cons c cs)
  have ex: "\<exists>n. 0 < n \<and> n \<le> length (c # cs) \<and> x = k @ take n (c # cs)"
    if "\<exists>n. 0 < n \<and> n \<le> length cs \<and> x = (k @ [c]) @ take n cs"
  proof -
    from that obtain n where "n \<le> length cs" "x = (k @ [c]) @ take n cs" by blast
    then show ?thesis by (intro exI[of _ "Suc n"]) simp
  qed
  have ex1: "\<exists>n. 0 < n \<and> n \<le> length (c # cs) \<and> x = k @ take n (c # cs)" if "x = k @ [c]"
    using that by (intro exI[of _ 1]) simp
  show ?case
    using Cons.IH[of fs "k @ [c]"] Cons.IH[of "fs\<lparr>names := (names fs)(k @ [c] \<mapsto> N_Dir)\<rparr>" "k @ [c]"] ex ex1
    by (auto simp: Let_def split: if_splits)
qed simp

lemma make_dirs_is_dir: "key_is_dir fs x \<Longrightarrow> key_is_dir (make_dirs fs k cs) x"
  using make_dirs_names[of fs k cs x] by (auto simp: key_is_dir_def)

lemma make_dirs_all:
  "key_is_dir fs k \<Longrightarrow> (\<And>n. 0 < n \<Longrightarrow> n \<le> length cs \<Longrightarrow>
     key_is_dir fs (k @ take n cs) \<or> (names fs (k @ take n cs) = None \<and> \<not> denied fs (k @ take n cs))) \<Longrightarrow>
   key_is_dir (make_dirs fs k cs) (k @ cs)"
proof (induction cs arbitrary: fs k)
  case (Cons c cs)
  have c: "key_is_dir fs (k @ [c]) \<or> (names fs (k @ [c]) = None \<and> \<not> denied fs (k @ [c]))" using Cons.prems(2)[of 1] by simp
  have step: "key_is_dir (make_dirs f (k @ [c]) cs) ((k @ [c]) @ cs)"
    if "key_is_dir f (k @ [c])" and "\<And>x. x \<noteq> k @ [c] \<Longrightarrow> names f x = names fs x" and "denied f = denied fs" for f
  proof (rule Cons.IH[OF that(1)])
    fix n assume n: "0 < n" "n \<le> length cs"
    have "key_is_dir fs (k @ take (Suc n) (c # cs)) \<or> names fs (k @ take (Suc n) (c # cs)) = None \<and> \<not> denied fs (k @ take (Suc n) (c # cs))"
      using Cons.prems(2)[of "Suc n"] n by simp
    moreover have "(k @ [c]) @ take n cs \<noteq> k @ [c]" using n by auto
    ultimately show "key_is_dir f ((k @ [c]) @ take n cs) \<or> (names f ((k @ [c]) @ take n cs) = None \<and> \<not> denied f ((k @ [c]) @ take n cs))"
      using that(2,3) by (auto simp: key_is_dir_def)
  qed
  show ?case using c step[of fs] step[of "fs\<lparr>names := (names fs)(k @ [c] \<mapsto> N_Dir)\<rparr>"]
    by (auto simp: Let_def key_is_dir_def)
qed simp

end
