(* ===== verification/Transfer_Job.thy ===== *)
theory Transfer_Job
  imports Transfer_Fs
begin

text \<open>
  Transfer jobs (\<open>libs/base/src/fs.rs\<close>, \<open>TransferJob\<close>): the receiving side that writes blocks to
  files, the sending side that reads them, the confirmation of overwriting, and the lists of jobs a
  session keeps. Compression is \<open>libs/hbb_common/src/compress.rs\<close>. The zstd and JSON libraries are
  parameters. Messages to the peer are the outputs of the operations.
\<close>

section \<open>Code outside the repository\<close>

record externals =
  zstd_encode :: "bytes \<Rightarrow> bytes option"
  zstd_decode :: "nat \<Rightarrow> bytes \<Rightarrow> bytes option"
  digest_json :: "nat \<Rightarrow> nat \<Rightarrow> bytes"
  digest_parse :: "bytes \<Rightarrow> (nat \<times> nat) option"

text \<open>
  \<open>zstd_encode\<close> is \<open>None\<close> when there is no compressor or it fails; \<open>zstd_decode n\<close> is what reading the
  decoder through \<open>take(n)\<close> gives.
\<close>

definition MAX_DECOMPRESSED_SIZE :: nat where "MAX_DECOMPRESSED_SIZE = 256 * 1024 * 1024"

definition compress :: "externals \<Rightarrow> bytes \<Rightarrow> bytes" where
  "compress x data = (case zstd_encode x data of Some res \<Rightarrow> res | None \<Rightarrow> [])"

definition decompress_with_limit :: "externals \<Rightarrow> bytes \<Rightarrow> nat \<Rightarrow> bytes option" where
  "decompress_with_limit x data limit =
     (case zstd_decode x (min (limit + 1) USIZE_MAX) data of
        None \<Rightarrow> None
      | Some out \<Rightarrow> if limit < length out then None else Some out)"

definition decompress :: "externals \<Rightarrow> bytes \<Rightarrow> bytes" where
  "decompress x data = (case decompress_with_limit x data MAX_DECOMPRESSED_SIZE of Some out \<Rightarrow> out | None \<Rightarrow> [])"

section \<open>Data\<close>

datatype job_type = Generic | Printer

definition job_type_of_int :: "int \<Rightarrow> job_type" where
  "job_type_of_int v = (if v = 0 then Generic else if v = 1 then Printer else Generic)"

definition job_type_to_int :: "job_type \<Rightarrow> int" where
  "job_type_to_int t = (case t of Generic \<Rightarrow> 0 | Printer \<Rightarrow> 1)"

datatype data_source = FilePath string | MemoryCursor bytes

text \<open>
  An open file, the position in it and whether it was opened for writing (else for reading), or a
  buffered stream over memory and its position.
\<close>

datatype data_stream = FileStream nat nat bool | BufStream bytes nat

record file_entry =
  e_name :: string
  e_size :: nat
  e_modified :: nat

record transfer_job =
  j_id :: int
  j_type :: job_type
  j_remote :: string
  j_source :: data_source
  j_show_hidden :: bool
  j_is_remote :: bool
  j_is_last_job :: bool
  j_is_resume :: bool
  j_file_num :: int
  j_files :: "file_entry list"
  j_conn_id :: int
  j_stream :: "data_stream option"
  j_total_size :: nat
  j_finished_size :: nat
  j_transferred :: nat
  j_detect :: bool
  j_confirmed :: bool
  j_skipped :: bool
  j_waiting :: bool
  j_strategy :: "bool option"
  j_digest_size :: nat
  j_digest_modified :: nat

record file_block =
  b_id :: int
  b_file_num :: int
  b_data :: bytes
  b_compressed :: bool

datatype confirm_union = Skip bool | OffsetBlk nat

record send_confirm =
  r_id :: int
  r_file_num :: int
  r_union :: "confirm_union option"

record transfer_digest =
  t_id :: int
  t_file_num :: int
  t_last_modified :: nat
  t_file_size :: nat
  t_is_identical :: bool
  t_transferred_size :: nat
  t_is_resume :: bool

record job_meta =
  jm_id :: int
  jm_remote :: string
  jm_to :: string
  jm_show_hidden :: bool
  jm_file_num :: int
  jm_is_remote :: bool

datatype job_err = FsErr fs_error | Skipped

datatype file_msg =
  M_Error int job_err int
| M_Block file_block
| M_Done int int
| M_Digest transfer_digest

text \<open>\<open>as usize\<close> of an \<open>i32\<close>, and the sum of \<open>u64\<close> values.\<close>

definition usize_of :: "int \<Rightarrow> nat" where
  "usize_of i = nat (if i < 0 then i + 2 ^ 64 else i)"

definition sum_u64 :: "nat list \<Rightarrow> nat" where
  "sum_u64 xs = foldl (\<lambda>a x. (a + x) mod 2 ^ 64) 0 xs"

section \<open>Making jobs\<close>

definition new_write :: "int \<Rightarrow> job_type \<Rightarrow> string \<Rightarrow> data_source \<Rightarrow> int \<Rightarrow> bool \<Rightarrow> bool \<Rightarrow> bool \<Rightarrow> transfer_job" where
  "new_write i t remote source file_num show_hidden is_remote detect =
     \<lparr>j_id = i, j_type = t, j_remote = remote, j_source = source, j_show_hidden = show_hidden,
      j_is_remote = is_remote, j_is_last_job = False, j_is_resume = False, j_file_num = file_num, j_files = [],
      j_conn_id = 0, j_stream = None, j_total_size = 0, j_finished_size = 0, j_transferred = 0, j_detect = detect,
      j_confirmed = False, j_skipped = False, j_waiting = False, j_strategy = None, j_digest_size = 0, j_digest_modified = 0\<rparr>"

fun check_links :: "(string \<Rightarrow> stat) \<Rightarrow> string \<Rightarrow> string list \<Rightarrow> (fs_error, unit) result" where
  "check_links st base [] = Ok ()"
| "check_links st base (n # ns) =
     (case validate_no_symlink_components st base n of Inl e \<Rightarrow> Err e | Inr _ \<Rightarrow> check_links st base ns)"

definition set_files :: "fsys \<Rightarrow> file_entry list \<Rightarrow> transfer_job \<Rightarrow> (fs_error, transfer_job) result" where
  "set_files fs files job =
     (case validate_transfer_file_names False (map e_name files) of
        Inl e \<Rightarrow> Err e
      | Inr _ \<Rightarrow>
          (case (case j_source job of
                   FilePath base \<Rightarrow> check_links (fs_stat fs) base (map e_name files)
                 | MemoryCursor _ \<Rightarrow> Ok ()) of
             Inl e \<Rightarrow> Err e
           | Inr _ \<Rightarrow> Ok (job\<lparr>j_total_size := sum_u64 (map e_size files), j_files := files\<rparr>)))"

definition with_files :: "fsys \<Rightarrow> transfer_job \<Rightarrow> file_entry list \<Rightarrow> (fs_error, transfer_job) result" where
  "with_files fs job files = set_files fs files job"

text \<open>\<open>new_read\<close>; the listing of the directory is an argument.\<close>

definition new_read :: "(string \<Rightarrow> (fs_error, file_entry list) result) \<Rightarrow> int \<Rightarrow> job_type \<Rightarrow> string \<Rightarrow> data_source \<Rightarrow> int
    \<Rightarrow> bool \<Rightarrow> bool \<Rightarrow> bool \<Rightarrow> (fs_error, transfer_job) result" where
  "new_read listing i t remote source file_num show_hidden is_remote detect =
     (case (case source of
              FilePath p \<Rightarrow> (case listing p of Inl e \<Rightarrow> Err e | Inr files \<Rightarrow> Ok (files, sum_u64 (map e_size files)))
            | MemoryCursor c \<Rightarrow> Ok ([], length c)) of
        Inl e \<Rightarrow> Err e
      | Inr (files, total_size) \<Rightarrow>
          Ok ((new_write i t remote source file_num show_hidden is_remote detect)\<lparr>j_files := files, j_total_size := total_size\<rparr>))"

definition set_digest :: "nat \<Rightarrow> nat \<Rightarrow> transfer_job \<Rightarrow> transfer_job" where
  "set_digest sz modified job = job\<lparr>j_digest_size := sz, j_digest_modified := modified\<rparr>"

definition gen_meta :: "transfer_job \<Rightarrow> job_meta" where
  "gen_meta job =
     \<lparr>jm_id = j_id job, jm_remote = j_remote job, jm_to = (case j_source job of FilePath p \<Rightarrow> p | MemoryCursor _ \<Rightarrow> []),
      jm_show_hidden = j_show_hidden job, jm_file_num = j_file_num job, jm_is_remote = j_is_remote job\<rparr>"

section \<open>Receiving\<close>

abbreviation download_path :: "string \<Rightarrow> string" where "download_path p \<equiv> p @ ''.download''"
abbreviation digest_path :: "string \<Rightarrow> string" where "digest_path p \<equiv> p @ ''.digest''"

definition resolve_entry_path :: "fsys \<Rightarrow> transfer_job \<Rightarrow> string \<Rightarrow> string \<Rightarrow> string option" where
  "resolve_entry_path fs job base name =
     (if j_type job = Generic then
        case join_validated_path False (fs_stat fs) base name of Inr path \<Rightarrow> Some path | Inl _ \<Rightarrow> None
      else Some (transfer_join base name))"

text \<open>The path of the job's current file, where it has one.\<close>

definition current_path :: "fsys \<Rightarrow> transfer_job \<Rightarrow> (string \<times> file_entry) option" where
  "current_path fs job =
     (if j_type job = Printer then None
      else case j_source job of
             FilePath p \<Rightarrow>
               let n = usize_of (j_file_num job) in
               if n < length (j_files job) then
                 case resolve_entry_path fs job p (e_name (j_files job ! n)) of
                   Some path \<Rightarrow> Some (path, j_files job ! n)
                 | None \<Rightarrow> None
               else None
           | MemoryCursor _ \<Rightarrow> None)"

definition modify_time :: "fsys \<Rightarrow> transfer_job \<Rightarrow> fsys" where
  "modify_time fs job =
     (case current_path fs job of
        None \<Rightarrow> fs
      | Some (path, entry) \<Rightarrow>
          let fs1 = try_fs fs (fs_remove_file fs (digest_path path));
              fs2 = try_fs fs1 (fs_rename fs1 (download_path path) path)
          in try_fs fs2 (fs_set_mtime fs2 path (e_modified entry)))"

definition remove_download_file :: "fsys \<Rightarrow> transfer_job \<Rightarrow> fsys" where
  "remove_download_file fs job =
     (case current_path fs job of
        None \<Rightarrow> fs
      | Some (path, _) \<Rightarrow>
          let fs1 = try_fs fs (fs_remove_file fs (download_path path))
          in try_fs fs1 (fs_remove_file fs1 (digest_path path)))"

definition set_finished_size_on_resume :: "transfer_job \<Rightarrow> transfer_job" where
  "set_finished_size_on_resume job =
     (if j_is_resume job \<and> 0 < j_file_num job
      then job\<lparr>j_finished_size := sum_u64 (map e_size (take (usize_of (j_file_num job)) (j_files job)))\<rparr>
      else job)"

text \<open>Opening the file of a block; errors leave what was done until then.\<close>

type_synonym write_result = "fsys \<times> transfer_job \<times> (fs_error, unit) result"

definition start_file :: "externals \<Rightarrow> fsys \<Rightarrow> transfer_job \<Rightarrow> string \<Rightarrow> write_result" where
  "start_file x fs job path =
     (let fs = create_parent fs path;
          dp = digest_path path
      in case (if fs_exists fs dp then fs_remove_file fs dp else Some fs) of
           None \<Rightarrow> (fs, job, Err Io)
         | Some fs \<Rightarrow>
             (case fs_create fs (download_path path) of
                None \<Rightarrow> (fs, job, Err Io)
              | Some (fs, i) \<Rightarrow>
                  (try_fs fs (fs_put fs dp (digest_json x (j_digest_size job) (j_digest_modified job))),
                   job\<lparr>j_stream := Some (FileStream i 0 True)\<rparr>, Ok ())))"

definition next_file_of :: "externals \<Rightarrow> fsys \<Rightarrow> transfer_job \<Rightarrow> string \<Rightarrow> int \<Rightarrow> write_result" where
  "next_file_of x fs job p file_num =
     (let fs = modify_time fs job in
      if (case j_stream job of Some (FileStream i _ _) \<Rightarrow> broken fs i | _ \<Rightarrow> False) then (fs, job, Err Io)
      else
        let job = job\<lparr>j_file_num := file_num\<rparr>;
            entry = j_files job ! usize_of file_num
        in if j_type job = Printer then
             (case fs_create fs p of
                None \<Rightarrow> (fs, job, Err Io)
              | Some (fs, i) \<Rightarrow> (fs, job\<lparr>j_stream := Some (FileStream i 0 True)\<rparr>, Ok ()))
           else
             (case join_validated_path False (fs_stat fs) p (e_name entry) of
                Inl e \<Rightarrow> (fs, job, Err e)
              | Inr path \<Rightarrow> start_file x fs job path))"

definition open_for_block :: "externals \<Rightarrow> file_block \<Rightarrow> fsys \<Rightarrow> transfer_job \<Rightarrow> write_result" where
  "open_for_block x block fs job =
     (case j_source job of
        FilePath p \<Rightarrow>
          let file_num = usize_of (b_file_num block) in
          if length (j_files job) \<le> file_num then (fs, job, Err WrongFileNumber)
          else if file_num \<noteq> usize_of (j_file_num job) \<or> j_stream job = None
          then next_file_of x fs job p (b_file_num block)
          else (fs, job, Ok ())
      | MemoryCursor c \<Rightarrow>
          if j_stream job = None then (fs, job\<lparr>j_stream := Some (BufStream c 0)\<rparr>, Ok ()) else (fs, job, Ok ()))"

definition write_stream :: "fsys \<Rightarrow> data_stream \<Rightarrow> bytes \<Rightarrow> (fsys \<times> data_stream) option" where
  "write_stream fs s data =
     (case s of
        FileStream i pos wr \<Rightarrow>
          if wr then map_option (\<lambda>fs'. (fs', FileStream i (pos + length data) wr)) (fs_write fs i pos data) else None
      | BufStream b pos \<Rightarrow> Some (fs, BufStream (write_at b pos data) (pos + length data)))"

definition job_write :: "externals \<Rightarrow> file_block \<Rightarrow> fsys \<Rightarrow> transfer_job \<Rightarrow> write_result" where
  "job_write x block fs job =
     (if b_id block \<noteq> j_id job then (fs, job, Err WrongId)
      else case open_for_block x block fs job of
        (fs, job, Inl e) \<Rightarrow> (fs, job, Err e)
      | (fs, job, Inr _) \<Rightarrow>
          (let data = (if b_compressed block then decompress x (b_data block) else b_data block) in
           case j_stream job of
             None \<Rightarrow> (fs, job, Err StreamIsNone)
           | Some s \<Rightarrow>
               (case write_stream fs s data of
                  None \<Rightarrow> (fs, job, Err Io)
                | Some (fs, s) \<Rightarrow>
                    (fs, job\<lparr>j_stream := Some s, j_finished_size := (j_finished_size job + length data) mod 2 ^ 64,
                             j_transferred := (j_transferred job + length (b_data block)) mod 2 ^ 64\<rparr>, Ok ()))))"

definition get_buf_data :: "transfer_job \<Rightarrow> bytes option" where
  "get_buf_data job = (case j_stream job of Some (BufStream b _) \<Rightarrow> Some b | _ \<Rightarrow> None)"

section \<open>Sending\<close>

definition next_num :: "transfer_job \<Rightarrow> transfer_job" where
  "next_num job = job\<lparr>j_file_num := wrap_i32 (j_file_num job + 1), j_confirmed := False, j_waiting := False\<rparr>"

definition open_data_stream :: "fsys \<Rightarrow> transfer_job \<Rightarrow> transfer_job \<times> (fs_error, bool) result" where
  "open_data_stream fs job =
     (let file_num = usize_of (j_file_num job) in
      case j_source job of
        FilePath p \<Rightarrow>
          if length (j_files job) \<le> file_num then (job\<lparr>j_stream := None\<rparr>, Ok True)
          else if j_stream job = None then
            (case fs_open fs (transfer_join p (e_name (j_files job ! file_num))) of
               Some i \<Rightarrow> (job\<lparr>j_stream := Some (FileStream i 0 False), j_confirmed := False, j_waiting := False\<rparr>, Ok False)
             | None \<Rightarrow> (next_num job, Err Io))
          else (job, Ok False)
      | MemoryCursor c \<Rightarrow>
          if j_stream job = None then (job\<lparr>j_source := MemoryCursor [], j_stream := Some (BufStream c 0)\<rparr>, Ok False)
          else (job, Ok False))"

definition get_current_digest :: "fsys \<Rightarrow> transfer_job \<Rightarrow> (fs_error, nat \<times> nat) result" where
  "get_current_digest fs job =
     (case j_stream job of
        None \<Rightarrow> Err StreamIsNone
      | Some (FileStream i _ _) \<Rightarrow> if broken fs i then Err Io else Ok (mtime fs i, length (contents fs i))
      | Some (BufStream _ _) \<Rightarrow> Err NoDigestForBuf)"

definition asks_digest :: "transfer_job \<Rightarrow> bool" where
  "asks_digest job \<longleftrightarrow> j_type job = Generic \<and> j_detect job \<and> \<not> j_confirmed job \<and> \<not> j_waiting job"

definition send_current_digest :: "fsys \<Rightarrow> transfer_job \<Rightarrow> (fs_error, file_msg) result" where
  "send_current_digest fs job =
     (case get_current_digest fs job of
        Inl e \<Rightarrow> Err e
      | Inr (modified, sz) \<Rightarrow>
          Ok (M_Digest \<lparr>t_id = j_id job, t_file_num = j_file_num job, t_last_modified = modified, t_file_size = sz,
                t_is_identical = False, t_transferred_size = 0, t_is_resume = j_is_resume job\<rparr>))"

definition init_data_stream :: "fsys \<Rightarrow> transfer_job \<Rightarrow> transfer_job \<times> (fs_error, file_msg list) result" where
  "init_data_stream fs job =
     (case open_data_stream fs job of
        (job, Inl e) \<Rightarrow> (job, Err e)
      | (job, Inr True) \<Rightarrow> (job, Ok [])
      | (job, Inr False) \<Rightarrow>
          if asks_digest job then
            (case send_current_digest fs job of Inl e \<Rightarrow> (job, Err e) | Inr m \<Rightarrow> (job\<lparr>j_waiting := True\<rparr>, Ok [m]))
          else (job, Ok []))"

definition init_data_stream_for_cm :: "fsys \<Rightarrow> transfer_job \<Rightarrow> transfer_job \<times> (fs_error, (nat \<times> nat) option) result" where
  "init_data_stream_for_cm fs job =
     (case open_data_stream fs job of
        (job, Inl e) \<Rightarrow> (job, Err e)
      | (job, Inr True) \<Rightarrow> (job, Ok None)
      | (job, Inr False) \<Rightarrow>
          if asks_digest job then
            (case get_current_digest fs job of Inl e \<Rightarrow> (job, Err e) | Inr d \<Rightarrow> (job\<lparr>j_waiting := True\<rparr>, Ok (Some d)))
          else (job, Ok None))"

text \<open>
  One read of a stream into a buffer with \<open>left\<close> bytes of room. How much a read gives, at least a
  byte where there is one, is up to the operating system: \<open>k\<close>.
\<close>

definition stream_read :: "fsys \<Rightarrow> nat \<Rightarrow> nat \<Rightarrow> data_stream \<Rightarrow> (bytes \<times> data_stream) option" where
  "stream_read fs k left s =
     (let n = max 1 (min k left) in
      case s of
        FileStream i pos wr \<Rightarrow>
          if wr \<or> broken fs i then None
          else let bs = take n (drop pos (contents fs i)) in Some (bs, FileStream i (pos + length bs) wr)
      | BufStream b pos \<Rightarrow> let bs = take n (drop pos b) in Some (bs, BufStream b (pos + length bs)))"

function fill :: "fsys \<Rightarrow> nat list \<Rightarrow> nat \<Rightarrow> data_stream \<Rightarrow> (bytes \<times> data_stream) option" where
  "fill fs ks left s =
     (case stream_read fs (case ks of k # _ \<Rightarrow> k | [] \<Rightarrow> left) left s of
        None \<Rightarrow> None
      | Some (bs, s') \<Rightarrow>
          if bs = [] \<or> left \<le> length bs then Some (bs, s')
          else case fill fs (tl ks) (left - length bs) s' of None \<Rightarrow> None | Some (cs, s'') \<Rightarrow> Some (bs @ cs, s''))"
  by pat_completeness auto
termination by (relation "measure (\<lambda>(_, _, left, _). left)") auto

declare fill.simps [simp del]

definition BUF_SIZE :: nat where "BUF_SIZE = 128 * 1024"

definition path_file_name :: "string \<Rightarrow> string" where
  "path_file_name p = (case path_components p of [] \<Rightarrow> [] | cs \<Rightarrow> (case last cs of Normal s \<Rightarrow> s | _ \<Rightarrow> []))"

definition block_name :: "transfer_job \<Rightarrow> string" where
  "block_name job =
     (case j_source job of
        FilePath p \<Rightarrow>
          let n = usize_of (j_file_num job) in
          if length (j_files job) = 1 \<and> e_name (j_files job ! n) = [] then path_file_name p else e_name (j_files job ! n)
      | MemoryCursor _ \<Rightarrow> [])"

definition is_file_path :: "data_source \<Rightarrow> bool" where
  "is_file_path s = (case s of FilePath _ \<Rightarrow> True | MemoryCursor _ \<Rightarrow> False)"

definition job_read :: "externals \<Rightarrow> nat list \<Rightarrow> fsys \<Rightarrow> transfer_job \<Rightarrow> transfer_job \<times> (fs_error, file_block option) result" where
  "job_read x ks fs job =
     (if j_type job = Generic \<and> j_detect job \<and> \<not> j_confirmed job then (job, Ok None)
      else if is_file_path (j_source job) \<and> length (j_files job) \<le> usize_of (j_file_num job)
      then (job\<lparr>j_stream := None\<rparr>, Ok None)
      else case j_stream job of
        None \<Rightarrow> (job, Err StreamIsNone)
      | Some s \<Rightarrow>
          (case fill fs ks BUF_SIZE s of
             None \<Rightarrow> (next_num (job\<lparr>j_stream := None\<rparr>), Err Io)
           | Some (buf, s') \<Rightarrow>
               let block = \<lparr>b_id = j_id job, b_file_num = j_file_num job, b_data = buf, b_compressed = False\<rparr>;
                   job' = job\<lparr>j_stream := Some s'\<rparr>
               in if buf = [] then
                    if \<not> is_file_path (j_source job) then (job\<lparr>j_stream := None\<rparr>, Ok None)
                    else (next_num (job\<lparr>j_stream := None\<rparr>), Ok (Some block))
                  else
                    let tmp = compress x buf;
                        small = (is_file_path (j_source job) \<and> \<not> is_compressed_file (block_name job) \<and> length tmp < length buf);
                        out = (if small then tmp else buf)
                    in (job'\<lparr>j_finished_size := (j_finished_size job + length buf) mod 2 ^ 64,
                             j_transferred := (j_transferred job + length out) mod 2 ^ 64\<rparr>,
                        Ok (Some (block\<lparr>b_data := out, b_compressed := small\<rparr>)))))"

section \<open>Confirmation\<close>

definition set_file_confirmed :: "bool \<Rightarrow> transfer_job \<Rightarrow> transfer_job" where
  "set_file_confirmed v job = job\<lparr>j_confirmed := v, j_skipped := False\<rparr>"

definition set_overwrite_strategy :: "bool option \<Rightarrow> transfer_job \<Rightarrow> transfer_job" where
  "set_overwrite_strategy v job = job\<lparr>j_strategy := v\<rparr>"

definition job_skipped :: "transfer_job \<Rightarrow> bool" where
  "job_skipped job \<longleftrightarrow> j_skipped job \<and> length (j_files job) = 1"

definition job_completed :: "transfer_job \<Rightarrow> bool" where
  "job_completed job \<longleftrightarrow> \<not> j_detect job \<or> (\<not> j_confirmed job \<and> \<not> j_waiting job)"

definition job_error :: "transfer_job \<Rightarrow> job_err option" where
  "job_error job = (if job_skipped job then Some Skipped else None)"

definition set_file_skipped :: "transfer_job \<Rightarrow> transfer_job" where
  "set_file_skipped job =
     (let job = set_file_confirmed False (job\<lparr>j_stream := None\<rparr>);
          job = job\<lparr>j_waiting := False\<rparr>
      in job\<lparr>j_file_num := wrap_i32 (j_file_num job + 1), j_skipped := True\<rparr>)"

definition set_stream_offset :: "nat \<Rightarrow> nat \<Rightarrow> fsys \<Rightarrow> transfer_job \<Rightarrow> fsys \<times> transfer_job" where
  "set_stream_offset file_num offset fs job =
     (if length (j_files job) \<le> file_num then (fs, job)
      else case j_source job of
        MemoryCursor _ \<Rightarrow> (fs, job)
      | FilePath p \<Rightarrow>
          (case resolve_entry_path fs job p (e_name (j_files job ! file_num)) of
             None \<Rightarrow> (fs, job)
           | Some path \<Rightarrow>
               (case (if fs_exists fs (download_path path) \<and> fs_exists fs (digest_path path)
                      then map_option (\<lambda>(fs, i). (fs, i, True)) (fs_open_create fs (download_path path))
                      else if fs_exists fs path then map_option (\<lambda>i. (fs, i, False)) (fs_open fs path)
                      else None) of
                  None \<Rightarrow> (fs, job)
                | Some (fs, i, wr) \<Rightarrow>
                    (fs, job\<lparr>j_stream := Some (FileStream i offset wr), j_transferred := (j_transferred job + offset) mod 2 ^ 64,
                             j_finished_size := (j_finished_size job + offset) mod 2 ^ 64\<rparr>))))"

definition confirm :: "send_confirm \<Rightarrow> fsys \<Rightarrow> transfer_job \<Rightarrow> fsys \<times> transfer_job" where
  "confirm r fs job =
     (if j_file_num job \<noteq> r_file_num r then (fs, job)
      else case r_union r of
        Some (Skip s) \<Rightarrow> (fs, if s then set_file_skipped job else set_file_confirmed True job)
      | Some (OffsetBlk offset) \<Rightarrow>
          let job = set_file_confirmed True job in
          if 0 < offset then set_stream_offset (usize_of (r_file_num r)) offset fs job else (fs, job)
      | None \<Rightarrow> (fs, job))"

section \<open>Job lists\<close>

fun remove_job :: "int \<Rightarrow> transfer_job list \<Rightarrow> transfer_job option \<times> transfer_job list" where
  "remove_job i [] = (None, [])"
| "remove_job i (j # js) = (if j_id j = i then (Some j, js) else case remove_job i js of (r, js') \<Rightarrow> (r, j # js'))"

definition get_job :: "int \<Rightarrow> transfer_job list \<Rightarrow> transfer_job option" where
  "get_job i jobs = List.find (\<lambda>j. j_id j = i) jobs"

fun init_jobs :: "fsys \<Rightarrow> transfer_job list \<Rightarrow> transfer_job list \<times> file_msg list" where
  "init_jobs fs [] = ([], [])"
| "init_jobs fs (j # js) =
     (let (js', ms) = init_jobs fs js in
      if j_is_last_job j then (j # js', ms)
      else case init_data_stream fs j of
        (j', Inl e) \<Rightarrow> (j' # js', M_Error (j_id j') (FsErr e) (j_file_num j') # ms)
      | (j', Inr out) \<Rightarrow> (j' # js', out @ ms))"

text \<open>
  One turn of the first job that is not a left-over, as the code's \<open>break\<close> has it: the list, the
  message, and the job that finished.
\<close>

fun read_first :: "externals \<Rightarrow> nat list \<Rightarrow> fsys \<Rightarrow> transfer_job list \<Rightarrow> transfer_job list \<times> file_msg list \<times> int list" where
  "read_first x ks fs [] = ([], [], [])"
| "read_first x ks fs (j # js) =
     (if j_is_last_job j then case read_first x ks fs js of (js', ms, fin) \<Rightarrow> (j # js', ms, fin)
      else case job_read x ks fs j of
        (j', Inl e) \<Rightarrow> (j' # js, [M_Error (j_id j') (FsErr e) (j_file_num j')], [])
      | (j', Inr (Some block)) \<Rightarrow> (j' # js, [M_Block block], [])
      | (j', Inr None) \<Rightarrow>
          if job_completed j' then
            (j' # js,
             [case job_error j' of Some e \<Rightarrow> M_Error (j_id j') e (j_file_num j') | None \<Rightarrow> M_Done (j_id j') (j_file_num j')],
             [j_id j'])
          else (j' # js, [], []))"

definition handle_read_jobs :: "externals \<Rightarrow> nat list \<Rightarrow> fsys \<Rightarrow> transfer_job list \<Rightarrow> transfer_job list \<times> file_msg list" where
  "handle_read_jobs x ks fs jobs =
     (let (jobs, ms) = init_jobs fs jobs;
          (jobs, ms', finished) = read_first x ks fs jobs
      in (fold (\<lambda>i js. snd (remove_job i js)) finished jobs, ms @ ms'))"

section \<open>Overwriting\<close>

datatype digest_check_result = IsSame | NeedConfirm transfer_digest | NoSuchFile

text \<open>The confirmation a resumable download allows, if any.\<close>

definition resume_check :: "externals \<Rightarrow> fsys \<Rightarrow> bool \<Rightarrow> string \<Rightarrow> transfer_digest \<Rightarrow> transfer_digest option" where
  "resume_check x fs is_resume file_path digest =
     (if is_resume \<and> fs_exists fs (digest_path file_path) \<and> fs_exists fs (download_path file_path) then
        case fs_open fs (digest_path file_path) of
          None \<Rightarrow> None
        | Some d \<Rightarrow>
            if broken fs d then None
            else case digest_parse x (contents fs d) of
              None \<Rightarrow> None
            | Some (sz, modified) \<Rightarrow>
                if modified = t_last_modified digest \<and> sz = t_file_size digest then
                  case fs_file fs (download_path file_path) of
                    None \<Rightarrow> None
                  | Some i \<Rightarrow>
                      if 0 < length (contents fs i)
                      then Some \<lparr>t_id = t_id digest, t_file_num = t_file_num digest, t_last_modified = t_last_modified digest,
                             t_file_size = t_file_size digest, t_is_identical = True,
                             t_transferred_size = length (contents fs i), t_is_resume = False\<rparr>
                      else None
                else None
      else None)"

definition is_write_need_confirmation :: "externals \<Rightarrow> fsys \<Rightarrow> bool \<Rightarrow> string \<Rightarrow> transfer_digest \<Rightarrow> digest_check_result" where
  "is_write_need_confirmation x fs is_resume file_path digest =
     (case resume_check x fs is_resume file_path digest of
        Some d \<Rightarrow> NeedConfirm d
      | None \<Rightarrow>
          (case fs_file fs file_path of
             Some i \<Rightarrow>
               NeedConfirm \<lparr>t_id = t_id digest, t_file_num = t_file_num digest, t_last_modified = mtime fs i,
                 t_file_size = length (contents fs i),
                 t_is_identical = (t_last_modified digest = mtime fs i \<and> t_file_size digest = length (contents fs i)),
                 t_transferred_size = 0, t_is_resume = False\<rparr>
           | None \<Rightarrow> NoSuchFile))"

section \<open>Single calls\<close>

definition remove_file :: "fsys \<Rightarrow> string \<Rightarrow> fsys \<times> (fs_error, unit) result" where
  "remove_file fs file =
     (case validate_fs_path_argument file of
        Inl e \<Rightarrow> (fs, Err e)
      | Inr _ \<Rightarrow> (case fs_remove_file fs file of None \<Rightarrow> (fs, Err Io) | Some fs' \<Rightarrow> (fs', Ok ())))"

end
