(* ===== verification/Transfer_Guard.thy ===== *)
theory Transfer_Guard
  imports Transfer_Job "HOL-Library.Sublist" "HOL-Library.Code_Target_Nat"
begin

text \<open>
  Where a receiving job writes. Whatever file list, blocks and confirmations the peer sends, a job
  touches names inside its own directory only, provided no symbolic link is already there; and what
  happens where the code does not check: a link at the temporary name, and a block that follows a
  refused one.
\<close>

section \<open>The region of a job\<close>

text \<open>
  The names at and below the base, and the two temporary names beside it that the transfer of a
  single file uses.
\<close>

definition in_region :: "string \<Rightarrow> key \<Rightarrow> bool" where
  "in_region base k \<longleftrightarrow>
     prefix (fs_key base) k \<or> k = fs_key (download_path base) \<or> k = fs_key (digest_path base)"

text \<open>A file the job may write: made since \<open>fs0\<close>, or found in the region then.\<close>

definition owned :: "string \<Rightarrow> fsys \<Rightarrow> nat \<Rightarrow> bool" where
  "owned base fs0 i \<longleftrightarrow> next_file fs0 \<le> i \<or> (\<exists>k. in_region base k \<and> names fs0 k = Some (N_File i))"

definition new_dir_above :: "string \<Rightarrow> fsys \<Rightarrow> fsys \<Rightarrow> key \<Rightarrow> bool" where
  "new_dir_above base fs0 fs k \<longleftrightarrow> prefix k (fs_key base) \<and> names fs0 k = None \<and> names fs k = Some N_Dir"

definition confined :: "string \<Rightarrow> fsys \<Rightarrow> fsys \<Rightarrow> bool" where
  "confined base fs0 fs \<longleftrightarrow>
     (\<forall>k. in_region base k \<longrightarrow> (\<forall>t. names fs k \<noteq> Some (N_Link t)))
     \<and> (\<forall>k. in_region base k \<or> names fs k = names fs0 k \<or> new_dir_above base fs0 fs k)
     \<and> (\<forall>k i. in_region base k \<and> names fs k = Some (N_File i) \<longrightarrow> owned base fs0 i)
     \<and> (\<forall>i. \<not> owned base fs0 i \<longrightarrow> contents fs i = contents fs0 i \<and> mtime fs i = mtime fs0 i)
     \<and> next_file fs0 \<le> next_file fs"

lemma confined_refl: "(\<And>k t. in_region base k \<Longrightarrow> names fs k \<noteq> Some (N_Link t)) \<Longrightarrow> confined base fs fs"
  by (auto simp: confined_def owned_def)

lemma confined_target: "confined base fs0 fs \<Longrightarrow> in_region base (fs_key p) \<Longrightarrow> target fs p = Some (fs_key p)"
  by (simp add: target_def follow_not_link confined_def)

lemma confined_file:
  assumes "confined base fs0 fs" "in_region base (fs_key p)" "fs_file fs p = Some i"
  shows "owned base fs0 i"
  using assms by (auto simp: fs_file_def confined_target confined_def split: option.splits node.splits if_splits)

lemma confined_open: "confined base fs0 fs \<Longrightarrow> in_region base (fs_key p) \<Longrightarrow> fs_open fs p = Some i \<Longrightarrow> owned base fs0 i"
  using confined_file by (auto simp: fs_open_def split: if_splits)

section \<open>Every call keeps a job in its region\<close>

text \<open>Changing a name of the region, contents of owned files, or times of owned files.\<close>

lemma confined_names:
  assumes "confined base fs0 fs" "in_region base k" "\<And>t. n \<noteq> Some (N_Link t)" "\<And>i. n = Some (N_File i) \<Longrightarrow> owned base fs0 i"
  shows "confined base fs0 (fs\<lparr>names := (names fs)(k := n)\<rparr>)"
  using assms unfolding confined_def new_dir_above_def by simp

lemma confined_contents:
  assumes "confined base fs0 fs" "owned base fs0 i"
  shows "confined base fs0 (fs\<lparr>contents := (contents fs)(i := c)\<rparr>)"
  using assms unfolding confined_def new_dir_above_def by simp

lemma confined_mtime:
  assumes "confined base fs0 fs" "owned base fs0 i"
  shows "confined base fs0 (fs\<lparr>mtime := (mtime fs)(i := c)\<rparr>)"
  using assms unfolding confined_def new_dir_above_def by simp

lemma confined_next: "confined base fs0 fs \<Longrightarrow> confined base fs0 (fs\<lparr>next_file := next_file fs + 1\<rparr>)"
  unfolding confined_def new_dir_above_def by simp

lemma confined_remove:
  assumes "confined base fs0 fs" "in_region base (fs_key p)" "fs_remove_file fs p = Some fs'"
  shows "confined base fs0 fs'"
  using assms confined_names[of base fs0 fs "fs_key p" None] by (auto simp: fs_remove_file_def Let_def split: if_splits)

lemma confined_rename:
  assumes "confined base fs0 fs" "in_region base (fs_key a)" "in_region base (fs_key b)" "fs_rename fs a b = Some fs'"
  shows "confined base fs0 fs'"
proof (cases "fs_key a = fs_key b")
  case True
  then show ?thesis using assms by (auto simp: fs_rename_def Let_def split: if_splits option.splits)
next
  case False
  then obtain n where n: "names fs (fs_key a) = Some n" "fs' = fs\<lparr>names := (names fs)(fs_key a := None, fs_key b \<mapsto> n)\<rparr>"
    using assms(4) by (auto simp: fs_rename_def Let_def split: if_splits option.splits)
  have c: "confined base fs0 (fs\<lparr>names := (names fs)(fs_key a := None)\<rparr>)" by (rule confined_names) (use assms in auto)
  have nn: "n \<noteq> N_Link t" "n = N_File i \<Longrightarrow> owned base fs0 i" for t i using assms(1,2) n(1) by (auto simp: confined_def)
  show ?thesis using confined_names[OF c assms(3), of "Some n"] nn n(2) by simp
qed

lemma confined_set_mtime:
  assumes "confined base fs0 fs" "in_region base (fs_key p)" "fs_set_mtime fs p t = Some fs'"
  shows "confined base fs0 fs'"
proof -
  obtain i where i: "fs_open fs p = Some i" "fs' = fs\<lparr>mtime := (mtime fs)(i := t)\<rparr>"
    using assms(3) by (auto simp: fs_set_mtime_def split: option.splits)
  then show ?thesis using confined_mtime[OF assms(1)] confined_open[OF assms(1,2)] by simp
qed

lemma confined_create:
  assumes "confined base fs0 fs" "in_region base (fs_key p)" "fs_create fs p = Some (fs', i)"
  shows "confined base fs0 fs' \<and> owned base fs0 i"
proof (cases "names fs (fs_key p)")
  case None
  have o: "owned base fs0 (next_file fs)" using assms(1) by (simp add: confined_def owned_def)
  have "confined base fs0 ((fs\<lparr>names := (names fs)(fs_key p \<mapsto> N_File (next_file fs))\<rparr>)
      \<lparr>contents := (contents fs)(next_file fs := []), next_file := next_file fs + 1\<rparr>)"
    using confined_next[OF confined_contents[OF confined_names[OF assms(1,2), of "Some (N_File (next_file fs))"] o]] o by simp
  then show ?thesis using assms(3) o None
    by (auto simp: fs_create_def confined_target[OF assms(1,2)] split: if_splits)
next
  case (Some n)
  then obtain j where j: "n = N_File j" "i = j" "fs' = fs\<lparr>contents := (contents fs)(j := [])\<rparr>"
    using assms(3) by (auto simp: fs_create_def confined_target[OF assms(1,2)] split: if_splits node.splits)
  then have "owned base fs0 j" using assms(1,2) Some by (auto simp: confined_def)
  then show ?thesis using j confined_contents[OF assms(1)] by simp
qed

lemma confined_write:
  assumes "confined base fs0 fs" "owned base fs0 i" "fs_write fs i pos bs = Some fs'"
  shows "confined base fs0 fs'"
  using assms confined_contents by (auto simp: fs_write_def split: if_splits)

lemma confined_put:
  assumes "confined base fs0 fs" "in_region base (fs_key p)" "fs_put fs p bs = Some fs'"
  shows "confined base fs0 fs'"
proof -
  obtain fs1 i where "fs_create fs p = Some (fs1, i)" "fs_write fs1 i 0 bs = Some fs'"
    using assms(3) by (auto simp: fs_put_def split: option.splits)
  then show ?thesis using confined_create[OF assms(1,2)] confined_write by blast
qed

lemma confined_open_create:
  assumes "confined base fs0 fs" "in_region base (fs_key p)" "fs_open_create fs p = Some (fs', i)"
  shows "confined base fs0 fs' \<and> owned base fs0 i"
proof (cases "fs_file fs p")
  case None
  then show ?thesis using assms(3) confined_create[OF assms(1,2)] by (simp add: fs_open_create_def)
next
  case (Some j)
  then show ?thesis using assms confined_file[OF assms(1,2)] by (auto simp: fs_open_create_def split: if_splits)
qed

lemma confined_dirs:
  assumes c: "confined base fs0 fs" and p: "prefix ks (fs_key base) \<or> prefix (fs_key base) ks"
  shows "confined base fs0 (make_dirs fs [] ks)"
proof -
  let ?fs = "make_dirs fs [] ks"
  have pre: "in_region base k \<or> prefix k (fs_key base)" if "\<exists>n. k = take n ks" for k
  proof -
    have "prefix k ks" using that by (auto intro: take_is_prefix)
    then show ?thesis using p prefix_same_cases[of k ks "fs_key base"] by (auto simp: in_region_def intro: prefix_order.trans)
  qed
  have n: "names ?fs k = names fs k \<or> (names fs k = None \<and> names ?fs k = Some N_Dir \<and> (in_region base k \<or> prefix k (fs_key base)))" for k
    using make_dirs_names[of fs "[]" ks k] pre[of k] by auto
  note f = make_dirs_frame[of fs "[]" ks]
  have c1: "names ?fs k \<noteq> Some (N_Link t)" if "in_region base k" for k t
    using n[of k] c that by (auto simp: confined_def)
  have c2: "in_region base k \<or> names ?fs k = names fs0 k \<or> new_dir_above base fs0 ?fs k" for k
    using n[of k] c by (auto simp: confined_def new_dir_above_def)
  have c3: "owned base fs0 i" if "in_region base k" "names ?fs k = Some (N_File i)" for k i
    using n[of k] c that by (auto simp: confined_def)
  have c4: "\<forall>i. \<not> owned base fs0 i \<longrightarrow> contents ?fs i = contents fs0 i \<and> mtime ?fs i = mtime fs0 i" "next_file fs0 \<le> next_file ?fs"
    using c f by (simp_all add: confined_def)
  show ?thesis unfolding confined_def using c1 c2 c3 c4 by blast
qed

lemma confined_try: "confined base fs0 fs \<Longrightarrow> (\<And>fs'. r = Some fs' \<Longrightarrow> confined base fs0 fs') \<Longrightarrow> confined base fs0 (try_fs fs r)"
  by (cases r) (auto simp: try_fs_def)

section \<open>The paths of a job are in its region\<close>

lemma push_append: "name \<noteq> [] \<Longrightarrow> path_push base name @ s = path_push base (name @ s)"
  by (cases name) (auto simp: path_push_def has_root_def)

lemma region_paths:
  assumes "join_validated_path False st base name = Ok path"
  shows "in_region base (fs_key path) \<and> in_region base (fs_key (download_path path)) \<and> in_region base (fs_key (digest_path path))"
    and "prefix (fs_key base) (fs_key path)"
proof -
  have v: "\<not> has_root name" and p: "path = transfer_join base name" using assms by (auto simp: join_validated_iff validate_name_iff)
  have k: "fs_key path = fs_key base @ map to_component (segs name)" using fs_key_join[OF v] p by simp
  then show pre: "prefix (fs_key base) (fs_key path)" by simp
  have suf: "in_region base (fs_key (path @ s))" if "s = ''.download'' \<or> s = ''.digest''" for s
  proof (cases "name = []")
    case True
    then have "path @ s = base @ s" using p by (simp add: transfer_join_def)
    then show ?thesis using that by (auto simp: in_region_def)
  next
    case False
    then have "path @ s = path_push base (name @ s)" using p push_append[OF False] by (simp add: transfer_join_def)
    moreover have "\<not> has_root (name @ s)" using False v by (cases name) (auto simp: has_root_def)
    ultimately show ?thesis using fs_key_push by (simp add: in_region_def)
  qed
  show "in_region base (fs_key path) \<and> in_region base (fs_key (download_path path)) \<and> in_region base (fs_key (digest_path path))"
    using pre suf by (simp add: in_region_def)
qed

lemma confined_parent:
  assumes "confined base fs0 fs" "join_validated_path False st base name = Ok path"
  shows "confined base fs0 (create_parent fs path)"
proof -
  have "prefix (butlast (fs_key path)) (fs_key path)" by (rule prefixeq_butlast)
  then have "prefix (butlast (fs_key path)) (fs_key base) \<or> prefix (fs_key base) (butlast (fs_key path))"
    using prefix_same_cases region_paths(2)[OF assms(2)] by blast
  then show ?thesis using confined_dirs[OF assms(1)] by (simp add: create_parent_def)
qed

section \<open>Every operation of a receiving job\<close>

definition guarded :: "string \<Rightarrow> fsys \<Rightarrow> fsys \<Rightarrow> transfer_job \<Rightarrow> bool" where
  "guarded base fs0 fs job \<longleftrightarrow> confined base fs0 fs \<and> j_source job = FilePath base \<and> j_type job = Generic
     \<and> (case j_stream job of Some (FileStream i _ _) \<Rightarrow> owned base fs0 i | Some (BufStream _ _) \<Rightarrow> False | None \<Rightarrow> True)"

lemma guardedI:
  "confined base fs0 fs \<Longrightarrow> j_source job = FilePath base \<Longrightarrow> j_type job = Generic \<Longrightarrow> owned base fs0 i \<Longrightarrow>
   j_stream job = Some (FileStream i pos wr) \<Longrightarrow> guarded base fs0 fs job"
  by (simp add: guarded_def)

lemma guarded_same:
  "guarded base fs0 fs job \<Longrightarrow> confined base fs0 fs' \<Longrightarrow> j_source job' = j_source job \<Longrightarrow> j_type job' = j_type job \<Longrightarrow>
   j_stream job' = j_stream job \<Longrightarrow> guarded base fs0 fs' job'"
  by (simp add: guarded_def)

lemma current_path_validated:
  assumes "guarded base fs0 fs job" "current_path fs job = Some (path, e)"
  shows "\<exists>st name. join_validated_path False st base name = Ok path"
  using assms by (auto simp: current_path_def resolve_entry_path_def guarded_def Let_def split: if_splits sum.splits)

lemma modify_time_guarded:
  assumes g: "guarded base fs0 fs job"
  shows "confined base fs0 (modify_time fs job)"
proof (cases "current_path fs job")
  case (Some pe)
  obtain path e where pe: "pe = (path, e)" by fastforce
  obtain st name where v: "join_validated_path False st base name = Ok path"
    using current_path_validated[OF g] Some pe by blast
  note r = region_paths(1)[OF v]
  have c: "confined base fs0 fs" using g by (simp add: guarded_def)
  define fs1 where "fs1 = try_fs fs (fs_remove_file fs (digest_path path))"
  define fs2 where "fs2 = try_fs fs1 (fs_rename fs1 (download_path path) path)"
  have c1: "confined base fs0 fs1" unfolding fs1_def by (rule confined_try[OF c]) (use r c confined_remove in blast)
  have c2: "confined base fs0 fs2" unfolding fs2_def by (rule confined_try[OF c1]) (use r c1 confined_rename in blast)
  have "confined base fs0 (try_fs fs2 (fs_set_mtime fs2 path (e_modified e)))"
    by (rule confined_try[OF c2]) (use r c2 confined_set_mtime in blast)
  then show ?thesis by (simp add: modify_time_def Some pe Let_def fs1_def fs2_def)
qed (use g in \<open>simp add: modify_time_def guarded_def\<close>)

lemma remove_download_guarded:
  assumes g: "guarded base fs0 fs job"
  shows "confined base fs0 (remove_download_file fs job)"
proof (cases "current_path fs job")
  case (Some pe)
  obtain path e where pe: "pe = (path, e)" by fastforce
  obtain st name where v: "join_validated_path False st base name = Ok path"
    using current_path_validated[OF g] Some pe by blast
  note r = region_paths(1)[OF v]
  have c: "confined base fs0 fs" using g by (simp add: guarded_def)
  define fs1 where "fs1 = try_fs fs (fs_remove_file fs (download_path path))"
  have c1: "confined base fs0 fs1" unfolding fs1_def by (rule confined_try[OF c]) (use r c confined_remove in blast)
  have "confined base fs0 (try_fs fs1 (fs_remove_file fs1 (digest_path path)))"
    by (rule confined_try[OF c1]) (use r c1 confined_remove in blast)
  then show ?thesis by (simp add: remove_download_file_def Some pe Let_def fs1_def)
qed (use g in \<open>simp add: remove_download_file_def guarded_def\<close>)

lemma start_file_guarded:
  assumes g: "guarded base fs0 fs job" and v: "join_validated_path False st base name = Ok path"
    and r: "start_file x fs job path = (fs', job', res)"
  shows "guarded base fs0 fs' job'"
proof -
  note reg = region_paths(1)[OF v]
  define fs1 where "fs1 = create_parent fs path"
  have c1: "confined base fs0 fs1" using confined_parent[OF _ v] g by (simp add: fs1_def guarded_def)
  have g1: "guarded base fs0 fs1 job" using guarded_same[OF g c1] by simp
  show ?thesis
  proof (cases "if fs_exists fs1 (digest_path path) then fs_remove_file fs1 (digest_path path) else Some fs1")
    case None
    then show ?thesis using r g1 by (simp add: start_file_def fs1_def[symmetric])
  next
    case (Some fs2)
    then have c2: "confined base fs0 fs2" using c1 confined_remove[OF c1] reg by (auto split: if_splits)
    show ?thesis
    proof (cases "fs_create fs2 (download_path path)")
      case None
      then show ?thesis using r Some guarded_same[OF g c2] by (simp add: start_file_def fs1_def[symmetric])
    next
      case (Some q)
      obtain fs3 i where q: "q = (fs3, i)" by fastforce
      have c3: "confined base fs0 fs3" "owned base fs0 i" using confined_create[OF c2] reg Some q by auto
      have "confined base fs0 (try_fs fs3 (fs_put fs3 (digest_path path) d))" for d
        by (rule confined_try[OF c3(1)]) (use confined_put[OF c3(1)] reg in blast)
      then show ?thesis using r g c3(2) Some q \<open>(if _ then _ else _) = Some fs2\<close>
        by (auto simp: start_file_def fs1_def[symmetric] guarded_def)
    qed
  qed
qed

lemma open_for_block_guarded:
  assumes g: "guarded base fs0 fs job" and r: "open_for_block x b fs job = (fs', job', res)"
  shows "guarded base fs0 fs' job'"
proof -
  have src: "j_source job = FilePath base" "j_type job = Generic" using g by (auto simp: guarded_def)
  define fs1 where "fs1 = modify_time fs job"
  have g1: "guarded base fs0 fs1 job" using guarded_same[OF g modify_time_guarded[OF g]] by (simp add: fs1_def)
  have g2: "guarded base fs0 fs1 (job\<lparr>j_file_num := n\<rparr>)" for n using guarded_same[OF g1] g1 by (simp add: guarded_def)
  have nx: "guarded base fs0 fs' job'" if "next_file_of x fs job base n = (fs', job', res)" for n
  proof (cases "case j_stream job of Some (FileStream i _ _) \<Rightarrow> broken fs1 i | _ \<Rightarrow> False")
    case True
    then show ?thesis using that g1 by (simp add: next_file_of_def fs1_def[symmetric] Let_def)
  next
    case False
    define nm where "nm = e_name (j_files job ! usize_of n)"
    have st: "next_file_of x fs job base n = (case join_validated_path False (fs_stat fs1) base nm of
        Inl e \<Rightarrow> (fs1, job\<lparr>j_file_num := n\<rparr>, Err e) | Inr path \<Rightarrow> start_file x fs1 (job\<lparr>j_file_num := n\<rparr>) path)"
      using False src by (simp add: next_file_of_def fs1_def[symmetric] Let_def nm_def)
    show ?thesis
    proof (cases "join_validated_path False (fs_stat fs1) base nm")
      case (Inl e)
      then show ?thesis using that st g2 by auto
    next
      case (Inr path)
      then show ?thesis using that st start_file_guarded[OF g2 Inr] by simp
    qed
  qed
  show ?thesis using r nx g src by (auto simp: open_for_block_def Let_def split: if_splits)
qed

lemma job_write_guarded:
  assumes g: "guarded base fs0 fs job" and r: "job_write x b fs job = (fs', job', res)"
  shows "guarded base fs0 fs' job'"
proof (cases "b_id b \<noteq> j_id job")
  case False
  obtain fs1 job1 res1 where o: "open_for_block x b fs job = (fs1, job1, res1)" by (metis prod_cases3)
  have g1: "guarded base fs0 fs1 job1" using open_for_block_guarded[OF g o] .
  show ?thesis
  proof (cases res1)
    case (Inl e)
    then show ?thesis using r False o g1 by (simp add: job_write_def)
  next
    case (Inr u)
    show ?thesis
    proof (cases "j_stream job1")
      case None
      then show ?thesis using r False o g1 Inr by (simp add: job_write_def)
    next
      case (Some s)
      then obtain i pos wr where s: "s = FileStream i pos wr" "owned base fs0 i"
        using g1 by (cases s) (auto simp: guarded_def)
      define d where "d = (if b_compressed b then decompress x (b_data b) else b_data b)"
      show ?thesis
      proof (cases "write_stream fs1 s d")
        case None
        then show ?thesis using r False o g1 Inr Some by (simp add: job_write_def d_def[symmetric] Let_def)
      next
        case (Some q)
        then obtain fs2 where q: "q = (fs2, FileStream i (pos + length d) wr)" "fs_write fs1 i pos d = Some fs2"
          using s by (auto simp: write_stream_def split: if_splits)
        have "confined base fs0 fs2" using confined_write[OF _ s(2) q(2)] g1 by (simp add: guarded_def)
        then show ?thesis using r False o g1 Inr Some \<open>j_stream job1 = Some s\<close> q(1) s(2)
          by (auto simp: job_write_def d_def[symmetric] Let_def guarded_def)
      qed
    qed
  qed
qed (use assms in \<open>simp add: job_write_def\<close>)

lemma set_stream_offset_guarded:
  assumes g: "guarded base fs0 fs job"
  shows "guarded base fs0 (fst (set_stream_offset n off fs job)) (snd (set_stream_offset n off fs job))"
proof -
  have src: "j_source job = FilePath base" "j_type job = Generic" and c: "confined base fs0 fs" using g by (auto simp: guarded_def)
  show ?thesis
  proof (cases "length (j_files job) \<le> n \<or> resolve_entry_path fs job base (e_name (j_files job ! n)) = None")
    case True
    then show ?thesis using g src by (auto simp: set_stream_offset_def)
  next
    case False
    then obtain path where p: "resolve_entry_path fs job base (e_name (j_files job ! n)) = Some path" by auto
    then obtain sf name where v: "join_validated_path False sf base name = Ok path"
      using src by (auto simp: resolve_entry_path_def split: sum.splits)
    note reg = region_paths(1)[OF v]
    define st where "st = (if fs_exists fs (download_path path) \<and> fs_exists fs (digest_path path)
        then map_option (\<lambda>(fs, i). (fs, i, True)) (fs_open_create fs (download_path path))
        else if fs_exists fs path then map_option (\<lambda>i. (fs, i, False)) (fs_open fs path) else None)"
    have eq: "set_stream_offset n off fs job = (case st of None \<Rightarrow> (fs, job) | Some (fs, i, wr) \<Rightarrow>
        (fs, job\<lparr>j_stream := Some (FileStream i off wr), j_transferred := (j_transferred job + off) mod 2 ^ 64,
                 j_finished_size := (j_finished_size job + off) mod 2 ^ 64\<rparr>))"
      using False p src unfolding set_stream_offset_def st_def by simp
    have ok: "confined base fs0 fs' \<and> owned base fs0 i" if "st = Some (fs', i, wr)" for fs' i wr
      using that confined_open_create[OF c, of "download_path path"] confined_open[OF c, of path] reg c
      by (auto simp: st_def split: if_splits)
    show ?thesis
    proof (cases st)
      case None
      then show ?thesis using g eq by simp
    next
      case (Some q)
      obtain fs' i wr where "q = (fs', i, wr)" by (metis prod_cases3)
      then show ?thesis using Some ok eq src by (simp add: guarded_def)
    qed
  qed
qed

lemma confirm_guarded:
  assumes g: "guarded base fs0 fs job"
  shows "guarded base fs0 (fst (confirm r fs job)) (snd (confirm r fs job))"
proof -
  have c: "guarded base fs0 fs (set_file_confirmed v job)" "guarded base fs0 fs (set_file_skipped job)" for v
    using g by (simp_all add: guarded_def set_file_confirmed_def set_file_skipped_def Let_def)
  show ?thesis using g c set_stream_offset_guarded[OF c(1)]
    by (auto simp: confirm_def Let_def split: option.split confirm_union.split)
qed

section \<open>Runs of a receiving job\<close>

text \<open>What the peer can make a receiving job do, in any order.\<close>

datatype recv_act =
  R_Files "file_entry list"
| R_Digest nat nat
| R_Confirm send_confirm
| R_Block file_block
| R_Done
| R_Cancel

fun recv_step :: "externals \<Rightarrow> recv_act \<Rightarrow> fsys \<times> transfer_job \<Rightarrow> fsys \<times> transfer_job" where
  "recv_step x (R_Files es) (fs, job) =
     (case set_files fs es job of Inl _ \<Rightarrow> (fs, job) | Inr job' \<Rightarrow> (fs, set_finished_size_on_resume job'))"
| "recv_step x (R_Digest sz modified) (fs, job) = (fs, set_digest sz modified job)"
| "recv_step x (R_Confirm r) (fs, job) = confirm r fs job"
| "recv_step x (R_Block b) (fs, job) = (case job_write x b fs job of (fs', job', _) \<Rightarrow> (fs', job'))"
| "recv_step x R_Done (fs, job) = (modify_time fs job, job)"
| "recv_step x R_Cancel (fs, job) = (remove_download_file fs job, job)"

definition recv_run :: "externals \<Rightarrow> recv_act list \<Rightarrow> fsys \<times> transfer_job \<Rightarrow> fsys \<times> transfer_job" where
  "recv_run x acts s = fold (recv_step x) acts s"

lemma recv_step_guarded:
  assumes "guarded base fs0 fs job"
  shows "guarded base fs0 (fst (recv_step x a (fs, job))) (snd (recv_step x a (fs, job)))"
proof (cases a)
  case (R_Files es)
  then show ?thesis using assms
    by (auto simp: set_files_def set_finished_size_on_resume_def guarded_def split: sum.split)
next
  case (R_Digest sz m)
  then show ?thesis using assms by (simp add: set_digest_def guarded_def)
next
  case (R_Confirm r)
  then show ?thesis using confirm_guarded[OF assms] by simp
next
  case (R_Block b)
  obtain fs' job' res where "job_write x b fs job = (fs', job', res)" by (metis prod_cases3)
  then show ?thesis using R_Block job_write_guarded[OF assms] by simp
next
  case R_Done
  then show ?thesis using guarded_same[OF assms modify_time_guarded[OF assms]] by simp
next
  case R_Cancel
  then show ?thesis using guarded_same[OF assms remove_download_guarded[OF assms]] by simp
qed

lemma recv_run_guarded:
  "guarded base fs0 fs job \<Longrightarrow> recv_run x acts (fs, job) = (fs', job') \<Longrightarrow> guarded base fs0 fs' job'"
proof (induction acts arbitrary: fs job)
  case (Cons a acts)
  obtain fs1 job1 where s: "recv_step x a (fs, job) = (fs1, job1)" by fastforce
  then have "guarded base fs0 fs1 job1" using recv_step_guarded[OF Cons.prems(1), of x a] by simp
  then show ?case using Cons.IH Cons.prems(2) s by (simp add: recv_run_def)
qed (simp add: recv_run_def)

section \<open>Properties\<close>


text \<open>A small file system, and libraries that do nothing, to run the definitions on.\<close>

definition plain_libs :: externals where
  "plain_libs = \<lparr>zstd_encode = (\<lambda>d. Some (d @ [0])), zstd_decode = (\<lambda>n d. Some (take n (butlast d))),
     digest_json = (\<lambda>s m. []), digest_parse = (\<lambda>d. None)\<rparr>"

definition small_fs :: "(key \<times> node) list \<Rightarrow> (nat \<times> bytes) list \<Rightarrow> fsys" where
  "small_fs ns cs = \<lparr>names = map_of ns, contents = (\<lambda>i. case map_of cs i of Some c \<Rightarrow> c | None \<Rightarrow> []), mtime = (\<lambda>_. 0),
     next_file = length cs, denied = (\<lambda>_. False), broken = (\<lambda>_. False)\<rparr>"

definition read_file :: "fsys \<Rightarrow> string \<Rightarrow> bytes option" where
  "read_file fs p = map_option (contents fs) (fs_file fs p)"

definition block :: "int \<Rightarrow> bytes \<Rightarrow> recv_act" where
  "block n d = R_Block \<lparr>b_id = 7, b_file_num = n, b_data = d, b_compressed = False\<rparr>"

definition entry :: "string \<Rightarrow> file_entry" where
  "entry n = \<lparr>e_name = n, e_size = 0, e_modified = 0\<rparr>"

abbreviation job7 :: transfer_job where
  "job7 \<equiv> new_write 7 Generic [] (FilePath ''/d'') 0 False True False"


section \<open>Where the code does not look\<close>

text \<open>
  The names checked for links are those of the file itself; the file that is opened is the one with
  the suffix \<open>.download\<close>. A link there is followed, and the file it leads to is overwritten.
\<close>

lemma download_link_is_followed:
  "read_file (fst (recv_run plain_libs [R_Files [entry ''a'', entry ''b''], block 0 [8], block 1 [9]]
     (small_fs [([RootDir, Normal ''d''], N_Dir), ([RootDir, Normal ''x''], N_File 0),
        ([RootDir, Normal ''d'', Normal ''b.download''], N_Link [RootDir, Normal ''x''])] [(0, [1, 2, 3])], job7))) ''/x'' = Some [9]"
  by code_simp

text \<open>
  A file that cannot be opened leaves the stream of the file before it in place, but the number of
  the current file has moved on: the first block of the second file is refused, the next one is
  appended to the first file, which is complete and carries its final name.
\<close>

lemma refused_file_spills_into_previous:
  "(let s = (small_fs [([RootDir, Normal ''d''], N_Dir)] [], job7);
        (fs, job) = recv_run plain_libs [R_Files [entry ''a'', entry ''b''], block 0 [1]] s;
        fs = fs\<lparr>names := (names fs)([RootDir, Normal ''d'', Normal ''b''] \<mapsto> N_Link [RootDir])\<rparr>;
        (fs, job) = recv_run plain_libs [block 1 [2], block 1 [3]] (fs, job)
    in read_file fs ''/d/a'') = Some [1, 3]"
  by code_simp

text \<open>
  The first block of a transfer moves what an earlier, interrupted transfer left at the temporary
  name over the file at the final name, before anything has been received.
\<close>

lemma stale_download_replaces_file:
  "read_file (fst (recv_run plain_libs [R_Files [entry ''a''], block 0 [9]]
     (small_fs [([RootDir, Normal ''d''], N_Dir), ([RootDir, Normal ''d'', Normal ''a''], N_File 0),
        ([RootDir, Normal ''d'', Normal ''a.download''], N_File 1)] [(0, [1, 2, 3]), (1, [4])], job7))) ''/d/a'' = Some [4]"
  by code_simp

text \<open>A file whose name is the temporary name of another of the same transfer is lost.\<close>

lemma download_name_collides:
  "(let fs = fst (recv_run plain_libs [R_Files [entry ''a.download'', entry ''a''], block 0 [1], block 1 [2], R_Done]
          (small_fs [([RootDir, Normal ''d''], N_Dir)] [], job7))
    in (read_file fs ''/d/a.download'', read_file fs ''/d/a'')) = (None, Some [2])"
  by code_simp

end
