(* ===== verification/Transfer_Send.thy ===== *)
theory Transfer_Send
  imports Transfer_Guard
begin

text \<open>
  The sending side of a transfer as the peer sees it: the messages a job produces, turn by turn, are
  the contents of its files in order, cut into blocks, each file closed by an empty block and the
  job by a final message; and how many turns that takes.
\<close>

section \<open>Filling the buffer\<close>

text \<open>However the operating system cuts its reads, a turn takes a full buffer or what is left.\<close>

lemma fill_file:
  assumes "\<not> broken fs i" "0 < left"
  shows "fill fs ks left (FileStream i pos False) =
    Some (take left (drop pos (contents fs i)),
          FileStream i (pos + min left (length (contents fs i) - pos)) False)"
  using assms(2)
proof (induction left arbitrary: ks pos rule: less_induct)
  case (less left)
  define n where "n = max 1 (min (case ks of k # _ \<Rightarrow> k | [] \<Rightarrow> left) left)"
  define r where "r = drop pos (contents fs i)"
  define bs where "bs = take n r"
  have n: "0 < n" "n \<le> left" using less.prems by (auto simp: n_def)
  have rd: "stream_read fs (case ks of k # _ \<Rightarrow> k | [] \<Rightarrow> left) left (FileStream i pos False) = Some (bs, FileStream i (pos + length bs) False)"
    using assms(1) by (simp add: stream_read_def Let_def n_def bs_def r_def)
  have lr: "length r = length (contents fs i) - pos" by (simp add: r_def)
  show ?case
  proof (cases "bs = [] \<or> left \<le> length bs")
    case True
    have "take left r = bs \<and> length bs = min left (length r)"
    proof (cases "bs = []")
      case True
      then show ?thesis using n by (auto simp: bs_def)
    next
      case False
      then have "left \<le> length bs" using True by simp
      then have "n = left" using n by (simp add: bs_def)
      then show ?thesis by (simp add: bs_def)
    qed
    then show ?thesis using True by (simp add: fill.simps[of fs ks] rd r_def[symmetric] lr)
  next
    case False
    then have lt: "left - length bs < left" "0 < left - length bs" by auto
    have lb: "length bs = min n (length r)" by (simp add: bs_def)
    have r': "drop (pos + length bs) (contents fs i) = drop (length bs) r" by (simp add: r_def add.commute)
    have "take left r = bs @ take (left - length bs) (drop (length bs) r)"
      using take_add[of "length bs" "left - length bs" r] False lb by (simp add: bs_def min_def split: if_splits)
    moreover have "pos + length bs + min (left - length bs) (length (contents fs i) - (pos + length bs)) = pos + min left (length r)"
    proof -
      have "length bs < left" "length bs \<le> length r" using False lb by auto
      then show ?thesis using lr by linarith
    qed
    ultimately show ?thesis
      using False less.IH[OF lt(1) lt(2)] by (simp add: fill.simps[of fs ks] rd r_def[symmetric] r' lr)
  qed
qed

section \<open>What goes over the wire\<close>

definition payload :: "externals \<Rightarrow> file_block \<Rightarrow> bytes" where
  "payload x b = (if b_compressed b then decompress x (b_data b) else b_data b)"

text \<open>The messages of job \<open>i\<close> for the files \<open>cs\<close> from byte \<open>p\<close> of file \<open>k\<close> on.\<close>

inductive wire :: "externals \<Rightarrow> int \<Rightarrow> bytes list \<Rightarrow> nat \<Rightarrow> nat \<Rightarrow> file_msg list \<Rightarrow> bool"
  for x :: externals and i :: int and cs :: "bytes list" where
  wire_done: "wire x i cs (length cs) 0 [M_Done i (int (length cs))]"
| wire_block: "wire x i cs k (p + n) ms \<Longrightarrow> k < length cs \<Longrightarrow> 0 < n \<Longrightarrow> p + n \<le> length (cs ! k) \<Longrightarrow>
    b_id b = i \<Longrightarrow> b_file_num b = int k \<Longrightarrow> payload x b = take n (drop p (cs ! k)) \<Longrightarrow> wire x i cs k p (M_Block b # ms)"
| wire_eof: "wire x i cs (Suc k) 0 ms \<Longrightarrow> k < length cs \<Longrightarrow> p = length (cs ! k) \<Longrightarrow>
    b_id b = i \<Longrightarrow> b_file_num b = int k \<Longrightarrow> payload x b = [] \<Longrightarrow> wire x i cs k p (M_Block b # ms)"

text \<open>What the compression library promises: whatever it encodes, decoding gives back.\<close>

definition zstd_ok :: "externals \<Rightarrow> bool" where
  "zstd_ok x \<longleftrightarrow> (\<forall>d. \<exists>r. zstd_encode x d = Some r \<and> (\<forall>n. zstd_decode x n r = Some (take n d)))"

lemma decompress_compress:
  assumes "zstd_ok x" "length d \<le> BUF_SIZE"
  shows "decompress x (compress x d) = d"
proof -
  obtain r where "zstd_encode x d = Some r" "\<And>n. zstd_decode x n r = Some (take n d)" using assms(1) by (auto simp: zstd_ok_def)
  then show ?thesis using assms(2)
    by (simp add: compress_def decompress_def decompress_with_limit_def MAX_DECOMPRESSED_SIZE_def BUF_SIZE_def USIZE_MAX_def)
qed

section \<open>A sending job\<close>

text \<open>Turns until the job has left the list; the oracle of the reads may differ every turn.\<close>

fun send_loop :: "nat \<Rightarrow> externals \<Rightarrow> (nat \<Rightarrow> nat list) \<Rightarrow> fsys \<Rightarrow> transfer_job list \<Rightarrow> transfer_job list \<times> file_msg list" where
  "send_loop 0 x ks fs jobs = (jobs, [])"
| "send_loop (Suc n) x ks fs jobs =
     (let (jobs, ms) = handle_read_jobs x (ks n) fs jobs;
          (jobs, ms') = send_loop n x ks fs jobs
      in (jobs, ms @ ms'))"

definition sending :: "int \<Rightarrow> string \<Rightarrow> file_entry list \<Rightarrow> nat \<Rightarrow> data_stream option \<Rightarrow> transfer_job \<Rightarrow> bool" where
  "sending i src es k st job \<longleftrightarrow> j_id job = i \<and> j_type job = Generic \<and> j_source job = FilePath src \<and> j_files job = es
     \<and> j_file_num job = int k \<and> \<not> j_detect job \<and> \<not> j_is_last_job job \<and> \<not> j_skipped job \<and> j_stream job = st"

text \<open>The files of the job as they are on the sender's disk.\<close>

definition on_disk :: "fsys \<Rightarrow> string \<Rightarrow> file_entry list \<Rightarrow> bytes list \<Rightarrow> bool" where
  "on_disk fs src es cs \<longleftrightarrow> length cs = length es \<and>
     (\<forall>k < length es. \<exists>f. fs_open fs (transfer_join src (e_name (es ! k))) = Some f \<and> \<not> broken fs f \<and> contents fs f = cs ! k)"

lemma usize_of_int [simp]: "usize_of (int k) = k"
  by (simp add: usize_of_def)

lemma turn_done:
  assumes "sending i src es (length es) st job"
  shows "handle_read_jobs x ks fs [job] = ([], [M_Done i (int (length es))])"
  using assms by (simp add: sending_def handle_read_jobs_def init_data_stream_def open_data_stream_def Let_def
      job_read_def is_file_path_def job_completed_def job_error_def job_skipped_def)

text \<open>The stream a turn reads from: the open one, or the file just opened.\<close>

lemma turn_init:
  assumes s: "sending i src es k st job" and k: "k < length es"
    and st: "st = Some (FileStream f p False) \<or> (st = None \<and> p = 0 \<and> fs_open fs (transfer_join src (e_name (es ! k))) = Some f)"
  shows "\<exists>job'. init_jobs fs [job] = ([job'], []) \<and> sending i src es k (Some (FileStream f p False)) job'"
  using assms by (auto simp: sending_def init_data_stream_def open_data_stream_def asks_digest_def Let_def)

lemma turn_read:
  assumes s: "sending i src es k (Some (FileStream f p False)) job" and k: "k < length es"
    and f: "\<not> broken fs f" "contents fs f = c" and p: "p \<le> length c" and x: "zstd_ok x" and max: "length es < 2 ^ 31"
  shows "\<exists>job' b. read_first x ks fs [job] = ([job'], [M_Block b], []) \<and> b_id b = i \<and> b_file_num b = int k
    \<and> payload x b = take BUF_SIZE (drop p c)
    \<and> (if p = length c then sending i src es (Suc k) None job'
       else sending i src es k (Some (FileStream f (p + min BUF_SIZE (length c - p)) False)) job')"
proof -
  define buf where "buf = take BUF_SIZE (drop p c)"
  have fl: "fill fs ks BUF_SIZE (FileStream f p False) = Some (buf, FileStream f (p + min BUF_SIZE (length c - p)) False)"
    using fill_file[OF f(1), of BUF_SIZE ks p] f(2) by (simp add: buf_def BUF_SIZE_def)
  have e: "buf = [] \<longleftrightarrow> p = length c" using p by (auto simp: buf_def BUF_SIZE_def)
  have w: "wrap_i32 (int k + 1) = int (Suc k)" using k max by simp
  have lb: "length buf \<le> BUF_SIZE" by (simp add: buf_def)
  show ?thesis
  proof (cases "p = length c")
    case True
    then have b: "buf = []" using e by simp
    have "job_read x ks fs job =
        (next_num (job\<lparr>j_stream := None\<rparr>), Ok (Some \<lparr>b_id = i, b_file_num = int k, b_data = [], b_compressed = False\<rparr>))"
      using s k b by (simp add: sending_def job_read_def is_file_path_def fl Let_def)
    then show ?thesis using s w True b
      by (simp add: sending_def next_num_def payload_def buf_def[symmetric])
  next
    case False
    define small where "small \<longleftrightarrow> \<not> is_compressed_file (block_name job) \<and> length (compress x buf) < length buf"
    have "job_read x ks fs job =
        (job\<lparr>j_stream := Some (FileStream f (p + min BUF_SIZE (length c - p)) False),
             j_finished_size := (j_finished_size job + length buf) mod 2 ^ 64,
             j_transferred := (j_transferred job + length (if small then compress x buf else buf)) mod 2 ^ 64\<rparr>,
         Ok (Some \<lparr>b_id = i, b_file_num = int k, b_data = (if small then compress x buf else buf), b_compressed = small\<rparr>))"
      using s k e False unfolding small_def by (simp add: sending_def job_read_def is_file_path_def fl Let_def)
    moreover have "payload x \<lparr>b_id = i, b_file_num = int k, b_data = (if small then compress x buf else buf), b_compressed = small\<rparr> = buf"
      using decompress_compress[OF x lb] by (simp add: payload_def)
    ultimately show ?thesis using s False by (simp add: sending_def buf_def[symmetric])
  qed
qed

text \<open>Turns a file takes: its blocks and the empty one.\<close>

definition turns :: "nat \<Rightarrow> nat" where
  "turns n = (n + BUF_SIZE - 1) div BUF_SIZE + 1"

lemma turns_0 [simp]: "turns 0 = 1"
  by (simp add: turns_def BUF_SIZE_def)

lemma turns_step: "0 < n \<Longrightarrow> turns n = Suc (turns (n - min BUF_SIZE n))"
proof (cases "BUF_SIZE \<le> n")
  case True
  then have "n + BUF_SIZE - 1 = (n - BUF_SIZE + BUF_SIZE - 1) + BUF_SIZE" by (simp add: BUF_SIZE_def)
  then have "(n + BUF_SIZE - 1) div BUF_SIZE = (n - BUF_SIZE + BUF_SIZE - 1) div BUF_SIZE + 1" by (simp add: BUF_SIZE_def)
  then show ?thesis using True by (simp add: turns_def min_def)
next
  case False
  assume "0 < n"
  then have "n + BUF_SIZE - 1 = (n - 1) + BUF_SIZE" "n - 1 < BUF_SIZE" using False by auto
  then have "(n + BUF_SIZE - 1) div BUF_SIZE = 1" by (simp add: BUF_SIZE_def)
  then show ?thesis using False by (simp add: turns_def min_def BUF_SIZE_def)
qed

definition turns_left :: "bytes list \<Rightarrow> nat \<Rightarrow> nat \<Rightarrow> nat" where
  "turns_left cs k p =
     (if k < length cs then turns (length (cs ! k) - p) + sum_list (map (\<lambda>c. turns (length c)) (drop (Suc k) cs)) else 0) + 1"

lemma turns_left_next:
  assumes "k < length cs"
  shows "turns_left cs k (length (cs ! k)) = Suc (turns_left cs (Suc k) 0)"
proof (cases "Suc k < length cs")
  case True
  then have "drop (Suc k) cs = cs ! Suc k # drop (Suc (Suc k)) cs" by (simp add: Cons_nth_drop_Suc)
  then show ?thesis using assms True by (simp add: turns_left_def)
qed (use assms in \<open>simp add: turns_left_def\<close>)

lemma turns_left_block:
  assumes "k < length cs" "p < length (cs ! k)"
  shows "turns_left cs k p = Suc (turns_left cs k (p + min BUF_SIZE (length (cs ! k) - p)))"
  using assms turns_step[of "length (cs ! k) - p"] by (simp add: turns_left_def)

text \<open>From any point of a transfer the job runs to its end in exactly the turns left.\<close>

lemma send_loop_wire:
  assumes d: "on_disk fs src es cs" and x: "zstd_ok x" and max: "length es < 2 ^ 31"
  shows "n = turns_left cs k p \<Longrightarrow> k \<le> length es \<Longrightarrow> (k = length es \<longrightarrow> p = 0) \<Longrightarrow> (k < length es \<longrightarrow> p \<le> length (cs ! k)) \<Longrightarrow>
    sending i src es k st job \<Longrightarrow>
    (st = None \<and> p = 0 \<or> k < length es \<and> (\<exists>f. st = Some (FileStream f p False) \<and> \<not> broken fs f \<and> contents fs f = cs ! k)) \<Longrightarrow>
    \<exists>ms. send_loop n x ks fs [job] = ([], ms) \<and> wire x i cs k p ms"
proof (induction n arbitrary: k p st job)
  case 0
  then show ?case by (simp add: turns_left_def)
next
  case (Suc n)
  have len: "length cs = length es" using d by (simp add: on_disk_def)
  show ?case
  proof (cases "k = length es")
    case True
    have n: "n = 0" using Suc.prems(1) True len by (simp add: turns_left_def)
    have "handle_read_jobs x (ks 0) fs [job] = ([], [M_Done i (int (length es))])"
      using turn_done Suc.prems(5) True by blast
    then have "send_loop (Suc n) x ks fs [job] = ([], [M_Done i (int (length cs))])" using n len by simp
    moreover have "wire x i cs k p [M_Done i (int (length cs))]" using wire_done[of x i cs] Suc.prems(3) True len by simp
    ultimately show ?thesis by blast
  next
    case False
    then have k: "k < length es" using Suc.prems(2) by simp
    obtain f0 where f0: "fs_open fs (transfer_join src (e_name (es ! k))) = Some f0" "\<not> broken fs f0" "contents fs f0 = cs ! k"
      using d k by (auto simp: on_disk_def)
    obtain f where f: "\<not> broken fs f" "contents fs f = cs ! k"
      "st = Some (FileStream f p False) \<or> (st = None \<and> p = 0 \<and> fs_open fs (transfer_join src (e_name (es ! k))) = Some f)"
      using Suc.prems(6) f0 by blast
    obtain j1 where j1: "init_jobs fs [job] = ([j1], [])" "sending i src es k (Some (FileStream f p False)) j1"
      using turn_init[OF Suc.prems(5) k f(3)] by blast
    have p: "p \<le> length (cs ! k)" using Suc.prems(4) k by simp
    obtain j2 b where j2: "read_first x (ks n) fs [j1] = ([j2], [M_Block b], [])" "b_id b = i" "b_file_num b = int k"
      "payload x b = take BUF_SIZE (drop p (cs ! k))"
      "if p = length (cs ! k) then sending i src es (Suc k) None j2
       else sending i src es k (Some (FileStream f (p + min BUF_SIZE (length (cs ! k) - p)) False)) j2"
      using turn_read[OF j1(2) k f(1,2) p x max, of "ks n"] by blast
    have h: "handle_read_jobs x (ks n) fs [job] = ([j2], [M_Block b])" using j1(1) j2(1) by (simp add: handle_read_jobs_def)
    show ?thesis
    proof (cases "p = length (cs ! k)")
      case True
      have "n = turns_left cs (Suc k) 0" using Suc.prems(1) turns_left_next[of k cs] k len True by simp
      moreover have "sending i src es (Suc k) None j2" using j2(5) True by simp
      ultimately obtain ms where "send_loop n x ks fs [j2] = ([], ms)" "wire x i cs (Suc k) 0 ms"
        using Suc.IH[of "Suc k" 0 None j2] k by auto
      then show ?thesis using h wire_eof[of x i cs k ms p b] k len True j2 by simp
    next
      case False
      define m where "m = min BUF_SIZE (length (cs ! k) - p)"
      have m: "0 < m" "p + m \<le> length (cs ! k)" using False p by (auto simp: m_def BUF_SIZE_def)
      have "n = turns_left cs k (p + m)" using Suc.prems(1) turns_left_block[of k cs p] k len False p by (simp add: m_def)
      moreover have "sending i src es k (Some (FileStream f (p + m) False)) j2" using j2(5) False by (simp add: m_def)
      ultimately obtain ms where "send_loop n x ks fs [j2] = ([], ms)" "wire x i cs k (p + m) ms"
        using Suc.IH[of k "p + m" "Some (FileStream f (p + m) False)" j2] k m f by auto
      moreover have "payload x b = take m (drop p (cs ! k))" using j2(4) by (auto simp: m_def min_def)
      ultimately show ?thesis using h wire_block[of x i cs k p m ms b] k len m j2 by simp
    qed
  qed
qed

section \<open>Sending only what was confirmed\<close>

text \<open>
  A session's list of sending jobs and the disk, driven by turns and by the peer's confirmations,
  which go to the first job of their id. The events are what was sent and what was received.
\<close>

datatype send_act = S_Turn "nat list" | S_Confirm send_confirm

datatype send_event = Sent file_msg | Got send_confirm

fun confirm_first :: "send_confirm \<Rightarrow> fsys \<Rightarrow> transfer_job list \<Rightarrow> fsys \<times> transfer_job list" where
  "confirm_first r fs [] = (fs, [])"
| "confirm_first r fs (j # js) =
     (if j_id j = r_id r then case confirm r fs j of (fs', j') \<Rightarrow> (fs', j' # js)
      else case confirm_first r fs js of (fs', js') \<Rightarrow> (fs', j # js'))"

fun send_step :: "externals \<Rightarrow> send_act \<Rightarrow> fsys \<times> transfer_job list \<Rightarrow> (fsys \<times> transfer_job list) \<times> send_event list" where
  "send_step x (S_Turn ks) (fs, jobs) = (case handle_read_jobs x ks fs jobs of (jobs', ms) \<Rightarrow> ((fs, jobs'), map Sent ms))"
| "send_step x (S_Confirm r) (fs, jobs) = (confirm_first r fs jobs, [Got r])"

fun send_run :: "externals \<Rightarrow> send_act list \<Rightarrow> fsys \<times> transfer_job list \<Rightarrow> send_event list" where
  "send_run x [] s = []"
| "send_run x (a # as) s = (case send_step x a s of (s', evs) \<Rightarrow> evs @ send_run x as s')"

definition asks_to_send :: "send_confirm \<Rightarrow> int \<Rightarrow> int \<Rightarrow> bool" where
  "asks_to_send r i n \<longleftrightarrow> r_id r = i \<and> r_file_num r = n \<and> r_union r \<noteq> None \<and> r_union r \<noteq> Some (Skip True)"

text \<open>A job that detects overwriting is confirmed only for the file the peer asked for.\<close>

definition heard :: "send_event list \<Rightarrow> transfer_job \<Rightarrow> bool" where
  "heard evs j \<longleftrightarrow> j_type j = Generic \<and> j_detect j \<and> \<not> j_is_last_job j
     \<and> (j_confirmed j \<longrightarrow> (\<exists>r. Got r \<in> set evs \<and> asks_to_send r (j_id j) (j_file_num j)))"

lemma heard_mono: "heard evs j \<Longrightarrow> set evs \<subseteq> set evs' \<Longrightarrow> heard evs' j"
  unfolding heard_def by blast

lemma heard_reset: "heard evs j \<Longrightarrow> j_type j' = j_type j \<Longrightarrow> j_detect j' = j_detect j \<Longrightarrow> j_is_last_job j' = j_is_last_job j \<Longrightarrow>
   \<not> j_confirmed j' \<Longrightarrow> heard evs j'"
  by (simp add: heard_def)

lemma heard_open: "heard evs j \<Longrightarrow> heard evs (fst (open_data_stream fs j)) \<and> j_id (fst (open_data_stream fs j)) = j_id j"
  by (auto simp: open_data_stream_def next_num_def heard_def Let_def split: data_source.split option.split)

lemma heard_init:
  assumes "heard evs j"
  shows "heard evs (fst (init_data_stream fs j)) \<and> j_id (fst (init_data_stream fs j)) = j_id j"
    and "snd (init_data_stream fs j) = Ok ms \<Longrightarrow> M_Block b \<notin> set ms"
proof -
  obtain j1 r where o: "open_data_stream fs j = (j1, r)" by fastforce
  have h: "heard evs j1" "j_id j1 = j_id j" using heard_open[OF assms, of fs] o by auto
  then show "heard evs (fst (init_data_stream fs j)) \<and> j_id (fst (init_data_stream fs j)) = j_id j"
    using o by (auto simp: init_data_stream_def heard_def split: sum.split bool.split)
  show "snd (init_data_stream fs j) = Ok ms \<Longrightarrow> M_Block b \<notin> set ms"
    using o by (auto simp: init_data_stream_def send_current_digest_def split: sum.splits bool.splits if_splits)
qed

lemma heard_read:
  assumes "heard evs j" "job_read x ks fs j = (j', res)"
  shows "heard evs j'" "j_id j' = j_id j" "res = Ok (Some b) \<Longrightarrow> j_confirmed j \<and> b_file_num b = j_file_num j \<and> b_id b = j_id j"
  using assms by (auto simp: job_read_def next_num_def heard_def Let_def split: if_splits option.splits prod.splits)

lemma set_stream_offset_keeps:
  "let j' = snd (set_stream_offset n off fs j) in j_type j' = j_type j \<and> j_detect j' = j_detect j \<and> j_is_last_job j' = j_is_last_job j
     \<and> j_confirmed j' = j_confirmed j \<and> j_id j' = j_id j \<and> j_file_num j' = j_file_num j"
  by (auto simp: set_stream_offset_def Let_def split: data_source.split option.split prod.split)

lemma heard_confirm:
  assumes "heard evs j" "r_id r = j_id j"
  shows "heard (evs @ [Got r]) (snd (confirm r fs j))" "j_id (snd (confirm r fs j)) = j_id j"
proof -
  have m: "heard (evs @ [Got r]) j" by (rule heard_mono[OF assms(1)]) auto
  have sk: "heard (evs @ [Got r]) (set_file_skipped j) \<and> j_id (set_file_skipped j) = j_id j"
    using m by (auto simp: set_file_skipped_def set_file_confirmed_def Let_def heard_def)
  have cf: "heard (evs @ [Got r]) (set_file_confirmed True j) \<and> j_id (set_file_confirmed True j) = j_id j"
    if "j_file_num j = r_file_num r" "r_union r \<noteq> None" "r_union r \<noteq> Some (Skip True)"
    using m that assms(2) by (auto simp: set_file_confirmed_def heard_def asks_to_send_def)
  have of: "heard (evs @ [Got r]) (snd (set_stream_offset n off fs (set_file_confirmed True j)))
      \<and> j_id (snd (set_stream_offset n off fs (set_file_confirmed True j))) = j_id j"
    if "j_file_num j = r_file_num r" "r_union r \<noteq> None" "r_union r \<noteq> Some (Skip True)" for n off
    using cf[OF that] set_stream_offset_keeps[of n off fs "set_file_confirmed True j"]
    by (auto simp: Let_def heard_def)
  show "heard (evs @ [Got r]) (snd (confirm r fs j))" "j_id (snd (confirm r fs j)) = j_id j"
    using m sk cf of by (auto simp: confirm_def Let_def split: option.split confirm_union.split)
qed

lemma turn_heard:
  assumes h: "heard evs j" and t: "handle_read_jobs x ks fs [j] = (jobs, ms)"
  shows "jobs = [] \<or> (\<exists>j'. jobs = [j'] \<and> heard evs j' \<and> j_id j' = j_id j)"
    and "M_Block b \<in> set ms \<Longrightarrow> \<exists>r. Got r \<in> set evs \<and> asks_to_send r (b_id b) (b_file_num b)"
proof -
  have l: "\<not> j_is_last_job j" using h by (simp add: heard_def)
  obtain j1 r1 where i: "init_data_stream fs j = (j1, r1)" by fastforce
  have h1: "heard evs j1" "j_id j1 = j_id j" using heard_init(1)[OF h, of fs] i by auto
  obtain ms1 where ms1: "init_jobs fs [j] = ([j1], ms1)" "M_Block b \<notin> set ms1" for b
    using i l heard_init(2)[OF h, of fs] by (cases r1) auto
  obtain j2 r2 where rd: "job_read x ks fs j1 = (j2, r2)" by fastforce
  note h2 = heard_read[OF h1(1) rd]
  have l1: "\<not> j_is_last_job j1" using h1 by (simp add: heard_def)
  have "\<exists>ms2 fin. read_first x ks fs [j1] = ([j2], ms2, fin) \<and> (fin = [] \<or> fin = [j_id j2])
      \<and> (\<forall>b. M_Block b \<in> set ms2 \<longrightarrow> r2 = Ok (Some b))"
    using l1 rd by (auto split: sum.split option.split)
  then obtain ms2 fin where rf: "read_first x ks fs [j1] = ([j2], ms2, fin)" "fin = [] \<or> fin = [j_id j2]"
    "\<And>b. M_Block b \<in> set ms2 \<Longrightarrow> r2 = Ok (Some b)" by blast
  have res: "jobs = fold (\<lambda>i js. snd (remove_job i js)) fin [j2]" "ms = ms1 @ ms2"
    using t ms1(1) rf(1) by (auto simp: handle_read_jobs_def)
  show "jobs = [] \<or> (\<exists>j'. jobs = [j'] \<and> heard evs j' \<and> j_id j' = j_id j)"
    using res(1) rf(2) h2(1,2) h1(2) by auto
  show "\<exists>r. Got r \<in> set evs \<and> asks_to_send r (b_id b) (b_file_num b)" if "M_Block b \<in> set ms"
  proof -
    have "r2 = Ok (Some b)" using that res(2) ms1(2) rf(3) by auto
    then have "j_confirmed j1 \<and> b_file_num b = j_file_num j1 \<and> b_id b = j_id j1" using h2(3) by blast
    then show ?thesis using h1(1) by (auto simp: heard_def)
  qed
qed

lemma handle_read_no_jobs [simp]: "handle_read_jobs x ks fs [] = ([], [])"
  by (simp add: handle_read_jobs_def)

lemma send_run_heard:
  "(jobs = [] \<or> (\<exists>j. jobs = [j] \<and> heard evs j)) \<Longrightarrow> send_run x acts (fs, jobs) = pre @ Sent (M_Block b) # post \<Longrightarrow>
   \<exists>r. Got r \<in> set (evs @ pre) \<and> asks_to_send r (b_id b) (b_file_num b)"
proof (induction acts arbitrary: fs jobs evs pre)
  case (Cons a acts)
  obtain fs1 jobs1 e1 where st: "send_step x a (fs, jobs) = ((fs1, jobs1), e1)" by (metis surj_pair)
  have inv: "jobs1 = [] \<or> (\<exists>j. jobs1 = [j] \<and> heard (evs @ e1) j)"
    and blk: "Sent (M_Block b) \<in> set e1 \<Longrightarrow> \<exists>r. Got r \<in> set evs \<and> asks_to_send r (b_id b) (b_file_num b)"
  proof -
    show "jobs1 = [] \<or> (\<exists>j. jobs1 = [j] \<and> heard (evs @ e1) j)"
    proof (cases a)
      case (S_Turn ks)
      obtain jobs2 ms where t: "handle_read_jobs x ks fs jobs = (jobs2, ms)" by fastforce
      have "jobs2 = [] \<or> (\<exists>j. jobs2 = [j] \<and> heard evs j)"
        using Cons.prems(1)
      proof
        assume "jobs = []"
        then show ?thesis using t by simp
      next
        assume "\<exists>j. jobs = [j] \<and> heard evs j"
        then obtain j where "jobs = [j]" "heard evs j" by blast
        then show ?thesis using turn_heard(1)[of evs j x ks fs jobs2 ms] t by blast
      qed
      then show ?thesis using st S_Turn t heard_mono[of evs _ "evs @ e1"] by auto
    next
      case (S_Confirm r)
      show ?thesis
      proof (cases jobs)
        case Nil
        then show ?thesis using st S_Confirm by auto
      next
        case (Cons j js)
        then have j: "jobs = [j]" "heard evs j" using Cons.prems(1) by auto
        obtain fs2 j2 where c: "confirm r fs j = (fs2, j2)" by fastforce
        show ?thesis
          using st S_Confirm j c heard_confirm(1)[OF j(2), of r fs] heard_mono[OF j(2), of "evs @ [Got r]"]
          by (auto split: if_splits)
      qed
    qed
    show "\<exists>r. Got r \<in> set evs \<and> asks_to_send r (b_id b) (b_file_num b)" if "Sent (M_Block b) \<in> set e1"
    proof (cases a)
      case (S_Turn ks)
      obtain jobs2 ms where t: "handle_read_jobs x ks fs jobs = (jobs2, ms)" by fastforce
      have "M_Block b \<in> set ms" using st S_Turn t that by auto
      moreover from this have "jobs \<noteq> []" using t by auto
      then obtain j where "jobs = [j]" "heard evs j" using Cons.prems(1) by blast
      ultimately show ?thesis using turn_heard(2)[of evs j x ks fs jobs2 ms b] t by blast
    next
      case (S_Confirm r)
      then show ?thesis using st that by auto
    qed
  qed
  have run: "e1 @ send_run x acts (fs1, jobs1) = pre @ Sent (M_Block b) # post" using Cons.prems(2) st by simp
  show ?case
  proof (cases "length pre < length e1")
    case True
    then have "Sent (M_Block b) \<in> set e1" using run by (metis nth_append nth_append_length nth_mem)
    then show ?thesis using blk by auto
  next
    case False
    then obtain pre' where "pre = e1 @ pre'" "send_run x acts (fs1, jobs1) = pre' @ Sent (M_Block b) # post"
      using run by (auto simp: append_eq_append_conv2 not_less)
    then show ?thesis using Cons.IH[OF inv, of fs1 pre'] by simp
  qed
qed simp

section \<open>Properties\<close>

text \<open>
  C39: A job that detects overwriting sends no block of a file before the peer has asked for that
  very file: every block on the wire comes after a confirmation that names its job and its file
  number and is not a request to skip it, whatever confirmations the peer sends and in whatever
  order they meet the turns.
\<close>

theorem no_block_before_confirmation:
  assumes "send_run x acts (fs, [(new_write i Generic remote src n hidden is_remote True)\<lparr>j_files := es\<rparr>]) = pre @ Sent (M_Block b) # post"
  shows "\<exists>r. Got r \<in> set pre \<and> r_id r = b_id b \<and> r_file_num r = b_file_num b
     \<and> (r_union r = Some (Skip False) \<or> (\<exists>off. r_union r = Some (OffsetBlk off)))"
proof -
  have "heard [] ((new_write i Generic remote src n hidden is_remote True)\<lparr>j_files := es\<rparr>)" by (simp add: heard_def new_write_def)
  then obtain r where r: "Got r \<in> set pre" "asks_to_send r (b_id b) (b_file_num b)" using send_run_heard[OF _ assms, of "[]"] by auto
  have "r_union r = Some (Skip False) \<or> (\<exists>off. r_union r = Some (OffsetBlk off))"
    using r(2) by (cases "r_union r"; cases "the (r_union r)") (auto simp: asks_to_send_def)
  then show ?thesis using r by (auto simp: asks_to_send_def)
qed

theorem no_block_before_confirmation_witness:
  "\<exists>pre b post. send_run plain_libs [S_Turn [], S_Turn [], S_Confirm \<lparr>r_id = 7, r_file_num = 0, r_union = Some (OffsetBlk 0)\<rparr>, S_Turn []]
     (small_fs [([RootDir, Normal ''s''], N_File 0)] [(0, [5])],
      [(new_write 7 Generic [] (FilePath ''/s'') 0 False False True)\<lparr>j_files := [entry []]\<rparr>]) = pre @ Sent (M_Block b) # post
     \<and> (\<exists>r. Got r \<in> set pre \<and> r_file_num r = b_file_num b)"
proof -
  let ?run = "send_run plain_libs [S_Turn [], S_Turn [], S_Confirm \<lparr>r_id = 7, r_file_num = 0, r_union = Some (OffsetBlk 0)\<rparr>, S_Turn []]
     (small_fs [([RootDir, Normal ''s''], N_File 0)] [(0, [5])],
      [(new_write 7 Generic [] (FilePath ''/s'') 0 False False True)\<lparr>j_files := [entry []]\<rparr>])"
  have e: "?run = [Sent (M_Digest \<lparr>t_id = 7, t_file_num = 0, t_last_modified = 0, t_file_size = 1, t_is_identical = False, t_transferred_size = 0, t_is_resume = False\<rparr>),
      Got \<lparr>r_id = 7, r_file_num = 0, r_union = Some (OffsetBlk 0)\<rparr>]
      @ Sent (M_Block \<lparr>b_id = 7, b_file_num = 0, b_data = [5], b_compressed = False\<rparr>) # []"
    by code_simp
  show ?thesis using no_block_before_confirmation[OF e] e by blast
qed

end
