(* ===== verification/Transfer_Copy.thy ===== *)
theory Transfer_Copy
  imports Transfer_Send
begin

text \<open>
  A whole transfer: the messages of a sending job, handed to a receiving one, leave the sender's
  files in the receiver's directory.
\<close>

section \<open>A directory a transfer can land in\<close>

abbreviation fpath :: "string \<Rightarrow> file_entry list \<Rightarrow> nat \<Rightarrow> string" where
  "fpath dst es j \<equiv> transfer_join dst (e_name (es ! j))"

abbreviation dkey :: "string \<Rightarrow> file_entry list \<Rightarrow> nat \<Rightarrow> key" where "dkey dst es j \<equiv> fs_key (fpath dst es j)"
abbreviation lkey :: "string \<Rightarrow> file_entry list \<Rightarrow> nat \<Rightarrow> key" where "lkey dst es j \<equiv> fs_key (download_path (fpath dst es j))"
abbreviation gkey :: "string \<Rightarrow> file_entry list \<Rightarrow> nat \<Rightarrow> key" where "gkey dst es j \<equiv> fs_key (digest_path (fpath dst es j))"

text \<open>The final name of a file and its two temporary ones.\<close>

definition own :: "string \<Rightarrow> file_entry list \<Rightarrow> nat \<Rightarrow> key list" where
  "own dst es j = [dkey dst es j, lkey dst es j, gkey dst es j]"

text \<open>
  Names that do not get in each other's way: valid ones, all different with their temporary names,
  which lie in the same directory, and none the directory of another.
\<close>

definition apart :: "string \<Rightarrow> file_entry list \<Rightarrow> bool" where
  "apart dst es \<longleftrightarrow>
     (\<forall>j < length es. validate_file_name_no_traversal False (e_name (es ! j)) = Ok ()
        \<and> butlast (lkey dst es j) = butlast (dkey dst es j) \<and> butlast (gkey dst es j) = butlast (dkey dst es j))
     \<and> (\<forall>j < length es. distinct (own dst es j))
     \<and> (\<forall>i < length es. \<forall>j < length es. i \<noteq> j \<longrightarrow> set (own dst es i) \<inter> set (own dst es j) = {})
     \<and> (\<forall>i < length es. \<forall>j < length es. \<forall>q \<in> set (own dst es i). \<not> strict_prefix q (dkey dst es j))"

text \<open>
  A disk with room for them: the directories above the files are there or can be made, nothing is
  refused, no temporary file is left over, and no final name is taken by a directory or a link.
\<close>

definition roomy :: "string \<Rightarrow> file_entry list \<Rightarrow> fsys \<Rightarrow> bool" where
  "roomy dst es fs \<longleftrightarrow>
     (\<forall>k. \<not> denied fs k) \<and> (\<forall>i \<ge> next_file fs. \<not> broken fs i)
     \<and> (\<forall>k i. names fs k = Some (N_File i) \<longrightarrow> i < next_file fs)
     \<and> (\<forall>j < length es. \<forall>q \<in> set (own dst es j). \<not> key_is_dir fs q \<and> (\<forall>t. names fs q \<noteq> Some (N_Link t)))
     \<and> (\<forall>j < length es. names fs (lkey dst es j) = None \<and> names fs (gkey dst es j) = None)
     \<and> (\<forall>j < length es. \<forall>q. strict_prefix q (dkey dst es j) \<longrightarrow> key_is_dir fs q \<or> names fs q = None)"

section \<open>The disk during a transfer\<close>

text \<open>
  Against the disk \<open>fs0\<close> at the start, with the first \<open>m\<close> files begun: new are directories on the
  way to the files and the names of the files begun; no name of a file is a directory or a link; the
  files to come have no temporary file yet.
\<close>

definition underway :: "string \<Rightarrow> file_entry list \<Rightarrow> fsys \<Rightarrow> nat \<Rightarrow> fsys \<Rightarrow> bool" where
  "underway dst es fs0 m fs \<longleftrightarrow>
     (\<forall>q. names fs q = names fs0 q
        \<or> (names fs0 q = None \<and> names fs q = Some N_Dir \<and> (\<exists>j < length es. strict_prefix q (dkey dst es j)))
        \<or> (\<exists>j < m. j < length es \<and> q \<in> set (own dst es j) \<and> (names fs q = None \<or> (\<exists>i. names fs q = Some (N_File i)))))
     \<and> denied fs = denied fs0 \<and> broken fs = broken fs0 \<and> next_file fs0 \<le> next_file fs
     \<and> (\<forall>k i. names fs k = Some (N_File i) \<longrightarrow> i < next_file fs)
     \<and> (\<forall>j. m \<le> j \<and> j < length es \<longrightarrow> names fs (lkey dst es j) = None \<and> names fs (gkey dst es j) = None)"

lemma own_apart:
  assumes "apart dst es" "i < length es" "j < length es" "q \<in> set (own dst es i)"
  shows "\<not> strict_prefix q (dkey dst es j)" and "i \<noteq> j \<Longrightarrow> q \<notin> set (own dst es j)"
proof -
  show "\<not> strict_prefix q (dkey dst es j)" using assms by (auto simp: apart_def)
  have "i \<noteq> j \<Longrightarrow> set (own dst es i) \<inter> set (own dst es j) = {}" using assms by (simp add: apart_def)
  then show "i \<noteq> j \<Longrightarrow> q \<notin> set (own dst es j)" using assms(4) by blast
qed

lemma own_mem [simp]: "dkey dst es j \<in> set (own dst es j)" "lkey dst es j \<in> set (own dst es j)" "gkey dst es j \<in> set (own dst es j)"
  by (simp_all add: own_def)

lemma own_distinct:
  assumes "apart dst es" "j < length es"
  shows "dkey dst es j \<noteq> lkey dst es j" "dkey dst es j \<noteq> gkey dst es j" "lkey dst es j \<noteq> gkey dst es j"
  using assms by (auto simp: apart_def own_def)

lemma underwayI: "roomy dst es fs \<Longrightarrow> underway dst es fs 0 fs"
  by (auto simp: underway_def roomy_def)

text \<open>On the way to a file there are directories or nothing, and at a file's names files or nothing.\<close>

lemma way_clear:
  assumes "apart dst es" "roomy dst es fs0" "underway dst es fs0 m fs" "j < length es" "strict_prefix q (dkey dst es j)"
  shows "key_is_dir fs q \<or> names fs q = None"
proof -
  have "key_is_dir fs0 q \<or> names fs0 q = None" using assms(2,4,5) by (auto simp: roomy_def)
  moreover have "q \<notin> set (own dst es i)" if "i < length es" for i using own_apart(1)[OF assms(1) that assms(4)] assms(5) by blast
  ultimately show ?thesis using assms(3) unfolding underway_def key_is_dir_def by metis
qed

lemma own_clear:
  assumes "apart dst es" "roomy dst es fs0" "underway dst es fs0 m fs" "j < length es" "q \<in> set (own dst es j)"
  shows "\<not> key_is_dir fs q" and "names fs q = None \<or> (\<exists>i. names fs q = Some (N_File i))"
proof -
  have r: "\<not> key_is_dir fs0 q" "\<And>t. names fs0 q \<noteq> Some (N_Link t)" using assms(2,4,5) by (auto simp: roomy_def)
  then have n0: "names fs0 q = None \<or> (\<exists>i. names fs0 q = Some (N_File i))"
    by (cases "names fs0 q"; cases "the (names fs0 q)") (auto simp: key_is_dir_def)
  have np: "\<not> strict_prefix q (dkey dst es i)" if "i < length es" for i using own_apart(1)[OF assms(1,4) that assms(5)] .
  show n: "names fs q = None \<or> (\<exists>i. names fs q = Some (N_File i))"
    using assms(3) n0 np unfolding underway_def by metis
  show "\<not> key_is_dir fs q" using n r(1) by (auto simp: key_is_dir_def)
qed

lemma own_target:
  assumes "apart dst es" "roomy dst es fs0" "underway dst es fs0 m fs" "j < length es" "fs_key p \<in> set (own dst es j)"
  shows "target fs p = Some (fs_key p)"
  unfolding target_def using own_clear(2)[OF assms] by (intro follow_not_link) auto

lemma not_denied: "roomy dst es fs0 \<Longrightarrow> underway dst es fs0 m fs \<Longrightarrow> \<not> denied fs k"
  by (simp add: roomy_def underway_def)

lemma dkey_segs:
  assumes "apart dst es" "j < length es"
  shows "dkey dst es j = fs_key dst @ map Normal (segs (e_name (es ! j)))" and "\<forall>s \<in> set (segs (e_name (es ! j))). plain_seg s"
proof -
  have v: "validate_file_name_no_traversal False (e_name (es ! j)) = Ok ()" using assms by (simp add: apart_def)
  show pl: "\<forall>s \<in> set (segs (e_name (es ! j))). plain_seg s" using plain_segs[OF v] by blast
  show "dkey dst es j = fs_key dst @ map Normal (segs (e_name (es ! j)))"
    using fs_key_join v map_to_component_plain[of "segs (e_name (es ! j))"] pl by (simp add: validate_name_iff)
qed

text \<open>During the transfer every file's name passes the check.\<close>

lemma path_accepted:
  assumes a: "apart dst es" and r: "roomy dst es fs0" and u: "underway dst es fs0 m fs" and j: "j < length es"
  shows "join_validated_path False (fs_stat fs) dst (e_name (es ! j)) = Ok (fpath dst es j)"
proof -
  have v: "validate_file_name_no_traversal False (e_name (es ! j)) = Ok ()" using a j by (simp add: apart_def)
  have "fs_stat fs q = IsOther \<or> fs_stat fs q = NotFound" if q: "q \<in> set (walk dst (segs (e_name (es ! j))))" for q
  proof -
    obtain n where n: "0 < n" "n \<le> length (segs (e_name (es ! j)))" "fs_key q = fs_key dst @ map Normal (take n (segs (e_name (es ! j))))"
      using fs_key_walk[OF dkey_segs(2)[OF a j] q] by blast
    have "prefix (fs_key q) (dkey dst es j)" using n(3) dkey_segs(1)[OF a j] by (metis append_take_drop_id map_append prefix_append prefix_def append_assoc)
    then have "strict_prefix (fs_key q) (dkey dst es j) \<or> fs_key q = dkey dst es j" by auto
    then have "names fs (fs_key q) = None \<or> key_is_dir fs (fs_key q) \<or> (\<exists>i. names fs (fs_key q) = Some (N_File i))"
      using way_clear[OF a r u j] own_clear(2)[OF a r u j] own_mem(1) by metis
    then show ?thesis using not_denied[OF r u] by (auto simp: fs_stat_def)
  qed
  then show ?thesis using v by (simp add: join_validated_iff)
qed

section \<open>Steps that keep a transfer underway\<close>

lemma underway_mono: "underway dst es fs0 m fs \<Longrightarrow> m \<le> m' \<Longrightarrow> underway dst es fs0 m' fs"
  unfolding underway_def by (meson order_less_le_trans order_trans)

lemma underway_change:
  assumes a: "apart dst es" and u: "underway dst es fs0 m fs" and k: "k < m" "k < length es"
    and out: "\<And>q. q \<notin> set (own dst es k) \<Longrightarrow> names fs' q = names fs q"
    and ins: "\<And>q. q \<in> set (own dst es k) \<Longrightarrow> names fs' q = None \<or> (\<exists>i < next_file fs'. names fs' q = Some (N_File i))"
    and same: "denied fs' = denied fs" "broken fs' = broken fs" "next_file fs \<le> next_file fs'"
  shows "underway dst es fs0 m fs'"
proof -
  have n: "names fs' q = names fs0 q
        \<or> (names fs0 q = None \<and> names fs' q = Some N_Dir \<and> (\<exists>j < length es. strict_prefix q (dkey dst es j)))
        \<or> (\<exists>j < m. j < length es \<and> q \<in> set (own dst es j) \<and> (names fs' q = None \<or> (\<exists>i. names fs' q = Some (N_File i))))" for q
  proof (cases "q \<in> set (own dst es k)")
    case True
    then show ?thesis using ins[OF True] k by blast
  next
    case False
    then show ?thesis using u out[OF False] unfolding underway_def by metis
  qed
  have f: "i < next_file fs'" if "names fs' q = Some (N_File i)" for q i
  proof (cases "q \<in> set (own dst es k)")
    case True
    then show ?thesis using ins[OF True] that by auto
  next
    case False
    then have "i < next_file fs" using u out[OF False] that by (auto simp: underway_def)
    then show ?thesis using same by simp
  qed
  have l: "names fs' (lkey dst es j) = None \<and> names fs' (gkey dst es j) = None" if "m \<le> j" "j < length es" for j
  proof -
    have "lkey dst es j \<notin> set (own dst es k)" "gkey dst es j \<notin> set (own dst es k)"
      using own_apart(2)[OF a that(2) k(2)] k(1) that(1) own_mem by (metis leD)+
    then show ?thesis using u that out by (simp add: underway_def)
  qed
  have s: "denied fs' = denied fs0" "broken fs' = broken fs0" "next_file fs0 \<le> next_file fs'" using u same by (auto simp: underway_def)
  show ?thesis unfolding underway_def using n f l s by blast
qed

lemma underway_dirs:
  assumes u: "underway dst es fs0 m fs" and k: "k < length es" and a: "apart dst es" and r: "roomy dst es fs0"
  shows "underway dst es fs0 m (make_dirs fs [] (butlast (dkey dst es k)))"
    and "key_is_dir (make_dirs fs [] (butlast (dkey dst es k))) (butlast (dkey dst es k))"
    and "q \<in> set (own dst es j) \<Longrightarrow> j < length es \<Longrightarrow> names (make_dirs fs [] (butlast (dkey dst es k))) q = names fs q"
proof -
  let ?D = "dkey dst es k" and ?fs = "make_dirs fs [] (butlast (dkey dst es k))"
  have ne: "?D \<noteq> []" using own_clear(1)[OF a r u k own_mem(1)] by (auto simp: key_is_dir_def)
  have sp: "strict_prefix (take n (butlast ?D)) ?D" for n
  proof -
    have "prefix (take n (butlast ?D)) (butlast ?D)" by (rule take_is_prefix)
    moreover have "strict_prefix (butlast ?D) ?D" using ne by (metis append_butlast_last_id strict_prefixI' )
    ultimately show ?thesis using prefix_order.le_less_trans by blast
  qed
  have nm: "names ?fs q = names fs q \<or> (names fs q = None \<and> names ?fs q = Some N_Dir \<and> strict_prefix q ?D)" for q
    using make_dirs_names[of fs "[]" "butlast ?D" q] sp by auto
  note fr = make_dirs_frame[of fs "[]" "butlast ?D"]
  show own: "q \<in> set (own dst es j) \<Longrightarrow> j < length es \<Longrightarrow> names ?fs q = names fs q" for q j
    using nm[of q] own_apart(1)[OF a _ k] by blast
  have n: "names ?fs q = names fs0 q
        \<or> (names fs0 q = None \<and> names ?fs q = Some N_Dir \<and> (\<exists>j < length es. strict_prefix q (dkey dst es j)))
        \<or> (\<exists>j < m. j < length es \<and> q \<in> set (own dst es j) \<and> (names ?fs q = None \<or> (\<exists>i. names ?fs q = Some (N_File i))))" for q
  proof (cases "strict_prefix q ?D")
    case True
    have "q \<notin> set (own dst es i)" if "i < length es" for i using own_apart(1)[OF a that k] True by blast
    then have "names fs q = names fs0 q \<or> (names fs0 q = None \<and> names fs q = Some N_Dir)" using u unfolding underway_def by metis
    then show ?thesis using nm[of q] True k by auto
  next
    case False
    then have "names ?fs q = names fs q" using nm[of q] by simp
    then show ?thesis using u unfolding underway_def by metis
  qed
  have f: "\<forall>q i. names ?fs q = Some (N_File i) \<longrightarrow> i < next_file ?fs"
  proof (intro allI impI)
    fix q i assume "names ?fs q = Some (N_File i)"
    then have "names fs q = Some (N_File i)" using nm[of q] by auto
    then show "i < next_file ?fs" using u fr by (auto simp: underway_def)
  qed
  have l: "\<forall>j. m \<le> j \<and> j < length es \<longrightarrow> names ?fs (lkey dst es j) = None \<and> names ?fs (gkey dst es j) = None"
  proof (intro allI impI)
    fix j assume "m \<le> j \<and> j < length es"
    then show "names ?fs (lkey dst es j) = None \<and> names ?fs (gkey dst es j) = None"
      using u own[of "lkey dst es j" j] own[of "gkey dst es j" j] by (simp add: underway_def)
  qed
  have s: "denied ?fs = denied fs0" "broken ?fs = broken fs0" "next_file fs0 \<le> next_file ?fs" using u fr by (auto simp: underway_def)
  show "underway dst es fs0 m ?fs" unfolding underway_def using n f l s by blast
  have "key_is_dir ?fs ([] @ butlast ?D)"
  proof (rule make_dirs_all)
    fix n assume "0 < n" "n \<le> length (butlast ?D)"
    show "key_is_dir fs ([] @ take n (butlast ?D)) \<or> names fs ([] @ take n (butlast ?D)) = None \<and> \<not> denied fs ([] @ take n (butlast ?D))"
      using way_clear[OF a r u k sp] not_denied[OF r u] by simp
  qed (simp add: key_is_dir_def)
  then show "key_is_dir ?fs (butlast ?D)" by simp
qed

section \<open>A receiving job\<close>

definition writer :: "int \<Rightarrow> string \<Rightarrow> file_entry list \<Rightarrow> nat \<Rightarrow> transfer_job \<Rightarrow> bool" where
  "writer i dst es k job \<longleftrightarrow> j_id job = i \<and> j_type job = Generic \<and> j_source job = FilePath dst \<and> j_files job = es
     \<and> j_file_num job = int k"

lemma current_path_writer:
  assumes "apart dst es" "roomy dst es fs0" "underway dst es fs0 m fs" "k < length es" "writer i dst es k job"
  shows "current_path fs job = Some (fpath dst es k, es ! k)"
  using path_accepted[OF assms(1-4)] assms(4,5) by (simp add: current_path_def writer_def resolve_entry_path_def)

lemma set_mtime_frame [simp]:
  "names (try_fs fs (fs_set_mtime fs p t)) = names fs" "contents (try_fs fs (fs_set_mtime fs p t)) = contents fs"
  "denied (try_fs fs (fs_set_mtime fs p t)) = denied fs" "broken (try_fs fs (fs_set_mtime fs p t)) = broken fs"
  "next_file (try_fs fs (fs_set_mtime fs p t)) = next_file fs"
  by (auto simp: try_fs_def fs_set_mtime_def split: option.split)

text \<open>Completing a file moves the temporary file to its final name and changes nothing else.\<close>

lemma complete_file:
  assumes a: "apart dst es" and r: "roomy dst es fs0" and u: "underway dst es fs0 m fs" and k: "k < length es"
    and w: "writer i dst es k job" and f: "names fs (lkey dst es k) = Some (N_File f)" and d: "key_is_dir fs (butlast (dkey dst es k))"
  shows "names (modify_time fs job) = (names fs)(gkey dst es k := None, lkey dst es k := None, dkey dst es k \<mapsto> N_File f)"
    and "contents (modify_time fs job) = contents fs" "denied (modify_time fs job) = denied fs"
    and "broken (modify_time fs job) = broken fs" "next_file (modify_time fs job) = next_file fs"
proof -
  let ?G = "gkey dst es k" and ?L = "lkey dst es k" and ?D = "dkey dst es k" and ?p = "fpath dst es k"
  note dis = own_distinct[OF a k]
  have nd: "\<not> key_is_dir fs q" if "q \<in> set (own dst es k)" for q using own_clear(1)[OF a r u k that] .
  have den: "\<not> denied fs q" for q using not_denied[OF r u] .
  define fs1 where "fs1 = fs\<lparr>names := (names fs)(?G := None)\<rparr>"
  have fs1: "try_fs fs (fs_remove_file fs (digest_path ?p)) = fs1"
  proof (cases "names fs ?G")
    case None
    then have "(names fs)(?G := None) = names fs" by (simp add: fun_upd_idem)
    then show ?thesis using None by (simp add: fs_remove_file_def try_fs_def fs1_def Let_def)
  next
    case (Some n)
    then show ?thesis using nd[of ?G] den by (simp add: fs_remove_file_def try_fs_def fs1_def Let_def)
  qed
  have k1: "key_is_dir fs1 q = (key_is_dir fs q \<and> q \<noteq> ?G)" for q
    using nd[of ?G] by (auto simp: fs1_def key_is_dir_def)
  define fs2 where "fs2 = fs1\<lparr>names := (names fs1)(?L := None, ?D \<mapsto> N_File f)\<rparr>"
  have "butlast ?D \<noteq> ?G" using d nd[of ?G] by auto
  then have fs2: "try_fs fs1 (fs_rename fs1 (download_path ?p) ?p) = fs2"
    using f dis d den nd by (simp add: fs_rename_def Let_def k1 try_fs_def fs2_def) (simp add: fs1_def)
  have m: "modify_time fs job = try_fs fs2 (fs_set_mtime fs2 ?p (e_modified (es ! k)))"
    using current_path_writer[OF a r u k w] fs1 fs2 by (simp add: modify_time_def Let_def)
  show "names (modify_time fs job) = (names fs)(?G := None, ?L := None, ?D \<mapsto> N_File f)"
    unfolding m by (simp add: fs2_def fs1_def)
  show "contents (modify_time fs job) = contents fs" "denied (modify_time fs job) = denied fs"
    "broken (modify_time fs job) = broken fs" "next_file (modify_time fs job) = next_file fs"
    unfolding m by (simp_all add: fs2_def fs1_def)
qed

text \<open>Opening the next file makes two new files, the temporary one and its digest.\<close>

lemma begin_file:
  assumes a: "apart dst es" and r: "roomy dst es fs0" and u: "underway dst es fs0 k fs" and k: "k < length es"
  shows "\<exists>fs'. start_file x fs job (fpath dst es k) = (fs', job\<lparr>j_stream := Some (FileStream (next_file fs) 0 True)\<rparr>, Ok ())
    \<and> names fs' (lkey dst es k) = Some (N_File (next_file fs)) \<and> contents fs' (next_file fs) = []
    \<and> (\<forall>i < next_file fs. contents fs' i = contents fs i) \<and> next_file fs < next_file fs'
    \<and> underway dst es fs0 (Suc k) fs' \<and> key_is_dir fs' (butlast (dkey dst es k))
    \<and> (\<forall>j < length es. j \<noteq> k \<longrightarrow> (\<forall>q \<in> set (own dst es j). names fs' q = names fs q))"
proof -
  let ?G = "gkey dst es k" and ?L = "lkey dst es k" and ?D = "dkey dst es k" and ?p = "fpath dst es k" and ?f = "next_file fs"
  define fs1 where "fs1 = make_dirs fs [] (butlast ?D)"
  have u1: "underway dst es fs0 k fs1" unfolding fs1_def by (rule underway_dirs(1)[OF u k a r])
  have dir: "key_is_dir fs1 (butlast ?D)" unfolding fs1_def by (rule underway_dirs(2)[OF u k a r])
  have keep: "names fs1 q = names fs q" if "q \<in> set (own dst es j)" "j < length es" for q j
    using underway_dirs(3)[OF u k a r that] by (simp add: fs1_def)
  have fr: "contents fs1 = contents fs" "next_file fs1 = ?f" "broken fs1 = broken fs" "denied fs1 = denied fs"
    using make_dirs_frame[of fs "[]" "butlast ?D"] by (simp_all add: fs1_def)
  note dis = own_distinct[OF a k]
  have no: "names fs1 ?L = None" "names fs1 ?G = None" using u1 k by (auto simp: underway_def)
  have nd: "\<not> key_is_dir fs1 ?L" "\<not> key_is_dir fs1 ?G" using own_clear(1)[OF a r u1 k] by simp_all
  have den: "\<not> denied fs1 q" for q using not_denied[OF r u1] .
  have par: "butlast ?L = butlast ?D" "butlast ?G = butlast ?D" using a k by (auto simp: apart_def)
  have tg: "target fs1 (digest_path ?p) = Some ?G" "target fs1 (download_path ?p) = Some ?L"
    using own_target[OF a r u1 k] by simp_all
  have ex: "\<not> fs_exists fs1 (digest_path ?p)" using tg(1) no nd by (simp add: fs_exists_def)
  define fs2 where "fs2 = fs1\<lparr>names := (names fs1)(?L \<mapsto> N_File ?f), contents := (contents fs1)(?f := []), next_file := ?f + 1\<rparr>"
  have c2: "fs_create fs1 (download_path ?p) = Some (fs2, ?f)"
    using tg(2) den nd no dir par fr(2) by (simp add: fs_create_def fs2_def)
  have k2: "key_is_dir fs2 q = key_is_dir fs1 q" for q using nd(1) by (auto simp: fs2_def key_is_dir_def)
  have n2: "names fs2 ?G = None" using no dis by (simp add: fs2_def)
  have t2: "target fs2 (digest_path ?p) = Some ?G" using n2 by (simp add: target_def follow_not_link)
  define c where "c = digest_json x (j_digest_size job) (j_digest_modified job)"
  define fs4 where "fs4 = fs2\<lparr>names := (names fs2)(?G \<mapsto> N_File (?f + 1)), contents := (contents fs2)(?f + 1 := c), next_file := ?f + 2\<rparr>"
  have br: "\<not> broken fs1 (?f + 1)" using r u1 fr by (simp add: roomy_def underway_def)
  have p4: "fs_put fs2 (digest_path ?p) c = Some fs4"
    using t2 n2 k2 nd den dir par br
    by (simp add: fs_put_def fs_create_def fs_write_def write_at_def fs4_def) (simp add: fs2_def)
  have start: "start_file x fs job ?p = (fs4, job\<lparr>j_stream := Some (FileStream ?f 0 True)\<rparr>, Ok ())"
    using ex c2 p4 by (simp add: start_file_def create_parent_def fs1_def[symmetric] Let_def c_def[symmetric] try_fs_def)
  have out: "names fs4 q = names fs1 q" if "q \<notin> set (own dst es k)" for q
    using that own_mem[of dst es k] by (auto simp: fs4_def fs2_def)
  have u4: "underway dst es fs0 (Suc k) fs4"
  proof (rule underway_change[OF a underway_mono[OF u1] _ k out])
    show "names fs4 q = None \<or> (\<exists>i < next_file fs4. names fs4 q = Some (N_File i))" if "q \<in> set (own dst es k)" for q
    proof -
      have "names fs1 q = None \<or> (\<exists>i < next_file fs1. names fs1 q = Some (N_File i))"
        using own_clear(2)[OF a r u1 k that] u1 by (auto simp: underway_def)
      then show ?thesis using fr(2) by (auto simp: fs4_def fs2_def)
    qed
  qed (use fr in \<open>simp_all add: fs4_def fs2_def\<close>)
  have "key_is_dir fs4 (butlast ?D)" using dir nd no by (auto simp: fs4_def fs2_def key_is_dir_def)
  moreover have "names fs4 q = names fs q" if "j < length es" "j \<noteq> k" "q \<in> set (own dst es j)" for q j
    using out[OF own_apart(2)[OF a that(1) k that(3,2)]] keep[OF that(3,1)] by simp
  ultimately show ?thesis
    using start u4 dis fr by (intro exI[of _ fs4]) (simp add: fs4_def fs2_def)
qed

text \<open>
  The state between two blocks of file \<open>k\<close>: its first \<open>p\<close> bytes are in the temporary file, open at
  its end, and the files before it are complete under their final names.
\<close>

definition receiving :: "string \<Rightarrow> file_entry list \<Rightarrow> fsys \<Rightarrow> int \<Rightarrow> bytes list \<Rightarrow> nat \<Rightarrow> nat \<Rightarrow> (nat \<Rightarrow> nat) \<Rightarrow> fsys \<Rightarrow> transfer_job \<Rightarrow> bool" where
  "receiving dst es fs0 i cs k p f fs job \<longleftrightarrow>
     writer i dst es k job \<and> underway dst es fs0 (Suc k) fs \<and> key_is_dir fs (butlast (dkey dst es k))
     \<and> j_stream job = Some (FileStream (f k) p True)
     \<and> names fs (lkey dst es k) = Some (N_File (f k)) \<and> p \<le> length (cs ! k) \<and> contents fs (f k) = take p (cs ! k)
     \<and> (\<forall>j < k. names fs (dkey dst es j) = Some (N_File (f j)) \<and> contents fs (f j) = cs ! j)
     \<and> (\<forall>j \<le> k. next_file fs0 \<le> f j \<and> f j < next_file fs) \<and> (\<forall>j < k. f j \<noteq> f k)"

lemma open_same_file:
  assumes "writer i dst es k job" "j_stream job \<noteq> None" "k < length es" "b_file_num b = int k"
  shows "open_for_block x b fs job = (fs, job, Ok ())"
  using assms by (auto simp: open_for_block_def writer_def)

lemma write_open:
  assumes "b_id b = j_id job" "open_for_block x b fs job = (fs1, job1, Ok ())" "j_stream job1 = Some (FileStream g p True)" "\<not> broken fs1 g"
  shows "job_write x b fs job =
    (fs1\<lparr>contents := (contents fs1)(g := write_at (contents fs1 g) p (payload x b))\<rparr>,
     job1\<lparr>j_stream := Some (FileStream g (p + length (payload x b)) True),
          j_finished_size := (j_finished_size job1 + length (payload x b)) mod 2 ^ 64,
          j_transferred := (j_transferred job1 + length (b_data b)) mod 2 ^ 64\<rparr>, Ok ())"
  using assms by (simp add: job_write_def write_stream_def fs_write_def payload_def Let_def)

lemma underway_contents [simp]: "underway dst es fs0 m (fs\<lparr>contents := c\<rparr>) = underway dst es fs0 m fs"
  by (simp add: underway_def)

text \<open>Writing the next bytes of the file that is open.\<close>

lemma receiving_write:
  assumes rc: "receiving dst es fs0 i cs k p f fs1 job1" and o: "open_for_block x b fs job = (fs1, job1, Ok ())"
    and r: "roomy dst es fs0" and id: "b_id b = j_id job"
    and pl: "p + length (payload x b) \<le> length (cs ! k)" "payload x b = take (length (payload x b)) (drop p (cs ! k))"
  shows "\<exists>fs' job'. job_write x b fs job = (fs', job', Ok ()) \<and> receiving dst es fs0 i cs k (p + length (payload x b)) f fs' job'"
proof -
  define n where "n = length (payload x b)"
  have br: "\<not> broken fs1 (f k)" using rc r by (auto simp: receiving_def underway_def roomy_def)
  have st: "j_stream job1 = Some (FileStream (f k) p True)" and c: "contents fs1 (f k) = take p (cs ! k)" and p: "p \<le> length (cs ! k)"
    using rc by (auto simp: receiving_def)
  have lp: "length (take p (cs ! k)) = p" using p by simp
  have "write_at (take p (cs ! k)) p (payload x b) = take p (cs ! k) @ payload x b"
    using write_at_end[of "take p (cs ! k)"] lp by simp
  also have "\<dots> = take (p + n) (cs ! k)" using pl(2) by (simp add: take_add n_def)
  finally have w: "write_at (contents fs1 (f k)) p (payload x b) = take (p + n) (cs ! k)" using c by simp
  show ?thesis using write_open[OF id o st br] rc pl(1) w unfolding receiving_def
    by (simp add: n_def[symmetric] writer_def)
qed

text \<open>Opening file \<open>k\<close> once the files before it are complete.\<close>

lemma receiving_open:
  assumes a: "apart dst es" and r: "roomy dst es fs0" and u: "underway dst es fs0 k fs" and k: "k < length es"
    and w: "writer i dst es k job"
    and dn: "\<forall>j < k. names fs (dkey dst es j) = Some (N_File (f j)) \<and> contents fs (f j) = cs ! j \<and> next_file fs0 \<le> f j \<and> f j < next_file fs"
  shows "\<exists>fs'. start_file x fs job (fpath dst es k) = (fs', job\<lparr>j_stream := Some (FileStream (next_file fs) 0 True)\<rparr>, Ok ())
    \<and> receiving dst es fs0 i cs k 0 (f(k := next_file fs)) fs' (job\<lparr>j_stream := Some (FileStream (next_file fs) 0 True)\<rparr>)"
proof -
  obtain fs' where s: "start_file x fs job (fpath dst es k) = (fs', job\<lparr>j_stream := Some (FileStream (next_file fs) 0 True)\<rparr>, Ok ())"
    "names fs' (lkey dst es k) = Some (N_File (next_file fs))" "contents fs' (next_file fs) = []"
    "\<forall>i < next_file fs. contents fs' i = contents fs i" "next_file fs < next_file fs'"
    "underway dst es fs0 (Suc k) fs'" "key_is_dir fs' (butlast (dkey dst es k))"
    "\<forall>j < length es. j \<noteq> k \<longrightarrow> (\<forall>q \<in> set (own dst es j). names fs' q = names fs q)"
    using begin_file[OF a r u k] by blast
  have d: "names fs' (dkey dst es j) = Some (N_File (f j)) \<and> contents fs' (f j) = cs ! j" if "j < k" for j
    using dn that s(4) k s(8)[rule_format, of j "dkey dst es j"] by simp
  have "next_file fs0 \<le> next_file fs" using u by (simp add: underway_def)
  then show ?thesis using s d dn w
    by (intro exI[of _ fs']) (auto simp: receiving_def writer_def le_less)
qed

text \<open>Between two files: nothing yet, or the file before is written to its end.\<close>

definition ready :: "string \<Rightarrow> file_entry list \<Rightarrow> fsys \<Rightarrow> int \<Rightarrow> bytes list \<Rightarrow> nat \<Rightarrow> fsys \<Rightarrow> transfer_job \<Rightarrow> bool" where
  "ready dst es fs0 i cs k fs job \<longleftrightarrow>
     (case k of
        0 \<Rightarrow> fs = fs0 \<and> writer i dst es 0 job \<and> j_stream job = None
      | Suc j \<Rightarrow> \<exists>f. receiving dst es fs0 i cs j (length (cs ! j)) f fs job)"

text \<open>The disk after the file before is completed: all files before \<open>k\<close> are there.\<close>

lemma ready_complete:
  assumes a: "apart dst es" and r: "roomy dst es fs0" and k: "k \<le> length es" and rd: "ready dst es fs0 i cs k fs job"
  shows "\<exists>f. underway dst es fs0 k (modify_time fs job)
    \<and> (\<forall>j < k. names (modify_time fs job) (dkey dst es j) = Some (N_File (f j)) \<and> contents (modify_time fs job) (f j) = cs ! j
         \<and> next_file fs0 \<le> f j \<and> f j < next_file (modify_time fs job))"
proof (cases k)
  case 0
  then have fs: "fs = fs0" and w: "writer i dst es 0 job" using rd by (auto simp: ready_def)
  have u: "underway dst es fs0 0 fs0" using underwayI[OF r] .
  have "names (modify_time fs0 job) = names fs0 \<and> denied (modify_time fs0 job) = denied fs0
      \<and> broken (modify_time fs0 job) = broken fs0 \<and> next_file (modify_time fs0 job) = next_file fs0"
  proof (cases "es = []")
    case True
    then show ?thesis using w by (simp add: modify_time_def current_path_def writer_def)
  next
    case False
    then have "current_path fs0 job = Some (fpath dst es 0, es ! 0)" using current_path_writer[OF a r u _ w] by simp
    moreover have "names fs0 (lkey dst es 0) = None" "names fs0 (gkey dst es 0) = None" using r False by (auto simp: roomy_def)
    ultimately show ?thesis by (simp add: modify_time_def fs_remove_file_def fs_rename_def Let_def try_fs_def[of _ None])
  qed
  then show ?thesis using u 0 fs by (simp add: underway_def)
next
  case (Suc j)
  then obtain f where rc: "receiving dst es fs0 i cs j (length (cs ! j)) f fs job" using rd by (auto simp: ready_def)
  have j: "j < length es" using Suc k by simp
  have u: "underway dst es fs0 k fs" and w: "writer i dst es j job" and l: "names fs (lkey dst es j) = Some (N_File (f j))"
    and d: "key_is_dir fs (butlast (dkey dst es j))" using rc Suc by (auto simp: receiving_def)
  note c = complete_file[OF a r u j w l d]
  have "underway dst es fs0 k (modify_time fs job)"
  proof (rule underway_change[OF a u _ j])
    show "names (modify_time fs job) q = names fs q" if "q \<notin> set (own dst es j)" for q
      using that own_mem[of dst es j] by (auto simp: c(1))
    show "names (modify_time fs job) q = None \<or> (\<exists>i < next_file (modify_time fs job). names (modify_time fs job) q = Some (N_File i))"
      if "q \<in> set (own dst es j)" for q
    proof -
      have "f j < next_file fs" using rc by (simp add: receiving_def)
      then show ?thesis using that by (auto simp: c own_def)
    qed
  qed (use Suc c in simp_all)
  moreover have "names (modify_time fs job) (dkey dst es n) = Some (N_File (f n)) \<and> contents (modify_time fs job) (f n) = cs ! n
      \<and> next_file fs0 \<le> f n \<and> f n < next_file (modify_time fs job)" if "n < k" for n
  proof (cases "n = j")
    case True
    then show ?thesis using rc by (simp add: c receiving_def)
  next
    case False
    then have n: "n < j" "n < length es" using that Suc k by auto
    have "dkey dst es n \<notin> set (own dst es j)" using own_apart(2)[OF a n(2) j own_mem(1)] False by blast
    then have "names (modify_time fs job) (dkey dst es n) = names fs (dkey dst es n)" using own_mem[of dst es j] by (auto simp: c(1))
    then show ?thesis using rc n by (simp add: c receiving_def)
  qed
  ultimately show ?thesis by blast
qed

lemma ready_open:
  assumes a: "apart dst es" and r: "roomy dst es fs0" and k: "k < length es" and rd: "ready dst es fs0 i cs k fs job"
    and b: "b_file_num b = int k"
  shows "\<exists>fs1 job1 f. open_for_block x b fs job = (fs1, job1, Ok ()) \<and> receiving dst es fs0 i cs k 0 f fs1 job1 \<and> j_id job = i"
proof -
  define fs1 where "fs1 = modify_time fs job"
  obtain f where u: "underway dst es fs0 k fs1"
    and dn: "\<forall>j < k. names fs1 (dkey dst es j) = Some (N_File (f j)) \<and> contents fs1 (f j) = cs ! j \<and> next_file fs0 \<le> f j \<and> f j < next_file fs1"
    using ready_complete[OF a r _ rd] k by (auto simp: fs1_def)
  have old: "\<exists>n. writer i dst es n job \<and> (n \<noteq> k \<or> j_stream job = None)
      \<and> (\<forall>g p wr. j_stream job = Some (FileStream g p wr) \<longrightarrow> next_file fs0 \<le> g)"
    using rd by (cases k) (auto simp: ready_def receiving_def)
  then obtain n where n: "writer i dst es n job" "n \<noteq> k \<or> j_stream job = None"
    "\<And>g p wr. j_stream job = Some (FileStream g p wr) \<Longrightarrow> next_file fs0 \<le> g" by blast
  define job' where "job' = job\<lparr>j_file_num := int k\<rparr>"
  have w: "writer i dst es k job'" using n(1) by (simp add: writer_def job'_def)
  obtain fs2 where s: "start_file x fs1 job' (fpath dst es k) = (fs2, job'\<lparr>j_stream := Some (FileStream (next_file fs1) 0 True)\<rparr>, Ok ())"
    "receiving dst es fs0 i cs k 0 (f(k := next_file fs1)) fs2 (job'\<lparr>j_stream := Some (FileStream (next_file fs1) 0 True)\<rparr>)"
    using receiving_open[OF a r u k w dn] by blast
  have br: "\<not> (case j_stream job of Some (FileStream g _ _) \<Rightarrow> broken fs1 g | _ \<Rightarrow> False)"
    using n(3) r u by (auto simp: roomy_def underway_def split: option.splits data_stream.splits)
  have "next_file_of x fs job dst (int k) = start_file x fs1 job' (fpath dst es k)"
    using br path_accepted[OF a r u k] n(1) unfolding next_file_of_def fs1_def[symmetric] job'_def[symmetric] Let_def
    by (simp add: writer_def job'_def)
  then have "open_for_block x b fs job = start_file x fs1 job' (fpath dst es k)"
    using n b k by (auto simp: open_for_block_def writer_def Let_def)
  then show ?thesis using s n(1) by (auto simp: writer_def)
qed

section \<open>The whole transfer\<close>

definition at_point :: "string \<Rightarrow> file_entry list \<Rightarrow> fsys \<Rightarrow> int \<Rightarrow> bytes list \<Rightarrow> nat \<Rightarrow> nat \<Rightarrow> fsys \<Rightarrow> transfer_job \<Rightarrow> bool" where
  "at_point dst es fs0 i cs k p fs job \<longleftrightarrow>
     (if p = 0 then ready dst es fs0 i cs k fs job else \<exists>f. receiving dst es fs0 i cs k p f fs job)"

lemma at_point_block:
  assumes a: "apart dst es" and r: "roomy dst es fs0" and k: "k < length es" and at: "at_point dst es fs0 i cs k p fs job"
    and b: "b_file_num b = int k" "b_id b = i"
    and pl: "p + length (payload x b) \<le> length (cs ! k)" "payload x b = take (length (payload x b)) (drop p (cs ! k))"
  shows "\<exists>fs' job' f. job_write x b fs job = (fs', job', Ok ()) \<and> receiving dst es fs0 i cs k (p + length (payload x b)) f fs' job'"
proof -
  have "\<exists>fs1 job1 f. open_for_block x b fs job = (fs1, job1, Ok ()) \<and> receiving dst es fs0 i cs k p f fs1 job1 \<and> j_id job = i"
  proof (cases "p = 0")
    case True
    then show ?thesis using ready_open[OF a r k _ b(1)] at by (simp add: at_point_def)
  next
    case False
    then obtain f where rc: "receiving dst es fs0 i cs k p f fs job" using at by (auto simp: at_point_def)
    then have "writer i dst es k job" "j_stream job \<noteq> None" by (auto simp: receiving_def)
    then show ?thesis using open_same_file[of i dst es k job b x fs] k b rc by (auto simp: writer_def)
  qed
  then show ?thesis using receiving_write[OF _ _ r _ pl] b(2) by metis
qed

fun to_acts :: "file_msg \<Rightarrow> recv_act list" where
  "to_acts (M_Block b) = [R_Block b]"
| "to_acts (M_Done _ _) = [R_Done]"
| "to_acts _ = []"

lemma wire_received:
  assumes a: "apart dst es" and r: "roomy dst es fs0" and len: "length cs = length es"
  shows "wire x i cs k p ms \<Longrightarrow> at_point dst es fs0 i cs k p fs job \<Longrightarrow>
    \<exists>fs' job'. recv_run x (concat (map to_acts ms)) (fs, job) = (fs', job')
      \<and> (\<forall>j < length es. read_file fs' (fpath dst es j) = Some (cs ! j))"
proof (induction arbitrary: fs job rule: wire.induct)
  case wire_done
  have "ready dst es fs0 i cs (length es) fs job" using wire_done len by (simp add: at_point_def)
  then obtain f where f: "underway dst es fs0 (length es) (modify_time fs job)"
    "\<forall>j < length es. names (modify_time fs job) (dkey dst es j) = Some (N_File (f j)) \<and> contents (modify_time fs job) (f j) = cs ! j"
    using ready_complete[OF a r] by blast
  have "read_file (modify_time fs job) (fpath dst es j) = Some (cs ! j)" if "j < length es" for j
    using f(2) that own_target[OF a r f(1) that, of "fpath dst es j"] own_clear(1)[OF a r f(1) that own_mem(1)]
    by (simp add: read_file_def fs_file_def)
  then show ?case by (simp add: recv_run_def)
next
  case (wire_block k p n ms b)
  have n: "length (payload x b) = n" using wire_block.hyps by simp
  obtain fs1 job1 f where w: "job_write x b fs job = (fs1, job1, Ok ())" "receiving dst es fs0 i cs k (p + n) f fs1 job1"
    using at_point_block[OF a r _ wire_block.prems, of b x] wire_block.hyps n len by auto
  then have "at_point dst es fs0 i cs k (p + n) fs1 job1" using wire_block.hyps by (auto simp: at_point_def)
  then show ?case using wire_block.IH w by (auto simp: recv_run_def)
next
  case (wire_eof k ms p b)
  obtain fs1 job1 f where w: "job_write x b fs job = (fs1, job1, Ok ())" "receiving dst es fs0 i cs k p f fs1 job1"
    using at_point_block[OF a r _ wire_eof.prems, of b x] wire_eof.hyps len by auto
  then have "at_point dst es fs0 i cs (Suc k) 0 fs1 job1" using wire_eof.hyps by (auto simp: at_point_def ready_def)
  then show ?case using wire_eof.IH w by (auto simp: recv_run_def)
qed

section \<open>Properties\<close>

text \<open>
  C6: A transfer copies. A sending job that lists readable files, with overwrite detection off, runs
  to its end in exactly as many turns as there are blocks of 128 KiB, one more for each file and one
  for the job, however the operating system cuts its reads; and its messages, handed in order to a
  receiving job whose directory has room for the names, leave there, under every name, a file with
  the sender's contents.
\<close>

theorem transfer_copies_files:
  assumes "zstd_ok x" and "on_disk fs_src src es cs" and "length es < 2 ^ 31"
    and "apart dst es" and "roomy dst es fs_dst"
    and "new_read (\<lambda>_. Ok es) i Generic remote (FilePath src) 0 hidden is_remote False = Ok sender"
    and "set_files fs_dst es (new_write i Generic remote' (FilePath dst) 0 hidden' is_remote' False) = Ok receiver"
  shows "\<exists>ms fs' job'. send_loop (sum_list (map (\<lambda>c. turns (length c)) cs) + 1) x ks fs_src [sender] = ([], ms)
     \<and> recv_run x (concat (map to_acts ms)) (fs_dst, receiver) = (fs', job')
     \<and> (\<forall>j < length es. read_file fs' (transfer_join dst (e_name (es ! j))) = Some (cs ! j))"
proof -
  have len: "length cs = length es" using assms(2) by (simp add: on_disk_def)
  have s: "sending i src es 0 None sender" using assms(6) by (auto simp: new_read_def new_write_def sending_def)
  have n: "sum_list (map (\<lambda>c. turns (length c)) cs) + 1 = turns_left cs 0 0" by (cases cs) (simp_all add: turns_left_def)
  obtain ms where ms: "send_loop (turns_left cs 0 0) x ks fs_src [sender] = ([], ms)" "wire x i cs 0 0 ms"
    using send_loop_wire[OF assms(2,1,3) refl _ _ _ s] by auto
  have "ready dst es fs_dst i cs 0 fs_dst receiver"
    using assms(7) by (auto simp: set_files_def new_write_def ready_def writer_def split: sum.splits)
  then have "at_point dst es fs_dst i cs 0 0 fs_dst receiver" by (simp add: at_point_def)
  then show ?thesis using wire_received[OF assms(4,5) len ms(2)] ms(1) n by auto
qed

lemma zstd_ok_plain: "zstd_ok plain_libs"
  by (simp add: zstd_ok_def plain_libs_def)

theorem transfer_copies_files_witness:
  "\<exists>ms fs' job' sender receiver.
     send_loop (sum_list (map (\<lambda>c. turns (length c)) ([[1, 2, 3], []] :: bytes list)) + 1) plain_libs (\<lambda>_. [1])
       (small_fs [([RootDir, Normal ''s''], N_Dir), ([RootDir, Normal ''s'', Normal ''a''], N_File 0),
          ([RootDir, Normal ''s'', Normal ''b''], N_Dir), ([RootDir, Normal ''s'', Normal ''b'', Normal ''c''], N_File 1)]
          [(0, [1, 2, 3]), (1, [])]) [sender] = ([], ms)
     \<and> recv_run plain_libs (concat (map to_acts ms)) (small_fs [([RootDir, Normal ''d''], N_Dir)] [], receiver) = (fs', job')
     \<and> read_file fs' ''/d/a'' = Some [1, 2, 3] \<and> read_file fs' ''/d/b/c'' = Some []"
proof -
  let ?es = "[entry ''a'', entry ''b/c'']" and ?cs = "[[1, 2, 3], []] :: bytes list"
  let ?src = "small_fs [([RootDir, Normal ''s''], N_Dir), ([RootDir, Normal ''s'', Normal ''a''], N_File 0),
          ([RootDir, Normal ''s'', Normal ''b''], N_Dir), ([RootDir, Normal ''s'', Normal ''b'', Normal ''c''], N_File 1)]
          [(0, [1, 2, 3]), (1, [])]"
  let ?dst = "small_fs [([RootDir, Normal ''d''], N_Dir)] []"
  have keys: "own ''/d'' ?es 0 = [[RootDir, Normal ''d'', Normal ''a''], [RootDir, Normal ''d'', Normal ''a.download''], [RootDir, Normal ''d'', Normal ''a.digest'']]"
    "own ''/d'' ?es 1 = [[RootDir, Normal ''d'', Normal ''b'', Normal ''c''], [RootDir, Normal ''d'', Normal ''b'', Normal ''c.download''],
       [RootDir, Normal ''d'', Normal ''b'', Normal ''c.digest'']]" by code_simp+
  have two: "j = 0 \<or> j = 1" if "j < length ?es" for j using that by auto
  have disk: "on_disk ?src ''/s'' ?es ?cs"
  proof -
    have o: "fs_open ?src (fpath ''/s'' ?es 0) = Some 0" "fs_open ?src (fpath ''/s'' ?es 1) = Some 1"
      "contents ?src 0 = ?cs ! 0" "contents ?src 1 = ?cs ! 1" "\<not> broken ?src 0" "\<not> broken ?src 1" by code_simp+
    have "\<exists>f. fs_open ?src (fpath ''/s'' ?es k) = Some f \<and> \<not> broken ?src f \<and> contents ?src f = ?cs ! k" if "k < length ?es" for k
      using two[OF that] o by blast
    then show ?thesis unfolding on_disk_def by simp
  qed
  have ap: "apart ''/d'' ?es" by code_simp
  have room: "roomy ''/d'' ?es ?dst"
  proof -
    have o: "\<not> key_is_dir ?dst q \<and> names ?dst q = None" if "j < length ?es" "q \<in> set (own ''/d'' ?es j)" for j q
      using two[OF that(1)] that(2) keys by (auto simp: key_is_dir_def small_fs_def)
    have d: "names ?dst q = None \<or> names ?dst q = Some N_Dir" for q by (simp add: small_fs_def)
    have t: "names ?dst (lkey ''/d'' ?es j) = None \<and> names ?dst (gkey ''/d'' ?es j) = None" if "j < length ?es" for j
      using o[OF that] own_mem by blast
    show ?thesis unfolding roomy_def
      by (intro conjI allI impI ballI) (use o t d in \<open>auto simp: key_is_dir_def small_fs_def split: if_splits\<close>)
  qed
  obtain sender where sn: "new_read (\<lambda>_. Ok ?es) 7 Generic [] (FilePath ''/s'') 0 False False False = Ok sender"
    by (simp add: new_read_def)
  have "isl (set_files ?dst ?es (new_write 7 Generic [] (FilePath ''/d'') 0 False True False)) = False" by code_simp
  then obtain receiver where rc: "set_files ?dst ?es (new_write 7 Generic [] (FilePath ''/d'') 0 False True False) = Ok receiver"
    by (cases "set_files ?dst ?es (new_write 7 Generic [] (FilePath ''/d'') 0 False True False)") auto
  have paths: "transfer_join ''/d'' (e_name (?es ! 0)) = ''/d/a''" "transfer_join ''/d'' (e_name (?es ! 1)) = ''/d/b/c''" by code_simp+
  from transfer_copies_files[OF zstd_ok_plain disk _ ap room sn rc, of "\<lambda>_. [1]"] obtain ms fs' job' where
    "send_loop (sum_list (map (\<lambda>c. turns (length c)) ?cs) + 1) plain_libs (\<lambda>_. [1]) ?src [sender] = ([], ms)"
    "recv_run plain_libs (concat (map to_acts ms)) (?dst, receiver) = (fs', job')"
    "\<forall>j < length ?es. read_file fs' (transfer_join ''/d'' (e_name (?es ! j))) = Some (?cs ! j)"
    by auto
  moreover from this(3) have "read_file fs' ''/d/a'' = Some [1, 2, 3]" "read_file fs' ''/d/b/c'' = Some []"
    using paths by (metis One_nat_def length_Cons lessI nth_Cons_0 nth_Cons_Suc zero_less_Suc list.size(3))+
  ultimately show ?thesis by blast
qed

text \<open>
  Where the compressor fails, \<open>compress\<close> gives no bytes, and no bytes are fewer than the block has: the
  block goes out empty and marked as compressed, and the job moves on past the bytes it did not send.
\<close>

lemma failed_compression_drops_block:
  assumes "sending i src es k (Some (FileStream f p False)) job" "k < length es" "\<not> broken fs f" "p < length (contents fs f)"
    and "\<not> is_compressed_file (block_name job)" "\<And>d. zstd_encode x d = None"
  shows "\<exists>job'. job_read x ks fs job = (job', Ok (Some \<lparr>b_id = i, b_file_num = int k, b_data = [], b_compressed = True\<rparr>))
    \<and> sending i src es k (Some (FileStream f (p + min BUF_SIZE (length (contents fs f) - p)) False)) job'"
  using assms fill_file[OF assms(3), of BUF_SIZE ks p]
  by (simp add: sending_def job_read_def is_file_path_def Let_def compress_def BUF_SIZE_def)

end
