(* ===== verification/Password_Crypto.thy ===== *)
theory Password_Crypto
  imports BGDesk_Prelude "HOL-Library.Monad_Syntax"
begin

text \<open>
  Protecting secrets at rest (\<open>libs/hbb_common/src/password_security.rs\<close>): the encryption of stored
  values with the machine's key, and the reading of values that may be encrypted, encrypted in the
  old format, or plain. A Rust string is the list of its UTF-8 bytes. The sodium library is a
  parameter; what is used of its documented behaviour is \<open>sodium_ok\<close>.
\<close>

section \<open>Text\<close>

definition bytes_of :: "string \<Rightarrow> bytes" where
  "bytes_of s = map of_char s"

text \<open>The first UTF-8 sequence of a text: the bytes it takes, and whether it is well-formed.\<close>

definition between :: "u8 \<Rightarrow> u8 \<Rightarrow> bytes \<Rightarrow> nat \<Rightarrow> bool" where
  "between lo hi bs i \<longleftrightarrow> i < length bs \<and> lo \<le> bs ! i \<and> bs ! i \<le> hi"

definition utf8_first :: "bytes \<Rightarrow> nat \<times> bool" where
  "utf8_first bs =
     (let b = hd bs in
      if b < 128 then (1, True)
      else if 194 \<le> b \<and> b \<le> 223 then (if between 128 191 bs 1 then (2, True) else (1, False))
      else if 224 \<le> b \<and> b \<le> 239 then
        let lo = (if b = 224 then 160 else 128); hi = (if b = 237 then 159 else 191) in
        if \<not> between lo hi bs 1 then (1, False)
        else if \<not> between 128 191 bs 2 then (2, False) else (3, True)
      else if 240 \<le> b \<and> b \<le> 244 then
        let lo = (if b = 240 then 144 else 128); hi = (if b = 244 then 143 else 191) in
        if \<not> between lo hi bs 1 then (1, False)
        else if \<not> between 128 191 bs 2 then (2, False)
        else if \<not> between 128 191 bs 3 then (3, False) else (4, True)
      else (1, False))"

lemma utf8_first_pos: "0 < fst (utf8_first bs)"
  by (simp add: utf8_first_def Let_def)

text \<open>\<open>String::from_utf8_lossy\<close>: every malformed sequence becomes the replacement character.\<close>

function utf8_lossy :: "bytes \<Rightarrow> bytes" where
  "utf8_lossy bs =
     (if bs = [] then []
      else let (n, ok) = utf8_first bs in (if ok then take n bs else [239, 191, 189]) @ utf8_lossy (drop n bs))"
  by pat_completeness auto
termination
proof (relation "measure length", goal_cases)
  case (2 bs p n ok)
  then have "0 < n" using utf8_first_pos[of bs] by (metis fst_conv)
  then show ?case using 2(1) by simp
qed simp

declare utf8_lossy.simps [simp del]

function utf8_ok :: "bytes \<Rightarrow> bool" where
  "utf8_ok bs = (if bs = [] then True else let (n, ok) = utf8_first bs in ok \<and> utf8_ok (drop n bs))"
  by pat_completeness auto
termination
proof (relation "measure length", goal_cases)
  case (2 bs p n ok)
  then have "0 < n" using utf8_first_pos[of bs] by (metis fst_conv)
  then show ?case using 2(1) by simp
qed simp

declare utf8_ok.simps [simp del]

text \<open>\<open>chars().count()\<close>: the bytes that start a character.\<close>

definition chars_count :: "bytes \<Rightarrow> nat" where
  "chars_count bs = length (filter (\<lambda>b. \<not> (128 \<le> b \<and> b \<le> 191)) bs)"

lemma utf8_lossy_ok: "utf8_ok bs \<Longrightarrow> utf8_lossy bs = bs"
proof (induction bs rule: utf8_lossy.induct)
  case (1 bs)
  show ?case
  proof (cases "bs = []")
    case False
    obtain n ok where n: "utf8_first bs = (n, ok)" by fastforce
    have ok: "ok" "utf8_ok (drop n bs)" using 1(2) False n by (auto simp: utf8_ok.simps[of bs])
    then have "utf8_lossy (drop n bs) = drop n bs" using 1(1) False n by simp
    then show ?thesis using False n ok by (simp add: utf8_lossy.simps[of bs])
  qed (simp add: utf8_lossy.simps)
qed

lemma utf8_ok_ascii: "(\<And>b. b \<in> set bs \<Longrightarrow> b < 128) \<Longrightarrow> utf8_ok bs"
proof (induction bs)
  case (Cons b bs)
  then show ?case by (simp add: utf8_ok.simps[of "b # bs"] utf8_first_def)
qed (simp add: utf8_ok.simps)

lemma utf8_ok_Cons: "b < 128 \<Longrightarrow> utf8_ok (b # bs) = utf8_ok bs"
  by (simp add: utf8_ok.simps[of "b # bs"] utf8_first_def)

section \<open>The sodium library\<close>

record sodium =
  b64_encode :: "bytes \<Rightarrow> bytes"
  b64_decode :: "bytes \<Rightarrow> bytes option"
  seal :: "bytes \<Rightarrow> bytes \<Rightarrow> bytes \<Rightarrow> bytes"
  unseal :: "bytes \<Rightarrow> bytes \<Rightarrow> bytes \<Rightarrow> bytes option"
  sha256 :: "bytes \<Rightarrow> bytes"

definition MACBYTES :: nat where "MACBYTES = 16"
definition NONCEBYTES :: nat where "NONCEBYTES = 24"
definition KEYBYTES :: nat where "KEYBYTES = 32"

text \<open>
  What sealing with a nonce and a key promises, the length it adds, base64 as a reversible ASCII
  encoding, and the length of a SHA-256 digest.
\<close>

definition sodium_ok :: "sodium \<Rightarrow> bool" where
  "sodium_ok so \<longleftrightarrow>
     (\<forall>d n k. unseal so (seal so d n k) n k = Some d \<and> length (seal so d n k) = length d + MACBYTES)
     \<and> (\<forall>d. b64_decode so (b64_encode so d) = Some d \<and> (\<forall>b \<in> set (b64_encode so d). b < 128))
     \<and> b64_decode so [] = Some []
     \<and> (\<forall>d. length (sha256 so d) = 32)"

lemma sodiumD:
  assumes "sodium_ok so"
  shows "unseal so (seal so d n k) n k = Some d" "length (seal so d n k) = length d + MACBYTES"
    "b64_decode so (b64_encode so d) = Some d" "utf8_ok (b64_encode so d)" "b64_decode so [] = Some []"
    "length (sha256 so d) = 32"
  using assms utf8_ok_ascii by (auto simp: sodium_ok_def)

lemma b64_encode_nonempty: "sodium_ok so \<Longrightarrow> d \<noteq> [] \<Longrightarrow> b64_encode so d \<noteq> []"
  using sodiumD(3)[of so d] sodiumD(5)[of so] by auto

text \<open>The machine: its identifier, and the public key of the key pair if there is one.\<close>

record machine =
  uuid :: bytes
  existing_pk :: "bytes option"

definition resize_key :: "bytes \<Rightarrow> bytes" where
  "resize_key b = take KEYBYTES (b @ replicate (KEYBYTES - length b) 0)"

section \<open>Encryption with the machine's key\<close>

definition VERSION_LEN :: nat where "VERSION_LEN = 2"
definition FORMAT_V1 :: u8 where "FORMAT_V1 = 1"
definition V00 :: bytes where "V00 = bytes_of ''00''"

lemma V00_bytes [simp]: "V00 = [48, 48]"
  by code_simp

definition open_secretbox_payload :: "sodium \<Rightarrow> bytes \<Rightarrow> bytes \<Rightarrow> bytes option" where
  "open_secretbox_payload so data k =
     (case (if data \<noteq> [] \<and> hd data = FORMAT_V1 \<and> 1 + NONCEBYTES + MACBYTES \<le> length data
            then unseal so (drop (1 + NONCEBYTES) data) (take NONCEBYTES (drop 1 data)) k
            else None) of
        Some d \<Rightarrow> Some d
      | None \<Rightarrow> unseal so data (replicate NONCEBYTES 0) k)"

text \<open>\<open>symmetric_crypt\<close> in its two directions; the nonce is the one \<open>gen_nonce\<close> drew.\<close>

definition symmetric_encrypt :: "sodium \<Rightarrow> machine \<Rightarrow> bytes \<Rightarrow> bytes \<Rightarrow> bytes" where
  "symmetric_encrypt so m nonce data = FORMAT_V1 # nonce @ seal so data nonce (resize_key (uuid m))"

definition symmetric_decrypt :: "sodium \<Rightarrow> machine \<Rightarrow> bytes \<Rightarrow> bytes option" where
  "symmetric_decrypt so m data =
     (case open_secretbox_payload so data (resize_key (uuid m)) of
        Some d \<Rightarrow> Some d
      | None \<Rightarrow>
          (case existing_pk m of
             Some pk \<Rightarrow> if pk \<noteq> uuid m then open_secretbox_payload so data (resize_key pk) else None
           | None \<Rightarrow> None))"

definition encrypt :: "sodium \<Rightarrow> machine \<Rightarrow> bytes \<Rightarrow> bytes \<Rightarrow> bytes option" where
  "encrypt so m nonce v = (if v \<noteq> [] then Some (b64_encode so (symmetric_encrypt so m nonce v)) else None)"

definition decrypt :: "sodium \<Rightarrow> machine \<Rightarrow> bytes \<Rightarrow> bytes option" where
  "decrypt so m v = (if v \<noteq> [] then b64_decode so v \<bind> symmetric_decrypt so m else None)"

definition is_encrypted :: "sodium \<Rightarrow> bytes \<Rightarrow> bool" where
  "is_encrypted so v =
     (if length v \<le> VERSION_LEN \<or> take 2 v \<noteq> V00 then False
      else case b64_decode so (drop VERSION_LEN v) of Some d \<Rightarrow> MACBYTES \<le> length d | None \<Rightarrow> False)"

definition encrypt_str_or_original :: "sodium \<Rightarrow> machine \<Rightarrow> bytes \<Rightarrow> bytes \<Rightarrow> bytes \<Rightarrow> nat \<Rightarrow> bytes" where
  "encrypt_str_or_original so m nonce s version max_len =
     (if is_encrypted so s then s
      else if max_len < chars_count s then []
      else if version = V00 then
        case encrypt so m nonce s of Some e \<Rightarrow> version @ e | None \<Rightarrow> s
      else s)"

definition decrypt_str_or_original :: "sodium \<Rightarrow> machine \<Rightarrow> bytes \<Rightarrow> bytes \<Rightarrow> bytes \<times> bool \<times> bool" where
  "decrypt_str_or_original so m s current_version =
     (let plain = (s, False, s \<noteq> [] \<and> \<not> is_encrypted so s) in
      if VERSION_LEN < length s \<and> take 2 s = V00 then
        case decrypt so m (drop VERSION_LEN s) of
          Some v \<Rightarrow> (utf8_lossy v, True, V00 \<noteq> current_version)
        | None \<Rightarrow> plain
      else plain)"

definition encrypt_vec_or_original :: "sodium \<Rightarrow> machine \<Rightarrow> bytes \<Rightarrow> bytes \<Rightarrow> bytes \<Rightarrow> nat \<Rightarrow> bytes" where
  "encrypt_vec_or_original so m nonce v version max_len =
     (if is_encrypted so v then v
      else if max_len < length v then []
      else if version = V00 then
        case encrypt so m nonce v of Some e \<Rightarrow> version @ e | None \<Rightarrow> v
      else v)"

definition decrypt_vec_or_original :: "sodium \<Rightarrow> machine \<Rightarrow> bytes \<Rightarrow> bytes \<Rightarrow> bytes \<times> bool \<times> bool" where
  "decrypt_vec_or_original so m v current_version =
     (let plain = (v, False, v \<noteq> [] \<and> \<not> is_encrypted so v) in
      if VERSION_LEN < length v \<and> utf8_lossy (take 2 v) = V00 then
        case decrypt so m (drop VERSION_LEN v) of
          Some d \<Rightarrow> (d, True, utf8_lossy (take 2 v) \<noteq> current_version)
        | None \<Rightarrow> plain
      else plain)"

section \<open>Encrypting and reading back\<close>

lemma payload_roundtrip:
  assumes "sodium_ok so" "length nonce = NONCEBYTES"
  shows "open_secretbox_payload so (FORMAT_V1 # nonce @ seal so d nonce k) k = Some d"
  using assms sodiumD(1,2)[OF assms(1)] by (simp add: open_secretbox_payload_def)

lemma symmetric_roundtrip:
  assumes "sodium_ok so" "length nonce = NONCEBYTES"
  shows "symmetric_decrypt so m (symmetric_encrypt so m nonce d) = Some d"
  using payload_roundtrip[OF assms] by (simp add: symmetric_decrypt_def symmetric_encrypt_def)

text \<open>A value written by an older version, without a nonce, is still read.\<close>

lemma legacy_roundtrip:
  assumes "sodium_ok so" "hd (seal so d (replicate NONCEBYTES 0) (resize_key (uuid m))) \<noteq> FORMAT_V1"
  shows "symmetric_decrypt so m (seal so d (replicate NONCEBYTES 0) (resize_key (uuid m))) = Some d"
  using assms sodiumD(1)[OF assms(1)] by (simp add: symmetric_decrypt_def open_secretbox_payload_def)

lemma decrypt_encrypt:
  assumes "sodium_ok so" "length nonce = NONCEBYTES" "v \<noteq> []"
  obtains e where "encrypt so m nonce v = Some e" "e \<noteq> []" "decrypt so m e = Some v" "utf8_ok e" "is_encrypted so (V00 @ e)"
proof -
  define p where "p = symmetric_encrypt so m nonce v"
  define e where "e = b64_encode so p"
  have ne: "e \<noteq> []" using b64_encode_nonempty[OF assms(1)] by (simp add: e_def p_def symmetric_encrypt_def)
  have dec: "b64_decode so e = Some p" "utf8_ok e" using sodiumD(3,4)[OF assms(1)] by (simp_all add: e_def)
  have "MACBYTES \<le> length p" using sodiumD(2)[OF assms(1)] by (simp add: p_def symmetric_encrypt_def)
  then have "is_encrypted so (V00 @ e)" using ne dec(1) by (cases e) (simp_all add: is_encrypted_def VERSION_LEN_def)
  moreover have "decrypt so m e = Some v" using ne dec(1) symmetric_roundtrip[OF assms(1,2)] by (simp add: decrypt_def p_def)
  moreover have "encrypt so m nonce v = Some e" using assms(3) by (simp add: encrypt_def e_def p_def)
  ultimately show ?thesis using that ne dec(2) by blast
qed

lemma decrypt_str_V00:
  "decrypt so m e = Some v \<Longrightarrow> e \<noteq> [] \<Longrightarrow> decrypt_str_or_original so m (V00 @ e) V00 = (utf8_lossy v, True, False)"
  by (cases e) (simp_all add: decrypt_str_or_original_def VERSION_LEN_def)

section \<open>Properties\<close>

text \<open>
  C30: What is encrypted for storage comes back: for every text that is not empty, not longer than
  allowed and does not look encrypted already, the stored form is a different text that looks
  encrypted, is read back as the original, needs no rewriting, and is left as it is when it is
  encrypted again, by whatever nonces the two calls drew.
\<close>

theorem encrypted_text_comes_back:
  assumes "sodium_ok so" and "length nonce = NONCEBYTES" and "utf8_ok s" and "s \<noteq> []"
    and "chars_count s \<le> max_len" and "\<not> is_encrypted so s"
  shows "let e = encrypt_str_or_original so m nonce s V00 max_len in
     decrypt_str_or_original so m e V00 = (s, True, False) \<and> is_encrypted so e \<and> e \<noteq> s \<and> utf8_ok e
     \<and> encrypt_str_or_original so m nonce' e V00 max_len' = e"
proof -
  obtain e where e: "encrypt so m nonce s = Some e" "e \<noteq> []" "decrypt so m e = Some s" "utf8_ok e" "is_encrypted so (V00 @ e)"
    using decrypt_encrypt[OF assms(1,2,4)] .
  have c: "encrypt_str_or_original so m nonce s V00 max_len = V00 @ e"
    using assms(5,6) e(1) by (simp add: encrypt_str_or_original_def)
  have "decrypt_str_or_original so m (V00 @ e) V00 = (s, True, False)"
    using decrypt_str_V00[OF e(3,2)] utf8_lossy_ok[OF assms(3)] by simp
  moreover have "utf8_ok (V00 @ e)" using e(4) by (simp add: utf8_ok_Cons)
  moreover have "V00 @ e \<noteq> s" using assms(6) e(5) by auto
  moreover have "encrypt_str_or_original so m nonce' (V00 @ e) V00 max_len' = V00 @ e"
    using e(5) unfolding encrypt_str_or_original_def by simp
  ultimately show ?thesis using e(5) unfolding Let_def c by blast
qed

text \<open>A library that meets the hypotheses: nothing is hidden, but lengths and inverses are right.\<close>

definition hex_byte :: "u8 \<Rightarrow> bytes" where "hex_byte b = [b div 16 + 65, b mod 16 + 65]"

fun unhex :: "bytes \<Rightarrow> bytes option" where
  "unhex [] = Some []"
| "unhex [_] = None"
| "unhex (a # b # r) = map_option ((#) ((a - 65) * 16 + (b - 65))) (unhex r)"

definition plain_sodium :: sodium where
  "plain_sodium = \<lparr>b64_encode = concat \<circ> map hex_byte, b64_decode = unhex,
     seal = (\<lambda>d n k. replicate MACBYTES 7 @ d), unseal = (\<lambda>d n k. if take MACBYTES d = replicate MACBYTES 7 then Some (drop MACBYTES d) else None),
     sha256 = (\<lambda>d. take 32 (d @ replicate 32 0))\<rparr>"

lemma hex_digit: "(b :: u8) div 16 + 65 < 128" "(b :: u8) mod 16 + 65 < 128" "(b div 16) * 16 + b mod 16 = b"
proof -
  have h: "unat (b div 16) < 16" "unat (b mod 16) < 16"
    using unsigned_less[where ?'a = nat and w = b] by (simp_all add: unat_div unat_mod)
  show "b div 16 + 65 < 128" "b mod 16 + 65 < 128" using h by (simp_all add: word_less_nat_alt unat_word_ariths)
  show "(b div 16) * 16 + b mod 16 = b"
    by (rule div_mult_mod_eq)
qed

lemma unhex_hex: "unhex (concat (map hex_byte d)) = Some d"
  by (induction d) (simp_all add: hex_byte_def hex_digit)

lemma plain_sodium_ok: "sodium_ok plain_sodium"
proof -
  have "b < 128" if "b \<in> set (concat (map hex_byte d))" for b d
    using that hex_digit(1,2) by (induction d) (auto simp: hex_byte_def)
  then show ?thesis using unhex_hex by (auto simp: sodium_ok_def plain_sodium_def MACBYTES_def min_def)
qed

theorem encrypted_text_comes_back_witness:
  "let e = encrypt_str_or_original plain_sodium \<lparr>uuid = [1], existing_pk = None\<rparr> (replicate NONCEBYTES 3) (bytes_of ''secret'') V00 128 in
     decrypt_str_or_original plain_sodium \<lparr>uuid = [1], existing_pk = None\<rparr> e V00 = (bytes_of ''secret'', True, False)"
proof -
  have "utf8_ok (bytes_of ''secret'')" "bytes_of ''secret'' \<noteq> []" "chars_count (bytes_of ''secret'') \<le> 128"
    "\<not> is_encrypted plain_sodium (bytes_of ''secret'')" by code_simp+
  from encrypted_text_comes_back[OF plain_sodium_ok _ this, of "replicate NONCEBYTES 3" "\<lparr>uuid = [1], existing_pk = None\<rparr>"]
  show ?thesis by (simp add: Let_def)
qed

end
