(* ===== verification/Password_Store.thy ===== *)
theory Password_Store
  imports Password_Crypto
begin

text \<open>
  The permanent password at rest: its hashed and encrypted form
  (\<open>libs/hbb_common/src/config/permanent_password.rs\<close>) and the configuration that keeps it
  (\<open>libs/hbb_common/src/config.rs\<close>): validation on load and before every write, setting it, and
  taking it over from the service. Random values (nonces, salts) are arguments.
\<close>

section \<open>The stored form\<close>

definition V01 :: bytes where "V01 = bytes_of ''01''"
definition ENCRYPT_MAX_LEN :: nat where "ENCRYPT_MAX_LEN = 128"
definition PERMANENT_PASSWORD_H1_LEN :: nat where "PERMANENT_PASSWORD_H1_LEN = 32"

lemma V01_bytes [simp]: "V01 = [48, 49]"
  by code_simp

abbreviation starts_with :: "bytes \<Rightarrow> bytes \<Rightarrow> bool" where
  "starts_with s p \<equiv> take (length p) s = p"

definition compute_permanent_password_h1 :: "sodium \<Rightarrow> bytes \<Rightarrow> bytes \<Rightarrow> bytes" where
  "compute_permanent_password_h1 so password salt = take PERMANENT_PASSWORD_H1_LEN (sha256 so (password @ salt))"

definition encode_permanent_password_storage_from_h1 :: "sodium \<Rightarrow> bytes \<Rightarrow> bytes" where
  "encode_permanent_password_storage_from_h1 so h1 = V00 @ b64_encode so h1"

definition decode_password_h1_after_prefix :: "sodium \<Rightarrow> bytes \<Rightarrow> bytes \<Rightarrow> bytes option" where
  "decode_password_h1_after_prefix so storage prefix =
     (if starts_with storage prefix then
        case b64_decode so (drop (length prefix) storage) of
          Some v \<Rightarrow> if length v \<noteq> PERMANENT_PASSWORD_H1_LEN then None else Some v
        | None \<Rightarrow> None
      else None)"

definition decode_permanent_password_h1_from_hashed_storage :: "sodium \<Rightarrow> bytes \<Rightarrow> bytes option" where
  "decode_permanent_password_h1_from_hashed_storage so storage = decode_password_h1_after_prefix so storage V00"

definition decode_preset_password_h1_from_storage :: "sodium \<Rightarrow> bytes \<Rightarrow> bytes option" where
  "decode_preset_password_h1_from_storage so storage = decode_password_h1_after_prefix so storage V00"

definition encrypt_permanent_password_storage :: "sodium \<Rightarrow> machine \<Rightarrow> bytes \<Rightarrow> bytes \<Rightarrow> bytes option" where
  "encrypt_permanent_password_storage so m nonce storage =
     (if ENCRYPT_MAX_LEN < chars_count storage then None
      else Some (V01 @ b64_encode so (symmetric_encrypt so m nonce storage)))"

definition encode_permanent_password_encrypted_storage_from_h1 :: "sodium \<Rightarrow> machine \<Rightarrow> bytes \<Rightarrow> bytes \<Rightarrow> bytes option" where
  "encode_permanent_password_encrypted_storage_from_h1 so m nonce h1 =
     encrypt_permanent_password_storage so m nonce (encode_permanent_password_storage_from_h1 so h1)"

definition decrypt_permanent_password_str_or_original :: "sodium \<Rightarrow> machine \<Rightarrow> bytes \<Rightarrow> bytes \<times> bool \<times> bool" where
  "decrypt_permanent_password_str_or_original so m storage =
     (let plain = (storage, False, storage \<noteq> []) in
      if VERSION_LEN < length storage \<and> starts_with storage V01 then
        case b64_decode so (drop VERSION_LEN storage) of
          Some d \<Rightarrow> (case symmetric_decrypt so m d of Some v \<Rightarrow> (utf8_lossy v, True, False) | None \<Rightarrow> plain)
        | None \<Rightarrow> plain
      else plain)"

definition decode_permanent_password_h1_from_storage :: "sodium \<Rightarrow> machine \<Rightarrow> bytes \<Rightarrow> bytes option" where
  "decode_permanent_password_h1_from_storage so m storage =
     (if starts_with storage V01 then
        case decrypt_permanent_password_str_or_original so m storage of
          (hashed, decrypted, _) \<Rightarrow>
            if \<not> decrypted then None else decode_permanent_password_h1_from_hashed_storage so hashed
      else None)"

definition local_usable :: "sodium \<Rightarrow> machine \<Rightarrow> bytes \<Rightarrow> bytes \<Rightarrow> bool" where
  "local_usable so m storage salt =
     (if storage = [] then False
      else if decode_permanent_password_h1_from_storage so m storage \<noteq> None then salt \<noteq> []
      else if starts_with storage V01 \<and> fst (snd (decrypt_permanent_password_str_or_original so m storage)) then False
      else case decrypt_str_or_original so m storage V00 of
        (_, decrypted, looks_like_plaintext) \<Rightarrow> \<not> (starts_with storage V00 \<and> \<not> decrypted \<and> \<not> looks_like_plaintext))"

definition preset_usable :: "sodium \<Rightarrow> bytes \<Rightarrow> bytes \<Rightarrow> bool" where
  "preset_usable so storage salt =
     (if storage = [] then False else if salt = [] then True
      else decode_preset_password_h1_from_storage so storage \<noteq> None)"

definition preset_matches_plain :: "sodium \<Rightarrow> bytes \<Rightarrow> bytes \<Rightarrow> bytes \<Rightarrow> bool" where
  "preset_matches_plain so storage salt input =
     (if storage = [] \<or> input = [] then False
      else if salt = [] then storage = input
      else case decode_preset_password_h1_from_storage so storage of
             None \<Rightarrow> False
           | Some h1 \<Rightarrow> compute_permanent_password_h1 so input salt = h1)"

definition password_is_empty_or_not_hashed :: "sodium \<Rightarrow> machine \<Rightarrow> bytes \<Rightarrow> bool" where
  "password_is_empty_or_not_hashed so m storage =
     (if storage = [] then True
      else if decode_permanent_password_h1_from_storage so m storage \<noteq> None then False
      else if starts_with storage V01 then False
      else case decrypt_str_or_original so m storage V00 of (_, decrypted, plain) \<Rightarrow> decrypted \<or> plain)"

section \<open>The configuration\<close>

record config =
  c_id :: bytes
  c_enc_id :: bytes
  c_password :: bytes
  c_salt :: bytes

datatype config_error = InvalidStorage | MissingSalt | RefusedWithoutSalt | InvalidSyncPayload

definition ensure_permanent_password_salt :: "bytes \<Rightarrow> config \<Rightarrow> config" where
  "ensure_permanent_password_salt fresh cfg = (if c_salt cfg = [] then cfg\<lparr>c_salt := fresh\<rparr> else cfg)"

definition ensure_permanent_password_hash_salt :: "config \<Rightarrow> (config_error, unit) result" where
  "ensure_permanent_password_hash_salt cfg = (if c_salt cfg = [] then Err MissingSalt else Ok ())"

definition validate_or_decrypt :: "sodium \<Rightarrow> machine \<Rightarrow> config \<Rightarrow> config \<times> (config_error, unit) result" where
  "validate_or_decrypt so m cfg =
     (if c_password cfg = [] then (cfg, Ok ())
      else if starts_with (c_password cfg) V00 then
        case decrypt_str_or_original so m (c_password cfg) V00 of
          (plain, decrypted, should_store) \<Rightarrow>
            if decrypted then (cfg\<lparr>c_password := plain\<rparr>, Ok ())
            else if \<not> should_store then (cfg, Err InvalidStorage) else (cfg, Ok ())
      else case decrypt_permanent_password_str_or_original so m (c_password cfg) of
          (s, decrypted, _) \<Rightarrow>
            if decrypted then
              case ensure_permanent_password_hash_salt cfg of
                Inl e \<Rightarrow> (cfg, Err e)
              | Inr _ \<Rightarrow>
                  if decode_permanent_password_h1_from_hashed_storage so s \<noteq> None then (cfg, Ok ()) else (cfg, Err InvalidStorage)
            else (cfg, Ok ()))"

definition prepare_config_for_store :: "sodium \<Rightarrow> machine \<Rightarrow> config \<Rightarrow> config" where
  "prepare_config_for_store so m cfg =
     (case validate_or_decrypt so m cfg of
        (cfg', Inr _) \<Rightarrow> cfg'
      | (cfg', Inl _) \<Rightarrow> cfg'\<lparr>c_password := [], c_salt := []\<rparr>)"

definition keep_encrypted_storage_if_plaintext_unchanged :: "sodium \<Rightarrow> machine \<Rightarrow> bytes \<Rightarrow> bytes \<Rightarrow> bytes \<Rightarrow> bytes" where
  "keep_encrypted_storage_if_plaintext_unchanged so m nonce plain stored =
     (case decrypt_str_or_original so m stored V00 of
        (stored_plain, encrypted, _) \<Rightarrow>
          if encrypted \<and> stored_plain = plain then stored else encrypt_str_or_original so m nonce plain V00 ENCRYPT_MAX_LEN)"

text \<open>What \<open>Config::store\<close> writes, given what is on disk; the nonces are for the password and the id.\<close>

definition config_store :: "sodium \<Rightarrow> machine \<Rightarrow> bytes \<Rightarrow> bytes \<Rightarrow> config \<Rightarrow> config \<Rightarrow> config" where
  "config_store so m n_pw n_id disk cfg0 =
     (let cfg = prepare_config_for_store so m cfg0;
          cfg = (if c_password cfg \<noteq> [] \<and> decode_permanent_password_h1_from_storage so m (c_password cfg) = None
                 then cfg\<lparr>c_password := keep_encrypted_storage_if_plaintext_unchanged so m n_pw (c_password cfg) (c_password disk)\<rparr>
                 else cfg);
          cfg = (case decrypt_str_or_original so m (c_enc_id cfg) V00 of
                   (stored_id, encrypted, _) \<Rightarrow>
                     if \<not> encrypted \<or> stored_id \<noteq> c_id cfg
                     then cfg\<lparr>c_enc_id := encrypt_str_or_original so m n_id (c_id cfg) V00 ENCRYPT_MAX_LEN\<rparr>
                     else cfg)
      in cfg\<lparr>c_id := []\<rparr>)"

text \<open>\<open>Config::load\<close>; \<open>ids\<close> are the attempts at a new id. The result is the configuration and whether it is stored.\<close>

definition config_load :: "sodium \<Rightarrow> machine \<Rightarrow> bytes option list \<Rightarrow> config \<Rightarrow> config \<times> bool" where
  "config_load so m ids disk =
     (let cfg = fst (validate_or_decrypt so m disk) in
      case decrypt_str_or_original so m (c_enc_id cfg) V00 of
        (i, encrypted, store2) \<Rightarrow>
          let (cfg, id_valid, st) =
            (if encrypted then (cfg\<lparr>c_id := i\<rparr>, True, store2)
             else if c_id cfg \<noteq> [] \<and> c_enc_id cfg = [] \<and> \<not> fst (snd (decrypt_str_or_original so m (c_id cfg) V00)) then (cfg, True, True)
             else (cfg, False, False))
          in if id_valid then (cfg, st)
             else case List.find (\<lambda>x. x \<noteq> None) (take 3 ids) of
               Some (Some new) \<Rightarrow> (cfg\<lparr>c_id := new\<rparr>, True)
             | _ \<Rightarrow> (cfg, st))"

text \<open>The configuration in memory, on disk, and the trusted devices.\<close>

record vault =
  v_config :: config
  v_disk :: config
  v_trusted :: "bytes list"

definition vault_store :: "sodium \<Rightarrow> machine \<Rightarrow> bytes \<Rightarrow> bytes \<Rightarrow> vault \<Rightarrow> vault" where
  "vault_store so m n_pw n_id v = v\<lparr>v_disk := config_store so m n_pw n_id (v_disk v) (v_config v)\<rparr>"

definition compute_permanent_password_storage_for_update ::
    "sodium \<Rightarrow> machine \<Rightarrow> bytes \<Rightarrow> bytes \<Rightarrow> config \<Rightarrow> bytes \<Rightarrow> config \<times> bytes option" where
  "compute_permanent_password_storage_for_update so m fresh nonce cfg password =
     (let cfg = ensure_permanent_password_salt fresh cfg
      in (cfg, encode_permanent_password_encrypted_storage_from_h1 so m nonce (compute_permanent_password_h1 so password (c_salt cfg))))"

text \<open>The environment of a change: is it disabled, the preset password and its salt, random values.\<close>

record settings =
  pw_disabled :: bool
  preset_storage :: bytes
  preset_salt :: bytes

definition set_permanent_password ::
    "sodium \<Rightarrow> machine \<Rightarrow> settings \<Rightarrow> bytes \<Rightarrow> bytes \<Rightarrow> bytes \<Rightarrow> bytes \<Rightarrow> bytes \<Rightarrow> vault \<Rightarrow> vault \<times> bool" where
  "set_permanent_password so m se fresh nonce n_pw n_id password v =
     (if pw_disabled se then (v, False)
      else if preset_matches_plain so (preset_storage se) (preset_salt se) password \<and> c_password (v_config v) = [] then (v, True)
      else
        let (cfg, stored) =
          (if password = [] then (v_config v, Some [])
           else compute_permanent_password_storage_for_update so m fresh nonce (v_config v) password);
            v = v\<lparr>v_config := cfg\<rparr>
        in case stored of
             None \<Rightarrow> (v, False)
           | Some s \<Rightarrow>
               if s = c_password cfg then (v, True)
               else ((vault_store so m n_pw n_id (v\<lparr>v_config := cfg\<lparr>c_password := s\<rparr>\<rparr>))\<lparr>v_trusted := []\<rparr>, True))"

definition apply_permanent_password_storage_for_sync ::
    "sodium \<Rightarrow> machine \<Rightarrow> bytes \<Rightarrow> bytes \<Rightarrow> config \<Rightarrow> config \<times> (config_error, bool) result" where
  "apply_permanent_password_storage_for_sync so m storage salt cfg =
     (if storage = [] then
        if c_password cfg = [] \<and> (salt = [] \<or> c_salt cfg = salt) then (cfg, Ok False)
        else ((if salt \<noteq> [] then cfg\<lparr>c_password := [], c_salt := salt\<rparr> else cfg\<lparr>c_password := []\<rparr>), Ok True)
      else if salt = [] then (cfg, Err RefusedWithoutSalt)
      else if decode_permanent_password_h1_from_storage so m storage = None then (cfg, Err InvalidSyncPayload)
      else if c_password cfg = storage \<and> c_salt cfg = salt then (cfg, Ok False)
      else (cfg\<lparr>c_password := storage, c_salt := salt\<rparr>, Ok True))"

definition set_permanent_password_storage_for_sync ::
    "sodium \<Rightarrow> machine \<Rightarrow> bytes \<Rightarrow> bytes \<Rightarrow> bytes \<Rightarrow> bytes \<Rightarrow> vault \<Rightarrow> vault \<times> (config_error, bool) result" where
  "set_permanent_password_storage_for_sync so m n_pw n_id storage salt v =
     (case apply_permanent_password_storage_for_sync so m storage salt (v_config v) of
        (cfg, Inl e) \<Rightarrow> (v\<lparr>v_config := cfg\<rparr>, Err e)
      | (cfg, Inr False) \<Rightarrow> (v\<lparr>v_config := cfg\<rparr>, Ok False)
      | (cfg, Inr True) \<Rightarrow> ((vault_store so m n_pw n_id (v\<lparr>v_config := cfg\<rparr>))\<lparr>v_trusted := []\<rparr>, Ok True))"

definition set_salt :: "sodium \<Rightarrow> machine \<Rightarrow> bytes \<Rightarrow> bytes \<Rightarrow> bytes \<Rightarrow> vault \<Rightarrow> vault" where
  "set_salt so m n_pw n_id salt v =
     (if salt = c_salt (v_config v) then v
      else if \<not> password_is_empty_or_not_hashed so m (c_password (v_config v)) \<and> c_salt (v_config v) \<noteq> [] then v
      else vault_store so m n_pw n_id (v\<lparr>v_config := (v_config v)\<lparr>c_salt := salt\<rparr>\<rparr>))"

definition get_salt :: "sodium \<Rightarrow> machine \<Rightarrow> bytes \<Rightarrow> bytes \<Rightarrow> bytes \<Rightarrow> vault \<Rightarrow> bytes \<times> vault" where
  "get_salt so m n_pw n_id fresh v =
     (if c_salt (v_config v) = [] then (fresh, set_salt so m n_pw n_id fresh v) else (c_salt (v_config v), v))"

definition has_permanent_password :: "sodium \<Rightarrow> machine \<Rightarrow> settings \<Rightarrow> config \<Rightarrow> bool" where
  "has_permanent_password so m se cfg =
     (if c_password cfg \<noteq> [] then local_usable so m (c_password cfg) (c_salt cfg)
      else preset_usable so (preset_storage se) (preset_salt se))"

definition get_effective_permanent_password_salt ::
    "sodium \<Rightarrow> machine \<Rightarrow> settings \<Rightarrow> bytes \<Rightarrow> bytes \<Rightarrow> bytes \<Rightarrow> vault \<Rightarrow> bytes \<times> vault" where
  "get_effective_permanent_password_salt so m se n_pw n_id fresh v =
     (if c_password (v_config v) \<noteq> [] then
        if local_usable so m (c_password (v_config v)) (c_salt (v_config v)) then get_salt so m n_pw n_id fresh v else ([], v)
      else if preset_salt se \<noteq> [] then
        if preset_usable so (preset_storage se) (preset_salt se) then (preset_salt se, v) else ([], v)
      else get_salt so m n_pw n_id fresh v)"

section \<open>Hashed storage\<close>

text \<open>A current storage is one that holds a hash.\<close>

lemma chars_count_append: "chars_count (a @ b) = chars_count a + chars_count b"
  by (simp add: chars_count_def)

lemma chars_count_le: "chars_count b \<le> length b"
  by (simp add: chars_count_def)

text \<open>Base64 of the 32 bytes of a hash is 44 characters, well below the limit.\<close>

definition b64_short :: "sodium \<Rightarrow> bool" where
  "b64_short so \<longleftrightarrow> (\<forall>d. length d = 32 \<longrightarrow> length (b64_encode so d) \<le> 126)"

lemma hashed_storage:
  assumes so: "sodium_ok so" and n: "length nonce = NONCEBYTES" and h: "length h1 = 32" and sh: "b64_short so"
  obtains s where "encode_permanent_password_encrypted_storage_from_h1 so m nonce h1 = Some s"
    "decode_permanent_password_h1_from_storage so m s = Some h1" "s \<noteq> []" "\<not> starts_with s V00"
    "decrypt_permanent_password_str_or_original so m s = (V00 @ b64_encode so h1, True, False)"
proof -
  define inner where "inner = V00 @ b64_encode so h1"
  define p where "p = symmetric_encrypt so m nonce inner"
  define s where "s = V01 @ b64_encode so p"
  have "chars_count inner \<le> 128"
    using chars_count_le[of inner] sh h by (auto simp: inner_def b64_short_def intro: order_trans)
  then have enc: "encode_permanent_password_encrypted_storage_from_h1 so m nonce h1 = Some s"
    by (simp add: encode_permanent_password_encrypted_storage_from_h1_def encode_permanent_password_storage_from_h1_def
        encrypt_permanent_password_storage_def ENCRYPT_MAX_LEN_def inner_def[unfolded V00_bytes, symmetric] s_def p_def
        inner_def[symmetric] del: V00_bytes)
  have ne: "b64_encode so p \<noteq> []" using b64_encode_nonempty[OF so] by (simp add: p_def symmetric_encrypt_def)
  have ok: "utf8_ok inner" using sodiumD(4)[OF so] by (simp add: inner_def utf8_ok_Cons)
  have dec: "decrypt_permanent_password_str_or_original so m s = (inner, True, False)"
    using ne sodiumD(3)[OF so, of p] symmetric_roundtrip[OF so n, of m inner, folded p_def] utf8_lossy_ok[OF ok]
    by (simp add: decrypt_permanent_password_str_or_original_def s_def VERSION_LEN_def Let_def)
  moreover have "decode_permanent_password_h1_from_hashed_storage so inner = Some h1"
    using sodiumD(3)[OF so] h
    by (simp add: decode_permanent_password_h1_from_hashed_storage_def decode_password_h1_after_prefix_def inner_def PERMANENT_PASSWORD_H1_LEN_def)
  ultimately have "decode_permanent_password_h1_from_storage so m s = Some h1"
    by (simp add: decode_permanent_password_h1_from_storage_def) (simp add: s_def)
  then show ?thesis using that[of s] enc dec by (simp add: s_def inner_def)
qed

lemma decode_storageD:
  assumes "decode_permanent_password_h1_from_storage so m p = Some h1"
  shows "p \<noteq> []" "\<not> starts_with p V00" "starts_with p V01"
    "\<exists>i. decrypt_permanent_password_str_or_original so m p = (i, True, False)
       \<and> decode_permanent_password_h1_from_hashed_storage so i = Some h1"
proof -
  show v: "starts_with p V01"
    using assms by (simp add: decode_permanent_password_h1_from_storage_def split: if_splits)
  then show "p \<noteq> []" "\<not> starts_with p V00"
    by (auto simp: take_Suc_conv_app_nth numeral_2_eq_2 split: list.splits)
  show "\<exists>i. decrypt_permanent_password_str_or_original so m p = (i, True, False)
       \<and> decode_permanent_password_h1_from_hashed_storage so i = Some h1"
    using assms
    by (auto simp: decode_permanent_password_h1_from_storage_def decrypt_permanent_password_str_or_original_def Let_def
        split: if_splits prod.splits option.splits)
qed

lemma validate_hashed:
  assumes "decode_permanent_password_h1_from_storage so m (c_password cfg) = Some h1" "c_salt cfg \<noteq> []"
  shows "validate_or_decrypt so m cfg = (cfg, Ok ())"
  using decode_storageD[OF assms(1)] assms(2)
  by (auto simp: validate_or_decrypt_def ensure_permanent_password_hash_salt_def simp del: V00_bytes V01_bytes)

text \<open>A hash and its salt go to the disk and come back as they are, whatever becomes of the id.\<close>

lemma store_hashed:
  assumes "decode_permanent_password_h1_from_storage so m (c_password cfg) = Some h1" "c_salt cfg \<noteq> []"
  shows "c_password (config_store so m n_pw n_id disk cfg) = c_password cfg"
    "c_salt (config_store so m n_pw n_id disk cfg) = c_salt cfg"
  using assms validate_hashed[OF assms]
  by (simp_all add: config_store_def prepare_config_for_store_def Let_def split: prod.splits)

lemma load_hashed:
  assumes "decode_permanent_password_h1_from_storage so m (c_password cfg) = Some h1" "c_salt cfg \<noteq> []"
  shows "c_password (fst (config_load so m ids cfg)) = c_password cfg"
    "c_salt (fst (config_load so m ids cfg)) = c_salt cfg"
  using validate_hashed[OF assms]
  by (simp_all add: config_load_def Let_def split: prod.splits option.splits)

section \<open>Nothing readable at rest\<close>

text \<open>A stored text that is empty, looks encrypted, or can be decrypted with the machine's key.\<close>

definition sealed :: "sodium \<Rightarrow> machine \<Rightarrow> bytes \<Rightarrow> bool" where
  "sealed so m p \<longleftrightarrow> p = [] \<or> is_encrypted so p \<or> fst (snd (decrypt_str_or_original so m p V00))"

lemma encrypt_str_sealed:
  assumes "sodium_ok so" "length nonce = NONCEBYTES"
  shows "sealed so m (encrypt_str_or_original so m nonce s V00 n)"
proof (cases "is_encrypted so s \<or> n < chars_count s \<or> s = []")
  case False
  then obtain e where "encrypt so m nonce s = Some e" "is_encrypted so (V00 @ e)"
    using decrypt_encrypt[OF assms] by blast
  then show ?thesis using False by (simp add: sealed_def encrypt_str_or_original_def)
qed (auto simp: sealed_def encrypt_str_or_original_def encrypt_def)

lemma keep_sealed:
  assumes "sodium_ok so" "length nonce = NONCEBYTES"
  shows "sealed so m (keep_encrypted_storage_if_plaintext_unchanged so m nonce plain stored)"
  using encrypt_str_sealed[OF assms]
  by (auto simp: keep_encrypted_storage_if_plaintext_unchanged_def sealed_def simp del: V00_bytes split: prod.splits)



section \<open>A password that is set stays set\<close>

text \<open>What happens to the configuration while nobody changes the password.\<close>

datatype upkeep =
    SetSalt bytes
  | AskSalt bytes
  | ServiceSync bytes bytes
  | Restart "bytes option list"

definition restart :: "sodium \<Rightarrow> machine \<Rightarrow> bytes \<Rightarrow> bytes \<Rightarrow> bytes option list \<Rightarrow> vault \<Rightarrow> vault" where
  "restart so m n_pw n_id ids v =
     (case config_load so m ids (v_disk v) of
        (cfg, stored) \<Rightarrow> let v = v\<lparr>v_config := cfg\<rparr> in if stored then vault_store so m n_pw n_id v else v)"

fun upkeep_step :: "sodium \<Rightarrow> machine \<Rightarrow> settings \<Rightarrow> bytes \<Rightarrow> bytes \<Rightarrow> upkeep \<Rightarrow> vault \<Rightarrow> vault" where
  "upkeep_step so m se n_pw n_id (SetSalt salt) v = set_salt so m n_pw n_id salt v"
| "upkeep_step so m se n_pw n_id (AskSalt fresh) v = snd (get_effective_permanent_password_salt so m se n_pw n_id fresh v)"
| "upkeep_step so m se n_pw n_id (ServiceSync storage salt) v =
     fst (set_permanent_password_storage_for_sync so m n_pw n_id storage salt v)"
| "upkeep_step so m se n_pw n_id (Restart ids) v = restart so m n_pw n_id ids v"

text \<open>A sync that does not carry a hash readable here, or lacks its salt.\<close>

fun bad_sync :: "sodium \<Rightarrow> machine \<Rightarrow> upkeep \<Rightarrow> bool" where
  "bad_sync so m (ServiceSync storage salt) \<longleftrightarrow>
     storage \<noteq> [] \<and> (salt = [] \<or> decode_permanent_password_h1_from_storage so m storage = None)"
| "bad_sync so m _ \<longleftrightarrow> True"

definition holds :: "bytes \<Rightarrow> bytes \<Rightarrow> vault \<Rightarrow> bool" where
  "holds p salt v \<longleftrightarrow> c_password (v_config v) = p \<and> c_salt (v_config v) = salt
     \<and> c_password (v_disk v) = p \<and> c_salt (v_disk v) = salt"

lemma password_bound: "decode_permanent_password_h1_from_storage so m p = Some h1 \<Longrightarrow> \<not> password_is_empty_or_not_hashed so m p"
  using decode_storageD(1)[of so m p h1] by (simp add: password_is_empty_or_not_hashed_def)

lemma holds_upkeep:
  assumes d: "decode_permanent_password_h1_from_storage so m p = Some h1" and s: "salt \<noteq> []"
    and v: "holds p salt v" and g: "bad_sync so m x"
  shows "holds p salt (upkeep_step so m se n_pw n_id x v)"
proof -
  have salt: "set_salt so m n_pw n_id t v = v" for t
    using v s password_bound[OF d] by (simp add: set_salt_def holds_def)
  show ?thesis
  proof (cases x)
    case (AskSalt f)
    then show ?thesis using v s salt decode_storageD(1)[OF d] d
      by (auto simp: get_effective_permanent_password_salt_def get_salt_def holds_def)
  next
    case (ServiceSync st t)
    then show ?thesis using v g
      by (auto simp: set_permanent_password_storage_for_sync_def apply_permanent_password_storage_for_sync_def holds_def)
  next
    case (Restart ids)
    obtain cfg st where c: "config_load so m ids (v_disk v) = (cfg, st)" by fastforce
    have "c_password cfg = p" "c_salt cfg = salt"
      using load_hashed[of so m "v_disk v" h1 ids] c v d s by (auto simp: holds_def)
    then show ?thesis using Restart c v store_hashed[of so m cfg h1] d s
      by (auto simp: restart_def vault_store_def holds_def Let_def)
  qed (use salt v in simp)
qed

text \<open>
  C28: A hashed password outlives everything that is not a change of it: whatever salts are asked for
  or offered, whatever damaged data the service sends and however often the program is restarted,
  the same hash with the same salt stays in memory and on disk.
\<close>

theorem stored_password_survives:
  assumes "decode_permanent_password_h1_from_storage so m p = Some h1" and "salt \<noteq> []"
    and "holds p salt v" and "list_all (bad_sync so m) xs"
  shows "holds p salt (fold (upkeep_step so m se n_pw n_id) xs v)"
  using assms(3,4) by (induction xs arbitrary: v) (simp_all add: holds_upkeep[OF assms(1,2)])

text \<open>An installation with a password set, its key the single byte of its identifier.\<close>

definition demo_machine :: machine where "demo_machine = \<lparr>uuid = [1], existing_pk = None\<rparr>"
definition demo_nonce :: bytes where "demo_nonce = replicate NONCEBYTES 3"

definition demo_storage :: bytes where
  "demo_storage = V01 @ b64_encode plain_sodium
     (symmetric_encrypt plain_sodium demo_machine demo_nonce (encode_permanent_password_storage_from_h1 plain_sodium (replicate 32 9)))"

definition demo_vault :: vault where
  "demo_vault = \<lparr>v_config = \<lparr>c_id = [], c_enc_id = [], c_password = demo_storage, c_salt = [5]\<rparr>,
     v_disk = \<lparr>c_id = [], c_enc_id = [], c_password = demo_storage, c_salt = [5]\<rparr>, v_trusted = []\<rparr>"

lemma demo_storage_decodes: "decode_permanent_password_h1_from_storage plain_sodium demo_machine demo_storage = Some (replicate 32 9)"
  by code_simp

theorem stored_password_survives_witness:
  "holds demo_storage [5] (fold (upkeep_step plain_sodium demo_machine \<lparr>pw_disabled = False, preset_storage = [], preset_salt = []\<rparr>
     demo_nonce demo_nonce) [SetSalt [6], ServiceSync [48, 49, 7] [8], Restart [None, Some [50]], AskSalt [9]] demo_vault)"
proof (rule stored_password_survives[OF demo_storage_decodes])
  show "holds demo_storage [5] demo_vault" by (simp add: holds_def demo_vault_def)
  show "list_all (bad_sync plain_sodium demo_machine) [SetSalt [6], ServiceSync [48, 49, 7] [8], Restart [None, Some [50]], AskSalt [9]]"
    by code_simp
qed simp

end
