(* ===== verification/Password_Login.thy ===== *)
theory Password_Login
  imports Password_Store Login_Guard
begin

text \<open>
  Logging in with a password: how the controlled side is configured to accept one
  (\<open>libs/hbb_common/src/password_security.rs\<close>), how the controlling side proves that it knows it
  (\<open>src/client.rs\<close>), and how the proof is checked against the temporary password, recent sessions,
  the stored password and the preset one (\<open>src/server/connection.rs\<close>).
\<close>

section \<open>Options\<close>

type_synonym options = "string \<Rightarrow> string"

datatype verification = OnlyUseTemporaryPassword | OnlyUsePermanentPassword | UseBothPasswords
datatype approve = ApproveBoth | ApprovePassword | ApproveClick

definition verification_method :: "options \<Rightarrow> verification" where
  "verification_method opts =
     (let m = opts ''verification-method'' in
      if m = ''use-temporary-password'' then OnlyUseTemporaryPassword
      else if m = ''use-permanent-password'' then OnlyUsePermanentPassword
      else UseBothPasswords)"

definition temporary_password_length :: "options \<Rightarrow> nat" where
  "temporary_password_length opts =
     (let l = opts ''temporary-password-length'' in
      if l = ''4'' then 4 else if l = ''6'' then 6 else if l = ''8'' then 8 else if l = ''10'' then 10 else 4)"

definition temporary_enabled :: "options \<Rightarrow> bool" where
  "temporary_enabled opts \<longleftrightarrow> verification_method opts \<noteq> OnlyUsePermanentPassword"

definition permanent_enabled :: "options \<Rightarrow> bool" where
  "permanent_enabled opts \<longleftrightarrow> verification_method opts \<noteq> OnlyUseTemporaryPassword"

definition approve_mode :: "options \<Rightarrow> approve" where
  "approve_mode opts =
     (let m = opts ''approve-mode'' in
      if m = ''password'' then ApprovePassword else if m = ''click'' then ApproveClick else ApproveBoth)"

definition option2bool :: "string \<Rightarrow> string \<Rightarrow> bool" where
  "option2bool opt v =
     (if take 7 opt = ''enable-'' then v \<noteq> ''N''
      else if take 6 opt = ''allow-'' \<or> opt = ''stop-service'' \<or> opt = ''direct-server'' \<or> opt = ''force-always-relay''
      then v = ''Y''
      else v \<noteq> ''N'')"

definition hide_cm :: "options \<Rightarrow> bool" where
  "hide_cm opts \<longleftrightarrow> approve_mode opts = ApprovePassword \<and> verification_method opts = OnlyUsePermanentPassword
     \<and> option2bool ''allow-hide-cm'' (opts ''allow-hide-cm'')"

text \<open>\<open>get_auto_password_with_chars\<close>: the random numbers are an argument.\<close>

definition get_auto_password_with_chars :: "(nat \<Rightarrow> nat) \<Rightarrow> nat \<Rightarrow> string \<Rightarrow> string" where
  "get_auto_password_with_chars rng len cs = map (\<lambda>i. cs ! (rng i mod length cs)) [0..<len]"

section \<open>The controlled side\<close>

record session_key =
  sk_peer :: string
  sk_name :: string
  sk_session :: "64 word"

record session =
  last_recv_time :: int
  random_password :: string
  tfa :: bool

datatype primary_auth = NoAuth | ClickAuth | TemporaryAuth | PermanentAuth | SwitchSidesAuth

text \<open>What the process shares between connections.\<close>

record login_server =
  sv_opts :: options
  sv_temp :: string
  sv_temp_state :: temp_state
  sv_vault :: vault
  sv_settings :: settings
  sv_sessions :: "(session_key, session) hmap"
  sv_failures :: failures

text \<open>What one connection keeps: its challenge, and the login request.\<close>

record login_conn =
  hash_salt :: bytes
  hash_challenge :: bytes
  lr_password :: bytes
  lr_key :: session_key
  conn_ip :: string
  primary :: primary_auth

definition has_valid_password :: "sodium \<Rightarrow> machine \<Rightarrow> login_server \<Rightarrow> bool" where
  "has_valid_password so m sv \<longleftrightarrow>
     temporary_enabled (sv_opts sv) \<and> sv_temp sv \<noteq> []
     \<or> permanent_enabled (sv_opts sv) \<and> has_permanent_password so m (sv_settings sv) (v_config (sv_vault sv))"

text \<open>The challenge of a new connection; a missing salt is made and stored first.\<close>

definition new_hash :: "sodium \<Rightarrow> machine \<Rightarrow> bytes \<Rightarrow> bytes \<Rightarrow> bytes \<Rightarrow> bytes \<Rightarrow> login_server \<Rightarrow> (bytes \<times> bytes) \<times> login_server" where
  "new_hash so m n_pw n_id fresh challenge sv =
     (case get_effective_permanent_password_salt so m (sv_settings sv) n_pw n_id fresh (sv_vault sv) of
        (salt, v) \<Rightarrow> ((salt, challenge), sv\<lparr>sv_vault := v\<rparr>))"

definition verify_h1 :: "sodium \<Rightarrow> login_conn \<Rightarrow> bytes \<Rightarrow> bool" where
  "verify_h1 so c h1 \<longleftrightarrow> sha256 so (h1 @ hash_challenge c) = lr_password c"

definition validate_password_plain :: "sodium \<Rightarrow> login_conn \<Rightarrow> bytes \<Rightarrow> bool" where
  "validate_password_plain so c password =
     (if password = [] then False else verify_h1 so c (sha256 so (password @ hash_salt c)))"

definition validate_password_storage :: "sodium \<Rightarrow> machine \<Rightarrow> login_conn \<Rightarrow> bytes \<Rightarrow> bool" where
  "validate_password_storage so m c storage =
     (if storage = [] then False
      else case decode_permanent_password_h1_from_storage so m storage of
             Some h1 \<Rightarrow> verify_h1 so c h1
           | None \<Rightarrow> validate_password_plain so c storage)"

definition validate_preset_password_storage :: "sodium \<Rightarrow> login_conn \<Rightarrow> bytes \<Rightarrow> bytes \<Rightarrow> bool" where
  "validate_preset_password_storage so c storage salt =
     (if salt = [] then validate_password_plain so c storage
      else case decode_preset_password_h1_from_storage so storage of
             None \<Rightarrow> False
           | Some h1 \<Rightarrow> verify_h1 so c h1)"

definition update_or_insert_session ::
    "session_key \<Rightarrow> string option \<Rightarrow> bool option \<Rightarrow> int \<Rightarrow> (session_key, session) hmap \<Rightarrow> (session_key, session) hmap" where
  "update_or_insert_session key password is_tfa now m =
     (case hm_get m key of
        Some s \<Rightarrow> hm_insert key
          (s\<lparr>random_password := case_option (random_password s) id password, tfa := case_option (tfa s) id is_tfa\<rparr>) m
      | None \<Rightarrow> hm_insert key
          \<lparr>last_recv_time = now, random_password = case_option [] id password, tfa = case_option False id is_tfa\<rparr> m)"

definition set_session_2fa :: "session_key \<Rightarrow> int \<Rightarrow> (session_key, session) hmap \<Rightarrow> (session_key, session) hmap" where
  "set_session_2fa key now m =
     (case hm_get m key of
        Some s \<Rightarrow> hm_insert key (s\<lparr>tfa := True\<rparr>) m
      | None \<Rightarrow> hm_insert key \<lparr>last_recv_time = now, random_password = [], tfa = True\<rparr> m)"

definition validate_password :: "sodium \<Rightarrow> machine \<Rightarrow> bool \<Rightarrow> int \<Rightarrow> login_server \<Rightarrow> login_conn \<Rightarrow> bool \<times> login_server \<times> login_conn" where
  "validate_password so m allow_permanent_password now sv c =
     (if temporary_enabled (sv_opts sv) \<and> validate_password_plain so c (bytes_of (sv_temp sv)) then
        (True,
         sv\<lparr>sv_sessions := update_or_insert_session (lr_key c) (Some (sv_temp sv)) (Some False) now (sv_sessions sv),
            sv_temp_state := fst (check_update_temporary_password True True (sv_temp sv) [] (sv_temp_state sv))\<rparr>,
         c\<lparr>primary := TemporaryAuth\<rparr>)
      else if permanent_enabled (sv_opts sv) \<or> allow_permanent_password then
        let storage = c_password (v_config (sv_vault sv)); salt = c_salt (v_config (sv_vault sv));
            hard = preset_storage (sv_settings sv); hard_salt = preset_salt (sv_settings sv);
            ok = (if storage \<noteq> [] then local_usable so m storage salt \<and> validate_password_storage so m c storage
                  else preset_usable so hard hard_salt \<and> validate_preset_password_storage so c hard hard_salt)
        in (ok, sv, if ok then c\<lparr>primary := PermanentAuth\<rparr> else c)
      else (False, sv, c))"

definition SESSION_TIMEOUT :: int where "SESSION_TIMEOUT = 30000"

definition is_recent_session :: "sodium \<Rightarrow> bool \<Rightarrow> int \<Rightarrow> login_server \<Rightarrow> login_conn \<Rightarrow> bool \<times> login_server" where
  "is_recent_session so for_tfa now sv c =
     (let m = hm_retain (\<lambda>_ s. now - last_recv_time s < SESSION_TIMEOUT) (sv_sessions sv) in
      (case hm_get m (lr_key c) of
         Some s \<Rightarrow> lr_password c \<noteq> []
           \<and> (for_tfa \<and> tfa s \<or> \<not> for_tfa \<and> validate_password_plain so c (bytes_of (random_password s)))
       | None \<Rightarrow> False, sv\<lparr>sv_sessions := m\<rparr>))"

text \<open>
  The password arm of the login handler: ask the person at the controlled side, take up a recent
  session, or check the password, with the failure counters around it. \<open>fresh\<close> is the temporary
  password that a rotation would make.
\<close>

datatype login_result = AskToAccept | RecentSession | TooManyFailures refusal | WrongPassword | LoggedIn

definition password_login ::
    "sodium \<Rightarrow> machine \<Rightarrow> bool \<Rightarrow> int \<Rightarrow> string \<Rightarrow> login_server \<Rightarrow> login_conn \<Rightarrow> login_result \<times> login_server \<times> login_conn" where
  "password_login so m logon_screen now fresh sv c =
     (if approve_mode (sv_opts sv) = ApproveClick \<and> \<not> logon_screen
         \<or> approve_mode (sv_opts sv) = ApproveBoth \<and> \<not> has_valid_password so m sv
      then (AskToAccept, sv, c)
      else case is_recent_session so False now sv c of
        (True, sv) \<Rightarrow> (RecentSession, sv, c\<lparr>primary := TemporaryAuth\<rparr>)
      | (False, sv) \<Rightarrow>
          if lr_password c = [] then (AskToAccept, sv, c)
          else case check_failure (sv_failures sv) (conn_ip c) now of
            (_, Some r) \<Rightarrow> (TooManyFailures r, sv, c)
          | ((fail, time), None) \<Rightarrow>
              (case validate_password so m logon_screen now sv c of
                 (False, sv, c) \<Rightarrow>
                   (case check_update_temporary_password (temporary_enabled (sv_opts sv)) False (sv_temp sv) fresh (sv_temp_state sv) of
                      (st, temp) \<Rightarrow>
                        (WrongPassword,
                         sv\<lparr>sv_failures := update_failure (conn_ip c) fail time False (sv_failures sv),
                            sv_temp_state := st, sv_temp := temp\<rparr>, c))
               | (True, sv, c) \<Rightarrow>
                   (LoggedIn, sv\<lparr>sv_failures := update_failure (conn_ip c) fail time True (sv_failures sv)\<rparr>, c)))"

section \<open>The controlling side\<close>

datatype password_source = PersonalAb bytes | SharedAb bytes | Undefined

text \<open>The login configuration: the password (already hashed) in use, the saved one, where it came from.\<close>

record login_config =
  lc_password :: bytes
  lc_saved :: bytes
  lc_shared :: "bytes option"
  lc_source :: password_source
  lc_remember :: bool

definition salted :: "sodium \<Rightarrow> bytes \<Rightarrow> bytes \<Rightarrow> bytes" where
  "salted so password salt = sha256 so (password @ salt)"

text \<open>\<open>handle_login_from_ui\<close>: the person typed a password, or nothing to use the one known.\<close>

definition handle_login_from_ui :: "sodium \<Rightarrow> bytes \<times> bytes \<Rightarrow> bytes \<Rightarrow> bool \<Rightarrow> login_config \<Rightarrow> bytes \<times> login_config" where
  "handle_login_from_ui so hash password remember lc =
     (let (h, lc) =
        (if password = [] then
           (if lc_password lc = [] then
              (lc_saved lc, if lc_saved lc \<noteq> [] then lc\<lparr>lc_source := Undefined\<rparr> else lc)
            else (lc_password lc, lc))
         else (salted so password (fst hash), lc\<lparr>lc_source := Undefined, lc_remember := remember\<rparr>))
      in (sha256 so (h @ snd hash), lc\<lparr>lc_password := h\<rparr>))"

text \<open>
  The order in which \<open>handle_hash\<close> looks for a password: the last one, the preset, the shared one,
  the saved one, the personal address book, the built-in default. \<open>ab\<close> is what the address book
  holds for the peer, already decoded, and empty if nothing.
\<close>

definition hash_password :: "sodium \<Rightarrow> bytes \<times> bytes \<Rightarrow> bytes \<Rightarrow> bytes \<Rightarrow> bytes \<Rightarrow> login_config \<Rightarrow> bytes \<times> login_config" where
  "hash_password so hash preset ab default_pw lc =
     (let salt = fst hash; p = lc_password lc;
          (p, lc) = (if p = [] \<and> preset \<noteq> [] then (salted so preset salt, lc\<lparr>lc_source := Undefined\<rparr>) else (p, lc));
          shared = lc_shared lc; lc = lc\<lparr>lc_shared := None\<rparr>;
          (p, lc) = (case shared of
                       Some sp \<Rightarrow> if sp \<noteq> [] then (salted so sp salt, lc\<lparr>lc_source := SharedAb sp\<rparr>) else (p, lc)
                     | None \<Rightarrow> (p, lc));
          (p, lc) = (if p = [] then (lc_saved lc, if lc_saved lc \<noteq> [] then lc\<lparr>lc_source := Undefined\<rparr> else lc) else (p, lc));
          (p, lc) = (if p = [] \<and> ab \<noteq> [] then (ab, lc\<lparr>lc_source := PersonalAb ab\<rparr>) else (p, lc));
          (p, lc) = (if p = [] \<and> default_pw \<noteq> [] then (salted so default_pw salt, lc\<lparr>lc_source := SharedAb default_pw\<rparr>) else (p, lc))
      in (p, lc\<lparr>lc_password := p\<rparr>))"

text \<open>The login that \<open>handle_hash\<close> sends; a terminal for an administrator asks for the account first.\<close>

definition handle_hash :: "sodium \<Rightarrow> bytes \<times> bytes \<Rightarrow> bytes \<Rightarrow> bytes \<Rightarrow> bytes \<Rightarrow> bool \<Rightarrow> login_config \<Rightarrow> bytes option \<times> login_config" where
  "handle_hash so hash preset ab default_pw terminal_admin lc =
     (let (p, lc) = hash_password so hash preset ab default_pw lc
      in if terminal_admin then (None, lc)
         else (Some (if p = [] then [] else sha256 so (p @ snd hash)), lc))"

definition is_personal_ab :: "password_source \<Rightarrow> bytes \<Rightarrow> bool" where
  "is_personal_ab src password =
     (if password = [] then False else case src of PersonalAb p \<Rightarrow> p = password | _ \<Rightarrow> False)"

definition is_shared_ab :: "sodium \<Rightarrow> password_source \<Rightarrow> bytes \<Rightarrow> bytes \<times> bytes \<Rightarrow> bool" where
  "is_shared_ab so src password hash =
     (if password = [] then False else case src of SharedAb p \<Rightarrow> password = salted so p (fst hash) | _ \<Rightarrow> False)"

section \<open>From setting a password to logging in\<close>

text \<open>
  A whole login: the controlled side makes its challenge, the person types a password, and the
  proof is checked.
\<close>

definition proof_conn :: "bytes \<times> bytes \<Rightarrow> bytes \<Rightarrow> login_conn" where
  "proof_conn hash pr = \<lparr>hash_salt = fst hash, hash_challenge = snd hash, lr_password = pr,
     lr_key = \<lparr>sk_peer = [], sk_name = [], sk_session = 0\<rparr>, conn_ip = [], primary = NoAuth\<rparr>"

definition login_accepts :: "sodium \<Rightarrow> machine \<Rightarrow> bytes \<Rightarrow> bytes \<Rightarrow> login_config \<Rightarrow> login_server \<Rightarrow> bool" where
  "login_accepts so m challenge typed lc sv =
     (case new_hash so m [] [] [] challenge sv of
        (hash, sv) \<Rightarrow> fst (validate_password so m False 0 sv (proof_conn hash (fst (handle_login_from_ui so hash typed False lc)))))"

lemma handle_login_typed:
  "typed \<noteq> [] \<Longrightarrow> fst (handle_login_from_ui so hash typed remember lc) = sha256 so (salted so typed (fst hash) @ snd hash)"
  by (simp add: handle_login_from_ui_def)

lemma validate_permanent:
  assumes "verification_method (sv_opts sv) = OnlyUsePermanentPassword" "c_password (v_config (sv_vault sv)) \<noteq> []"
  shows "fst (validate_password so m b now sv c) \<longleftrightarrow>
     local_usable so m (c_password (v_config (sv_vault sv))) (c_salt (v_config (sv_vault sv)))
     \<and> validate_password_storage so m c (c_password (v_config (sv_vault sv)))"
  using assms by (simp add: validate_password_def temporary_enabled_def permanent_enabled_def Let_def)

lemma new_hash_local:
  assumes "c_password (v_config (sv_vault sv)) \<noteq> []" "c_salt (v_config (sv_vault sv)) \<noteq> []"
    "local_usable so m (c_password (v_config (sv_vault sv))) (c_salt (v_config (sv_vault sv)))"
  shows "new_hash so m a b f ch sv = ((c_salt (v_config (sv_vault sv)), ch), sv)"
  using assms by (simp add: new_hash_def get_effective_permanent_password_salt_def get_salt_def)

lemma login_with_hash:
  assumes d: "decode_permanent_password_h1_from_storage so m (c_password (v_config (sv_vault sv))) = Some h1"
    and s: "c_salt (v_config (sv_vault sv)) \<noteq> []" and o: "verification_method (sv_opts sv) = OnlyUsePermanentPassword"
    and t: "typed \<noteq> []"
  shows "login_accepts so m ch typed lc sv \<longleftrightarrow>
     sha256 so (h1 @ ch) = sha256 so (salted so typed (c_salt (v_config (sv_vault sv))) @ ch)"
proof -
  have ne: "c_password (v_config (sv_vault sv)) \<noteq> []" by (rule decode_storageD(1)[OF d])
  have u: "local_usable so m (c_password (v_config (sv_vault sv))) (c_salt (v_config (sv_vault sv)))"
    using ne d s by (simp add: local_usable_def)
  show ?thesis using validate_permanent[OF o ne] u ne d handle_login_typed[OF t]
    by (simp add: login_accepts_def new_hash_local[OF ne s u] validate_password_storage_def verify_h1_def proof_conn_def)
qed

lemma set_password_result:
  assumes so: "sodium_ok so" "b64_short so" and n: "length nonce = NONCEBYTES" and f: "fresh \<noteq> []" and pw: "pw \<noteq> []"
    and en: "\<not> pw_disabled se" and pre: "\<not> preset_matches_plain so (preset_storage se) (preset_salt se) pw"
    and new: "snd (compute_permanent_password_storage_for_update so m fresh nonce (v_config v) pw) \<noteq> Some (c_password (v_config v))"
  obtains p v' where "set_permanent_password so m se fresh nonce n_pw n_id pw v = (v', True)" "v_trusted v' = []"
    "holds p (c_salt (v_config v')) v'" "c_salt (v_config v') \<noteq> []"
    "decode_permanent_password_h1_from_storage so m p = Some (salted so pw (c_salt (v_config v')))"
    "c_salt (v_config v) \<noteq> [] \<longrightarrow> c_salt (v_config v') = c_salt (v_config v)"
proof -
  define cfg where "cfg = ensure_permanent_password_salt fresh (v_config v)"
  define h1 where "h1 = compute_permanent_password_h1 so pw (c_salt cfg)"
  have s: "c_salt cfg \<noteq> []" "c_salt (v_config v) \<noteq> [] \<longrightarrow> c_salt cfg = c_salt (v_config v)" "c_password cfg = c_password (v_config v)"
    using f by (auto simp: cfg_def ensure_permanent_password_salt_def)
  have h: "h1 = salted so pw (c_salt cfg)" "length h1 = 32"
    using sodiumD(6)[OF so(1)] by (simp_all add: h1_def compute_permanent_password_h1_def salted_def PERMANENT_PASSWORD_H1_LEN_def)
  obtain p where p: "encode_permanent_password_encrypted_storage_from_h1 so m nonce h1 = Some p"
      "decode_permanent_password_h1_from_storage so m p = Some h1"
    using hashed_storage[OF so(1) n h(2) so(2)] by metis
  define c2 where "c2 = cfg\<lparr>c_password := p\<rparr>"
  have c: "compute_permanent_password_storage_for_update so m fresh nonce (v_config v) pw = (cfg, Some p)"
    using p(1) by (simp add: compute_permanent_password_storage_for_update_def Let_def cfg_def[symmetric] h1_def)
  define v' where "v' = (vault_store so m n_pw n_id (v\<lparr>v_config := c2\<rparr>))\<lparr>v_trusted := []\<rparr>"
  have "set_permanent_password so m se fresh nonce n_pw n_id pw v = (v', True)"
    using en pre pw new c s(3) by (simp add: set_permanent_password_def v'_def c2_def)
  moreover have "holds p (c_salt cfg) v'"
    using store_hashed[of so m c2 h1] p(2) s(1) by (simp add: holds_def v'_def vault_store_def c2_def)
  ultimately show ?thesis using that[of v' p] p(2) s h(1) by (simp add: v'_def vault_store_def c2_def holds_def)
qed


text \<open>An installation without a password, and its server after one was set and it was restarted.\<close>

definition demo_settings :: settings where
  "demo_settings = \<lparr>pw_disabled = False, preset_storage = [], preset_salt = []\<rparr>"

definition blank_vault :: vault where
  "blank_vault = \<lparr>v_config = \<lparr>c_id = [], c_enc_id = [], c_password = [], c_salt = []\<rparr>,
     v_disk = \<lparr>c_id = [], c_enc_id = [], c_password = [], c_salt = []\<rparr>, v_trusted = [[1]]\<rparr>"

definition demo_set :: "vault \<times> bool" where
  "demo_set = set_permanent_password plain_sodium demo_machine demo_settings [5] demo_nonce demo_nonce demo_nonce
     (bytes_of ''secret'') blank_vault"

definition permanent_only :: options where
  "permanent_only = (\<lambda>k. if k = ''verification-method'' then ''use-permanent-password'' else [])"

definition demo_server :: "config \<Rightarrow> login_server" where
  "demo_server cfg = \<lparr>sv_opts = permanent_only, sv_temp = [], sv_temp_state = \<lparr>tp_password = [], tp_failures = 0\<rparr>,
     sv_vault = blank_vault\<lparr>v_config := cfg\<rparr>, sv_settings = demo_settings, sv_sessions = [], sv_failures = []\<rparr>"

definition blank_login :: login_config where
  "blank_login = \<lparr>lc_password = [], lc_saved = [], lc_shared = None, lc_source = Undefined, lc_remember = False\<rparr>"

lemma plain_b64_short: "b64_short plain_sodium"
proof -
  have "length (concat (map hex_byte d)) = 2 * length d" for d by (induction d) (simp_all add: hex_byte_def)
  then show ?thesis by (simp add: b64_short_def plain_sodium_def)
qed


section \<open>What opens nothing\<close>

text \<open>
  Stored passwords that cannot be used: none and no preset; a hash whose salt is lost; a current
  encryption of something that is no hash; an old encryption that this machine cannot read.
\<close>

definition unusable :: "sodium \<Rightarrow> machine \<Rightarrow> settings \<Rightarrow> config \<Rightarrow> bool" where
  "unusable so m se cfg \<longleftrightarrow>
     (let p = c_password cfg in
      p = [] \<and> preset_storage se = []
      \<or> p = [] \<and> preset_salt se \<noteq> [] \<and> decode_preset_password_h1_from_storage so (preset_storage se) = None
      \<or> decode_permanent_password_h1_from_storage so m p \<noteq> None \<and> c_salt cfg = []
      \<or> starts_with p V01 \<and> fst (snd (decrypt_permanent_password_str_or_original so m p))
          \<and> decode_permanent_password_h1_from_storage so m p = None
      \<or> is_encrypted so p \<and> \<not> fst (snd (decrypt_str_or_original so m p V00)))"

lemma unusable_local:
  assumes "unusable so m se cfg"
  shows "if c_password cfg = [] then \<not> preset_usable so (preset_storage se) (preset_salt se)
    else \<not> local_usable so m (c_password cfg) (c_salt cfg)"
proof (cases "c_password cfg = []")
  case True
  then have "decode_permanent_password_h1_from_storage so m (c_password cfg) = None" "\<not> is_encrypted so (c_password cfg)"
    by (simp_all add: decode_permanent_password_h1_from_storage_def is_encrypted_def)
  then show ?thesis using assms True
    by (auto simp: unusable_def Let_def preset_usable_def decode_preset_password_h1_from_storage_def)
next
  case False
  have "starts_with (c_password cfg) V00 \<and> \<not> snd (snd (decrypt_str_or_original so m (c_password cfg) V00))"
    if "is_encrypted so (c_password cfg)" "\<not> fst (snd (decrypt_str_or_original so m (c_password cfg) V00))"
    using that by (auto simp: is_encrypted_def decrypt_str_or_original_def Let_def numeral_2_eq_2 split: if_splits option.splits)
  then show ?thesis using assms False decode_storageD(2)[of so m "c_password cfg"]
    by (auto simp: unusable_def Let_def local_usable_def simp del: V00_bytes V01_bytes split: prod.splits)
qed



text \<open>
  The other damaged form is not refused: a current storage that this machine cannot decrypt, such as
  one copied from elsewhere, passes as a legacy plain password, so the stored text itself logs in.
\<close>

lemma foreign_storage_is_a_password:
  assumes "starts_with p V01" "p \<noteq> []" "\<not> fst (snd (decrypt_permanent_password_str_or_original so m p))"
    and "c_password (v_config (sv_vault sv)) = p" "c_salt (v_config (sv_vault sv)) \<noteq> []"
    and "verification_method (sv_opts sv) = OnlyUsePermanentPassword"
  shows "login_accepts so m ch p lc sv"
proof -
  have d: "decode_permanent_password_h1_from_storage so m p = None"
    using assms(3) by (auto simp: decode_permanent_password_h1_from_storage_def split: prod.splits)
  have "\<not> starts_with p V00" using assms(1) by (auto simp: take_Suc_conv_app_nth numeral_2_eq_2 split: list.splits)
  then have u: "local_usable so m p (c_salt (v_config (sv_vault sv)))"
    using d assms(2,3) by (simp add: local_usable_def del: V00_bytes split: prod.splits)
  have ne: "c_password (v_config (sv_vault sv)) \<noteq> []" using assms(2,4) by simp
  have n: "new_hash so m [] [] [] ch sv = ((c_salt (v_config (sv_vault sv)), ch), sv)"
    using new_hash_local[OF ne assms(5)] u assms(4) by simp
  show ?thesis using validate_permanent[OF assms(6) ne] u assms(4) d handle_login_typed[OF assms(2)] ne
    by (simp add: login_accepts_def n validate_password_storage_def validate_password_plain_def verify_h1_def proof_conn_def salted_def)
qed

end
