(* ===== verification/Service.thy ===== *)
theory Service
  imports BGDesk_Prelude
begin

text \<open>
  The services of the controlled side (\<open>src/server/service.rs\<close>): the table of subscribed
  connections, the snapshot that a new one gets before it joins the stream, sending, and the two
  loops that drive a service. The handle of a subscriber lists what was sent through it, on the
  channel for video and on the other one.
\<close>

section \<open>Subscribers\<close>

datatype 'a message = VideoFrame 'a | SwitchDisplay 'a | OtherMessage 'a

record 'a conn_inner =
  conn_id :: int
  tx :: "'a message list option"
  tx_video :: "'a message list option"

fun tx_by_video :: "'a message \<Rightarrow> bool" where
  "tx_by_video (VideoFrame _) = True"
| "tx_by_video (SwitchDisplay _) = True"
| "tx_by_video (OtherMessage _) = False"

definition conn_send :: "'a message \<Rightarrow> 'a conn_inner \<Rightarrow> 'a conn_inner" where
  "conn_send msg c =
     (if tx_by_video msg then c\<lparr>tx_video := map_option (\<lambda>q. q @ [msg]) (tx_video c)\<rparr>
      else c\<lparr>tx := map_option (\<lambda>q. q @ [msg]) (tx c)\<rparr>)"

section \<open>The service\<close>

record 'a service_inner =
  srv_name :: string
  srv_handle :: bool
  subscribes :: "(int, 'a conn_inner) hmap"
  new_subscribes :: "(int, 'a conn_inner) hmap"
  srv_active :: bool
  need_snapshot :: bool
  srv_options :: "(string, string) hmap"

definition service_new :: "string \<Rightarrow> bool \<Rightarrow> 'a service_inner" where
  "service_new name snap = \<lparr>srv_name = name, srv_handle = False, subscribes = [], new_subscribes = [],
     srv_active = True, need_snapshot = snap, srv_options = []\<rparr>"

definition has_subscribes :: "'a service_inner \<Rightarrow> bool" where
  "has_subscribes s \<longleftrightarrow> 0 < length (subscribes s) \<or> 0 < length (new_subscribes s)"

definition send_new_subscribes :: "'a message \<Rightarrow> 'a service_inner \<Rightarrow> 'a service_inner" where
  "send_new_subscribes msg s = s\<lparr>new_subscribes := hm_map_values (\<lambda>_. conn_send msg) (new_subscribes s)\<rparr>"

definition swap_new_subscribes :: "'a service_inner \<Rightarrow> 'a service_inner" where
  "swap_new_subscribes s =
     s\<lparr>subscribes := fold (\<lambda>(_, c). hm_insert (conn_id c) c) (new_subscribes s) (subscribes s), new_subscribes := []\<rparr>"

definition is_subed :: "int \<Rightarrow> 'a service_inner \<Rightarrow> bool" where
  "is_subed i s \<longleftrightarrow> hm_get (subscribes s) i \<noteq> None \<or> hm_get (new_subscribes s) i \<noteq> None"

definition on_subscribe :: "'a conn_inner \<Rightarrow> 'a service_inner \<Rightarrow> 'a service_inner" where
  "on_subscribe c s =
     (if hm_get (subscribes s) (conn_id c) \<noteq> None then s
      else if need_snapshot s then s\<lparr>new_subscribes := hm_insert (conn_id c) c (new_subscribes s)\<rparr>
      else s\<lparr>subscribes := hm_insert (conn_id c) c (subscribes s)\<rparr>)"

definition on_unsubscribe :: "int \<Rightarrow> 'a service_inner \<Rightarrow> 'a service_inner" where
  "on_unsubscribe i s =
     (case hm_get (subscribes s) i of
        None \<Rightarrow> s\<lparr>new_subscribes := hm_remove i (new_subscribes s)\<rparr>
      | Some _ \<Rightarrow> s\<lparr>subscribes := hm_remove i (subscribes s)\<rparr>)"

definition service_join :: "'a service_inner \<Rightarrow> 'a service_inner" where
  "service_join s = s\<lparr>srv_active := False, srv_handle := False\<rparr>"

definition get_option :: "string \<Rightarrow> 'a service_inner \<Rightarrow> string option" where
  "get_option k s = hm_get (srv_options s) k"

definition set_option :: "string \<Rightarrow> string \<Rightarrow> 'a service_inner \<Rightarrow> string option \<times> 'a service_inner" where
  "set_option k v s = (hm_get (srv_options s) k, s\<lparr>srv_options := hm_insert k v (srv_options s)\<rparr>)"

definition is_option_true :: "string \<Rightarrow> 'a service_inner \<Rightarrow> bool" where
  "is_option_true k s = (case get_option k s of None \<Rightarrow> False | Some v \<Rightarrow> v = ''1'')"

definition set_option_bool :: "string \<Rightarrow> bool \<Rightarrow> 'a service_inner \<Rightarrow> 'a service_inner" where
  "set_option_bool k v s = snd (set_option k (if v then ''1'' else ''0'') s)"

definition service_ok :: "'a service_inner \<Rightarrow> bool" where
  "service_ok s \<longleftrightarrow> srv_active s \<and> has_subscribes s"

text \<open>
  \<open>snapshot\<close>: the callback works on the new subscribers only; when its handle is dropped, also
  after an error, they join the others.
\<close>

definition snapshot ::
    "('a service_inner \<Rightarrow> ('e, unit) result \<times> 'a service_inner) \<Rightarrow> 'a service_inner \<Rightarrow> ('e, unit) result \<times> 'a service_inner" where
  "snapshot callback s =
     (if 0 < length (new_subscribes s) then
        case callback s of (r, s) \<Rightarrow> (r, swap_new_subscribes s)
      else (Ok (), s))"

definition swap_has_subscribes :: "'a service_inner \<Rightarrow> bool" where
  "swap_has_subscribes s \<longleftrightarrow> 0 < length (subscribes s)"

definition send_to :: "'a message \<Rightarrow> int \<Rightarrow> 'a service_inner \<Rightarrow> 'a service_inner" where
  "send_to msg i s = s\<lparr>subscribes := hm_modify i (conn_send msg) (subscribes s)\<rparr>"

definition send_to_others :: "'a message \<Rightarrow> int \<Rightarrow> 'a service_inner \<Rightarrow> 'a service_inner" where
  "send_to_others msg i s = s\<lparr>subscribes := hm_map_values (\<lambda>k c. if k \<noteq> i then conn_send msg c else c) (subscribes s)\<rparr>"

definition send_shared :: "'a message \<Rightarrow> 'a service_inner \<Rightarrow> 'a service_inner" where
  "send_shared msg s = s\<lparr>subscribes := hm_map_values (\<lambda>_. conn_send msg) (subscribes s)\<rparr>"

definition send_video_frame_shared :: "'a message \<Rightarrow> 'a service_inner \<Rightarrow> int set \<times> 'a service_inner" where
  "send_video_frame_shared msg s =
     (set (map (conn_id \<circ> snd) (subscribes s)), s\<lparr>subscribes := hm_map_values (\<lambda>_. conn_send msg) (subscribes s)\<rparr>)"

definition send_without :: "'a message \<Rightarrow> int \<Rightarrow> 'a service_inner \<Rightarrow> 'a service_inner" where
  "send_without msg i s = s\<lparr>subscribes := hm_map_values (\<lambda>_ c. if i \<noteq> conn_id c then conn_send msg c else c) (subscribes s)\<rparr>"

section \<open>The loops\<close>

definition HIBERNATE_TIMEOUT :: nat where "HIBERNATE_TIMEOUT = 30"
definition MAX_ERROR_TIMEOUT :: nat where "MAX_ERROR_TIMEOUT = 1000"

text \<open>What a round of a loop finds: no subscriber, a callback that ended well, or one that failed after some milliseconds.\<close>

datatype loop_round = NoSubscriber | Served | Failed nat

text \<open>A round of \<open>run\<close>: the new error timeout, and the milliseconds it slept in all.\<close>

fun run_round :: "nat \<Rightarrow> loop_round \<Rightarrow> nat \<times> nat" where
  "run_round et NoSubscriber = (et, HIBERNATE_TIMEOUT)"
| "run_round et Served = (et, HIBERNATE_TIMEOUT)"
| "run_round et (Failed elapsed) =
     (let et = (if MAX_ERROR_TIMEOUT < elapsed then HIBERNATE_TIMEOUT else et * 2);
          et = (if MAX_ERROR_TIMEOUT < et then MAX_ERROR_TIMEOUT else et)
      in (et, et + HIBERNATE_TIMEOUT))"

fun run_rounds :: "nat \<Rightarrow> loop_round list \<Rightarrow> nat list" where
  "run_rounds et [] = []"
| "run_rounds et (r # rs) = (case run_round et r of (et', slept) \<Rightarrow> slept # run_rounds et' rs)"

definition service_run :: "loop_round list \<Rightarrow> nat list" where
  "service_run = run_rounds HIBERNATE_TIMEOUT"

text \<open>
  A round of \<open>repeat\<close> with its interval and the milliseconds it took: whether the state is to be
  reset when the subscribers are gone, what was called, and the sleep.
\<close>

datatype call = Init | Callback | ResetState

definition repeat_round :: "nat \<Rightarrow> bool \<Rightarrow> loop_round \<times> nat \<Rightarrow> bool \<times> call list \<times> nat" where
  "repeat_round interval may_reset rt =
     (case rt of (r, took) \<Rightarrow>
        let (may_reset', calls, pause) =
          (case r of
             NoSubscriber \<Rightarrow> (if may_reset then (False, [ResetState], 0) else (may_reset, [], 0))
           | Served \<Rightarrow> (True, if may_reset then [Callback] else [Init, Callback], 0)
           | Failed _ \<Rightarrow> (True, if may_reset then [Callback] else [Init, Callback], MAX_ERROR_TIMEOUT));
            elapsed = took + pause
        in (may_reset', calls, pause + (if elapsed < interval then interval - elapsed else 0)))"

fun repeat_rounds :: "nat \<Rightarrow> bool \<Rightarrow> (loop_round \<times> nat) list \<Rightarrow> call list" where
  "repeat_rounds interval mr [] = []"
| "repeat_rounds interval mr (r # rs) =
     (case repeat_round interval mr r of (mr', calls, _) \<Rightarrow> calls @ repeat_rounds interval mr' rs)"

section \<open>Tables of subscribers\<close>

definition entries :: "('k \<Rightarrow> 'v \<Rightarrow> bool) \<Rightarrow> ('k, 'v) hmap \<Rightarrow> bool" where
  "entries Q t \<longleftrightarrow> (\<forall>x \<in> set t. Q (fst x) (snd x))"

lemma entries_Cons: "entries Q (x # t) \<longleftrightarrow> Q (fst x) (snd x) \<and> entries Q t"
  by (simp add: entries_def)

lemma entries_insert: "entries Q t \<Longrightarrow> Q k v \<Longrightarrow> entries Q (hm_insert k v t)"
  by (induction k v t rule: hm_insert.induct) (auto simp: entries_Cons)

lemma entries_remove: "entries Q t \<Longrightarrow> entries Q (hm_remove k t)"
  by (auto simp: entries_def hm_remove_def)

lemma entries_map_values:
  "entries Q t \<Longrightarrow> (\<And>k v. Q k v \<Longrightarrow> R k (f k v)) \<Longrightarrow> entries R (hm_map_values f t)"
  by (fastforce simp: entries_def hm_map_values_def)

lemma entries_modify: "entries Q t \<Longrightarrow> (\<And>v. Q k v \<Longrightarrow> Q k (f v)) \<Longrightarrow> entries Q (hm_modify k f t)"
  by (fastforce simp: entries_def hm_modify_def)

lemma entries_swapped:
  "entries (\<lambda>_ c. Q (conn_id c) c) xs \<Longrightarrow> entries Q t \<Longrightarrow> entries Q (fold (\<lambda>(_, c). hm_insert (conn_id c) c) xs t)"
  by (induction xs arbitrary: t) (auto simp: entries_Cons entries_insert)

lemma entries_mono: "entries Q t \<Longrightarrow> (\<And>k v. Q k v \<Longrightarrow> R k v) \<Longrightarrow> entries R t"
  by (auto simp: entries_def)

lemma hm_ok_swapped: "hm_ok t \<Longrightarrow> hm_ok (fold (\<lambda>(_, c). hm_insert (conn_id c) c) xs t)"
  by (induction xs arbitrary: t) (auto split: prod.splits)

lemma keys_map_values: "fst ` set (hm_map_values f m) = fst ` set m"
  by (force simp: hm_map_values_def)

lemma keys_modify: "fst ` set (hm_modify k f m) = fst ` set m"
  by (force simp: hm_modify_def)

lemma keys_remove: "fst ` set (hm_remove k m) = fst ` set m - {k}"
  by (force simp: hm_remove_def)

lemma keys_get: "hm_get m k = None \<longleftrightarrow> k \<notin> fst ` set m"
  by (simp add: map_of_eq_None_iff)

text \<open>
  Every subscriber stands under its own id in one of the two tables, at most once; without a
  snapshot nobody waits. Those who joined satisfy \<open>J\<close>, those who wait satisfy \<open>W\<close>.
\<close>

definition tables_ok :: "('a conn_inner \<Rightarrow> bool) \<Rightarrow> ('a conn_inner \<Rightarrow> bool) \<Rightarrow> 'a service_inner \<Rightarrow> bool" where
  "tables_ok J W s \<longleftrightarrow> hm_ok (subscribes s) \<and> hm_ok (new_subscribes s)
     \<and> entries (\<lambda>k c. conn_id c = k \<and> J c) (subscribes s) \<and> entries (\<lambda>k c. conn_id c = k \<and> W c) (new_subscribes s)
     \<and> fst ` set (subscribes s) \<inter> fst ` set (new_subscribes s) = {}
     \<and> (\<not> need_snapshot s \<longrightarrow> new_subscribes s = [])"

text \<open>
  The interface of a subscriber: sending keeps its identity, and lengthens its queue by the message
  or, when there is no channel for it, not at all.
\<close>

definition two_phase :: "('m \<Rightarrow> bool) \<Rightarrow> 'm list \<Rightarrow> bool" where
  "two_phase P xs \<longleftrightarrow> list_all (Not \<circ> P) (dropWhile P xs)"

lemma two_phase_snoc: "two_phase P xs \<Longrightarrow> \<not> P m \<Longrightarrow> two_phase P (xs @ [m])"
  by (induction xs) (auto simp: two_phase_def)

lemma two_phase_all: "list_all P xs \<Longrightarrow> two_phase P xs"
  by (induction xs) (auto simp: two_phase_def)

locale subscriber =
  fixes sid :: "'s \<Rightarrow> int"
    and send :: "'m \<Rightarrow> 's \<Rightarrow> 's"
    and queue :: "'s \<Rightarrow> 'm list"
  assumes sid_send: "sid (send m c) = sid c"
    and queue_send: "queue (send m c) = queue c \<or> queue (send m c) = queue c @ [m]"
begin

lemma waiting_send: "P m \<Longrightarrow> list_all P (queue c) \<Longrightarrow> list_all P (queue (send m c))"
  using queue_send[of m c] by auto

lemma joined_send: "\<not> P m \<Longrightarrow> two_phase P (queue c) \<Longrightarrow> two_phase P (queue (send m c))"
  using queue_send[of m c] by (auto intro: two_phase_snoc)

lemma same_ids: "(\<And>k c. (k, c) \<in> set t \<Longrightarrow> sid c = k) \<Longrightarrow> (k, c) \<in> set (hm_map_values (\<lambda>_. send m) t) \<Longrightarrow> sid c = k"
  by (auto simp: hm_map_values_def sid_send)

end

definition video_queue :: "'a conn_inner \<Rightarrow> 'a message list" where
  "video_queue c = case_option [] id (tx_video c)"

definition other_queue :: "'a conn_inner \<Rightarrow> 'a message list" where
  "other_queue c = case_option [] id (tx c)"

interpretation video_channel: subscriber conn_id conn_send video_queue
  by unfold_locales (auto simp: conn_send_def video_queue_def split: option.splits)

interpretation other_channel: subscriber conn_id conn_send other_queue
  by unfold_locales (auto simp: conn_send_def other_queue_def split: option.splits)

definition waiting :: "('a message \<Rightarrow> bool) \<Rightarrow> 'a conn_inner \<Rightarrow> bool" where
  "waiting P c \<longleftrightarrow> list_all P (video_queue c) \<and> list_all P (other_queue c)"

definition joined :: "('a message \<Rightarrow> bool) \<Rightarrow> 'a conn_inner \<Rightarrow> bool" where
  "joined P c \<longleftrightarrow> two_phase P (video_queue c) \<and> two_phase P (other_queue c)"

lemma joined_conn_send: "\<not> P m \<Longrightarrow> joined P c \<Longrightarrow> joined P (conn_send m c)"
  by (simp add: joined_def video_channel.joined_send other_channel.joined_send)

lemma waiting_conn_send: "P m \<Longrightarrow> waiting P c \<Longrightarrow> waiting P (conn_send m c)"
  by (simp add: waiting_def video_channel.waiting_send other_channel.waiting_send)

lemma waiting_empty: "video_queue c = [] \<Longrightarrow> other_queue c = [] \<Longrightarrow> waiting P c"
  by (simp add: waiting_def)

lemma waiting_joined: "waiting P c \<Longrightarrow> joined P c"
  by (simp add: waiting_def joined_def two_phase_all)

section \<open>A service at work\<close>

text \<open>What connections and the service itself do; the callback of a snapshot sends some messages and may fail.\<close>

datatype 'a service_op =
    Subscribe "'a conn_inner"
  | Unsubscribe int
  | Snapshot "'a message list" bool
  | Send "'a message"
  | SendFrame "'a message"
  | SendTo "'a message" int
  | SendToOthers "'a message" int
  | SendWithout "'a message" int
  | SetOption string string
  | Join

fun service_step :: "'a service_op \<Rightarrow> 'a service_inner \<Rightarrow> 'a service_inner" where
  "service_step (Subscribe c) s = on_subscribe c s"
| "service_step (Unsubscribe i) s = on_unsubscribe i s"
| "service_step (Snapshot ms ok) s = snd (snapshot (\<lambda>s. (if ok then Ok () else Err (), fold send_new_subscribes ms s)) s)"
| "service_step (Send m) s = send_shared m s"
| "service_step (SendFrame m) s = snd (send_video_frame_shared m s)"
| "service_step (SendTo m i) s = send_to m i s"
| "service_step (SendToOthers m i) s = send_to_others m i s"
| "service_step (SendWithout m i) s = send_without m i s"
| "service_step (SetOption k v) s = snd (set_option k v s)"
| "service_step Join s = service_join s"

text \<open>Snapshot messages are marked, the others are not, and a connection subscribes with a new handle.\<close>

fun marked :: "('a message \<Rightarrow> bool) \<Rightarrow> 'a service_op \<Rightarrow> bool" where
  "marked P (Subscribe c) \<longleftrightarrow> video_queue c = [] \<and> other_queue c = []"
| "marked P (Snapshot ms _) \<longleftrightarrow> list_all P ms"
| "marked P (Send m) \<longleftrightarrow> \<not> P m"
| "marked P (SendFrame m) \<longleftrightarrow> \<not> P m"
| "marked P (SendTo m _) \<longleftrightarrow> \<not> P m"
| "marked P (SendToOthers m _) \<longleftrightarrow> \<not> P m"
| "marked P (SendWithout m _) \<longleftrightarrow> \<not> P m"
| "marked P _ \<longleftrightarrow> True"

lemma conn_id_send [simp]: "conn_id (conn_send m c) = conn_id c"
  by (rule video_channel.sid_send)

lemma tables_new: "tables_ok J W (service_new n b)"
  by (simp add: tables_ok_def service_new_def entries_def)

lemma tables_subscribe:
  assumes "tables_ok J W s" "W c" "\<not> need_snapshot s \<Longrightarrow> J c"
  shows "tables_ok J W (on_subscribe c s)"
  using assms by (auto simp: tables_ok_def on_subscribe_def keys_hm_insert keys_get intro!: entries_insert)

lemma tables_unsubscribe: "tables_ok J W s \<Longrightarrow> tables_ok J W (on_unsubscribe i s)"
  by (auto simp: tables_ok_def on_unsubscribe_def keys_remove hm_remove_def[of _ "[]"] split: option.splits intro!: entries_remove)

text \<open>Sending to those who joined, whoever is chosen, and to those who wait.\<close>

lemma tables_send:
  assumes "tables_ok J W s" "\<And>c. J c \<Longrightarrow> J (conn_send m c)"
  shows "tables_ok J W (s\<lparr>subscribes := hm_map_values (\<lambda>k c. if Q k c then conn_send m c else c) (subscribes s)\<rparr>)"
  using assms by (auto simp: tables_ok_def keys_map_values intro!: entries_map_values)

lemma tables_send_to:
  assumes "tables_ok J W s" "\<And>c. J c \<Longrightarrow> J (conn_send m c)"
  shows "tables_ok J W (send_to m i s)"
  using assms by (auto simp: tables_ok_def send_to_def keys_modify intro!: entries_modify)

lemma tables_send_new:
  assumes "tables_ok J W s" "\<And>c. W c \<Longrightarrow> W (conn_send m c)"
  shows "tables_ok J W (send_new_subscribes m s)"
  using assms by (auto simp: tables_ok_def send_new_subscribes_def keys_map_values hm_map_values_def[of _ "[]"] intro!: entries_map_values)

lemma tables_swap:
  assumes "tables_ok J W s" "\<And>c. W c \<Longrightarrow> J c"
  shows "tables_ok J W (swap_new_subscribes s)"
proof -
  have "entries (\<lambda>_ c. conn_id c = conn_id c \<and> J c) (new_subscribes s)"
    using assms by (auto simp: tables_ok_def intro: entries_mono)
  then show ?thesis using assms(1) entries_swapped[of "\<lambda>k c. conn_id c = k \<and> J c" "new_subscribes s" "subscribes s"]
    by (simp add: tables_ok_def swap_new_subscribes_def hm_ok_swapped entries_def[of _ "[]"])
qed

lemma tables_send_new_all:
  "tables_ok J W s \<Longrightarrow> (\<And>m c. m \<in> set ms \<Longrightarrow> W c \<Longrightarrow> W (conn_send m c)) \<Longrightarrow> tables_ok J W (fold send_new_subscribes ms s)"
  by (induction ms arbitrary: s) (auto intro: tables_send_new)

lemmas send_defs = send_shared_def send_video_frame_shared_def send_to_others_def send_without_def

lemma tables_step:
  assumes t: "tables_ok J W s" and w: "\<And>c. W c \<Longrightarrow> J c"
    and c: "\<And>c. x = Subscribe c \<Longrightarrow> W c"
    and n: "\<And>ms b m c. x = Snapshot ms b \<Longrightarrow> m \<in> set ms \<Longrightarrow> W c \<Longrightarrow> W (conn_send m c)"
    and m: "\<And>m i c. x \<in> {Send m, SendFrame m, SendTo m i, SendToOthers m i, SendWithout m i} \<Longrightarrow> J c \<Longrightarrow> J (conn_send m c)"
  shows "tables_ok J W (service_step x s)"
proof (cases x)
  case (Snapshot ms b)
  then show ?thesis using tables_swap[OF tables_send_new_all[OF t, of ms] w] n t by (simp add: snapshot_def)
next
  case (Send msg)
  then show ?thesis using tables_send[OF t, of msg "\<lambda>_ _. True"] m by (simp add: send_defs)
next
  case (SendFrame msg)
  then show ?thesis using tables_send[OF t, of msg "\<lambda>_ _. True"] m by (simp add: send_defs)
next
  case (SendToOthers msg i)
  then show ?thesis using tables_send[OF t, of msg "\<lambda>k _. k \<noteq> i"] m by (simp add: send_defs)
next
  case (SendWithout msg i)
  then show ?thesis using tables_send[OF t, of msg "\<lambda>_ c. i \<noteq> conn_id c"] m by (simp add: send_defs)
next
  case (SetOption k v)
  then show ?thesis using t by (simp add: set_option_def tables_ok_def)
next
  case Join
  then show ?thesis using t by (simp add: service_join_def tables_ok_def)
qed (use t c w m in \<open>simp_all add: tables_subscribe tables_unsubscribe tables_send_to\<close>)

section \<open>Properties\<close>

text \<open>
  Whatever connections and the service do, the tables stay well-formed: every subscriber stands
  under its own id, no id is in both tables or twice in one, and in a service without snapshots
  nobody is left waiting.
\<close>

lemma subscriber_tables_wellformed:
  "tables_ok (\<lambda>_. True) (\<lambda>_. True) (fold service_step xs (service_new name snap))"
proof -
  have "tables_ok (\<lambda>_. True) (\<lambda>_. True) s \<Longrightarrow> tables_ok (\<lambda>_. True) (\<lambda>_. True) (fold service_step xs s)" for s :: "'a service_inner"
    by (induction xs arbitrary: s) (auto intro!: tables_step)
  then show ?thesis using tables_new by blast
qed


text \<open>A viewer joins while another already watches; the keyframe is its snapshot.\<close>

definition viewer :: "int \<Rightarrow> string conn_inner" where
  "viewer i = \<lparr>conn_id = i, tx = Some [], tx_video = Some []\<rparr>"


lemma run_bounds: "30 \<le> et \<Longrightarrow> et \<le> 1000 \<Longrightarrow> list_all (\<lambda>t. 30 \<le> t \<and> t \<le> 1030) (run_rounds et rs)"
proof (induction rs arbitrary: et)
  case (Cons r rs)
  then show ?case by (cases r) (auto simp: HIBERNATE_TIMEOUT_def MAX_ERROR_TIMEOUT_def Let_def)
qed simp

lemma run_fast_failures:
  "run_rounds (min (30 * 2 ^ k) 1000) (replicate n (Failed (min e 1000))) =
     map (\<lambda>i. min (30 * 2 ^ (i + 1)) 1000 + 30) [k..<k + n]"
proof (induction n arbitrary: k)
  case (Suc n)
  have e: "run_round (min (30 * 2 ^ k) 1000) (Failed (min e 1000)) = (min (30 * 2 ^ Suc k) 1000, min (30 * 2 ^ Suc k) 1000 + 30)"
    by (auto simp: Let_def HIBERNATE_TIMEOUT_def MAX_ERROR_TIMEOUT_def min_def)
  show ?case by (simp only: replicate_Suc run_rounds.simps e prod.case Suc) (simp add: upt_conv_Cons del: upt_Suc)
qed simp

text \<open>
  A failing service neither spins nor stalls. Whatever its callback does, every round of the
  loop sleeps at least 30 milliseconds and at most 1030; and while it fails again and again within
  its first second, the pause after the failure doubles from 60 milliseconds up to one second.
\<close>

theorem failing_service_backs_off:
  "list_all (\<lambda>t. 30 \<le> t \<and> t \<le> 1030) (service_run rs)
   \<and> service_run (replicate n (Failed (min e 1000))) = map (\<lambda>i. min (30 * 2 ^ (i + 1)) 1000 + 30) [0..<n]"
  using run_bounds[of 30 rs] run_fast_failures[of 0 n e] by (simp add: service_run_def HIBERNATE_TIMEOUT_def)

text \<open>The state of a repeating service is set up before it is used and torn down before it is set up again.\<close>

fun well_nested :: "bool \<Rightarrow> call list \<Rightarrow> bool" where
  "well_nested opened [] \<longleftrightarrow> True"
| "well_nested opened (Init # cs) \<longleftrightarrow> \<not> opened \<and> well_nested True cs"
| "well_nested opened (Callback # cs) \<longleftrightarrow> opened \<and> well_nested True cs"
| "well_nested opened (ResetState # cs) \<longleftrightarrow> opened \<and> well_nested False cs"

lemma repeat_well_nested: "well_nested mr (repeat_rounds interval mr rs)"
proof (induction rs arbitrary: mr)
  case (Cons r rs)
  obtain x t where r: "r = (x, t)" by fastforce
  show ?case by (cases x; cases mr) (simp_all add: r repeat_round_def Let_def Cons)
qed simp

end
