(* ===== verification/Video_Loop.thy ===== *)
theory Video_Loop
  imports Service Video_Qos
begin

text \<open>
  The loop of a video service (\<open>src/server/video_service.rs\<close>): encoding a captured frame and sending
  it to the subscribers, repeating the last picture while nothing moves so that its quality improves
  (\<open>src/server/video_service/static_refresh.rs\<close>), and waiting until the viewers fetched the frame.
  The encoder is a parameter: what it makes of a frame is an argument. Times are nanoseconds.
\<close>

section \<open>Which connections have the frame\<close>

record frame_controller =
  fc_display :: nat
  fc_cur :: nat
  send_conn_ids :: "int set"

definition fc_new :: "nat \<Rightarrow> nat \<Rightarrow> frame_controller" where
  "fc_new display now = \<lparr>fc_display = display, fc_cur = now, send_conn_ids = {}\<rparr>"

definition fc_reset :: "frame_controller \<Rightarrow> frame_controller" where
  "fc_reset fc = fc\<lparr>send_conn_ids := {}\<rparr>"

type_synonym display_conns = "(nat, int set) hmap"

definition set_send :: "nat \<Rightarrow> int set \<Rightarrow> frame_controller \<times> display_conns \<Rightarrow> frame_controller \<times> display_conns" where
  "set_send tm ids fd =
     (case fd of (fc, conns) \<Rightarrow>
        if ids \<noteq> {} then (fc\<lparr>fc_cur := tm, send_conn_ids := ids\<rparr>, hm_insert (fc_display fc) ids conns) else (fc, conns))"

text \<open>
  \<open>try_wait_next\<close>: the notifications that arrived before the timeout, or were queued behind the
  first; \<open>registered\<close> tells whether the display has a notifier.
\<close>

definition try_wait_next :: "bool \<Rightarrow> int list \<Rightarrow> frame_controller \<Rightarrow> int set \<Rightarrow> int set" where
  "try_wait_next registered ids fc fetched =
     (if send_conn_ids fc = {} then fetched else if \<not> registered then fetched else fetched \<union> set ids)"

text \<open>The wait at the end of a round: at most as many polls as fit into three seconds.\<close>

fun wait_fetched :: "bool \<Rightarrow> int list list \<Rightarrow> frame_controller \<Rightarrow> int set \<Rightarrow> int set \<times> nat" where
  "wait_fetched registered [] fc fetched = (fetched, 0)"
| "wait_fetched registered (ids # polls) fc fetched =
     (let fetched = try_wait_next registered ids fc fetched in
      if card (send_conn_ids fc) \<le> card fetched then (fetched, 1)
      else case wait_fetched registered polls fc fetched of (f, n) \<Rightarrow> (f, Suc n))"

section \<open>Encoding a captured frame\<close>

text \<open>What the encoder returns: a frame, a frame without content, or an error and its kind.\<close>

datatype 'a encoded = Encoded 'a | EncodedEmpty 'a | EncodeFailed bool bool

record encoder_traits =
  latency_free :: bool
  is_hardware :: bool

datatype loop_error = Switch

record 'a loop_state =
  lp_service :: "'a service_inner"
  encode_fail_counter :: nat
  first_frame :: bool
  encoder_warmed_up :: bool
  encoder_disabled :: bool

text \<open>New subscribers share the encoder with the old ones, so it is made anew for them.\<close>

definition switch_for_new :: "'a service_inner \<Rightarrow> (loop_error, unit) result \<times> 'a service_inner" where
  "switch_for_new = snapshot (\<lambda>s. (if swap_has_subscribes s then Err Switch else Ok (), s))"

definition handle_one_frame ::
    "bool \<Rightarrow> encoder_traits \<Rightarrow> 'a encoded \<Rightarrow> 'a loop_state \<Rightarrow> (loop_error, int set \<times> bool) result \<times> 'a loop_state" where
  "handle_one_frame android enc out st =
     (case switch_for_new (lp_service st) of
        (Inl e, sv) \<Rightarrow> (Err e, st\<lparr>lp_service := sv\<rparr>)
      | (Inr _, sv) \<Rightarrow>
          let first = first_frame st; st = st\<lparr>lp_service := sv, first_frame := False\<rparr>;
              send = (\<lambda>f. case send_video_frame_shared (VideoFrame f) sv of (ids, sv) \<Rightarrow>
                (Ok (ids, False), st\<lparr>lp_service := sv, encode_fail_counter := 0, encoder_warmed_up := True\<rparr>))
          in case out of
            Encoded f \<Rightarrow> send f
          | EncodedEmpty f \<Rightarrow> send f
          | EncodeFailed no_output need_switch \<Rightarrow>
              let fails = encode_fail_counter st + 1;
                  max_fail_times = (if android \<and> is_hardware enc then 9 else 3);
                  give_up = first \<and> latency_free enc \<or> max_fail_times \<le> fails;
                  st = st\<lparr>encode_fail_counter := if give_up then 0 else fails\<rparr>
              in if give_up \<and> is_hardware enc then (Err Switch, st\<lparr>encoder_disabled := True\<rparr>)
                 else if need_switch then (Err Switch, st\<lparr>encoder_disabled := True\<rparr>)
                 else (Ok ({}, no_output), st))"

section \<open>Repeating a still picture\<close>

definition INITIAL_REPEAT_INTERVAL :: nat where "INITIAL_REPEAT_INTERVAL = 100000000"
definition MAX_REPEAT_FPS :: nat where "MAX_REPEAT_FPS = 30"
definition MAX_REPEAT_FAILURES :: nat where "MAX_REPEAT_FAILURES = 3"
definition MAX_REPEAT_NO_OUTPUTS :: nat where "MAX_REPEAT_NO_OUTPUTS = 100"

datatype codec_format = VP8 | VP9 | AV1 | H264 | H265 | UnknownCodec
datatype hardware_backend = Nvenc | Qsv | Amf | Vaapi | VideoToolbox | OtherBackend

fun repeat_table :: "codec_format \<Rightarrow> hardware_backend \<Rightarrow> (nat \<times> nat \<times> nat \<times> nat) option" where
  "repeat_table VP8 _ = Some (20, 20, 20, 30)"
| "repeat_table VP9 _ = Some (40, 20, 20, 20)"
| "repeat_table H264 Nvenc = Some (80, 50, 60, 30)"
| "repeat_table H264 Qsv = Some (80, 70, 130, 110)"
| "repeat_table H264 Amf = Some (150, 150, 170, 110)"
| "repeat_table H264 Vaapi = Some (150, 100, 90, 60)"
| "repeat_table H265 Nvenc = Some (160, 90, 60, 30)"
| "repeat_table H265 Qsv = Some (150, 30, 30, 30)"
| "repeat_table H265 Amf = Some (200, 200, 200, 120)"
| "repeat_table H265 VideoToolbox = Some (90, 90, 50, 90)"
| "repeat_table H264 _ = Some (90, 60, 60, 30)"
| "repeat_table H265 _ = Some (90, 60, 60, 30)"
| "repeat_table AV1 _ = None"
| "repeat_table UnknownCodec _ = None"

definition max_repeat_frames :: "codec_format \<Rightarrow> f32 \<Rightarrow> hardware_backend \<Rightarrow> nat" where
  "max_repeat_frames codec quality backend =
     (case repeat_table codec backend of
        None \<Rightarrow> 0
      | Some (low, low_to_balanced, balanced_to_best, best) \<Rightarrow>
          if BR_BEST \<le> quality then best
          else if BR_BALANCED \<le> quality then balanced_to_best
          else if BR_SPEED \<le> quality then low_to_balanced else low)"

text \<open>The encoder's name, or the driver of the graphics card, gives the backend.\<close>

datatype encoder_cfg = HwRam string | VramNv | VramMfx | VramAmf | VramOther | OtherCfg

fun backend_of :: "encoder_cfg \<Rightarrow> hardware_backend" where
  "backend_of (HwRam name) =
     (if name = ''h264_nvenc'' \<or> name = ''hevc_nvenc'' then Nvenc
      else if name = ''h264_qsv'' \<or> name = ''hevc_qsv'' then Qsv
      else if name = ''h264_amf'' \<or> name = ''hevc_amf'' then Amf
      else if name = ''h264_vaapi'' then Vaapi
      else if name = ''hevc_videotoolbox'' then VideoToolbox
      else OtherBackend)"
| "backend_of VramNv = Nvenc"
| "backend_of VramMfx = Qsv"
| "backend_of VramAmf = Amf"
| "backend_of VramOther = OtherBackend"
| "backend_of OtherCfg = OtherBackend"

record static_refresh =
  sr_monitor :: bool
  sr_codec :: codec_format
  sr_backend :: hardware_backend
  last_encode :: nat
  repeat_output_counter :: nat
  repeat_no_outputs :: nat
  repeat_failures :: nat
  source_ready :: bool
  has_texture :: bool

definition refresh_new :: "bool \<Rightarrow> codec_format \<Rightarrow> encoder_cfg \<Rightarrow> nat \<Rightarrow> static_refresh" where
  "refresh_new monitor codec cfg now = \<lparr>sr_monitor = monitor, sr_codec = codec, sr_backend = backend_of cfg, last_encode = now,
     repeat_output_counter = 0, repeat_no_outputs = 0, repeat_failures = 0, source_ready = False, has_texture = False\<rparr>"

definition on_new_frame :: "bool \<Rightarrow> static_refresh \<Rightarrow> static_refresh" where
  "on_new_frame texture r = r\<lparr>repeat_output_counter := 0, repeat_no_outputs := 0, source_ready := False, has_texture := texture\<rparr>"

definition is_vpx :: "codec_format \<Rightarrow> bool" where
  "is_vpx c \<longleftrightarrow> c = VP8 \<or> c = VP9"

definition on_encoded :: "bool \<Rightarrow> nat \<Rightarrow> static_refresh \<Rightarrow> static_refresh" where
  "on_encoded success now r =
     (let r = r\<lparr>last_encode := now\<rparr> in if success then r\<lparr>source_ready := True, repeat_failures := 0\<rparr> else r)"

definition on_frame_encoded :: "int set \<times> bool \<Rightarrow> nat \<Rightarrow> static_refresh \<Rightarrow> static_refresh" where
  "on_frame_encoded result now r = on_encoded (fst result \<noteq> {} \<or> is_vpx (sr_codec r) \<and> snd result) now r"

text \<open>Whether a repetition is due; \<open>t\<close> is the time of the call.\<close>

definition refresh_due :: "nat \<Rightarrow> f32 \<Rightarrow> nat \<Rightarrow> static_refresh \<Rightarrow> bool" where
  "refresh_due spf0 quality t r =
     (let spf = max spf0 (1000000000 div MAX_REPEAT_FPS);
          interval = (if is_vpx (sr_codec r) \<or> repeat_output_counter r = 0 \<and> repeat_no_outputs r = 0
                      then max INITIAL_REPEAT_INTERVAL spf else spf)
      in \<not> (\<not> sr_monitor r \<or> sr_codec r = AV1 \<or> \<not> source_ready r
            \<or> MAX_REPEAT_FAILURES \<le> repeat_failures r \<and> \<not> (is_vpx (sr_codec r) \<or> sr_codec r = AV1)
            \<or> MAX_REPEAT_NO_OUTPUTS \<le> repeat_no_outputs r
            \<or> max_repeat_frames (sr_codec r) quality (sr_backend r) \<le> repeat_output_counter r
            \<or> t - last_encode r < interval))"

record refresh_call =
  yuv_empty :: bool
  call_spf :: nat
  call_quality :: f32
  call_now :: nat
  call_time :: nat
  done_time :: nat

text \<open>
  \<open>try_encode\<close>. Besides the result and the states it gives whether the encoder used and, if a frame
  was sent, to whom.
\<close>

definition try_encode ::
    "refresh_call \<Rightarrow> 'a encoded \<Rightarrow> static_refresh \<Rightarrow> 'a service_inner \<Rightarrow> frame_controller \<times> display_conns
     \<Rightarrow> (loop_error, unit) result \<times> bool \<times> int set option \<times> static_refresh \<times> 'a service_inner \<times> frame_controller \<times> display_conns" where
  "try_encode call out r sv fd =
     (if \<not> refresh_due (call_spf call) (call_quality call) (call_time call) r then (Ok (), False, None, r, sv, fd)
      else if yuv_empty call \<and> \<not> has_texture r then (Ok (), False, None, r, sv, fd)
      else case switch_for_new sv of
        (Inl e, sv) \<Rightarrow> (Err e, False, None, r, sv, fd)
      | (Inr _, sv) \<Rightarrow>
          let r = r\<lparr>last_encode := if is_vpx (sr_codec r) then done_time call else call_now call\<rparr> in
          case out of
            EncodedEmpty _ \<Rightarrow> (Ok (), True, None, r\<lparr>repeat_no_outputs := repeat_no_outputs r + 1\<rparr>, sv, fd)
          | EncodeFailed _ _ \<Rightarrow>
              (Ok (), True, None, r\<lparr>repeat_no_outputs := repeat_no_outputs r + 1, repeat_failures := repeat_failures r + 1\<rparr>, sv, fd)
          | Encoded f \<Rightarrow>
              let r = r\<lparr>repeat_output_counter := repeat_output_counter r + 1, repeat_failures := 0\<rparr>;
                  (ids, sv) = send_video_frame_shared (VideoFrame f) sv
              in (Ok (), True, Some ids, r, sv, set_send (call_now call) ids fd))"

section \<open>Frames and viewers\<close>

lemma switch_for_new_cases:
  "switch_for_new sv =
     (if new_subscribes sv = [] then (Ok (), sv)
      else (if subscribes sv = [] then Ok () else Err Switch, swap_new_subscribes sv))"
  by (simp add: switch_for_new_def snapshot_def swap_has_subscribes_def)

text \<open>The viewers that share the encoder from now on.\<close>

definition audience :: "'a service_inner \<Rightarrow> 'a service_inner" where
  "audience sv = (if new_subscribes sv = [] then sv else swap_new_subscribes sv)"

definition broadcast :: "'a \<Rightarrow> 'a service_inner \<Rightarrow> 'a service_inner" where
  "broadcast f sv = sv\<lparr>subscribes := hm_map_values (\<lambda>_. conn_send (VideoFrame f)) (subscribes sv)\<rparr>"


text \<open>A viewer that comes when the audience is empty joins the running encoder, whatever it has already produced.\<close>

lemma lone_newcomer_keeps_encoder:
  "subscribes (lp_service st) = [] \<Longrightarrow> new_subscribes (lp_service st) \<noteq> [] \<Longrightarrow> \<not> first_frame st \<Longrightarrow>
     fst (handle_one_frame android enc (Encoded f) st) =
       Ok (set (map (conn_id \<circ> snd) (subscribes (swap_new_subscribes (lp_service st)))), False)"
  by (simp add: handle_one_frame_def switch_for_new_cases send_video_frame_shared_def Let_def)

section \<open>A still picture\<close>

datatype 'a refresh_op = Repeat refresh_call "'a encoded" | Count bool nat

text \<open>The repetitions after a frame, until the next one: how often the encoder used and how many frames were sent.\<close>

fun refresh_run :: "'a refresh_op list \<Rightarrow> static_refresh \<Rightarrow> 'a service_inner \<Rightarrow> frame_controller \<times> display_conns \<Rightarrow> nat \<times> nat" where
  "refresh_run [] r sv fd = (0, 0)"
| "refresh_run (Count b t # ops) r sv fd = refresh_run ops (on_encoded b t r) sv fd"
| "refresh_run (Repeat c out # ops) r sv fd =
     (case try_encode c out r sv fd of
        (Inl _, _) \<Rightarrow> (0, 0)
      | (Inr _, used, sent, r, sv, fd) \<Rightarrow>
          (case refresh_run ops r sv fd of
             (n, k) \<Rightarrow> (if used then Suc n else n, if sent \<noteq> None then Suc k else k)))"

lemma try_encode_counts:
  assumes "try_encode c out r sv fd = (Inr u, used, sent, r', sv', fd')"
    and "\<And>q. max_repeat_frames (sr_codec r) q (sr_backend r) \<le> N" and "repeat_output_counter r \<le> N" "repeat_no_outputs r \<le> 100"
  shows "sr_codec r' = sr_codec r" "sr_backend r' = sr_backend r" "repeat_output_counter r' \<le> N" "repeat_no_outputs r' \<le> 100"
    "repeat_output_counter r' = repeat_output_counter r + (if sent \<noteq> None then 1 else 0)"
    "repeat_output_counter r' + repeat_no_outputs r' = repeat_output_counter r + repeat_no_outputs r + (if used then 1 else 0)"
proof -
  have due: "repeat_output_counter r < N \<and> repeat_no_outputs r < 100" if "refresh_due a q t r" for a q t
    using that assms(2)[of q] by (auto simp: refresh_due_def Let_def MAX_REPEAT_NO_OUTPUTS_def)
  show "sr_codec r' = sr_codec r" "sr_backend r' = sr_backend r" "repeat_output_counter r' \<le> N" "repeat_no_outputs r' \<le> 100"
    "repeat_output_counter r' = repeat_output_counter r + (if sent \<noteq> None then 1 else 0)"
    "repeat_output_counter r' + repeat_no_outputs r' = repeat_output_counter r + repeat_no_outputs r + (if used then 1 else 0)"
    using assms(1,3,4) due
    by (auto simp: try_encode_def Let_def Suc_le_eq split: if_splits prod.splits sum.splits encoded.splits)
qed

lemma refresh_run_counts:
  assumes "\<And>q. max_repeat_frames (sr_codec r) q (sr_backend r) \<le> N" and "repeat_output_counter r \<le> N" "repeat_no_outputs r \<le> 100"
  shows "snd (refresh_run ops r sv fd) + repeat_output_counter r \<le> N
    \<and> fst (refresh_run ops r sv fd) + repeat_output_counter r + repeat_no_outputs r \<le> N + 100"
  using assms
proof (induction ops r sv fd rule: refresh_run.induct)
  case (2 b t ops r sv fd)
  have same: "sr_codec (on_encoded b t r) = sr_codec r" "sr_backend (on_encoded b t r) = sr_backend r"
    "repeat_output_counter (on_encoded b t r) = repeat_output_counter r" "repeat_no_outputs (on_encoded b t r) = repeat_no_outputs r"
    by (simp_all add: on_encoded_def Let_def)
  show ?case using 2 by (simp add: same)
next
  case (3 c out ops r sv fd)
  obtain res used sent r' sv' fd' where e: "try_encode c out r sv fd = (res, used, sent, r', sv', fd')" by (metis prod_cases6)
  show ?case
  proof (cases res)
    case (Inr u)
    note t = try_encode_counts[OF e[unfolded Inr] 3(2,3,4)]
    show ?thesis using 3(1)[OF e[symmetric] Inr refl refl refl refl] 3(2) t e Inr by (auto split: prod.splits)
  qed (use 3 e in simp)
qed simp

text \<open>
  A picture that does not move is repeated only so often. After a frame was captured, until the
  next one, no more repetitions are sent than the largest entry of the table for its codec and
  backend, whatever the quality is meanwhile, and the encoder runs at most a hundred times more,
  whatever it returns.
\<close>

theorem still_picture_repeats_bounded:
  assumes "\<And>q. max_repeat_frames (sr_codec r) q (sr_backend r) \<le> N"
  shows "snd (refresh_run ops (on_new_frame texture r) sv fd) \<le> N \<and> fst (refresh_run ops (on_new_frame texture r) sv fd) \<le> N + 100"
  using refresh_run_counts[of "on_new_frame texture r" N ops sv fd] assms by (auto simp: on_new_frame_def)

definition still_call :: "nat \<Rightarrow> refresh_call" where
  "still_call t = \<lparr>yuv_empty = False, call_spf = 33000000, call_quality = 1, call_now = t, call_time = t, done_time = t\<rparr>"

definition still_ops :: "string refresh_op list" where
  "still_ops = [Count True 0, Repeat (still_call 50000000) (Encoded ''a''), Repeat (still_call 150000000) (Encoded ''b''),
     Repeat (still_call 350000000) (EncodeFailed True False)]"

theorem still_picture_repeats_bounded_witness:
  "snd (refresh_run still_ops (on_new_frame False (refresh_new True VP9 OtherCfg 0)) (service_new [] True) (fc_new 0 0, [])) \<le> 40
   \<and> fst (refresh_run still_ops (on_new_frame False (refresh_new True VP9 OtherCfg 0)) (service_new [] True) (fc_new 0 0, [])) \<le> 140
   \<and> refresh_run still_ops (on_new_frame False (refresh_new True VP9 OtherCfg 0)) (service_new [] True) (fc_new 0 0, []) = (2, 1)"
proof -
  have "refresh_run still_ops (on_new_frame False (refresh_new True VP9 OtherCfg 0)) (service_new [] True) (fc_new 0 0, []) = (2, 1)"
    by code_simp
  then show ?thesis
    using still_picture_repeats_bounded[of "refresh_new True VP9 OtherCfg 0" 40 still_ops False "service_new [] True" "(fc_new 0 0, [])"]
    by (simp add: refresh_new_def max_repeat_frames_def)
qed

end
