(* ===== verification/Server_Hub.thy ===== *)
theory Server_Hub
  imports Service "HOL-Library.Signed_Division"
begin

text \<open>
  The registry of services and connections of the controlled side (\<open>Server\<close> in \<open>src/server.rs\<close>):
  which connection is subscribed to which service, as displays are captured, permissions are given
  and taken, and connections come and go.
\<close>

section \<open>Service names\<close>

datatype video_source = Monitor | Camera

definition service_name_prefix :: "video_source \<Rightarrow> string" where
  "service_name_prefix src = (case src of Monitor \<Rightarrow> ''monitor'' | Camera \<Rightarrow> ''camera'')"

definition digit_char :: "nat \<Rightarrow> char" where
  "digit_char n = char_of (48 + n)"

fun show_dec :: "nat \<Rightarrow> string" where
  "show_dec n = (if n < 10 then [digit_char n] else show_dec (n div 10) @ [digit_char (n mod 10)])"

declare show_dec.simps [simp del]

definition get_service_name :: "video_source \<Rightarrow> nat \<Rightarrow> string" where
  "get_service_name src idx = service_name_prefix src @ show_dec idx"

definition is_video_service_name :: "string \<Rightarrow> bool" where
  "is_video_service_name name \<longleftrightarrow> take 7 name = service_name_prefix Monitor \<or> take 6 name = service_name_prefix Camera"

text \<open>Different displays have different services.\<close>

lemma digit_char_inj: "m < 10 \<Longrightarrow> n < 10 \<Longrightarrow> digit_char m = digit_char n \<longleftrightarrow> m = n"
  by (auto simp: digit_char_def dest: arg_cong[of "char_of (48 + m)" _ "of_char :: char \<Rightarrow> nat"])

lemma show_dec_inj: "show_dec m = show_dec n \<Longrightarrow> m = n"
proof (induction m arbitrary: n rule: less_induct)
  case (less m)
  show ?case
  proof (cases "m < 10 \<or> n < 10")
    case True
    have ne: "show_dec k \<noteq> []" for k by (simp add: show_dec.simps[of k])
    show ?thesis using less.prems True ne[of "m div 10"] ne[of "n div 10"]
      by (auto simp: show_dec.simps[of m] show_dec.simps[of n] digit_char_inj split: if_splits)
  next
    case False
    then have "show_dec (m div 10) = show_dec (n div 10)" "m mod 10 = n mod 10"
      using less.prems by (simp_all add: show_dec.simps[of m] show_dec.simps[of n] digit_char_inj)
    then show ?thesis using less.IH[of "m div 10"] False by (metis div_less_dividend div_mult_mod_eq gr_zeroI less_numeral_extra(3) not_less_iff_gr_or_eq numeral_less_iff one_less_numeral_iff semiring_norm(76) zero_less_numeral)
  qed
qed

lemma get_service_name_inj: "get_service_name src d = get_service_name src d' \<longleftrightarrow> d = d'"
  by (auto simp: get_service_name_def dest: show_dec_inj)

section \<open>The registry\<close>

record 'a server =
  connections :: "(int, 'a conn_inner) hmap"
  services :: "(string, 'a service_inner) hmap"
  id_count :: int

text \<open>The services of a new server, and the random number its first id is made from.\<close>

definition add_service :: "'a service_inner \<Rightarrow> 'a server \<Rightarrow> 'a server" where
  "add_service s h = h\<lparr>services := hm_insert (srv_name s) s (services h)\<rparr>"

definition server_new :: "(string \<times> bool) list \<Rightarrow> int \<Rightarrow> 'a server" where
  "server_new names r =
     fold (\<lambda>(n, snap). add_service (service_new n snap)) names \<lparr>connections = [], services = [], id_count = r smod 1000 + 1000\<rparr>"

definition contains_service :: "string \<Rightarrow> 'a server \<Rightarrow> bool" where
  "contains_service name h \<longleftrightarrow> hm_get (services h) name \<noteq> None"

definition try_add_monitor_service :: "nat \<Rightarrow> 'a server \<Rightarrow> 'a server" where
  "try_add_monitor_service idx h =
     (let n = get_service_name Monitor idx in if \<not> contains_service n h then add_service (service_new n True) h else h)"

text \<open>\<open>exists\<close> tells whether there is a camera; the primary one has index 0.\<close>

definition try_add_primary_camera_service :: "bool \<Rightarrow> 'a server \<Rightarrow> 'a server" where
  "try_add_primary_camera_service exists h =
     (if \<not> exists then h
      else let n = get_service_name Camera 0 in if \<not> contains_service n h then add_service (service_new n True) h else h)"

definition add_camera_connection :: "bool \<Rightarrow> 'a conn_inner \<Rightarrow> 'a server \<Rightarrow> 'a server" where
  "add_camera_connection exists c h =
     (let h = (if exists then h\<lparr>services := hm_modify (get_service_name Camera 0) (on_subscribe c) (services h)\<rparr> else h)
      in h\<lparr>connections := hm_insert (conn_id c) c (connections h)\<rparr>)"

definition add_monitor_connection :: "'a conn_inner \<Rightarrow> string list \<Rightarrow> nat \<Rightarrow> 'a server \<Rightarrow> 'a server" where
  "add_monitor_connection c noperms idx h =
     h\<lparr>services := hm_map_values (\<lambda>_ s.
          if is_video_service_name (srv_name s) \<and> srv_name s \<noteq> get_service_name Monitor idx then s
          else if srv_name s \<notin> set noperms then on_subscribe c s else s) (services h),
       connections := hm_insert (conn_id c) c (connections h)\<rparr>"

definition remove_connection :: "int \<Rightarrow> 'a server \<Rightarrow> 'a server" where
  "remove_connection i h =
     h\<lparr>services := hm_map_values (\<lambda>_. on_unsubscribe i) (services h), connections := hm_remove i (connections h)\<rparr>"

definition close_connections :: "'a message \<Rightarrow> 'a server \<Rightarrow> 'a server" where
  "close_connections stop h = h\<lparr>connections := hm_map_values (\<lambda>_. conn_send stop) (connections h)\<rparr>"

definition subscribe :: "string \<Rightarrow> 'a conn_inner \<Rightarrow> bool \<Rightarrow> 'a server \<Rightarrow> 'a server" where
  "subscribe name c sub h =
     (case hm_get (services h) name of
        None \<Rightarrow> h
      | Some s \<Rightarrow>
          if is_subed (conn_id c) s = sub then h
          else h\<lparr>services := hm_modify name (if sub then on_subscribe c else on_unsubscribe (conn_id c)) (services h)\<rparr>)"

definition get_new_id :: "'a server \<Rightarrow> int \<times> 'a server" where
  "get_new_id h = (wrap_i32 (id_count h + 1), h\<lparr>id_count := wrap_i32 (id_count h + 1)\<rparr>)"

definition set_video_service_opt :: "(video_source \<times> nat) option \<Rightarrow> string \<Rightarrow> string \<Rightarrow> 'a server \<Rightarrow> 'a server" where
  "set_video_service_opt display opt v h =
     h\<lparr>services := hm_map_values (\<lambda>k s.
          if (case display of Some (src, d) \<Rightarrow> k \<noteq> get_service_name src d | None \<Rightarrow> False) then s
          else if is_video_service_name k then snd (set_option opt v s) else s) (services h)\<rparr>"

definition get_subbed_displays_count :: "int \<Rightarrow> 'a server \<Rightarrow> nat" where
  "get_subbed_displays_count i h =
     length (filter (\<lambda>k. is_video_service_name k \<and> (case hm_get (services h) k of Some s \<Rightarrow> is_subed i s | None \<Rightarrow> False))
       (map fst (services h)))"

text \<open>The body of the loop over the services of \<open>capture_displays\<close>.\<close>

definition capture_one :: "string set \<Rightarrow> bool \<Rightarrow> bool \<Rightarrow> 'a conn_inner \<Rightarrow> string \<Rightarrow> 'a server \<Rightarrow> 'a server" where
  "capture_one names incl excl c name h =
     (if is_video_service_name name then
        if name \<in> names then (if incl then subscribe name c True h else h)
        else (if excl then subscribe name c False h else h)
      else h)"

definition capture_displays :: "'a conn_inner \<Rightarrow> video_source \<Rightarrow> nat list \<Rightarrow> bool \<Rightarrow> bool \<Rightarrow> 'a server \<Rightarrow> 'a server" where
  "capture_displays c src displays incl excl h =
     (let names = map (get_service_name src) displays in
      fold (capture_one (set names) incl excl c) (map fst (services h)) h)"

definition server_drop :: "'a server \<Rightarrow> 'a server" where
  "server_drop h = h\<lparr>services := hm_map_values (\<lambda>_. service_join) (services h)\<rparr>"

section \<open>Who is subscribed\<close>

abbreviation plain_ok :: "'a service_inner \<Rightarrow> bool" where
  "plain_ok \<equiv> tables_ok (\<lambda>_. True) (\<lambda>_. True)"

lemma is_subed_subscribe [simp]: "is_subed i (on_subscribe c s) \<longleftrightarrow> i = conn_id c \<or> is_subed i s"
  by (auto simp: is_subed_def on_subscribe_def hm_simps)

lemma is_subed_unsubscribe:
  assumes "plain_ok s"
  shows "is_subed i (on_unsubscribe j s) \<longleftrightarrow> i \<noteq> j \<and> is_subed i s"
proof -
  have "hm_get (subscribes s) j = None \<or> hm_get (new_subscribes s) j = None"
    unfolding keys_get using assms by (auto simp: tables_ok_def)
  then show ?thesis by (auto simp: is_subed_def on_unsubscribe_def hm_simps split: option.splits)
qed

lemma srv_name_keeps [simp]:
  "srv_name (on_subscribe c s) = srv_name s" "srv_name (on_unsubscribe i s) = srv_name s"
  "srv_name (snd (set_option k v s)) = srv_name s" "srv_name (service_join s) = srv_name s"
  by (simp_all add: on_subscribe_def on_unsubscribe_def set_option_def service_join_def split: option.splits)

lemma plain_ok_keeps:
  "plain_ok s \<Longrightarrow> plain_ok (on_subscribe c s)" "plain_ok s \<Longrightarrow> plain_ok (on_unsubscribe i s)"
  "plain_ok s \<Longrightarrow> plain_ok (snd (set_option k v s))" "plain_ok s \<Longrightarrow> plain_ok (service_join s)"
  by (simp_all add: tables_subscribe tables_unsubscribe) (simp_all add: tables_ok_def set_option_def service_join_def)

text \<open>Every service stands under its own name, with well-formed tables of subscribers.\<close>

definition server_ok :: "'a server \<Rightarrow> bool" where
  "server_ok h \<longleftrightarrow> hm_ok (services h) \<and> entries (\<lambda>k s. srv_name s = k \<and> plain_ok s) (services h)"

lemma server_ok_map:
  assumes "server_ok h" "\<And>k s. srv_name s = k \<Longrightarrow> plain_ok s \<Longrightarrow> srv_name (f k s) = k \<and> plain_ok (f k s)"
  shows "server_ok (h\<lparr>services := hm_map_values f (services h), connections := cs\<rparr>)"
    "server_ok (h\<lparr>services := hm_map_values f (services h)\<rparr>)"
  using assms by (auto simp: server_ok_def intro!: entries_map_values)

lemma server_ok_modify:
  assumes "server_ok h" "\<And>s. plain_ok s \<Longrightarrow> srv_name (f s) = srv_name s \<and> plain_ok (f s)"
  shows "server_ok (h\<lparr>services := hm_modify k f (services h)\<rparr>)"
  using assms by (auto simp: server_ok_def intro!: entries_modify)

lemma server_ok_add: "server_ok h \<Longrightarrow> plain_ok s \<Longrightarrow> server_ok (add_service s h)"
  by (auto simp: server_ok_def add_service_def intro!: entries_insert)

lemma server_ok_new: "server_ok (server_new names r)"
proof -
  have "server_ok h \<Longrightarrow> server_ok (fold (\<lambda>(n, snap). add_service (service_new n snap)) names h)" for h :: "'a server"
    by (induction names arbitrary: h) (auto intro: server_ok_add tables_new)
  then show ?thesis unfolding server_new_def by (simp add: server_ok_def[of "\<lparr>connections = [], services = [], id_count = _\<rparr>"] entries_def)
qed

lemma server_ok_subscribe: "server_ok h \<Longrightarrow> server_ok (subscribe name c b h)"
  by (auto simp: subscribe_def plain_ok_keeps intro!: server_ok_modify split: option.splits)

lemma server_ok_capture_one: "server_ok h \<Longrightarrow> server_ok (capture_one N incl excl c x h)"
  by (simp add: capture_one_def server_ok_subscribe)

lemma server_ok_capture: "server_ok h \<Longrightarrow> server_ok (capture_displays c src ds incl excl h)"
proof -
  have "server_ok h \<Longrightarrow> server_ok (fold (capture_one N incl excl c) ks h)" for N ks and h :: "'a server"
    by (induction ks arbitrary: h) (simp_all add: server_ok_capture_one)
  then show "server_ok h \<Longrightarrow> ?thesis" by (simp add: capture_displays_def)
qed

text \<open>Subscription, read from the registry.\<close>

definition subed :: "string \<Rightarrow> int \<Rightarrow> 'a server \<Rightarrow> bool" where
  "subed name i h \<longleftrightarrow> (case hm_get (services h) name of Some s \<Rightarrow> is_subed i s | None \<Rightarrow> False)"

lemma server_okD: "server_ok h \<Longrightarrow> hm_get (services h) k = Some s \<Longrightarrow> srv_name s = k \<and> plain_ok s"
  by (auto simp: server_ok_def entries_def dest!: map_of_SomeD)

lemma subed_subscribe:
  assumes "server_ok h"
  shows "subed k i (subscribe name c b h) \<longleftrightarrow>
     (if k = name \<and> i = conn_id c \<and> contains_service name h then b else subed k i h)"
  using server_okD[OF assms, of name]
  by (auto simp: subscribe_def subed_def contains_service_def hm_simps is_subed_unsubscribe split: option.splits)

lemma contains_subscribe [simp]: "contains_service k (subscribe name c b h) = contains_service k h"
  by (auto simp: contains_service_def subscribe_def hm_simps split: option.splits)

definition asked :: "string set \<Rightarrow> bool \<Rightarrow> bool \<Rightarrow> string \<Rightarrow> bool \<Rightarrow> bool" where
  "asked N incl excl k old \<longleftrightarrow> (if k \<in> N then incl \<or> old else \<not> excl \<and> old)"

lemma subed_capture_one:
  assumes "server_ok h"
  shows "subed k i (capture_one N incl excl c x h) \<longleftrightarrow>
     (if k = x \<and> contains_service k h \<and> is_video_service_name k \<and> i = conn_id c then asked N incl excl k (subed k i h) else subed k i h)"
  by (auto simp: capture_one_def subed_subscribe[OF assms] asked_def)

lemma contains_capture_one: "contains_service k (capture_one N incl excl c x h) = contains_service k h"
  by (simp add: capture_one_def)

lemma subed_capture_fold:
  assumes "server_ok h" "distinct ks"
  shows "subed k i (fold (capture_one N incl excl c) ks h) \<longleftrightarrow>
     (if k \<in> set ks \<and> contains_service k h \<and> is_video_service_name k \<and> i = conn_id c
      then asked N incl excl k (subed k i h) else subed k i h)"
  using assms
proof (induction ks arbitrary: h)
  case (Cons x ks)
  have "server_ok (capture_one N incl excl c x h)" using Cons.prems by (simp add: server_ok_capture_one)
  then show ?case using Cons.IH[of "capture_one N incl excl c x h"] Cons.prems
    by (cases "k = x") (simp_all add: contains_capture_one subed_capture_one)
qed simp

section \<open>A server at work\<close>

datatype 'a server_op =
    AddMonitorService nat
  | AddCameraService bool
  | AddMonitorConnection "'a conn_inner" "string list" nat
  | AddCameraConnection bool "'a conn_inner"
  | RemoveConnection int
  | SubscribeTo string "'a conn_inner" bool
  | CaptureDisplays "'a conn_inner" video_source "nat list" bool bool
  | SetVideoOption "(video_source \<times> nat) option" string string
  | ServiceDoes string "'a service_op"
  | NewId
  | DropServer

fun server_step :: "'a server_op \<Rightarrow> 'a server \<Rightarrow> 'a server" where
  "server_step (AddMonitorService d) h = try_add_monitor_service d h"
| "server_step (AddCameraService e) h = try_add_primary_camera_service e h"
| "server_step (AddMonitorConnection c np d) h = add_monitor_connection c np d h"
| "server_step (AddCameraConnection e c) h = add_camera_connection e c h"
| "server_step (RemoveConnection i) h = remove_connection i h"
| "server_step (SubscribeTo n c b) h = subscribe n c b h"
| "server_step (CaptureDisplays c src ds i e) h = capture_displays c src ds i e h"
| "server_step (SetVideoOption d k v) h = set_video_service_opt d k v h"
| "server_step (ServiceDoes n x) h = h\<lparr>services := hm_modify n (service_step x) (services h)\<rparr>"
| "server_step NewId h = snd (get_new_id h)"
| "server_step DropServer h = server_drop h"

lemma srv_name_send_new [simp]: "srv_name (fold send_new_subscribes ms s) = srv_name s"
  by (induction ms arbitrary: s) (simp_all add: send_new_subscribes_def)

lemma service_step_plain:
  assumes "plain_ok s"
  shows "srv_name (service_step x s) = srv_name s \<and> plain_ok (service_step x s)"
proof
  show "srv_name (service_step x s) = srv_name s"
    by (cases x) (simp_all add: snapshot_def swap_new_subscribes_def send_to_def send_defs)
qed (rule tables_step[OF assms]; simp)

lemma server_step_ok:
  assumes "server_ok h"
  shows "server_ok (server_step x h)"
proof (cases x)
  case (AddMonitorService d)
  then show ?thesis using assms by (simp add: try_add_monitor_service_def Let_def server_ok_add tables_new)
next
  case (AddCameraService e)
  then show ?thesis using assms by (simp add: try_add_primary_camera_service_def Let_def server_ok_add tables_new)
next
  case (AddMonitorConnection c np d)
  then show ?thesis unfolding AddMonitorConnection server_step.simps add_monitor_connection_def
    by (intro server_ok_map(1)[OF assms]) (auto simp: plain_ok_keeps)
next
  case (AddCameraConnection e c)
  have "server_ok (h\<lparr>services := hm_modify (get_service_name Camera 0) (on_subscribe c) (services h)\<rparr>)"
    by (rule server_ok_modify[OF assms]) (simp add: plain_ok_keeps)
  then show ?thesis using assms AddCameraConnection by (simp add: add_camera_connection_def Let_def server_ok_def)
next
  case (RemoveConnection i)
  then show ?thesis unfolding RemoveConnection server_step.simps remove_connection_def
    by (intro server_ok_map(1)[OF assms]) (auto simp: plain_ok_keeps)
next
  case (SetVideoOption d k v)
  then show ?thesis unfolding SetVideoOption server_step.simps set_video_service_opt_def
    by (intro server_ok_map(2)[OF assms]) (auto simp: plain_ok_keeps)
next
  case (ServiceDoes n y)
  then show ?thesis using server_ok_modify[OF assms service_step_plain] by simp
next
  case NewId
  then show ?thesis using assms by (simp add: get_new_id_def server_ok_def)
next
  case DropServer
  then show ?thesis unfolding DropServer server_step.simps server_drop_def
    by (intro server_ok_map(2)[OF assms]) (auto simp: plain_ok_keeps)
qed (use assms in \<open>simp_all add: server_ok_subscribe server_ok_capture\<close>)

section \<open>Property\<close>

text \<open>
  C33: Subscriptions are what was asked for. However a server got to its present state, its tables are
  well-formed; capturing a set of displays subscribes the connection to the services of exactly those
  displays that exist, or adds or removes just them, as asked, and touches no other connection and no
  other service; and a connection that is removed is subscribed to nothing, while all others keep what
  they had.
\<close>

theorem subscriptions_as_asked:
  "let h = fold server_step ops (server_new names r) in server_ok h
     \<and> (subed k i (capture_displays c src ds incl excl h) \<longleftrightarrow>
          (if is_video_service_name k \<and> i = conn_id c
           then (if k \<in> get_service_name src ` set ds then incl \<and> contains_service k h \<or> subed k i h else \<not> excl \<and> subed k i h)
           else subed k i h))
     \<and> (subed k i (remove_connection j h) \<longleftrightarrow> i \<noteq> j \<and> subed k i h)"
proof -
  define h where "h = fold server_step ops (server_new names r)"
  have ok: "server_ok h"
    unfolding h_def by (induction ops rule: rev_induct) (simp_all add: server_ok_new server_step_ok)
  have d: "distinct (map fst (services h))" using ok by (simp add: server_ok_def hm_ok_def)
  have k: "k \<in> set (map fst (services h)) \<longleftrightarrow> contains_service k h" "subed k i h \<Longrightarrow> contains_service k h"
    by (simp add: contains_service_def keys_get) (auto simp: contains_service_def subed_def split: option.splits)
  have c: "subed k i (capture_displays c src ds incl excl h) \<longleftrightarrow>
      (if is_video_service_name k \<and> i = conn_id c
       then (if k \<in> get_service_name src ` set ds then incl \<and> contains_service k h \<or> subed k i h else \<not> excl \<and> subed k i h)
       else subed k i h)"
    using subed_capture_fold[OF ok d, of k i "get_service_name src ` set ds" incl excl c] k
    by (auto simp: capture_displays_def asked_def)
  have "subed k i (remove_connection j h) \<longleftrightarrow> i \<noteq> j \<and> subed k i h"
    using server_okD[OF ok, of k] by (auto simp: subed_def remove_connection_def hm_simps is_subed_unsubscribe split: option.splits)
  then show ?thesis using ok c unfolding h_def[symmetric] Let_def by blast
qed

end
