(* ===== verification/Pcm_Handoff.thy ===== *)
theory Pcm_Handoff
  imports BGDesk_Prelude F32 "HOL-Library.Sublist" "HOL-Library.Code_Target_Nat"
begin

text \<open>
  Captured sound on its way to the encoder (\<open>src/server/audio_service/audio_capture_queue.rs\<close> and
  \<open>audio_capture_encoder.rs\<close>): the capture callback hands packets over without ever waiting, through
  a fixed pool of buffers that drops the oldest packet when it is exhausted; a worker thread takes
  them, smooths the joint where packets are missing, and encodes. The two threads interleave at
  every access to the shared pool. Samples are rationals with the rounding of \<open>f32\<close>.
\<close>

section \<open>Losses and statistics\<close>

record pcm_loss =
  dropped :: nat
  contention_dropped :: nat
  oversized :: nat
  recycle_failures :: nat

definition no_loss :: pcm_loss where
  "no_loss = \<lparr>dropped = 0, contention_dropped = 0, oversized = 0, recycle_failures = 0\<rparr>"

definition loss_is_empty :: "pcm_loss \<Rightarrow> bool" where
  "loss_is_empty l \<longleftrightarrow> dropped l = 0 \<and> oversized l = 0 \<and> recycle_failures l = 0"

definition loss_add :: "pcm_loss \<Rightarrow> pcm_loss \<Rightarrow> pcm_loss" where
  "loss_add a b = \<lparr>dropped = dropped a + dropped b, contention_dropped = contention_dropped a + contention_dropped b,
     oversized = oversized a + oversized b, recycle_failures = recycle_failures a + recycle_failures b\<rparr>"

record pcm_stats =
  st_loss :: pcm_loss
  max_queued :: nat

definition no_stats :: pcm_stats where "no_stats = \<lparr>st_loss = no_loss, max_queued = 0\<rparr>"

definition stats_is_empty :: "pcm_stats \<Rightarrow> bool" where
  "stats_is_empty s \<longleftrightarrow> loss_is_empty (st_loss s) \<and> max_queued s = 0"

definition stats_add :: "pcm_stats \<Rightarrow> pcm_stats \<Rightarrow> pcm_stats" where
  "stats_add a b = \<lparr>st_loss = loss_add (st_loss a) (st_loss b), max_queued = max (max_queued a) (max_queued b)\<rparr>"

section \<open>The pool\<close>

type_synonym packet = "f32 list"

text \<open>The shared pool, with the capacity of its free list, its counters and the wake-up of the worker.\<close>

record handoff =
  available :: "packet list"
  available_capacity :: nat
  ready :: "(nat \<times> packet) list"
  h_other_dropped :: nat
  h_contention :: nat
  h_oversized :: nat
  h_recycle_failures :: nat
  h_max_queued :: nat
  max_samples :: nat
  wake_thread :: bool
  wake_token :: bool

definition CAPTURE_PCM_QUEUE_PACKETS :: nat where "CAPTURE_PCM_QUEUE_PACKETS = 10"

text \<open>\<open>Vec::with_capacity\<close> allots at least what was asked for: \<open>extra\<close> more.\<close>

definition new_pcm_handoff :: "nat \<Rightarrow> nat \<Rightarrow> nat \<Rightarrow> handoff option" where
  "new_pcm_handoff extra capacity samples =
     (if capacity = 0 \<or> samples = 0 then None
      else Some \<lparr>available = replicate capacity [], available_capacity = capacity + extra, ready = [], h_other_dropped = 0,
        h_contention = 0, h_oversized = 0, h_recycle_failures = 0, h_max_queued = 0, max_samples = samples,
        wake_thread = False, wake_token = False\<rparr>)"

definition set_wake_thread :: "handoff \<Rightarrow> handoff option" where
  "set_wake_thread h = (if wake_thread h then None else Some (h\<lparr>wake_thread := True\<rparr>))"

definition wake :: "handoff \<Rightarrow> handoff" where
  "wake h = (if wake_thread h then h\<lparr>wake_token := True\<rparr> else h)"

definition take_buffer :: "handoff \<Rightarrow> packet option \<times> handoff" where
  "take_buffer h =
     (if available h \<noteq> [] then (Some (last (available h)), h\<lparr>available := butlast (available h)\<rparr>)
      else case ready h of
             [] \<Rightarrow> (None, h)
           | (_, b) # rest \<Rightarrow> (Some b, h\<lparr>ready := rest, h_other_dropped := h_other_dropped h + 1\<rparr>))"

text \<open>Whether the lock was free, held by the worker, or poisoned.\<close>

datatype lock_state = Free | Contended | Poisoned

definition submit :: "lock_state \<Rightarrow> packet \<Rightarrow> nat \<times> handoff \<Rightarrow> nat \<times> handoff" where
  "submit lock input sh =
     (case sh of (seq, h) \<Rightarrow>
        ((seq + 1) mod 2 ^ 64,
         if max_samples h < length input then wake (h\<lparr>h_oversized := h_oversized h + 1\<rparr>)
         else case lock of
           Contended \<Rightarrow> wake (h\<lparr>h_contention := h_contention h + 1\<rparr>)
         | Poisoned \<Rightarrow> wake (h\<lparr>h_other_dropped := h_other_dropped h + 1\<rparr>)
         | Free \<Rightarrow>
             (case take_buffer h of
                (Some _, h) \<Rightarrow>
                  let r = ready h @ [(seq, input)]
                  in wake (h\<lparr>ready := r, h_max_queued := max (h_max_queued h) (length r)\<rparr>)
              | (None, h) \<Rightarrow> wake (h\<lparr>h_other_dropped := h_other_dropped h + 1\<rparr>))))"

definition pop_packet :: "handoff \<Rightarrow> (nat \<times> packet) option \<times> handoff" where
  "pop_packet h = (case ready h of [] \<Rightarrow> (None, h) | p # rest \<Rightarrow> (Some p, h\<lparr>ready := rest\<rparr>))"

definition recycle :: "packet \<Rightarrow> handoff \<Rightarrow> handoff" where
  "recycle b h =
     (if length (available h) = available_capacity h then h\<lparr>h_recycle_failures := h_recycle_failures h + 1\<rparr>
      else h\<lparr>available := available h @ [[]]\<rparr>)"

definition take_loss :: "handoff \<Rightarrow> pcm_loss \<times> handoff" where
  "take_loss h =
     (\<lparr>dropped = h_other_dropped h + h_contention h, contention_dropped = h_contention h,
       oversized = h_oversized h, recycle_failures = h_recycle_failures h\<rparr>,
      h\<lparr>h_other_dropped := 0, h_contention := 0, h_oversized := 0, h_recycle_failures := 0\<rparr>)"

definition take_stats :: "handoff \<Rightarrow> pcm_stats \<times> handoff" where
  "take_stats h = (case take_loss h of (l, h) \<Rightarrow> (\<lparr>st_loss = l, max_queued = h_max_queued h\<rparr>, h\<lparr>h_max_queued := 0\<rparr>))"

section \<open>The encoder's state\<close>

definition CAPTURE_DECLICK_MS :: nat where "CAPTURE_DECLICK_MS = 5"
definition MILLISECONDS_PER_SECOND :: nat where "MILLISECONDS_PER_SECOND = 1000"
definition CAPTURE_STATS_LOG_INTERVAL :: nat where "CAPTURE_STATS_LOG_INTERVAL = 5000"

record encoder_state =
  channels :: nat
  expected_sequence :: nat
  fade_frames :: nat
  last_frame :: packet
  pending :: pcm_stats
  last_report :: nat
  reports :: "pcm_stats list"

definition encoder_new :: "nat \<Rightarrow> nat \<Rightarrow> encoder_state" where
  "encoder_new sample_rate chans =
     \<lparr>channels = chans, expected_sequence = 0, fade_frames = sample_rate * CAPTURE_DECLICK_MS div MILLISECONDS_PER_SECOND,
      last_frame = [0, 0], pending = no_stats, last_report = 0, reports = []\<rparr>"

text \<open>Rounding of a signed value; the weights and samples are zero or normal numbers.\<close>

definition f32_signed :: "rat \<Rightarrow> f32" where
  "f32_signed x = (if x < 0 then - f32_round (- x) else f32_round x)"

definition mix :: "f32 \<Rightarrow> f32 \<Rightarrow> f32 \<Rightarrow> f32" where
  "mix old w x = f32_signed (f32_signed (old * f32_signed (1 - w)) + f32_signed (x * w))"

text \<open>\<open>chunks_exact(n)\<close> by index: sample \<open>i\<close> belongs to frame \<open>i div n\<close>, and the rest is left out.\<close>

definition fade :: "encoder_state \<Rightarrow> packet \<Rightarrow> packet" where
  "fade e packet =
     map (\<lambda>i. let k = i div channels e in
        if k < min (fade_frames e) (length packet div channels e)
        then mix (last_frame e ! (i mod channels e)) (f32_div (f32_of_nat (k + 1)) (f32_of_nat (fade_frames e))) (packet ! i)
        else packet ! i) [0..<length packet]"

definition smooth_packet :: "nat \<Rightarrow> packet \<Rightarrow> encoder_state \<Rightarrow> packet \<times> encoder_state" where
  "smooth_packet seq packet e =
     (let p = (if seq \<noteq> expected_sequence e then fade e packet else packet);
          n = length p div channels e;
          e = e\<lparr>expected_sequence := (seq + 1) mod 2 ^ 64\<rparr>
      in (p, if 0 < n then e\<lparr>last_frame := take (channels e) (drop ((n - 1) * channels e) p) @ drop (channels e) (last_frame e)\<rparr> else e))"

text \<open>\<open>CaptureStatsReporter::report\<close>: what was gathered is written out, now and then.\<close>

definition report :: "bool \<Rightarrow> nat \<Rightarrow> encoder_state \<Rightarrow> encoder_state" where
  "report force now e =
     (if stats_is_empty (pending e) then e
      else if \<not> force \<and> now - last_report e < CAPTURE_STATS_LOG_INTERVAL then e
      else e\<lparr>reports := reports e @ [pending e], pending := no_stats, last_report := now\<rparr>)"

definition next_packet :: "nat \<Rightarrow> handoff \<times> encoder_state \<Rightarrow> ((nat \<times> packet) \<times> packet) option \<times> handoff \<times> encoder_state" where
  "next_packet now he =
     (case he of (h, e) \<Rightarrow>
      case take_stats h of (s, h) \<Rightarrow>
        let e = report False now (e\<lparr>pending := stats_add (pending e) s\<rparr>) in
        case pop_packet h of
          (None, h) \<Rightarrow> (None, h, e)
        | (Some (seq, p), h) \<Rightarrow> (case smooth_packet seq p e of (p', e) \<Rightarrow> (Some ((seq, p), p'), h, e)))"

section \<open>The two threads\<close>

text \<open>Where the worker is: about to look for a packet, holding one, before the check for the end, waiting, gone.\<close>

datatype worker = Drain | Hold packet | Idle | Park | Finished

text \<open>The history of what was submitted, taken and encoded is kept beside the state.\<close>

record capture =
  hand :: handoff
  sender_sequence :: nat
  enc :: encoder_state
  worker_at :: worker
  stopping :: bool
  submitted :: "packet list"
  popped :: "(nat \<times> packet) list"
  encoded_packets :: "packet list"

definition start_capture_encoder :: "nat \<Rightarrow> nat \<Rightarrow> nat \<Rightarrow> nat \<Rightarrow> capture option" where
  "start_capture_encoder extra samples sample_rate chans =
     (case new_pcm_handoff extra CAPTURE_PCM_QUEUE_PACKETS samples of
        None \<Rightarrow> None
      | Some h \<Rightarrow>
          (case set_wake_thread h of
             None \<Rightarrow> None
           | Some h \<Rightarrow> Some \<lparr>hand = h, sender_sequence = 0, enc = encoder_new sample_rate chans, worker_at = Drain,
               stopping = False, submitted = [], popped = [], encoded_packets = []\<rparr>))"

text \<open>One access of the worker to the pool, in \<open>run_capture_encoder\<close>; \<open>expired\<close> is a wait that timed out.\<close>

definition run_capture_encoder :: "nat \<Rightarrow> bool \<Rightarrow> capture \<Rightarrow> capture" where
  "run_capture_encoder now expired c =
     (case worker_at c of
        Drain \<Rightarrow>
          (case next_packet now (hand c, enc c) of
             (None, h, e) \<Rightarrow> c\<lparr>hand := h, enc := e, worker_at := Idle\<rparr>
           | (Some (p, p'), h, e) \<Rightarrow> c\<lparr>hand := h, enc := e, worker_at := Hold p', popped := popped c @ [p]\<rparr>)
      | Hold p \<Rightarrow> c\<lparr>hand := recycle p (hand c), worker_at := Drain, encoded_packets := encoded_packets c @ [p]\<rparr>
      | Idle \<Rightarrow>
          (if stopping c \<and> ready (hand c) = [] then
             case take_stats (hand c) of (s, h) \<Rightarrow>
               c\<lparr>hand := h, enc := report True now ((enc c)\<lparr>pending := stats_add (pending (enc c)) s\<rparr>), worker_at := Finished\<rparr>
           else c\<lparr>worker_at := Park\<rparr>)
      | Park \<Rightarrow>
          (if wake_token (hand c) then c\<lparr>hand := (hand c)\<lparr>wake_token := False\<rparr>, worker_at := Drain\<rparr>
           else if expired then c\<lparr>worker_at := Drain\<rparr> else c)
      | Finished \<Rightarrow> c)"

datatype capture_event = Submit lock_state packet | Work nat bool | Stop

fun capture_step :: "capture_event \<Rightarrow> capture \<Rightarrow> capture" where
  "capture_step (Submit lock p) c =
     (case submit lock p (sender_sequence c, hand c) of
        (q, h) \<Rightarrow> c\<lparr>sender_sequence := q, hand := h, submitted := submitted c @ [p]\<rparr>)"
| "capture_step (Work now expired) c = run_capture_encoder now expired c"
| "capture_step Stop c = c\<lparr>stopping := True, hand := wake (hand c)\<rparr>"

section \<open>Accounting\<close>

definition lost_in :: "pcm_stats \<Rightarrow> nat" where
  "lost_in s = dropped (st_loss s) + oversized (st_loss s)"

definition lost :: "handoff \<Rightarrow> encoder_state \<Rightarrow> nat" where
  "lost h e = h_other_dropped h + h_contention h + h_oversized h + lost_in (pending e) + sum_list (map lost_in (reports e))"

text \<open>Failures to give a buffer back, wherever they are counted.\<close>

definition leaks :: "handoff \<Rightarrow> encoder_state \<Rightarrow> nat" where
  "leaks h e = h_recycle_failures h + recycle_failures (st_loss (pending e)) + sum_list (map (recycle_failures \<circ> st_loss) (reports e))"

lemma report_counts:
  "lost h (report f now e) = lost h e" "leaks h (report f now e) = leaks h e"
  "expected_sequence (report f now e) = expected_sequence e"
  by (auto simp: report_def lost_def leaks_def no_stats_def no_loss_def lost_in_def)

lemma take_stats_counts:
  assumes "take_stats h = (s, h')"
  shows "lost h' (e\<lparr>pending := stats_add (pending e) s\<rparr>) = lost h e" "leaks h' (e\<lparr>pending := stats_add (pending e) s\<rparr>) = leaks h e"
    "available h' = available h" "ready h' = ready h" "wake_token h' = wake_token h" "wake_thread h' = wake_thread h"
    "available_capacity h' = available_capacity h"
  using assms by (auto simp: take_stats_def take_loss_def stats_add_def loss_add_def lost_def leaks_def lost_in_def)

lemma smooth_counts:
  assumes "smooth_packet seq p e = (p', e')"
  shows "lost h e' = lost h e" "leaks h e' = leaks h e" "expected_sequence e' = (seq + 1) mod 2 ^ 64"
    "seq = expected_sequence e \<Longrightarrow> p' = p"
  using assms by (auto simp: smooth_packet_def lost_def leaks_def Let_def)

text \<open>What \<open>next_packet\<close> does to the pool, and what it leaves as it was.\<close>

lemma next_packet_cases:
  assumes "next_packet now (h, e) = (r, h', e')"
  shows "lost h' e' = lost h e \<and> leaks h' e' = leaks h e \<and> available h' = available h \<and> wake_token h' = wake_token h
    \<and> wake_thread h' = wake_thread h \<and> available_capacity h' = available_capacity h
    \<and> (case r of
         None \<Rightarrow> ready h = [] \<and> ready h' = [] \<and> expected_sequence e' = expected_sequence e
       | Some ((q, p), p') \<Rightarrow> ready h = (q, p) # ready h' \<and> expected_sequence e' = (q + 1) mod 2 ^ 64
           \<and> (q = expected_sequence e \<longrightarrow> p' = p))"
proof -
  obtain s h1 where t: "take_stats h = (s, h1)" by fastforce
  define e1 where "e1 = report False now (e\<lparr>pending := stats_add (pending e) s\<rparr>)"
  note c = take_stats_counts(1,2)[OF t, of e] take_stats_counts(3-7)[OF t]
    report_counts(1,2)[of h1 False now "e\<lparr>pending := stats_add (pending e) s\<rparr>", folded e1_def]
    report_counts(3)[of False now "e\<lparr>pending := stats_add (pending e) s\<rparr>", folded e1_def]
  show ?thesis
  proof (cases "ready h")
    case Nil
    then show ?thesis using assms t c by (auto simp: next_packet_def pop_packet_def e1_def[symmetric] Let_def)
  next
    case (Cons x rest)
    obtain q p where x: "x = (q, p)" by fastforce
    obtain p' e2 where m: "smooth_packet q p e1 = (p', e2)" by fastforce
    have r: "r = Some ((q, p), p')" "h' = h1\<lparr>ready := rest\<rparr>" "e' = e2"
      using assms t m Cons c by (auto simp: next_packet_def pop_packet_def e1_def[symmetric] Let_def x)
    have "lost (h1\<lparr>ready := rest\<rparr>) e2 = lost h1 e1" "leaks (h1\<lparr>ready := rest\<rparr>) e2 = leaks h1 e1"
      using smooth_counts(1,2)[OF m] by (simp_all add: lost_def leaks_def)
    then show ?thesis using smooth_counts(3,4)[OF m] c r Cons x by simp
  qed
qed

definition held :: "capture \<Rightarrow> packet list" where
  "held c = (case worker_at c of Hold p \<Rightarrow> [p] | _ \<Rightarrow> [])"

text \<open>
  What always holds: no buffer is lost or invented; packets come out in the order they went in; each
  is taken, waiting or counted as lost; and a worker that waits while there is something to do has
  been woken.
\<close>

definition pool_inv :: "capture \<Rightarrow> bool" where
  "pool_inv c \<longleftrightarrow> length (available (hand c)) + length (ready (hand c)) + length (held c) = CAPTURE_PCM_QUEUE_PACKETS
     \<and> CAPTURE_PCM_QUEUE_PACKETS \<le> available_capacity (hand c) \<and> leaks (hand c) (enc c) = 0"

definition order_inv :: "capture \<Rightarrow> bool" where
  "order_inv c \<longleftrightarrow> subseq (map snd (popped c @ ready (hand c))) (submitted c)
     \<and> length (submitted c) = length (popped c) + length (ready (hand c)) + lost (hand c) (enc c)
     \<and> length (popped c) = length (encoded_packets c) + length (held c)"

definition wake_inv :: "capture \<Rightarrow> bool" where
  "wake_inv c \<longleftrightarrow> wake_thread (hand c)
     \<and> (worker_at c \<in> {Idle, Park} \<and> ready (hand c) \<noteq> [] \<longrightarrow> wake_token (hand c))
     \<and> (worker_at c = Park \<and> stopping c \<longrightarrow> wake_token (hand c))"

text \<open>While nothing was lost, what is encoded is what was captured.\<close>

definition exact_inv :: "capture \<Rightarrow> bool" where
  "exact_inv c \<longleftrightarrow> sender_sequence c = length (submitted c) mod 2 ^ 64
     \<and> (lost (hand c) (enc c) = 0 \<longrightarrow>
          popped c @ ready (hand c) = map (\<lambda>i. (i mod 2 ^ 64, submitted c ! i)) [0..<length (submitted c)]
          \<and> expected_sequence (enc c) = length (popped c) mod 2 ^ 64
          \<and> encoded_packets c @ held c = map snd (popped c))"

lemma wake_simps [simp]:
  "available (wake h) = available h" "ready (wake h) = ready h" "available_capacity (wake h) = available_capacity h"
  "wake_thread (wake h) = wake_thread h" "wake_token (wake h) = (wake_thread h \<or> wake_token h)"
  "h_other_dropped (wake h) = h_other_dropped h" "h_contention (wake h) = h_contention h" "h_oversized (wake h) = h_oversized h"
  "h_recycle_failures (wake h) = h_recycle_failures h" "lost (wake h) e = lost h e" "leaks (wake h) e = leaks h e"
  by (simp_all add: wake_def lost_def leaks_def)

lemma subseq_drop_mid: "subseq (a @ x # b) ys \<Longrightarrow> subseq (a @ b) ys"
  by (meson list_emb_append_mono subseq_Cons' subseq_order.refl subseq_order.trans)

text \<open>A submission either queues the packet, perhaps in place of the oldest, or counts it as lost.\<close>

lemma submit_cases:
  assumes "submit lock p (q, h) = (q', h')"
  obtains (queued) "ready h' = ready h @ [(q, p)]" "length (available h) = Suc (length (available h'))" "lost h' e = lost h e"
        "leaks h' e = leaks h e" "available_capacity h' = available_capacity h" "wake_thread h' = wake_thread h" "wake_thread h \<longrightarrow> wake_token h'"
    | (oldest) x rest where "ready h = x # rest" "ready h' = rest @ [(q, p)]" "length (available h') = length (available h)" "lost h' e = Suc (lost h e)"
        "leaks h' e = leaks h e" "available_capacity h' = available_capacity h" "wake_thread h' = wake_thread h" "wake_thread h \<longrightarrow> wake_token h'"
    | (refused) "ready h' = ready h" "length (available h') = length (available h)" "lost h' e = Suc (lost h e)"
        "leaks h' e = leaks h e" "available_capacity h' = available_capacity h" "wake_thread h' = wake_thread h" "wake_thread h \<longrightarrow> wake_token h'"
proof (cases "length p \<le> max_samples h \<and> lock = Free \<and> available h \<noteq> []")
  case True
  then show ?thesis using assms
    by (intro queued) (auto simp: submit_def take_buffer_def Let_def lost_def leaks_def)
next
  case False
  show ?thesis
  proof (cases "length p \<le> max_samples h \<and> lock = Free \<and> ready h \<noteq> []")
    case True
    then obtain x rest where r: "ready h = x # rest" by (cases "ready h") auto
    have a: "available h = []" using True False by simp
    show ?thesis using assms True a r
      by (intro oldest[OF r]) (auto simp: submit_def take_buffer_def Let_def lost_def leaks_def split: prod.splits)
  next
    case F: False
    show ?thesis using assms F False
      by (intro refused) (auto simp: submit_def take_buffer_def Let_def lost_def leaks_def not_le split: lock_state.splits if_splits)
  qed
qed

lemmas capture_invs = pool_inv_def order_inv_def wake_inv_def exact_inv_def

definition capture_inv :: "capture \<Rightarrow> bool" where
  "capture_inv c \<longleftrightarrow> pool_inv c \<and> order_inv c \<and> wake_inv c \<and> exact_inv c"

lemma submit_sequence: "fst (submit lock p (q, h)) = (q + 1) mod 2 ^ 64"
  by (simp add: submit_def)

lemma subseq_snoc: "subseq xs ys \<Longrightarrow> subseq (xs @ [x]) (ys @ [x])"
  by simp

lemma submit_keeps:
  assumes "capture_inv c"
  shows "capture_inv (capture_step (Submit lock p) c)"
proof -
  obtain q h where s: "submit lock p (sender_sequence c, hand c) = (q, h)" by fastforce
  define c' where "c' = c\<lparr>sender_sequence := q, hand := h, submitted := submitted c @ [p]\<rparr>"
  have c': "capture_step (Submit lock p) c = c'" by (simp add: s c'_def)
  have f: "held c' = held c" "worker_at c' = worker_at c" "popped c' = popped c" "encoded_packets c' = encoded_packets c"
    "enc c' = enc c" "stopping c' = stopping c" "hand c' = h" "submitted c' = submitted c @ [p]"
    by (simp_all add: held_def c'_def)
  have seq: "sender_sequence c = length (submitted c) mod 2 ^ 64" using assms by (simp add: capture_inv_def exact_inv_def)
  have "q = (sender_sequence c + 1) mod 2 ^ 64" using submit_sequence[of lock p "sender_sequence c" "hand c"] by (simp add: s)
  then have q: "sender_sequence c' = length (submitted c') mod 2 ^ 64" using seq by (simp add: c'_def mod_Suc_eq)
  have sub: "subseq (map snd (popped c @ ready (hand c))) (submitted c)" using assms by (simp add: capture_inv_def order_inv_def)
  from s have "pool_inv c' \<and> order_inv c' \<and> wake_inv c' \<and> exact_inv c'"
  proof (cases rule: submit_cases[where e = "enc c"])
    case queued
    have "subseq (map snd (popped c @ ready h)) (submitted c @ [p])" using subseq_snoc[OF sub, of p] queued(1) by simp
    then have "pool_inv c'" "order_inv c'" "wake_inv c'"
      using assms queued by (simp_all add: capture_inv_def pool_inv_def order_inv_def wake_inv_def f)
    moreover have "map (\<lambda>i. (i mod 2 ^ 64, (submitted c @ [p]) ! i)) [0..<length (submitted c)] =
        map (\<lambda>i. (i mod 2 ^ 64, submitted c ! i)) [0..<length (submitted c)]" by (simp add: nth_append)
    then have "exact_inv c'" using assms queued q seq by (simp add: capture_inv_def exact_inv_def f flip: append_assoc)
    ultimately show ?thesis by blast
  next
    case (oldest x rest)
    have "subseq (map snd (popped c @ rest)) (submitted c)" using sub oldest(1) subseq_drop_mid[of "map snd (popped c)"] by simp
    then have "subseq (map snd (popped c @ ready h)) (submitted c @ [p])" using subseq_snoc[of _ _ p] oldest(2) by fastforce
    then show ?thesis using assms oldest q by (simp add: capture_inv_def capture_invs f)
  next
    case refused
    have "subseq (map snd (popped c @ ready h)) (submitted c @ [p])" using subseq_rev_drop_many[OF sub] refused(1) by simp
    then show ?thesis using assms refused q by (simp add: capture_inv_def capture_invs f)
  qed
  then show ?thesis unfolding c' capture_inv_def .
qed

text \<open>The invariant speaks of a few parts of the state only.\<close>

lemma capture_inv_transfer:
  assumes i: "capture_inv c" and w: "wake_inv c'"
    and s: "submitted c' = submitted c" "popped c' = popped c" "sender_sequence c' = sender_sequence c"
      "encoded_packets c' @ held c' = encoded_packets c @ held c"
    and h: "ready (hand c') = ready (hand c)" "available_capacity (hand c') = available_capacity (hand c)"
      "length (available (hand c')) + length (held c') = length (available (hand c)) + length (held c)"
    and e: "lost (hand c') (enc c') = lost (hand c) (enc c)" "leaks (hand c') (enc c') = leaks (hand c) (enc c)"
      "expected_sequence (enc c') = expected_sequence (enc c)"
  shows "capture_inv c'"
proof -
  have l: "length (encoded_packets c') + length (held c') = length (encoded_packets c) + length (held c)"
    using arg_cong[OF s(4), of length] by simp
  have "pool_inv c'" using i h e(2) by (simp add: capture_inv_def pool_inv_def)
  moreover have "order_inv c'" using i l unfolding capture_inv_def order_inv_def s h(1) e(1) by simp
  moreover have "exact_inv c'" using i unfolding capture_inv_def exact_inv_def s h(1) e(1,3) by blast
  ultimately show ?thesis using w unfolding capture_inv_def by blast
qed

lemma drain_keeps:
  assumes i: "capture_inv c" and w: "worker_at c = Drain"
  shows "capture_inv (run_capture_encoder now expired c)"
proof -
  obtain r h e where n: "next_packet now (hand c, enc c) = (r, h, e)" by (metis prod_cases3)
  note nc = next_packet_cases[OF n]
  have held: "held c = []" using w by (simp add: held_def)
  show ?thesis
  proof (cases r)
    case None
    then have c': "run_capture_encoder now expired c = c\<lparr>hand := h, enc := e, worker_at := Idle\<rparr>"
      using w n by (simp add: run_capture_encoder_def)
    show ?thesis unfolding c'
    proof (rule capture_inv_transfer[OF i])
      show "wake_inv (c\<lparr>hand := h, enc := e, worker_at := Idle\<rparr>)" using i nc None by (simp add: capture_inv_def wake_inv_def)
    qed (use nc None held in \<open>simp_all add: held_def\<close>)
  next
    case (Some x)
    obtain q p p' where x: "x = ((q, p), p')" by (metis prod_cases3 surj_pair)
    define c' where "c' = c\<lparr>hand := h, enc := e, worker_at := Hold p', popped := popped c @ [(q, p)]\<rparr>"
    have c': "run_capture_encoder now expired c = c'" using w n Some x by (simp add: run_capture_encoder_def c'_def)
    have r: "ready (hand c) = (q, p) # ready h" "expected_sequence e = (q + 1) mod 2 ^ 64" "q = expected_sequence (enc c) \<longrightarrow> p' = p"
      using nc Some x by simp_all
    have "pool_inv c'" "order_inv c'" "wake_inv c'"
      using i nc r held
      by (simp_all only: capture_inv_def pool_inv_def order_inv_def wake_inv_def c'_def) (simp_all add: held_def)
    moreover have "exact_inv c'"
    proof -
      have "q = length (popped c) mod 2 ^ 64"
        if e: "popped c @ (q, p) # ready h = map (\<lambda>i. (i mod 2 ^ 64, submitted c ! i)) [0..<length (submitted c)]"
      proof -
        have l: "length (popped c) < length (submitted c)" using arg_cong[OF e, of length] by simp
        have "(popped c @ (q, p) # ready h) ! length (popped c) = (length (popped c) mod 2 ^ 64, submitted c ! length (popped c))"
          unfolding e using l by simp
        then show ?thesis by simp
      qed
      then have q: "q = length (popped c) mod 2 ^ 64" if "lost (hand c) (enc c) = 0"
        using that i r(1) unfolding capture_inv_def exact_inv_def by metis
      show ?thesis using i nc r held q
        by (auto simp: capture_inv_def exact_inv_def c'_def held_def mod_Suc_eq)
    qed
    ultimately show ?thesis by (simp add: c' capture_inv_def)
  qed
qed

lemma worker_keeps:
  assumes i: "capture_inv c"
  shows "capture_inv (run_capture_encoder now expired c)"
proof (cases "worker_at c")
  case Drain
  then show ?thesis by (rule drain_keeps[OF i])
next
  case (Hold p)
  have "length (available (hand c)) < available_capacity (hand c)" using i Hold by (simp add: capture_inv_def pool_inv_def held_def)
  then have r: "recycle p (hand c) = (hand c)\<lparr>available := available (hand c) @ [[]]\<rparr>" by (simp add: recycle_def)
  have "wake_inv (run_capture_encoder now expired c)"
    using i Hold by (simp add: run_capture_encoder_def capture_inv_def wake_inv_def r)
  from capture_inv_transfer[OF i this] show ?thesis using Hold
    by (simp add: run_capture_encoder_def r held_def lost_def leaks_def)
next
  case Idle
  obtain s h where t: "take_stats (hand c) = (s, h)" by fastforce
  note tc = take_stats_counts(1,2)[OF t, of "enc c"] take_stats_counts(3-7)[OF t]
  have "wake_inv (run_capture_encoder now expired c)"
    using i Idle t tc by (auto simp: run_capture_encoder_def capture_inv_def wake_inv_def)
  from capture_inv_transfer[OF i this] show ?thesis using Idle t tc
    by (simp add: run_capture_encoder_def held_def report_counts)
next
  case Park
  have "wake_inv (run_capture_encoder now expired c)"
    using i Park by (auto simp: run_capture_encoder_def capture_inv_def wake_inv_def)
  from capture_inv_transfer[OF i this] show ?thesis using Park
    by (simp add: run_capture_encoder_def held_def lost_def leaks_def)
qed (use i in \<open>simp add: run_capture_encoder_def\<close>)

lemma stop_keeps:
  assumes "capture_inv c"
  shows "capture_inv (capture_step Stop c)"
proof -
  have "wake_inv (capture_step Stop c)" using assms by (simp add: capture_inv_def wake_inv_def)
  from capture_inv_transfer[OF assms this] show ?thesis by (simp add: held_def)
qed

lemma capture_step_keeps: "capture_inv c \<Longrightarrow> capture_inv (capture_step x c)"
  by (cases x) (use submit_keeps worker_keeps stop_keeps in simp_all)

lemma start_inv: "start_capture_encoder extra samples rate chans = Some c \<Longrightarrow> capture_inv c"
  by (auto simp: start_capture_encoder_def new_pcm_handoff_def set_wake_thread_def capture_inv_def capture_invs held_def
      lost_def leaks_def encoder_new_def no_stats_def no_loss_def lost_in_def CAPTURE_PCM_QUEUE_PACKETS_def split: if_splits)

section \<open>Property\<close>

text \<open>
  C34: The hand-over of captured sound loses nothing silently. In every interleaving of the capture
  callback and the encoder thread, the packets taken and those still queued are a subsequence of the
  packets submitted, at most ten are queued, each missing one is counted as dropped or oversized
  exactly once, every buffer returns to the pool; as long as nothing was counted, the encoder has
  been given the captured packets themselves, one after the other; and a worker waiting while packets
  are queued, or while it is told to stop, has a wake-up pending.
\<close>

theorem captured_sound_accounted:
  assumes "start_capture_encoder extra samples rate chans = Some c0" and "c = fold capture_step xs c0"
  shows "subseq (map snd (popped c @ ready (hand c))) (submitted c) \<and> length (ready (hand c)) \<le> 10
     \<and> length (submitted c) = length (popped c) + length (ready (hand c)) + lost (hand c) (enc c)
     \<and> leaks (hand c) (enc c) = 0
     \<and> (lost (hand c) (enc c) = 0 \<longrightarrow> prefix (encoded_packets c) (submitted c))
     \<and> (worker_at c = Park \<and> (ready (hand c) \<noteq> [] \<or> stopping c) \<longrightarrow> wake_token (hand c))"
proof -
  have i: "capture_inv c"
    using start_inv[OF assms(1)] capture_step_keeps unfolding assms(2)
    by (induction xs arbitrary: c0) simp_all
  have "prefix (encoded_packets c) (submitted c)" if l: "lost (hand c) (enc c) = 0"
  proof -
    have "map snd (popped c @ ready (hand c)) = map snd (map (\<lambda>i. (i mod 2 ^ 64, submitted c ! i)) [0..<length (submitted c)])"
      using i l by (simp only: capture_inv_def exact_inv_def)
    then have "(encoded_packets c @ held c) @ map snd (ready (hand c)) = submitted c"
      using i l by (simp add: capture_inv_def exact_inv_def comp_def map_nth)
    then show ?thesis by (metis append_assoc prefixI)
  qed
  then show ?thesis using i by (auto simp: capture_inv_def pool_inv_def order_inv_def wake_inv_def CAPTURE_PCM_QUEUE_PACKETS_def)
qed

text \<open>Three packets, one of them too long and one while the worker held the lock.\<close>

definition capture_demo :: "capture_event list" where
  "capture_demo = [Submit Free [1, 0], Work 0 False, Submit Contended [0, 1], Work 0 False, Submit Free [1, 1, 1, 1, 1], Work 0 False, Work 0 False,
     Submit Free [1/2, 1/2]]"

definition demo_start :: capture where
  "demo_start = the (start_capture_encoder 0 4 48000 2)"

theorem captured_sound_accounted_witness:
  "let c = fold capture_step capture_demo demo_start in
     subseq (map snd (popped c @ ready (hand c))) (submitted c)
     \<and> length (submitted c) = length (popped c) + length (ready (hand c)) + lost (hand c) (enc c)
     \<and> popped c = [(0, [1, 0])] \<and> lost (hand c) (enc c) = 2 \<and> worker_at c = Park \<and> wake_token (hand c)"
proof -
  have s: "start_capture_encoder 0 4 48000 2 = Some demo_start" by code_simp
  have "popped (fold capture_step capture_demo demo_start) = [(0, [1, 0])]" "lost (hand (fold capture_step capture_demo demo_start)) (enc (fold capture_step capture_demo demo_start)) = 2"
    "worker_at (fold capture_step capture_demo demo_start) = Park" "ready (hand (fold capture_step capture_demo demo_start)) \<noteq> []"
    by code_simp+
  with captured_sound_accounted[OF s refl, of capture_demo] show ?thesis unfolding Let_def by blast
qed

end
