(* ===== verification/Session_Scope.thy ===== *)
theory Session_Scope
  imports Mux_Channel
begin

text \<open>
  Which messages and which options a session may use (\<open>src/server/connection.rs\<close>,
  \<open>libs/base/protos/message.proto\<close>). A session is authorized for one kind: remote desktop, files,
  forwarded ports, camera or terminal. What a limited kind may send is a fixed list, and the options
  it sends are cut down to those of its kind. Parts of a message that this code hands on without
  looking inside are kept as their encoded bytes.
\<close>

section \<open>Messages\<close>

type_synonym payload = bytes

datatype bool_option = BoolNotSet | BoolNo | BoolYes
datatype image_quality = QualityNotSet | LowQuality | BalancedQuality | BestQuality

text \<open>An enum field on the wire is an \<open>i32\<close>; \<open>enum_value\<close> reads it, and fails for an unknown number.\<close>

definition bool_value :: "int \<Rightarrow> bool_option option" where
  "bool_value n = (if n = 0 then Some BoolNotSet else if n = 1 then Some BoolNo else if n = 2 then Some BoolYes else None)"

fun bool_number :: "bool_option \<Rightarrow> int" where
  "bool_number BoolNotSet = 0"
| "bool_number BoolNo = 1"
| "bool_number BoolYes = 2"

definition quality_value :: "int \<Rightarrow> image_quality option" where
  "quality_value n = (if n = 0 then Some QualityNotSet else if n = 2 then Some LowQuality
     else if n = 3 then Some BalancedQuality else if n = 4 then Some BestQuality else None)"

record option_message =
  om_image_quality :: int
  om_lock_after_session_end :: int
  om_show_remote_cursor :: int
  om_privacy_mode :: int
  om_block_input :: int
  om_custom_image_quality :: int
  om_disable_audio :: int
  om_disable_clipboard :: int
  om_enable_file_transfer :: int
  om_supported_decoding :: "payload option"
  om_custom_fps :: int
  om_disable_keyboard :: int
  om_follow_remote_cursor :: int
  om_follow_remote_window :: int
  om_disable_camera :: int
  om_terminal_persistent :: int
  om_show_my_cursor :: int

definition option_message_new :: option_message where
  "option_message_new =
     \<lparr>om_image_quality = 0, om_lock_after_session_end = 0, om_show_remote_cursor = 0, om_privacy_mode = 0,
      om_block_input = 0, om_custom_image_quality = 0, om_disable_audio = 0, om_disable_clipboard = 0,
      om_enable_file_transfer = 0, om_supported_decoding = None, om_custom_fps = 0, om_disable_keyboard = 0,
      om_follow_remote_cursor = 0, om_follow_remote_window = 0, om_disable_camera = 0,
      om_terminal_persistent = 0, om_show_my_cursor = 0\<rparr>"

text \<open>The kinds of session a login request asks for; no kind is a remote desktop.\<close>

datatype login_union =
  LoginFileTransfer string bool
| LoginPortForward string i32 bool
| LoginViewCamera
| LoginTerminal string

record login_request =
  lr_username :: string
  lr_pass :: bytes
  lr_my_id :: string
  lr_my_name :: string
  lr_option :: "option_message option"
  lr_union :: "login_union option"
  lr_session_id :: u64
  lr_version :: string
  lr_os_username :: string
  lr_os_password :: string
  lr_my_platform :: string
  lr_hwid :: bytes

datatype (plugins only: code) file_action =
  ReadDir string bool
| SendFiles int string bool int int
| ReceiveFiles int string "(string \<times> u64) list" int u64
| CreateDir int string
| RemoveDir int string bool
| RemoveFile int string int
| AllFiles int string bool
| CancelJob int
| SendConfirm int int "(bool + u32) option"
| RenameFile int string string
| ReadEmptyDirs string bool

datatype (plugins only: code) file_response =
  DirResponse payload
| BlockResponse int int bytes bool
| ErrorResponse int int string
| DoneResponse int int
| DigestResponse int int u64 u64 bool
| EmptyDirsResponse payload

datatype key_union = ControlKey int | ChrKey u32 | UnicodeKey u32 | SeqKey string | Win2WinHotkey u32

record key_event =
  ke_down :: bool
  ke_press :: bool
  ke_union :: "key_union option"
  ke_modifiers :: "int list"
  ke_mode :: int

text \<open>A file clipboard message: the names of files, a request for data, or another step.\<close>

datatype cliprdr = ClipFiles payload | ClipDataRequest payload | ClipOther payload

datatype elevation = ElevateDirect | ElevateLogon string string

datatype (plugins only: code) misc =
  ChatMessage string
| SwitchDisplay int int int
| PermissionInfo payload
| OptionMisc option_message
| AudioFormat payload
| CloseReason string
| RefreshVideo bool
| VideoReceived bool
| BackNotification payload
| RestartRemoteDevice bool
| Uac bool
| ForegroundWindowElevated bool
| StopService bool
| ElevationRequest "elevation option"
| ElevationResponse string
| PortableServiceRunning bool
| SwitchSidesRequest bytes
| SwitchBack
| ChangeResolution int int
| PluginRequest payload
| PluginFailure payload
| FullSpeedFps u32
| AutoAdjustFps u32
| ClientRecordStatus bool
| CaptureDisplays "int list" "int list" "int list"
| RefreshVideoDisplay int
| ToggleVirtualDisplay bool int
| TogglePrivacyMode bool string
| SupportedEncoding payload
| SelectedSid u32
| ChangeDisplayResolution int int int
| MessageQuery int
| FollowCurrentDisplay int
| RequestCursorData u64

datatype (plugins only: code) msg =
  SignedId payload
| PublicKey payload
| TestDelay bool payload
| VideoFrame payload
| LoginRequest login_request
| LoginResponse payload
| HashMsg payload
| MouseEvent int payload
| AudioFrame payload
| CursorData payload
| CursorPosition payload
| CursorId u64
| KeyEvent key_event
| Clipboard payload
| FileAction "file_action option"
| FileResponse "file_response option"
| Misc "misc option"
| Cliprdr cliprdr
| MessageBox payload
| SwitchSidesResponse bytes "login_request option"
| VoiceCallRequest bool int
| VoiceCallResponse payload
| PeerInfo payload
| PointerDeviceEvent payload
| Auth2FA string bytes
| MultiClipboards payload
| ScreenshotRequest int string
| ScreenshotResponse payload
| TerminalAction payload
| TerminalResponse payload
| PortForwardChannel channel_frame
| OsLogin string string

text \<open>A message of the wire may have no content that this build knows.\<close>

type_synonym message = "msg option"

datatype auth_conn_type = Remote | FileTransfer | PortForward | ViewCamera | Terminal

fun conn_type_as_str :: "auth_conn_type \<Rightarrow> string" where
  "conn_type_as_str Remote = ''remote''"
| "conn_type_as_str FileTransfer = ''file_transfer''"
| "conn_type_as_str PortForward = ''port_forward''"
| "conn_type_as_str ViewCamera = ''view_camera''"
| "conn_type_as_str Terminal = ''terminal''"

section \<open>Options within a scope\<close>

definition is_bool_option_not_set :: "int \<Rightarrow> bool" where
  "is_bool_option_not_set n \<longleftrightarrow> bool_value n = Some BoolNotSet"

definition option_has_non_view_camera_login_field :: "option_message \<Rightarrow> bool" where
  "option_has_non_view_camera_login_field opt \<longleftrightarrow>
     \<not> (is_bool_option_not_set (om_lock_after_session_end opt)
        \<and> is_bool_option_not_set (om_show_remote_cursor opt)
        \<and> is_bool_option_not_set (om_privacy_mode opt)
        \<and> is_bool_option_not_set (om_block_input opt)
        \<and> is_bool_option_not_set (om_disable_clipboard opt)
        \<and> is_bool_option_not_set (om_enable_file_transfer opt)
        \<and> is_bool_option_not_set (om_disable_keyboard opt)
        \<and> is_bool_option_not_set (om_follow_remote_cursor opt)
        \<and> is_bool_option_not_set (om_follow_remote_window opt)
        \<and> is_bool_option_not_set (om_disable_camera opt)
        \<and> is_bool_option_not_set (om_terminal_persistent opt)
        \<and> is_bool_option_not_set (om_show_my_cursor opt))"

definition option_has_non_terminal_login_field :: "option_message \<Rightarrow> bool" where
  "option_has_non_terminal_login_field opt \<longleftrightarrow>
     quality_value (om_image_quality opt) \<noteq> Some QualityNotSet
     \<or> om_custom_image_quality opt \<noteq> 0
     \<or> om_custom_fps opt \<noteq> 0
     \<or> om_supported_decoding opt \<noteq> None
     \<or> \<not> is_bool_option_not_set (om_lock_after_session_end opt)
     \<or> \<not> is_bool_option_not_set (om_show_remote_cursor opt)
     \<or> \<not> is_bool_option_not_set (om_privacy_mode opt)
     \<or> \<not> is_bool_option_not_set (om_block_input opt)
     \<or> \<not> is_bool_option_not_set (om_disable_audio opt)
     \<or> \<not> is_bool_option_not_set (om_disable_clipboard opt)
     \<or> \<not> is_bool_option_not_set (om_enable_file_transfer opt)
     \<or> \<not> is_bool_option_not_set (om_disable_keyboard opt)
     \<or> \<not> is_bool_option_not_set (om_follow_remote_cursor opt)
     \<or> \<not> is_bool_option_not_set (om_follow_remote_window opt)
     \<or> \<not> is_bool_option_not_set (om_disable_camera opt)
     \<or> \<not> is_bool_option_not_set (om_show_my_cursor opt)"

definition option_has_any_field :: "option_message \<Rightarrow> bool" where
  "option_has_any_field opt \<longleftrightarrow>
     option_has_non_terminal_login_field opt \<or> \<not> is_bool_option_not_set (om_terminal_persistent opt)"

definition then_some :: "bool \<Rightarrow> 'a \<Rightarrow> 'a option" where
  "then_some b x = (if b then Some x else None)"

definition scoped_view_camera_option :: "option_message \<Rightarrow> option_message option \<times> string option" where
  "scoped_view_camera_option opt =
     (let s = option_message_new;
          s = (if quality_value (om_image_quality opt) \<noteq> None then s\<lparr>om_image_quality := om_image_quality opt\<rparr> else s);
          s = (if 0 \<le> om_custom_image_quality opt then s\<lparr>om_custom_image_quality := om_custom_image_quality opt\<rparr> else s);
          s = (if 0 \<le> om_custom_fps opt then s\<lparr>om_custom_fps := om_custom_fps opt\<rparr> else s);
          s = s\<lparr>om_supported_decoding := om_supported_decoding opt\<rparr>;
          s = (case bool_value (om_disable_audio opt) of
                 Some v \<Rightarrow> s\<lparr>om_disable_audio := bool_number v\<rparr>
               | None \<Rightarrow> s)
      in (then_some (option_has_any_field s) s,
          then_some (option_has_non_view_camera_login_field opt) ''login.option''))"

definition scoped_terminal_login_option :: "option_message \<Rightarrow> option_message option \<times> string option" where
  "scoped_terminal_login_option opt =
     (let (s, violation) =
        (case bool_value (om_terminal_persistent opt) of
           Some v \<Rightarrow> (option_message_new\<lparr>om_terminal_persistent := bool_number v\<rparr>, False)
         | None \<Rightarrow> (option_message_new, True));
        violation = (if option_has_non_terminal_login_field opt then True else violation)
      in (then_some (option_has_any_field s) s, then_some violation ''login.option''))"

fun scoped_login_option :: "auth_conn_type \<Rightarrow> option_message \<Rightarrow> option_message option \<times> string option" where
  "scoped_login_option Remote opt = (Some opt, None)"
| "scoped_login_option ViewCamera opt = scoped_view_camera_option opt"
| "scoped_login_option Terminal opt = scoped_terminal_login_option opt"
| "scoped_login_option FileTransfer opt = (None, then_some (option_has_any_field opt) ''login.option'')"
| "scoped_login_option PortForward opt = (None, then_some (option_has_any_field opt) ''login.option'')"

text \<open>\<open>scoped_update_option_message\<close>: an option update of a session that is not a remote desktop.\<close>

fun scoped_update_option_message :: "auth_conn_type option \<Rightarrow> option_message \<Rightarrow> option_message option" where
  "scoped_update_option_message (Some ViewCamera) opt = fst (scoped_view_camera_option opt)"
| "scoped_update_option_message (Some Terminal) opt = fst (scoped_terminal_login_option opt)"
| "scoped_update_option_message _ opt = None"

definition is_supported_decoding_only_option :: "option_message \<Rightarrow> bool" where
  "is_supported_decoding_only_option opt \<longleftrightarrow>
     om_supported_decoding opt \<noteq> None
     \<and> quality_value (om_image_quality opt) = Some QualityNotSet
     \<and> om_custom_image_quality opt = 0
     \<and> om_custom_fps opt = 0
     \<and> is_bool_option_not_set (om_lock_after_session_end opt)
     \<and> is_bool_option_not_set (om_show_remote_cursor opt)
     \<and> is_bool_option_not_set (om_privacy_mode opt)
     \<and> is_bool_option_not_set (om_block_input opt)
     \<and> is_bool_option_not_set (om_disable_audio opt)
     \<and> is_bool_option_not_set (om_disable_clipboard opt)
     \<and> is_bool_option_not_set (om_enable_file_transfer opt)
     \<and> is_bool_option_not_set (om_disable_keyboard opt)
     \<and> is_bool_option_not_set (om_follow_remote_cursor opt)
     \<and> is_bool_option_not_set (om_follow_remote_window opt)
     \<and> is_bool_option_not_set (om_disable_camera opt)
     \<and> is_bool_option_not_set (om_terminal_persistent opt)
     \<and> is_bool_option_not_set (om_show_my_cursor opt)"

section \<open>Messages within a scope\<close>

definition is_terminal_scoped_option :: "option_message \<Rightarrow> bool" where
  "is_terminal_scoped_option opt \<longleftrightarrow> snd (scoped_terminal_login_option opt) = None"

definition is_view_camera_scoped_option :: "option_message \<Rightarrow> bool" where
  "is_view_camera_scoped_option opt \<longleftrightarrow> snd (scoped_view_camera_option opt) = None"

fun is_render_broadcast_noop_compat_message :: "message \<Rightarrow> bool" where
  "is_render_broadcast_noop_compat_message (Some (Misc (Some u))) =
     (case u of RefreshVideo _ \<Rightarrow> True | RefreshVideoDisplay _ \<Rightarrow> True
      | OptionMisc opt \<Rightarrow> is_supported_decoding_only_option opt | _ \<Rightarrow> False)"
| "is_render_broadcast_noop_compat_message _ = False"

definition is_text_clipboard_noop_compat_message :: "message \<Rightarrow> bool" where
  "is_text_clipboard_noop_compat_message m =
     (case m of Some (Clipboard _) \<Rightarrow> True | Some (MultiClipboards _) \<Rightarrow> True | _ \<Rightarrow> False)"

definition is_connection_housekeeping_message :: "message \<Rightarrow> bool" where
  "is_connection_housekeeping_message m =
     (case m of Some (LoginRequest _) \<Rightarrow> True | Some (TestDelay _ _) \<Rightarrow> True
      | Some (Misc (Some (CloseReason _))) \<Rightarrow> True | _ \<Rightarrow> False)"

text \<open>\<open>win\<close> is the build for Windows.\<close>

definition is_file_transfer_scoped_misc :: "bool \<Rightarrow> misc option \<Rightarrow> bool" where
  "is_file_transfer_scoped_misc win u = (if win \<and> (case u of Some (SelectedSid _) \<Rightarrow> True | _ \<Rightarrow> False) then True else False)"

definition is_file_transfer_scoped_message :: "bool \<Rightarrow> message \<Rightarrow> bool" where
  "is_file_transfer_scoped_message win m =
     (case m of Some (FileAction _) \<Rightarrow> True | Some (FileResponse _) \<Rightarrow> True
      | Some (Misc u) \<Rightarrow> is_file_transfer_scoped_misc win u | _ \<Rightarrow> False)"

definition is_port_forward_scoped_message :: "message \<Rightarrow> bool" where
  "is_port_forward_scoped_message m = (case m of Some (PortForwardChannel _) \<Rightarrow> True | _ \<Rightarrow> False)"

definition is_terminal_scoped_misc :: "misc option \<Rightarrow> bool" where
  "is_terminal_scoped_misc u =
     (case u of Some (ChatMessage _) \<Rightarrow> True | Some (OptionMisc opt) \<Rightarrow> is_terminal_scoped_option opt | _ \<Rightarrow> False)"

definition is_terminal_scoped_message :: "message \<Rightarrow> bool" where
  "is_terminal_scoped_message m =
     (case m of Some (TerminalAction _) \<Rightarrow> True | Some (Misc u) \<Rightarrow> is_terminal_scoped_misc u | _ \<Rightarrow> False)"

fun is_view_camera_scoped_misc :: "bool \<Rightarrow> misc option \<Rightarrow> bool" where
  "is_view_camera_scoped_misc win None = False"
| "is_view_camera_scoped_misc win (Some u) =
     (case u of
        SwitchDisplay _ _ _ \<Rightarrow> True
      | CaptureDisplays _ _ _ \<Rightarrow> True
      | RefreshVideo _ \<Rightarrow> True
      | RefreshVideoDisplay _ \<Rightarrow> True
      | VideoReceived _ \<Rightarrow> True
      | ChatMessage _ \<Rightarrow> True
      | AudioFormat _ \<Rightarrow> True
      | ClientRecordStatus _ \<Rightarrow> True
      | MessageQuery _ \<Rightarrow> True
      | TogglePrivacyMode _ _ \<Rightarrow> True
      | ToggleVirtualDisplay _ _ \<Rightarrow> True
      | ChangeResolution _ _ \<Rightarrow> True
      | ChangeDisplayResolution _ _ _ \<Rightarrow> True
      | OptionMisc opt \<Rightarrow> is_view_camera_scoped_option opt
      | SelectedSid _ \<Rightarrow> win
      | _ \<Rightarrow> False)"

definition is_view_camera_scoped_message :: "bool \<Rightarrow> message \<Rightarrow> bool" where
  "is_view_camera_scoped_message win m =
     (case m of
        Some (ScreenshotRequest _ _) \<Rightarrow> True
      | Some (Misc u) \<Rightarrow> is_view_camera_scoped_misc win u
      | Some (MouseEvent _ _) \<Rightarrow> True
      | Some (PointerDeviceEvent _) \<Rightarrow> True
      | Some (KeyEvent _) \<Rightarrow> True
      | Some (AudioFrame _) \<Rightarrow> True
      | Some (VoiceCallRequest _ _) \<Rightarrow> True
      | Some (VoiceCallResponse _) \<Rightarrow> True
      | _ \<Rightarrow> False)"

definition misc_message_family :: "misc option \<Rightarrow> string" where
  "misc_message_family u =
     (case u of
        Some (ChatMessage _) \<Rightarrow> ''misc.chat_message''
      | Some (SwitchDisplay _ _ _) \<Rightarrow> ''misc.switch_display''
      | Some (OptionMisc _) \<Rightarrow> ''misc.option''
      | Some (AudioFormat _) \<Rightarrow> ''misc.audio_format''
      | Some (CaptureDisplays _ _ _) \<Rightarrow> ''misc.capture_displays''
      | Some (ClientRecordStatus _) \<Rightarrow> ''misc.client_record_status''
      | Some (TogglePrivacyMode _ _) \<Rightarrow> ''misc.toggle_privacy_mode''
      | Some (ToggleVirtualDisplay _ _) \<Rightarrow> ''misc.toggle_virtual_display''
      | Some (SelectedSid _) \<Rightarrow> ''misc.selected_sid''
      | Some (ChangeResolution _ _) \<Rightarrow> ''misc.change_resolution''
      | Some (ChangeDisplayResolution _ _ _) \<Rightarrow> ''misc.change_display_resolution''
      | Some (MessageQuery _) \<Rightarrow> ''misc.message_query''
      | Some (FollowCurrentDisplay _) \<Rightarrow> ''misc.follow_current_display''
      | Some (SwitchSidesRequest _) \<Rightarrow> ''misc.switch_sides_request''
      | Some _ \<Rightarrow> ''misc.other''
      | None \<Rightarrow> ''misc.empty'')"

definition message_family :: "message \<Rightarrow> string" where
  "message_family m =
     (case m of
        Some (MouseEvent _ _) \<Rightarrow> ''mouse_event''
      | Some (AudioFrame _) \<Rightarrow> ''audio_frame''
      | Some (PointerDeviceEvent _) \<Rightarrow> ''pointer_device_event''
      | Some (KeyEvent _) \<Rightarrow> ''key_event''
      | Some (Clipboard _) \<Rightarrow> ''clipboard''
      | Some (FileAction _) \<Rightarrow> ''file_action''
      | Some (FileResponse _) \<Rightarrow> ''file_response''
      | Some (VoiceCallRequest _ _) \<Rightarrow> ''voice_call_request''
      | Some (VoiceCallResponse _) \<Rightarrow> ''voice_call_response''
      | Some (MultiClipboards _) \<Rightarrow> ''multi_clipboards''
      | Some (ScreenshotRequest _ _) \<Rightarrow> ''screenshot_request''
      | Some (ScreenshotResponse _) \<Rightarrow> ''screenshot_response''
      | Some (TerminalAction _) \<Rightarrow> ''terminal_action''
      | Some (TerminalResponse _) \<Rightarrow> ''terminal_response''
      | Some (PortForwardChannel _) \<Rightarrow> ''port_forward_channel''
      | Some (OsLogin _ _) \<Rightarrow> ''os_login''
      | Some (Misc u) \<Rightarrow> misc_message_family u
      | Some _ \<Rightarrow> ''message.other''
      | None \<Rightarrow> ''empty'')"

definition authorized_message_scope_violation :: "bool \<Rightarrow> auth_conn_type \<Rightarrow> message \<Rightarrow> string option" where
  "authorized_message_scope_violation win t m =
     (if is_connection_housekeeping_message m then None
      else
        let noop_compat =
              (case t of
                 FileTransfer \<Rightarrow> is_render_broadcast_noop_compat_message m \<or> is_text_clipboard_noop_compat_message m
               | Terminal \<Rightarrow> is_render_broadcast_noop_compat_message m \<or> is_text_clipboard_noop_compat_message m
               | PortForward \<Rightarrow> is_render_broadcast_noop_compat_message m
               | ViewCamera \<Rightarrow> is_text_clipboard_noop_compat_message m
               | Remote \<Rightarrow> False)
        in if noop_compat then None
           else
             let in_scope =
                   (case t of
                      Remote \<Rightarrow> True
                    | FileTransfer \<Rightarrow> is_file_transfer_scoped_message win m
                    | PortForward \<Rightarrow> is_port_forward_scoped_message m
                    | ViewCamera \<Rightarrow> is_view_camera_scoped_message win m
                    | Terminal \<Rightarrow> is_terminal_scoped_message m)
             in then_some (\<not> in_scope) (message_family m))"

definition authorized_scope_violation :: "bool \<Rightarrow> auth_conn_type option \<Rightarrow> message \<Rightarrow> string option" where
  "authorized_scope_violation win authed m =
     (case authed of
        None \<Rightarrow> then_some (\<not> is_connection_housekeeping_message m) ''session.auth_type''
      | Some t \<Rightarrow> authorized_message_scope_violation win t m)"

end
