(* ===== verification/Session_Options.thy ===== *)
theory Session_Options
  imports Session_Scope
begin

text \<open>
  What an option message changes in a session (\<open>update_options\<close> of \<open>src/server/connection.rs\<close>): the
  peer's preferences, the subscriptions to the services, and calls to the video controller, the
  encoder, privacy mode, input blocking and the whiteboard. Those calls are listed as effects, in the
  order in which the code makes them. The desktop builds are modelled.
\<close>

section \<open>Rights and preferences of a session\<close>

text \<open>
  Rights come from this machine's settings and are switched in its connection manager; preferences
  come from the peer.
\<close>

record rights =
  keyboard :: bool
  clipboard :: bool
  audio :: bool
  file_right :: bool
  restart :: bool
  recording :: bool
  block_input :: bool
  privacy_mode :: bool

record prefs =
  lock_after_session_end :: bool
  show_remote_cursor :: bool
  follow_remote_cursor :: bool
  follow_remote_window :: bool
  disable_audio :: bool
  disable_clipboard :: bool
  disable_keyboard :: bool
  enable_file_transfer :: bool
  show_my_cursor :: bool
  terminal_persistent :: bool

definition prefs_new :: prefs where
  "prefs_new = \<lparr>lock_after_session_end = False, show_remote_cursor = False, follow_remote_cursor = False,
     follow_remote_window = False, disable_audio = False, disable_clipboard = False, disable_keyboard = False,
     enable_file_transfer = False, show_my_cursor = False, terminal_persistent = False\<rparr>"

text \<open>
  The build and the machine: Windows, file copy and paste on Unix, the two one-way switches, whether
  the server object is still there, and why a cursor cannot be drawn on this screen (empty if it can).
\<close>

record build =
  on_windows :: bool
  unix_file_copy_paste :: bool
  one_way_clipboard :: bool
  one_way_file_transfer :: bool
  server_alive :: bool
  whiteboard_unsupported :: string

definition peer_keyboard_enabled :: "rights \<Rightarrow> prefs \<Rightarrow> bool" where
  "peer_keyboard_enabled r p \<longleftrightarrow> keyboard r \<and> \<not> disable_keyboard p"

definition clipboard_enabled :: "rights \<Rightarrow> prefs \<Rightarrow> bool" where
  "clipboard_enabled r p \<longleftrightarrow> clipboard r \<and> \<not> disable_clipboard p"

definition can_sub_clipboard_service :: "build \<Rightarrow> rights \<Rightarrow> prefs \<Rightarrow> bool" where
  "can_sub_clipboard_service b r p \<longleftrightarrow> clipboard_enabled r p \<and> peer_keyboard_enabled r p \<and> \<not> one_way_clipboard b"

definition audio_enabled :: "rights \<Rightarrow> prefs \<Rightarrow> bool" where
  "audio_enabled r p \<longleftrightarrow> audio r \<and> \<not> disable_audio p"

definition file_transfer_enabled :: "rights \<Rightarrow> prefs \<Rightarrow> bool" where
  "file_transfer_enabled r p \<longleftrightarrow> file_right r \<and> enable_file_transfer p"

definition can_sub_file_clipboard_service :: "build \<Rightarrow> rights \<Rightarrow> prefs \<Rightarrow> bool" where
  "can_sub_file_clipboard_service b r p \<longleftrightarrow>
     clipboard_enabled r p \<and> file_transfer_enabled r p \<and> \<not> one_way_file_transfer b"

section \<open>Updating the options\<close>

datatype option_effect =
  UserImageQuality int
| UserCustomFps int
| EncoderUpdate payload
| Subscribe string bool
| ClipboardFileEnabled bool
| TryEmptyFileClipboard
| TurnOnPrivacy string
| PrivacyDenied string
| TurnOffPrivacy string
| BlockInput bool
| BlockInputError bool
| SetTerminalPersistent bool
| RegisterWhiteboard
| UnregisterWhiteboard
| WhiteboardUnsupported string

definition NAME_CURSOR :: string where "NAME_CURSOR = ''mouse_cursor''"
definition NAME_POS :: string where "NAME_POS = ''mouse_pos''"
definition NAME_WINDOW_FOCUS :: string where "NAME_WINDOW_FOCUS = ''window_focus''"
definition NAME_AUDIO :: string where "NAME_AUDIO = ''audio''"
definition NAME_CLIPBOARD :: string where "NAME_CLIPBOARD = ''clipboard''"
definition NAME_FILE_CLIPBOARD :: string where "NAME_FILE_CLIPBOARD = ''file-clipboard''"

text \<open>A preference that the message sets: its new value; nothing for \<open>NotSet\<close> and for unknown numbers.\<close>

definition given :: "int \<Rightarrow> bool option" where
  "given n = (case bool_value n of Some BoolYes \<Rightarrow> Some True | Some BoolNo \<Rightarrow> Some False | _ \<Rightarrow> None)"

definition image_quality_effects :: "option_message \<Rightarrow> option_effect list" where
  "image_quality_effects opt =
     (case quality_value (om_image_quality opt) of
        Some q \<Rightarrow>
          let n = (if q = QualityNotSet
                   then (if 0 < om_custom_image_quality opt then om_custom_image_quality opt else - 1)
                   else om_image_quality opt)
          in if 0 < n then [UserImageQuality n] else []
      | None \<Rightarrow> [])"

definition video_effects :: "option_message \<Rightarrow> option_effect list" where
  "video_effects opt =
     image_quality_effects opt
     @ (if 0 < om_custom_fps opt then [UserCustomFps (om_custom_fps opt)] else [])
     @ (case om_supported_decoding opt of Some q \<Rightarrow> [EncoderUpdate q] | None \<Rightarrow> [])"

definition sub_effects :: "build \<Rightarrow> string \<Rightarrow> bool \<Rightarrow> option_effect list" where
  "sub_effects b name on = (if server_alive b then [Subscribe name on] else [])"

definition update_cursor_prefs :: "build \<Rightarrow> option_message \<Rightarrow> rights \<Rightarrow> prefs \<Rightarrow> prefs \<times> option_effect list" where
  "update_cursor_prefs b opt r p =
     (let p = (case given (om_lock_after_session_end opt) of Some v \<Rightarrow> p\<lparr>lock_after_session_end := v\<rparr> | None \<Rightarrow> p);
          (p, es1) = (case given (om_show_remote_cursor opt) of
              Some v \<Rightarrow> let p = p\<lparr>show_remote_cursor := v\<rparr> in
                (p, sub_effects b NAME_CURSOR (peer_keyboard_enabled r p \<or> v) @ sub_effects b NAME_POS v)
            | None \<Rightarrow> (p, []));
          p = (case given (om_follow_remote_cursor opt) of Some v \<Rightarrow> p\<lparr>follow_remote_cursor := v\<rparr> | None \<Rightarrow> p);
          (p, es2) = (case given (om_follow_remote_window opt) of
              Some v \<Rightarrow> (p\<lparr>follow_remote_window := v\<rparr>, sub_effects b NAME_WINDOW_FOCUS v)
            | None \<Rightarrow> (p, []))
      in (p, es1 @ es2))"

text \<open>\<open>calling\<close>: a voice call runs; a camera session hears sound only then.\<close>

definition update_audio_pref :: "build \<Rightarrow> auth_conn_type option \<Rightarrow> bool \<Rightarrow> option_message \<Rightarrow> rights \<Rightarrow> prefs \<Rightarrow> prefs \<times> option_effect list" where
  "update_audio_pref b t calling opt r p =
     (case given (om_disable_audio opt) of
        Some v \<Rightarrow>
          let p = p\<lparr>disable_audio := v\<rparr> in
          (p, if t = Some ViewCamera
              then (if calling \<or> \<not> audio_enabled r p then sub_effects b NAME_AUDIO (audio_enabled r p) else [])
              else sub_effects b NAME_AUDIO (audio_enabled r p))
      | None \<Rightarrow> (p, []))"

definition update_sharing_prefs :: "build \<Rightarrow> option_message \<Rightarrow> rights \<Rightarrow> prefs \<Rightarrow> prefs \<times> option_effect list" where
  "update_sharing_prefs b opt r p =
     (let (p, es1) = (case (if on_windows b \<or> unix_file_copy_paste b then given (om_enable_file_transfer opt) else None) of
              Some v \<Rightarrow> let p = p\<lparr>enable_file_transfer := v\<rparr> in
                (p, (if on_windows b then [ClipboardFileEnabled (file_transfer_enabled r p)] else [])
                    @ (if unix_file_copy_paste b
                       then (if \<not> v then [TryEmptyFileClipboard] else [])
                            @ sub_effects b NAME_FILE_CLIPBOARD (can_sub_file_clipboard_service b r p)
                       else []))
            | None \<Rightarrow> (p, []));
          (p, es2) = (case given (om_disable_clipboard opt) of
              Some v \<Rightarrow> let p = p\<lparr>disable_clipboard := v\<rparr> in
                (p, sub_effects b NAME_CLIPBOARD (can_sub_clipboard_service b r p))
            | None \<Rightarrow> (p, []));
          (p, es3) = (case given (om_disable_keyboard opt) of
              Some v \<Rightarrow> let p = p\<lparr>disable_keyboard := v\<rparr> in
                (p, sub_effects b NAME_CLIPBOARD (can_sub_clipboard_service b r p)
                    @ (if unix_file_copy_paste b
                       then sub_effects b NAME_FILE_CLIPBOARD (can_sub_file_clipboard_service b r p) else [])
                    @ sub_effects b NAME_CURSOR (peer_keyboard_enabled r p \<or> show_remote_cursor p))
            | None \<Rightarrow> (p, []))
      in (p, es1 @ es2 @ es3))"

text \<open>\<open>old\<close>: the peer is older than 1.2.4 and switches privacy mode by this message.\<close>

definition turn_on_privacy :: "auth_conn_type option \<Rightarrow> rights \<Rightarrow> string \<Rightarrow> option_effect list" where
  "turn_on_privacy t r key = (if t \<noteq> Some Remote \<or> \<not> privacy_mode r then [PrivacyDenied key] else [TurnOnPrivacy key])"

definition privacy_effects :: "bool \<Rightarrow> auth_conn_type option \<Rightarrow> option_message \<Rightarrow> rights \<Rightarrow> option_effect list" where
  "privacy_effects old t opt r =
     (if old then
        (case bool_value (om_privacy_mode opt) of
           Some q \<Rightarrow>
             if keyboard r
             then (case q of BoolYes \<Rightarrow> turn_on_privacy t r [] | BoolNo \<Rightarrow> [TurnOffPrivacy []] | BoolNotSet \<Rightarrow> [])
             else []
         | None \<Rightarrow> [])
      else [])"

definition block_input_effects :: "option_message \<Rightarrow> rights \<Rightarrow> option_effect list" where
  "block_input_effects opt r =
     (case given (om_block_input opt) of
        Some on \<Rightarrow> if keyboard r \<and> block_input r then [BlockInput on] else [BlockInputError on]
      | None \<Rightarrow> [])"

definition update_shown_prefs :: "build \<Rightarrow> option_message \<Rightarrow> prefs \<Rightarrow> prefs \<times> option_effect list" where
  "update_shown_prefs b opt p =
     (let (p, es1) = (case given (om_terminal_persistent opt) of
              Some v \<Rightarrow> (p\<lparr>terminal_persistent := v\<rparr>, [SetTerminalPersistent v])
            | None \<Rightarrow> (p, []));
          (p, es2) = (case given (om_show_my_cursor opt) of
              Some v \<Rightarrow> (p\<lparr>show_my_cursor := v\<rparr>,
                if v then (if whiteboard_unsupported b = [] then [RegisterWhiteboard]
                           else [WhiteboardUnsupported (whiteboard_unsupported b)])
                else (if whiteboard_unsupported b = [] then [UnregisterWhiteboard] else []))
            | None \<Rightarrow> (p, []))
      in (p, es1 @ es2))"

definition update_options ::
    "build \<Rightarrow> bool \<Rightarrow> auth_conn_type option \<Rightarrow> bool \<Rightarrow> option_message \<Rightarrow> rights \<Rightarrow> prefs \<Rightarrow> prefs \<times> option_effect list" where
  "update_options b old t calling opt r p =
     (let (p, cursor) = update_cursor_prefs b opt r p;
          (p, sound) = update_audio_pref b t calling opt r p;
          (p, sharing) = update_sharing_prefs b opt r p;
          (p, shown) = update_shown_prefs b opt p
      in (p, video_effects opt @ cursor @ sound @ sharing @ privacy_effects old t opt r
             @ block_input_effects opt r @ shown))"

text \<open>The option arm of the message handler, and the options that came with the login request.\<close>

definition option_arm ::
    "build \<Rightarrow> bool \<Rightarrow> auth_conn_type option \<Rightarrow> bool \<Rightarrow> option_message \<Rightarrow> rights \<Rightarrow> prefs \<Rightarrow> prefs \<times> option_effect list" where
  "option_arm b old t calling opt r p =
     (if t = Some Remote then update_options b old t calling opt r p
      else case scoped_update_option_message t opt of
             Some s \<Rightarrow> update_options b old t calling s r p
           | None \<Rightarrow> (p, []))"

definition update_scoped_login_options ::
    "build \<Rightarrow> bool \<Rightarrow> auth_conn_type option \<Rightarrow> bool \<Rightarrow> option_message option \<Rightarrow> rights \<Rightarrow> prefs \<Rightarrow> prefs \<times> option_effect list" where
  "update_scoped_login_options b old authed calling in_login r p =
     (case in_login of
        None \<Rightarrow> (p, [])
      | Some opt \<Rightarrow>
          (case authed of
             None \<Rightarrow> (p, [])
           | Some t \<Rightarrow>
               (case fst (scoped_login_option t opt) of
                  Some s \<Rightarrow> update_options b old authed calling s r p
                | None \<Rightarrow> (p, []))))"

section \<open>What the options of a limited session reach\<close>

lemmas option_defs = is_bool_option_not_set_def option_has_any_field_def option_has_non_terminal_login_field_def
  option_message_new_def then_some_def Let_def

lemma value_numbers [simp]:
  "bool_value 0 = Some BoolNotSet" "bool_value (bool_number v) = Some v" "given 0 = None" "quality_value 0 = Some QualityNotSet"
  by (cases v; simp add: bool_value_def given_def quality_value_def)+

lemma given_number: "bool_value n = Some v \<Longrightarrow> given (bool_number v) = given n"
  by (simp add: given_def)

lemma given_unknown: "bool_value n = None \<Longrightarrow> given n = None"
  by (simp add: given_def)

text \<open>Messages that set nothing but the options of a camera, or nothing but the terminal's.\<close>

definition camera_only :: "option_message \<Rightarrow> bool" where
  "camera_only s \<longleftrightarrow>
     given (om_lock_after_session_end s) = None \<and> given (om_show_remote_cursor s) = None
     \<and> bool_value (om_privacy_mode s) = Some BoolNotSet \<and> given (om_block_input s) = None
     \<and> given (om_disable_clipboard s) = None \<and> given (om_enable_file_transfer s) = None
     \<and> given (om_disable_keyboard s) = None \<and> given (om_follow_remote_cursor s) = None
     \<and> given (om_follow_remote_window s) = None \<and> given (om_terminal_persistent s) = None
     \<and> given (om_show_my_cursor s) = None"

lemma update_camera_only:
  assumes "camera_only s"
  shows "update_options b old t calling s r p =
     (case update_audio_pref b t calling s r p of (p', sound) \<Rightarrow> (p', video_effects s @ sound))"
  using assms
  by (simp add: camera_only_def update_options_def update_cursor_prefs_def update_sharing_prefs_def
      privacy_effects_def block_input_effects_def update_shown_prefs_def Let_def split: prod.split)

lemma scoped_camera:
  obtains s where "scoped_view_camera_option opt =
      (then_some (option_has_any_field s) s, then_some (option_has_non_view_camera_login_field opt) ''login.option'')"
    "camera_only s" "om_disable_camera s = 0" "given (om_disable_audio s) = given (om_disable_audio opt)"
    "om_custom_fps s = (if 0 \<le> om_custom_fps opt then om_custom_fps opt else 0)"
    "om_supported_decoding s = om_supported_decoding opt"
    "om_image_quality s = (if quality_value (om_image_quality opt) \<noteq> None then om_image_quality opt else 0)"
    "om_custom_image_quality s = (if 0 \<le> om_custom_image_quality opt then om_custom_image_quality opt else 0)"
    "om_disable_audio s = (case bool_value (om_disable_audio opt) of Some v \<Rightarrow> bool_number v | None \<Rightarrow> 0)"
proof -
  define s where "s = option_message_new
    \<lparr>om_image_quality := if quality_value (om_image_quality opt) \<noteq> None then om_image_quality opt else 0,
     om_custom_image_quality := if 0 \<le> om_custom_image_quality opt then om_custom_image_quality opt else 0,
     om_custom_fps := if 0 \<le> om_custom_fps opt then om_custom_fps opt else 0,
     om_supported_decoding := om_supported_decoding opt,
     om_disable_audio := case bool_value (om_disable_audio opt) of Some v \<Rightarrow> bool_number v | None \<Rightarrow> 0\<rparr>"
  have "scoped_view_camera_option opt =
      (then_some (option_has_any_field s) s, then_some (option_has_non_view_camera_login_field opt) ''login.option'')"
    unfolding scoped_view_camera_option_def Let_def s_def option_message_new_def
    by (cases "bool_value (om_disable_audio opt)") simp_all
  moreover have "camera_only s" "om_disable_camera s = 0" by (simp_all add: s_def camera_only_def option_message_new_def)
  moreover have "given (om_disable_audio s) = given (om_disable_audio opt)"
    by (auto simp: s_def given_number given_unknown split: option.split)
  ultimately show ?thesis by (intro that[of s]) (simp_all add: s_def)
qed

lemma no_field_nothing:
  assumes "\<not> option_has_any_field s"
  shows "video_effects s = []" "given (om_disable_audio s) = None" "given (om_terminal_persistent s) = None"
  using assms by (auto simp: option_has_any_field_def option_has_non_terminal_login_field_def is_bool_option_not_set_def
      video_effects_def image_quality_effects_def given_def)

text \<open>A camera session's message: the video settings, and the sound preference.\<close>

lemma option_arm_camera:
  obtains s where "option_arm b old (Some ViewCamera) calling opt r p =
      (case update_audio_pref b (Some ViewCamera) calling opt r p of (p', sound) \<Rightarrow> (p', video_effects s @ sound))"
    "quality_value (om_image_quality opt) \<noteq> None \<Longrightarrow> video_effects s = video_effects opt"
    "fst (scoped_login_option ViewCamera opt) = then_some (option_has_any_field s) s" "camera_only s"
proof (rule scoped_camera[of opt])
  fix s assume s: "scoped_view_camera_option opt =
      (then_some (option_has_any_field s) s, then_some (option_has_non_view_camera_login_field opt) ''login.option'')"
    "camera_only s" "given (om_disable_audio s) = given (om_disable_audio opt)"
    "om_custom_fps s = (if 0 \<le> om_custom_fps opt then om_custom_fps opt else 0)"
    "om_supported_decoding s = om_supported_decoding opt"
    "om_image_quality s = (if quality_value (om_image_quality opt) \<noteq> None then om_image_quality opt else 0)"
    "om_custom_image_quality s = (if 0 \<le> om_custom_image_quality opt then om_custom_image_quality opt else 0)"
  have a: "update_audio_pref b t calling s r p = update_audio_pref b t calling opt r p" for t
    by (simp add: update_audio_pref_def s(3))
  have "option_arm b old (Some ViewCamera) calling opt r p =
      (case update_audio_pref b (Some ViewCamera) calling opt r p of (p', sound) \<Rightarrow> (p', video_effects s @ sound))"
  proof (cases "option_has_any_field s")
    case True
    then show ?thesis using s(1,2) by (simp add: option_arm_def then_some_def update_camera_only a)
  next
    case False
    with no_field_nothing[OF False] s show ?thesis
      by (simp add: option_arm_def then_some_def update_audio_pref_def)
  qed
  moreover have "quality_value (om_image_quality opt) \<noteq> None \<Longrightarrow> video_effects s = video_effects opt"
    using s by (auto simp: video_effects_def image_quality_effects_def split: option.splits)
  ultimately show ?thesis using s that by simp
qed

lemma option_arm_terminal:
  "option_arm b old (Some Terminal) calling opt r p =
     (case given (om_terminal_persistent opt) of
        Some v \<Rightarrow> (p\<lparr>terminal_persistent := v\<rparr>, [SetTerminalPersistent v])
      | None \<Rightarrow> (p, []))"
proof -
  define s where "s = option_message_new\<lparr>om_terminal_persistent :=
     case bool_value (om_terminal_persistent opt) of Some v \<Rightarrow> bool_number v | None \<Rightarrow> 0\<rparr>"
  have sc: "fst (scoped_terminal_login_option opt) = then_some (option_has_any_field s) s"
    unfolding scoped_terminal_login_option_def Let_def s_def option_message_new_def
    by (cases "bool_value (om_terminal_persistent opt)") simp_all
  have g: "given (om_terminal_persistent s) = given (om_terminal_persistent opt)"
    by (auto simp: s_def given_number given_unknown split: option.split)
  have u: "update_options b old t calling s r p =
     (case given (om_terminal_persistent s) of
        Some v \<Rightarrow> (p\<lparr>terminal_persistent := v\<rparr>, [SetTerminalPersistent v])
      | None \<Rightarrow> (p, []))" for t
    by (simp add: update_options_def update_cursor_prefs_def update_sharing_prefs_def update_audio_pref_def
        privacy_effects_def block_input_effects_def update_shown_prefs_def video_effects_def image_quality_effects_def
        s_def option_message_new_def Let_def split: option.split)
  show ?thesis
  proof (cases "option_has_any_field s")
    case True
    then show ?thesis using sc u[of "Some Terminal"] g by (simp add: option_arm_def then_some_def)
  next
    case False
    with no_field_nothing(3)[OF False] g show ?thesis by (simp add: option_arm_def then_some_def sc)
  qed
qed

text \<open>The options of the login request are treated as the same options sent later.\<close>

lemma login_options_as_message:
  "update_scoped_login_options b old (Some t) calling (Some opt) r p = option_arm b old (Some t) calling opt r p"
  by (cases t) (simp_all add: update_scoped_login_options_def option_arm_def)

text \<open>What a session of each limited kind may bring about by its options.\<close>

fun in_reach :: "auth_conn_type \<Rightarrow> bool \<Rightarrow> rights \<Rightarrow> option_effect \<Rightarrow> bool" where
  "in_reach ViewCamera calling r (UserImageQuality n) = (0 < n)"
| "in_reach ViewCamera calling r (UserCustomFps n) = (0 < n)"
| "in_reach ViewCamera calling r (EncoderUpdate q) = True"
| "in_reach ViewCamera calling r (Subscribe name on) = (name = NAME_AUDIO \<and> (on \<longrightarrow> calling \<and> audio r))"
| "in_reach Terminal calling r (SetTerminalPersistent on) = True"
| "in_reach _ calling r _ = False"

lemma video_effects_in_reach: "\<forall>e \<in> set (video_effects s). in_reach ViewCamera calling r e"
  by (auto simp: video_effects_def image_quality_effects_def Let_def split: option.splits if_splits)

lemma sound_in_reach:
  assumes "update_audio_pref b (Some ViewCamera) calling opt r p = (p', es)"
  shows "p' = p\<lparr>disable_audio := disable_audio p'\<rparr>" "\<forall>e \<in> set es. in_reach ViewCamera calling r e"
  using assms
  by (auto simp: update_audio_pref_def sub_effects_def audio_enabled_def Let_def split: option.splits if_splits)

lemma option_arm_camera_reach:
  assumes a: "option_arm b old (Some ViewCamera) calling opt r p = (p', es)"
  shows "p' = p\<lparr>disable_audio := disable_audio p'\<rparr>" "\<forall>e \<in> set es. in_reach ViewCamera calling r e"
proof -
  obtain p1 sound where u: "update_audio_pref b (Some ViewCamera) calling opt r p = (p1, sound)" by fastforce
  obtain s where "option_arm b old (Some ViewCamera) calling opt r p = (p1, video_effects s @ sound)"
    using option_arm_camera[of b old calling opt r p] u by auto
  then have "es = video_effects s @ sound" "p' = p1" using a by simp_all
  then show "p' = p\<lparr>disable_audio := disable_audio p'\<rparr>" "\<forall>e \<in> set es. in_reach ViewCamera calling r e"
    using sound_in_reach[OF u] video_effects_in_reach[of s calling r] by (simp_all add: ball_Un)
qed

text \<open>
  C25: Options reach no further than the session's kind. A session that was authorized for the camera
  changes by its options, sent with the login or later, only its own sound preference, and brings
  about only calls for picture quality, frame rate and decoding, and a sound subscription that is
  switched on only during a voice call and with the right to sound; a terminal session changes only
  whether its terminal persists; a session for files or ports changes nothing and brings about
  nothing. No field of the message, known or unknown, gets further.
\<close>

theorem limited_options_confined:
  assumes "t \<noteq> Remote"
    and "option_arm b old (Some t) calling opt r p = (p', es)
      \<or> update_scoped_login_options b old (Some t) calling (Some opt) r p = (p', es)"
  shows "(t = ViewCamera \<longrightarrow> p' = p\<lparr>disable_audio := disable_audio p'\<rparr>)
    \<and> (t = Terminal \<longrightarrow> p' = p\<lparr>terminal_persistent := terminal_persistent p'\<rparr>)
    \<and> (t \<in> {FileTransfer, PortForward} \<longrightarrow> p' = p \<and> es = [])
    \<and> (\<forall>e \<in> set es. in_reach t calling r e)"
proof -
  have a: "option_arm b old (Some t) calling opt r p = (p', es)"
    using assms(2) by (simp add: login_options_as_message)
  show ?thesis
  proof (cases t)
    case ViewCamera
    with a show ?thesis using option_arm_camera_reach[of b old calling opt r p p' es] by simp
  next
    case Terminal
    then show ?thesis using a by (auto simp: option_arm_terminal split: option.splits)
  qed (use a assms(1) in \<open>simp_all add: option_arm_def\<close>)
qed

text \<open>A camera session asks for everything; it gets its picture settings and no sound.\<close>

definition greedy_option :: option_message where
  "greedy_option = \<lparr>om_image_quality = 4, om_lock_after_session_end = 2, om_show_remote_cursor = 2, om_privacy_mode = 2,
     om_block_input = 2, om_custom_image_quality = 80, om_disable_audio = 1, om_disable_clipboard = 1,
     om_enable_file_transfer = 2, om_supported_decoding = Some [1], om_custom_fps = 30, om_disable_keyboard = 1,
     om_follow_remote_cursor = 2, om_follow_remote_window = 2, om_disable_camera = 1, om_terminal_persistent = 2,
     om_show_my_cursor = 2\<rparr>"

definition all_rights :: rights where
  "all_rights = \<lparr>keyboard = True, clipboard = True, audio = True, file_right = True, restart = True,
     recording = True, block_input = True, privacy_mode = True\<rparr>"

definition linux_build :: build where
  "linux_build = \<lparr>on_windows = False, unix_file_copy_paste = True, one_way_clipboard = False,
     one_way_file_transfer = False, server_alive = True, whiteboard_unsupported = []\<rparr>"

theorem limited_options_confined_witness:
  "option_arm linux_build True (Some ViewCamera) False greedy_option all_rights prefs_new
     = (prefs_new, [UserImageQuality 4, UserCustomFps 30, EncoderUpdate [1]])
   \<and> list_all (in_reach ViewCamera False all_rights) [UserImageQuality 4, UserCustomFps 30, EncoderUpdate [1]]"
proof -
  have a: "option_arm linux_build True (Some ViewCamera) False greedy_option all_rights prefs_new
     = (prefs_new, [UserImageQuality 4, UserCustomFps 30, EncoderUpdate [1]])" by code_simp
  from limited_options_confined[OF _ disjI1[OF a]] have
    "\<forall>e \<in> set [UserImageQuality 4, UserCustomFps 30, EncoderUpdate [1]]. in_reach ViewCamera False all_rights e" by simp
  with a show ?thesis by (simp add: list_all_iff)
qed

end
