(* ===== verification/Version_Number.thy ===== *)
theory Version_Number
  imports Rust_Text
begin

text \<open>
  Version numbers of peers (\<open>get_version_number\<close> of \<open>libs/hbb_common/src/lib.rs\<close>), by which the sessions
  decide what a peer understands. The arithmetic is that of \<open>i64\<close>, which wraps.
\<close>

definition wrap_i64 :: "int \<Rightarrow> int" where
  "wrap_i64 x = (x + 2 ^ 63) mod 2 ^ 64 - 2 ^ 63"

lemma wrap_i64_id [simp]: "- (2 ^ 63) \<le> x \<Longrightarrow> x < 2 ^ 63 \<Longrightarrow> wrap_i64 x = x"
  by (simp add: wrap_i64_def)

text \<open>\<open>str::parse::<i64>\<close>: an optional sign and at least one digit; a value that does not fit is an error.\<close>

definition parse_digits :: "string \<Rightarrow> nat option" where
  "parse_digits s =
     (if s = [] \<or> (\<exists>c \<in> set s. digit_val 10 c = None) then None
      else Some (foldl (\<lambda>a c. a * 10 + the (digit_val 10 c)) 0 s))"

definition parse_i64 :: "string \<Rightarrow> int option" where
  "parse_i64 s =
     (let signed = (if take 1 s = ''-'' then map_option (\<lambda>n. - int n) (parse_digits (drop 1 s))
                    else if take 1 s = ''+'' then map_option int (parse_digits (drop 1 s))
                    else map_option int (parse_digits s))
      in case signed of
           Some n \<Rightarrow> if - (2 ^ 63) \<le> n \<and> n < 2 ^ 63 then Some n else None
         | None \<Rightarrow> None)"

definition parse_or_0 :: "string \<Rightarrow> int" where
  "parse_or_0 s = (case parse_i64 s of Some n \<Rightarrow> n | None \<Rightarrow> 0)"

fun version_parts :: "int \<Rightarrow> int \<Rightarrow> string list \<Rightarrow> int \<times> int" where
  "version_parts n part [] = (n, part)"
| "version_parts n part (x # xs) = version_parts (wrap_i64 (wrap_i64 (n * 1000) + parse_or_0 x)) (parse_or_0 x) xs"

definition get_version_number :: "string \<Rightarrow> int" where
  "get_version_number v =
     (case split_char CHR ''-'' v of
        main # rest \<Rightarrow>
          (case version_parts 0 0 (split_char CHR ''.'' main) of
             (n, part) \<Rightarrow>
               let n = wrap_i64 (wrap_i64 (n - part) + wrap_i64 (part * 10)) in
               (case rest of p # _ \<Rightarrow> wrap_i64 (n + parse_or_0 p) | [] \<Rightarrow> n))
      | [] \<Rightarrow> 0)"

section \<open>What the numbers say\<close>

lemma split_char_first:
  assumes "c \<notin> set a"
  shows "split_char c (a @ c # b) = a # split_char c b" "split_char c a = [a]"
  using assms by (induction a) auto

lemma digit_char: "d < 10 \<Longrightarrow> digit_val 10 (''0123456789'' ! d) = Some d"
  by (subgoal_tac "d \<in> set [0..<10]") (auto simp: digit_val_def Let_def upt_rec)

lemma parse_show_nat: "parse_digits (show_nat n) = Some n"
  and show_nat_chars: "set (show_nat n) \<subseteq> set ''0123456789''"
proof -
  have *: "foldl (\<lambda>a c. a * 10 + the (digit_val 10 c)) 0 (show_nat n) = n \<and> show_nat n \<noteq> []
      \<and> (\<forall>c \<in> set (show_nat n). digit_val 10 c \<noteq> None) \<and> set (show_nat n) \<subseteq> set ''0123456789''"
  proof (induction n rule: show_nat.induct)
    case (1 n)
    have d: "''0123456789'' ! (n mod 10) \<in> set ''0123456789''" by (rule nth_mem) simp
    show ?case
    proof (cases "n < 10")
      case True
      then have "n mod 10 = n" by simp
      with True d digit_char[of n] show ?thesis by (simp add: show_nat.simps[of n])
    next
      case False
      with 1 have "foldl (\<lambda>a c. a * 10 + the (digit_val 10 c)) 0 (show_nat (n div 10)) = n div 10"
        "\<forall>c \<in> set (show_nat (n div 10)). digit_val 10 c \<noteq> None" "set (show_nat (n div 10)) \<subseteq> set ''0123456789''"
        by blast+
      with False d digit_char[of "n mod 10"] show ?thesis by (subst (1 2 3 4) show_nat.simps) auto
    qed
  qed
  then show "parse_digits (show_nat n) = Some n" "set (show_nat n) \<subseteq> set ''0123456789''"
    by (auto simp: parse_digits_def)
qed

lemma parse_show:
  assumes "n < 2 ^ 63"
  shows "parse_or_0 (show_nat n) = int n"
proof -
  have "show_nat n \<noteq> []" using parse_show_nat[of n] by (auto simp: parse_digits_def)
  moreover have "hd (show_nat n) \<in> set ''0123456789''"
    using calculation show_nat_chars[of n] hd_in_set[of "show_nat n"] by blast
  then have "hd (show_nat n) \<noteq> CHR ''-''" "hd (show_nat n) \<noteq> CHR ''+''" by auto
  ultimately have "parse_i64 (show_nat n) = Some (int n)"
    using parse_show_nat[of n] assms
    by (cases "show_nat n") (auto simp: parse_i64_def Let_def)
  then show ?thesis by (simp add: parse_or_0_def)
qed

definition version_text :: "nat \<Rightarrow> nat \<Rightarrow> nat \<Rightarrow> string" where
  "version_text a b c = show_nat a @ ''.'' @ show_nat b @ ''.'' @ show_nat c"

lemma version_number_text:
  assumes "a < 1000" "b < 1000" "c < 1000"
  shows "get_version_number (version_text a b c) = int a * 1000000 + int b * 1000 + int c * 10"
proof -
  have ch: "CHR ''-'' \<notin> set (show_nat n)" "CHR ''.'' \<notin> set (show_nat n)" for n
    using show_nat_chars[of n] by auto
  then have "split_char CHR ''-'' (version_text a b c) = [version_text a b c]"
    by (intro split_char_first(2)) (auto simp: version_text_def)
  moreover have "split_char CHR ''.'' (version_text a b c) = [show_nat a, show_nat b, show_nat c]"
    using ch by (simp add: version_text_def split_char_first)
  ultimately show ?thesis using assms parse_show[of a] parse_show[of b] parse_show[of c]
    by (simp add: get_version_number_def)
qed

text \<open>
  Comparing version numbers compares versions. For versions of three parts, the first two below
  1000 and the last below 100, the number of one is below the number of the other exactly when the
  version is older, part by part.
\<close>

theorem version_order:
  assumes "a < 1000" "b < 1000" "c < 100" "a' < 1000" "b' < 1000" "c' < 100"
  shows "get_version_number (version_text a b c) < get_version_number (version_text a' b' c')
    \<longleftrightarrow> a < a' \<or> a = a' \<and> (b < b' \<or> b = b' \<and> c < c')"
proof -
  have *: "get_version_number (version_text a b c) = int a * 1000000 + int b * 1000 + int c * 10"
    "get_version_number (version_text a' b' c') = int a' * 1000000 + int b' * 1000 + int c' * 10"
    using assms by (intro version_number_text; simp)+
  show ?thesis unfolding * using assms
    by (cases a a' rule: linorder_cases; cases b b' rule: linorder_cases) auto
qed

theorem version_order_witness:
  "get_version_number (version_text 1 2 4) < get_version_number (version_text 1 10 0)"
  using version_order[of 1 2 4 1 10 0] by simp

text \<open>The example of the source's comment, and a last part that is too large.\<close>

lemma version_number_1_2_3: "get_version_number ''1.2.3'' = 1002030"
  by code_simp

lemma version_number_clash: "get_version_number ''1.2.100'' = get_version_number ''1.3.0''"
  by code_simp

end
