(* ===== verification/Remove_Log.thy ===== *)
theory Remove_Log
  imports Transfer_Path
begin

text \<open>
  The log of removed files and directories that a file session writes to the connection manager
  (\<open>FileRemoveLogControl\<close> of \<open>src/server/connection.rs\<close>). Removals are collected and logged once none
  has come for a second. Times are in milliseconds, paths are Unix paths.
\<close>

section \<open>State and operations\<close>

record remove_log =
  rl_instant :: int
  rl_files :: "(int \<times> string) list"
  rl_dirs :: "(int \<times> string) list"

definition remove_log_new :: "int \<Rightarrow> remove_log" where
  "remove_log_new now = \<lparr>rl_instant = now, rl_files = [], rl_dirs = []\<rparr>"

text \<open>\<open>Path::parent\<close>: the path without its last part, none for a root and for the empty path.\<close>

definition path_parent :: "string \<Rightarrow> component list option" where
  "path_parent p =
     (let cs = path_components p in if cs = [] \<or> last cs = RootDir then None else Some (butlast cs))"

definition direct_child :: "string \<Rightarrow> string \<Rightarrow> bool" where
  "direct_child parent child \<longleftrightarrow> path_parent child = Some (path_components parent)"

text \<open>An entry of the log: the job, the path, and whether it was a directory.\<close>

datatype remove_entry = Removed int string bool

definition on_remove_file :: "int \<Rightarrow> int \<times> string \<Rightarrow> remove_log \<Rightarrow> remove_entry option \<times> remove_log" where
  "on_remove_file now f l =
     (Some (Removed (fst f) (snd f) False), l\<lparr>rl_instant := now, rl_files := rl_files l @ [f]\<rparr>)"

definition on_remove_dir :: "int \<Rightarrow> int \<times> string \<Rightarrow> remove_log \<Rightarrow> remove_entry option \<times> remove_log" where
  "on_remove_dir now d l =
     (let files = filter (\<lambda>f. \<not> direct_child (snd f) (snd d)) (rl_files l);
          dirs = filter (\<lambda>x. \<not> direct_child (snd d) (snd x)) (rl_dirs l);
          dirs = (if \<exists>x \<in> set dirs. direct_child (snd x) (snd d) then dirs else dirs @ [d])
      in (Some (Removed (fst d) (snd d) True), l\<lparr>rl_instant := now, rl_files := files, rl_dirs := dirs\<rparr>))"

definition on_timer_log :: "int \<Rightarrow> remove_log \<Rightarrow> remove_entry list \<times> remove_log" where
  "on_timer_log now l =
     (if now - rl_instant l < 1000 then ([], l)
      else (map (\<lambda>(i, p). Removed i p False) (rl_files l) @ map (\<lambda>(i, p). Removed i p True) (rl_dirs l),
            l\<lparr>rl_files := [], rl_dirs := []\<rparr>))"

section \<open>What is logged\<close>

text \<open>
  The test that thins the list of files has its arguments the other way round from the one that
  thins the list of directories: a removed directory swallows the entries of the directories in it,
  but not those of the files in it.
\<close>

lemma files_of_removed_dir_stay:
  "map_prod id rl_files (on_remove_dir 5 (1, ''/a/b'') (snd (on_remove_file 4 (1, ''/a/b/f'') (remove_log_new 0))))
     = (Some (Removed 1 ''/a/b'' True), [(1, ''/a/b/f'')])"
  "map_prod id rl_dirs (on_remove_dir 5 (1, ''/a/b'') (snd (on_remove_dir 4 (1, ''/a/b/c'') (remove_log_new 0))))
     = (Some (Removed 1 ''/a/b'' True), [(1, ''/a/b'')])"
  by code_simp+

end
