(* ===== verification/Session_State.thy ===== *)
theory Session_State
  imports Session_Options Mux_Server Password_Login Version_Number Remove_Log
begin

text \<open>
  The state of a session on the controlled side (\<open>struct Connection\<close> of \<open>src/server/connection.rs\<close>), the
  state it shares with the other sessions of the process, what it asks of the machine, and the calls
  it makes, listed as effects in the order in which they are made. Handlers take a \<open>world\<close>, a
  connection with the shared state and the calls made so far, and return whether the connection is
  kept alive, and the world.
\<close>

section \<open>What a session asks of its surroundings\<close>

text \<open>What \<open>handle_installed_user\<close> finds: no session, no token, or a token for the logged-on user.\<close>

datatype logon_user = NoLogonSession | NoLogonToken | LogonToken nat

datatype user_token = SelfUser | CurrentLogonUser nat

text \<open>A device that may skip the one-time code (\<open>TrustedDevice\<close> of \<open>libs/hbb_common/src/config.rs\<close>).\<close>

record trusted_device =
  td_hwid :: bytes
  td_time :: int
  td_id :: string
  td_name :: string
  td_platform :: string

text \<open>
  The clock, the next temporary password, the machine's state, and functions of other packages:
  looking like an address (\<open>regex\<close>), connecting to an address, checking a one-time code (\<open>totp-rs\<close>), the
  accounts of the operating system. The number of screens (\<open>False\<close>) or cameras (\<open>True\<close>), what listing a
  directory gives, the sessions of Windows with the one of this process, and which modifier a key code
  stands for (\<open>rdev\<close>) are asked for later, by the session's messages. \<open>env_idle\<close> is the time since the
  peer's last message, \<open>env_privacy_conn\<close> the connection that privacy mode was turned on for,
  \<open>env_privacy_off\<close> the error of turning it off, and \<open>env_read_directory\<close> reads the path in an encoded
  directory listing, or fails (\<open>protobuf\<close>). \<open>env_trusted_fits\<close> says
  whether a list of devices is within the megabyte that the configuration keeps of them.
\<close>

record env =
  env_now :: int
  env_fresh :: string
  env_build :: build
  env_builtin :: options
  env_installed :: bool
  env_prelogin :: bool
  env_locked :: bool
  env_logon_ui :: bool
  env_privacy_on :: bool
  env_own_id :: string
  env_direct_ip :: "string \<Rightarrow> bool"
  env_connects :: "string \<Rightarrow> bool"
  env_totp :: "string \<Rightarrow> string \<Rightarrow> bool option"
  env_admin :: "string \<Rightarrow> string \<Rightarrow> bool option"
  env_logon_user :: logon_user
  env_gate_free :: bool
  env_service_user :: "string \<Rightarrow> bool option"
  env_display_error :: string
  env_displays :: "string + nat"
  env_wait_sid :: bool
  env_is_dir :: "string \<Rightarrow> bool"
  env_trusted_fits :: "trusted_device list \<Rightarrow> bool"
  env_sources :: "bool \<Rightarrow> nat"
  env_modifier_key :: "u32 \<Rightarrow> nat option"
  env_clip_ok :: "cliprdr \<Rightarrow> bool"
  env_fs_in_cm :: bool
  env_read_job :: "string \<Rightarrow> bool \<Rightarrow> string + nat"
  env_max_files :: nat
  env_has_display :: "nat \<Rightarrow> bool"
  env_portable_running :: bool
  env_sessions :: "(u32 list \<times> u32) option"
  env_share_rdp :: bool
  env_subbed :: nat
  env_logon_screen :: bool
  env_start_portable :: "elevation \<Rightarrow> string"
  env_virtual_supported :: bool
  env_plug :: "bool \<Rightarrow> int \<Rightarrow> string option"
  env_display_msg :: "bool \<Rightarrow> nat \<Rightarrow> bool"
  env_cursor_known :: "u64 \<Rightarrow> bool"
  env_terminal :: "payload \<Rightarrow> string + payload option"
  env_idle :: int
  env_privacy_conn :: "int option"
  env_privacy_key :: string
  env_privacy_off :: "string option"
  env_read_directory :: "bytes \<Rightarrow> string + string"

section \<open>Shared state\<close>

text \<open>
  \<open>h_fail_2fa\<close> and \<open>h_fail_id\<close> are the failure counters of the one-time codes and of the id whitelist;
  those of the passwords are in \<open>h_login\<close>. \<open>h_switch\<close> holds the keys of switched sides with their
  times, \<open>h_authed\<close> the sessions that are authorized.
\<close>

record host =
  h_login :: login_server
  h_fail_2fa :: failures
  h_fail_id :: failures
  h_os :: os_failure_state
  h_trusted :: "trusted_device list"
  h_switch :: "(string, int \<times> bytes) hmap"
  h_pending :: "(string, int \<times> bytes \<times> bool) hmap"
  h_authed :: "(int \<times> auth_conn_type \<times> session_key) list"

section \<open>The connection\<close>

datatype two_factor = NoTwoFactor | TotpFactor | TrustedDeviceFactor

record conn =
  c_id :: int
  c_ip :: string
  c_hash :: "bytes \<times> bytes"
  c_lr :: login_request
  c_scope :: "bytes option"
  c_primary :: primary_auth
  c_two_factor :: two_factor
  c_require_2fa :: "string option"
  c_awaiting_2fa :: bool
  c_authorized :: bool
  c_authed :: "auth_conn_type option"
  c_from_switch :: bool
  c_options :: "option_message option"
  c_file_transfer :: "(string \<times> bool) option"
  c_view_camera :: bool
  c_terminal :: bool
  c_service_id :: string
  c_user_token :: "user_token option"
  c_pf_address :: string
  c_pf_socket :: "string option"
  c_pf_mux :: "pf_mux option"
  c_control :: "u64 option"
  c_rights :: rights
  c_prefs :: prefs
  c_violations :: "string list"
  c_delayed_read_dir :: "(string \<times> bool) option"
  c_voice_calling :: bool
  c_cm_started :: bool
  c_last_test_delay :: "int option"
  c_display_idx :: nat
  c_chat_unanswered :: bool
  c_file_transferred :: bool
  c_voice_request :: "int option"
  c_audio_sender :: bool
  c_modifiers :: "nat list"
  c_printer :: "(int \<times> string \<times> bytes) list"
  c_cm_jobs :: "int list"
  c_read_jobs :: "int list"
  c_services_subed :: bool
  c_multi_ui :: bool
  c_remove_log :: remove_log
  c_auto_disconnect :: "(int \<times> nat) option"
  c_closed :: bool

text \<open>The part of the connection that the password check reads.\<close>

definition session_key_of :: "conn \<Rightarrow> session_key" where
  "session_key_of c = \<lparr>sk_peer = lr_my_id (c_lr c), sk_name = lr_my_name (c_lr c), sk_session = lr_session_id (c_lr c)\<rparr>"

definition login_view :: "conn \<Rightarrow> login_conn" where
  "login_view c = \<lparr>hash_salt = fst (c_hash c), hash_challenge = snd (c_hash c), lr_password = lr_pass (c_lr c),
     lr_key = session_key_of c, conn_ip = c_ip c, primary = c_primary c\<rparr>"

section \<open>Other events\<close>

text \<open>What reaches a connection apart from the peer's messages and the click that accepts it.\<close>

datatype (plugins only: code) session_event =
  Evicted
| LoginDeadline
| CmCloseData
| CmWindowClosed
| CmErr string
| CmChatMessage string
| CmSwitchPermission string bool
| CmRawMessage bytes
| CmClipboardFileData cliprdr
| CmPrivacyModeState string string
| CmPortableStart
| CmSwitchSidesBack
| CmVoiceCallResponse bool
| CmCloseVoiceCallData
| CmReadJobInitResult int int "string + bytes"
| CmFileBlock int int bytes bool int
| CmFileReadDone int int int
| CmFileReadError int int string int
| CmFileDigest int int u64 u64 bool int
| CmAllFilesResult int int string "string + bytes"
| PrivacyTakenOver
| PrinterData bytes
| WebConsoleClose "int list"
| SecondTick
| TestDelayTick

section \<open>Effects\<close>

datatype permission_kind =
  PermKeyboard | PermClipboard | PermAudio | PermFile | PermRestart | PermRecording | PermBlockInput | PermPrivacyMode

datatype (plugins only: code) cm_fs =
  FsReadEmptyDirs string bool
| FsReadDir string bool
| FsRemoveDir string int bool
| FsRemoveFile string int int
| FsCreateDir string int
| FsNewWrite string int int "(string \<times> u64) list" bool u64
| FsCancelWrite int
| FsWriteBlock int int bytes bool
| FsWriteDone int int
| FsWriteError int int string
| FsCheckDigest int int u64 u64 bool bool
| FsSendConfirm int int "(bool + u32) option"
| FsRename int string string
| FsReadFile string int int bool bool
| FsCancelRead int
| FsSendConfirmForRead int int bool u32
| FsReadAllFiles string int bool

datatype (plugins only: code) effect =
  SendLoginError string
| SendLoginResponse
| SendCloseReason string
| SendPermission permission_kind bool
| CmLogin string string bool
| StartCmIpc
| AlarmAudit alarm_audit_type
| ConcurrencyAlarm
| ScopeAlarm string
| OptionEffect option_effect
| SendFs cm_fs
| SubCameraDisplays
| SubMonitorServices "string list" nat
| InitTerminalService
| RemoteAuthorized
| LockScreen
| CmDisconnected
| CmClosed
| SendTestDelay payload
| UserNetworkDelay int
| TelegramCode
| SetSendTimeout bool
| SetMaxPacketLength int
| CodecOnLogin
| ClickTime
| MouseMoveTime
| InputMouse payload bool bool
| InputPointer payload
| InputKey key_event bool
| UpdateClipboard payload
| ClipFileAudit bool cliprdr
| CmClipboardFile cliprdr
| ServeClip cliprdr
| SendFileError int string int
| SendFileDir int string
| FileAudit bool string
| FileLog string int
| ConfirmReadJob int int "(bool + u32) option"
| SwitchVideo bool "nat option" nat
| ChangeResolutionTo nat int int
| SendDisplayChanged bool nat
| CaptureVideo bool "nat list" bool bool
| PlugVirtual bool int
| SendVirtualDisplayBox string
| CmChat string
| RefreshVideoOf "(bool \<times> nat) option"
| VideoFrameFetched
| Reboot bool
| StartPortable elevation
| SendElevationResponse string
| StartAudio payload
| PlayAudio payload
| VoiceCallInput bool
| RunSwitchSides string bytes
| UserAutoAdjustFps u32
| UserRecord bool
| ConnectUserSession u32
| SendCursorData u64
| CmVoiceCallIncoming
| CmCloseVoiceCall
| TakeScreenshot bool nat string
| TerminalActionTo string bool "nat option" payload
| SendTerminalResponse "string + payload"
| SendChat string
| SendPrivacyState string string
| SendPrivacyFailure string string
| CmSwitchedPermission string bool
| SendRaw bytes
| SendClip cliprdr
| SendSwitchBack
| SendVoiceCallResponse int bool
| CmStartVoiceCall
| SendVoiceCallRequest bool
| SendFileBlock int int bytes bool
| SendFileDone int int
| SendFileDigest int int u64 u64 bool
| SendDirectory bytes
| SendDelayProbe
| QosDelayElapsed int
| SendPrinterRequest string
| SendPrintingDisallowed

record world =
  w_conn :: conn
  w_host :: host
  w_out :: "effect list"

definition emit :: "effect list \<Rightarrow> world \<Rightarrow> world" where
  "emit es w = w\<lparr>w_out := w_out w @ es\<rparr>"

definition upd_conn :: "(conn \<Rightarrow> conn) \<Rightarrow> world \<Rightarrow> world" where
  "upd_conn f w = w\<lparr>w_conn := f (w_conn w)\<rparr>"

definition upd_host :: "(host \<Rightarrow> host) \<Rightarrow> world \<Rightarrow> world" where
  "upd_host f w = w\<lparr>w_host := f (w_host w)\<rparr>"

lemma world_simps [simp]:
  "w_conn (emit es w) = w_conn w" "w_host (emit es w) = w_host w" "w_out (emit es w) = w_out w @ es"
  "w_conn (upd_conn f w) = f (w_conn w)" "w_host (upd_conn f w) = w_host w" "w_out (upd_conn f w) = w_out w"
  "w_conn (upd_host g w) = w_conn w" "w_host (upd_host g w) = g (w_host w)" "w_out (upd_host g w) = w_out w"
  by (simp_all add: emit_def upd_conn_def upd_host_def)

end
