(* ===== verification/Login_Session.thy ===== *)
theory Login_Session
  imports Session_State
begin

text \<open>
  Logging in to the controlled side (\<open>src/server/connection.rs\<close>): the login request with the checks
  before the password, the one-time code, switching sides, the approval by a click, and the
  authorization they end in. The password check itself is in \<open>Password_Login\<close>, the limiters are in
  \<open>Login_Guard\<close>.
\<close>

section \<open>Permissions\<close>

text \<open>Two bits for each permission: 1 disables, 2 enables, anything else leaves it to the settings.\<close>

definition get_control_permission :: "u64 \<Rightarrow> int \<Rightarrow> bool option" where
  "get_control_permission permissions index =
     (if 0 \<le> index \<and> index < 32 then
        let value = drop_bit (nat (index * 2)) permissions AND 3 in
        if value = 1 then Some False else if value = 2 then Some True else None
      else None)"

definition is_permission_enabled_locally :: "options \<Rightarrow> string \<Rightarrow> bool" where
  "is_permission_enabled_locally opts name =
     (let access_mode = opts ''access-mode'' in
      if access_mode = ''full'' then True
      else if access_mode = ''view'' then False
      else option2bool name (opts name))"

definition permission_index :: "string \<Rightarrow> int option" where
  "permission_index name =
     (if name = ''enable-keyboard'' then Some 0
      else if name = ''enable-remote-printer'' then Some 1
      else if name = ''enable-clipboard'' then Some 2
      else if name = ''enable-file-transfer'' then Some 3
      else if name = ''enable-audio'' then Some 4
      else if name = ''enable-camera'' then Some 5
      else if name = ''enable-terminal'' then Some 6
      else if name = ''enable-tunnel'' then Some 7
      else if name = ''enable-remote-restart'' then Some 8
      else if name = ''enable-record-session'' then Some 9
      else if name = ''enable-block-input'' then Some 10
      else if name = ''enable-privacy-mode'' then Some 12
      else None)"

definition permission :: "options \<Rightarrow> string \<Rightarrow> u64 option \<Rightarrow> bool" where
  "permission opts name control =
     (case Option.bind control (\<lambda>bits. Option.bind (permission_index name) (get_control_permission bits)) of
        Some enabled \<Rightarrow> enabled
      | None \<Rightarrow> is_permission_enabled_locally opts name)"

section \<open>A connection that has just been opened\<close>

definition lr_new :: login_request where
  "lr_new = \<lparr>lr_username = [], lr_pass = [], lr_my_id = [], lr_my_name = [], lr_option = None, lr_union = None,
     lr_session_id = 0, lr_version = [], lr_os_username = [], lr_os_password = [], lr_my_platform = [], lr_hwid = []\<rparr>"

definition conn_new :: "options \<Rightarrow> int \<Rightarrow> int \<Rightarrow> string \<Rightarrow> bytes \<times> bytes \<Rightarrow> string option \<Rightarrow> u64 option \<Rightarrow> conn" where
  "conn_new opts now i ip hash totp control =
     \<lparr>c_id = i, c_ip = ip, c_hash = hash, c_lr = lr_new, c_scope = None, c_primary = NoAuth, c_two_factor = NoTwoFactor,
      c_require_2fa = totp, c_awaiting_2fa = False, c_authorized = False, c_authed = None, c_from_switch = False,
      c_options = None, c_file_transfer = None, c_view_camera = False, c_terminal = False, c_service_id = [],
      c_user_token = None, c_pf_address = [], c_pf_socket = None, c_pf_mux = None, c_control = control,
      c_rights = \<lparr>keyboard = permission opts ''enable-keyboard'' control,
         clipboard = permission opts ''enable-clipboard'' control,
         audio = permission opts ''enable-audio'' control,
         file_right = permission opts ''enable-file-transfer'' control,
         restart = permission opts ''enable-remote-restart'' control,
         recording = permission opts ''enable-record-session'' control,
         block_input = permission opts ''enable-block-input'' control,
         privacy_mode = permission opts ''enable-privacy-mode'' control\<rparr>,
      c_prefs = prefs_new, c_violations = [], c_delayed_read_dir = None, c_voice_calling = False, c_cm_started = False,
      c_last_test_delay = None, c_display_idx = 0, c_chat_unanswered = False, c_file_transferred = False,
      c_voice_request = None, c_audio_sender = False, c_modifiers = [], c_printer = [], c_cm_jobs = [], c_read_jobs = [],
      c_services_subed = False, c_multi_ui = False, c_remove_log = remove_log_new now,
      c_auto_disconnect = None, c_closed = False\<rparr>"

section \<open>The scope of a login\<close>

fun le_bytes :: "nat \<Rightarrow> nat \<Rightarrow> bytes" where
  "le_bytes 0 n = []"
| "le_bytes (Suc k) n = word_of_nat n # le_bytes k (n div 256)"

text \<open>One field of the digest's input: the length in eight bytes, then the bytes.\<close>

definition push :: "bytes \<Rightarrow> bytes" where
  "push bs = le_bytes 8 (length bs) @ bs"

definition scope_fields :: "login_request \<Rightarrow> bytes list" where
  "scope_fields lr = bytes_of (lr_my_id lr) #
     (case lr_union lr of
        Some (LoginFileTransfer dir show_hidden) \<Rightarrow> [bytes_of ''file_transfer'', bytes_of dir, [if show_hidden then 1 else 0]]
      | Some LoginViewCamera \<Rightarrow> [bytes_of ''view_camera'']
      | Some (LoginTerminal service_id) \<Rightarrow> [bytes_of ''terminal'', bytes_of service_id]
      | Some (LoginPortForward host port multiplex) \<Rightarrow>
          [bytes_of ''port_forward'', bytes_of host, le_bytes 4 (unat port), [if multiplex then 1 else 0]]
      | None \<Rightarrow> [bytes_of ''remote''])"

definition login_scope_digest :: "sodium \<Rightarrow> login_request \<Rightarrow> bytes" where
  "login_scope_digest so lr = sha256 so (concat (map push (scope_fields lr)))"

definition check_login_scope :: "sodium \<Rightarrow> login_request \<Rightarrow> world \<Rightarrow> bool \<times> world" where
  "check_login_scope so lr w =
     (let requested = login_scope_digest so lr in
      case c_scope (w_conn w) of
        Some initial \<Rightarrow>
          if initial \<noteq> requested then (False, emit [SendLoginError ''Connection not allowed''] w)
          else (True, w)
      | None \<Rightarrow> (True, upd_conn (c_scope_update (\<lambda>_. Some requested)) w))"

definition reset_session_scope_for_login :: "conn \<Rightarrow> conn" where
  "reset_session_scope_for_login c =
     c\<lparr>c_file_transfer := None, c_view_camera := False, c_terminal := False, c_pf_address := [],
       c_prefs := (c_prefs c)\<lparr>terminal_persistent := False\<rparr>\<rparr>"

section \<open>Trusted devices\<close>

definition outdate :: "int \<Rightarrow> trusted_device \<Rightarrow> bool" where
  "outdate now d \<longleftrightarrow> td_time d + 90 * 24 * 60 * 60 * 1000 < now"

definition set_trusted_devices :: "env \<Rightarrow> trusted_device list \<Rightarrow> trusted_device list \<Rightarrow> trusted_device list" where
  "set_trusted_devices e new old =
     (let ds = filter (\<lambda>d. \<not> outdate (env_now e) d) new in if env_trusted_fits e ds then ds else old)"

definition add_trusted_device :: "env \<Rightarrow> trusted_device \<Rightarrow> trusted_device list \<Rightarrow> trusted_device list" where
  "add_trusted_device e d ds = set_trusted_devices e (filter (\<lambda>x. td_hwid x \<noteq> td_hwid d) ds @ [d]) ds"

definition enable_trusted_devices :: "host \<Rightarrow> bool" where
  "enable_trusted_devices h =
     option2bool ''enable-trusted-devices'' (sv_opts (h_login h) ''enable-trusted-devices'')"

definition is_trusted :: "int \<Rightarrow> login_request \<Rightarrow> trusted_device list \<Rightarrow> bool" where
  "is_trusted now lr ds =
     (case find (\<lambda>d. td_hwid d = lr_hwid lr) ds of
        Some d \<Rightarrow> \<not> outdate now d \<and> td_id d = lr_my_id lr \<and> td_name d = lr_my_name lr \<and> td_platform d = lr_my_platform lr
      | None \<Rightarrow> False)"

definition handle_login_request_without_validation :: "env \<Rightarrow> login_request \<Rightarrow> world \<Rightarrow> world" where
  "handle_login_request_without_validation e lr w =
     (let w = upd_conn (\<lambda>c. c\<lparr>c_lr := lr, c_options := (case lr_option lr of Some opt \<Rightarrow> Some opt | None \<Rightarrow> c_options c)\<rparr>) w in
      if c_require_2fa (w_conn w) \<noteq> None \<and> lr_hwid lr \<noteq> [] \<and> enable_trusted_devices (w_host w)
         \<and> is_trusted (env_now e) lr (h_trusted (w_host w))
      then upd_conn (\<lambda>c. c\<lparr>c_two_factor := TrustedDeviceFactor, c_require_2fa := None\<rparr>) w
      else w)"

section \<open>Terminal accounts\<close>

definition should_use_terminal_os_login_scope :: "env \<Rightarrow> bool \<Rightarrow> string \<Rightarrow> bool" where
  "should_use_terminal_os_login_scope e is_terminal username \<longleftrightarrow>
     on_windows (env_build e) \<and> is_terminal \<and> trim username \<noteq> []"

definition TERMINAL_OS_LOGIN_FAILED_MSG :: string where
  "TERMINAL_OS_LOGIN_FAILED_MSG = ''Incorrect username or password.''"

text \<open>The token, and the message of a failure; a failure leaves the token as it was or takes it away.\<close>

definition handle_administrator_check :: "env \<Rightarrow> string \<Rightarrow> string \<Rightarrow> user_token option \<Rightarrow> user_token option \<times> string option" where
  "handle_administrator_check e username password tok =
     (case env_admin e username password of
        Some True \<Rightarrow> (Some SelfUser, None)
      | _ \<Rightarrow> (tok, Some TERMINAL_OS_LOGIN_FAILED_MSG))"

definition handle_installed_user :: "env \<Rightarrow> user_token option \<Rightarrow> user_token option \<times> string option" where
  "handle_installed_user e tok =
     (case env_logon_user e of
        NoLogonSession \<Rightarrow> (tok, Some ''Failed to get current session id.'')
      | LogonToken t \<Rightarrow> (Some (CurrentLogonUser t), None)
      | NoLogonToken \<Rightarrow> (tok, Some ''Failed to get user token.''))"

definition fill_terminal_user_token :: "env \<Rightarrow> string \<Rightarrow> string \<Rightarrow> user_token option \<Rightarrow> user_token option \<times> string option" where
  "fill_terminal_user_token e username password tok =
     (if \<not> on_windows (env_build e) then (Some SelfUser, None)
      else if username \<noteq> [] then handle_administrator_check e username password tok
      else if env_prelogin e then
        (None, Some ''No active console user logged on, please connect and logon first.'')
      else if env_installed e then handle_installed_user e tok
      else (Some SelfUser, None))"

fun to_terminal_service_token :: "user_token \<Rightarrow> nat option" where
  "to_terminal_service_token SelfUser = None"
| "to_terminal_service_token (CurrentLogonUser t) = Some t"

definition try_start_cm_ipc :: "world \<Rightarrow> world" where
  "try_start_cm_ipc w =
     (if c_cm_started (w_conn w) then w else emit [StartCmIpc] (upd_conn (c_cm_started_update (\<lambda>_. True)) w))"

text \<open>
  \<open>prepare_terminal_login_for_authorization\<close>: \<open>None\<close> goes on, \<open>Some\<close> ends the handler with whether the
  connection is kept alive.
\<close>

definition terminal_service_mismatch :: "env \<Rightarrow> conn \<Rightarrow> bool" where
  "terminal_service_mismatch e c =
     (case env_service_user e (c_service_id c) of
        Some is_user \<Rightarrow>
          (case c_user_token c of
             Some tok \<Rightarrow> is_user \<noteq> (to_terminal_service_token tok \<noteq> None)
           | None \<Rightarrow> False)
      | None \<Rightarrow> False)"

definition prepare_terminal_login_for_authorization :: "env \<Rightarrow> world \<Rightarrow> bool option \<times> world" where
  "prepare_terminal_login_for_authorization e w =
     (if \<not> c_terminal (w_conn w) \<or> c_user_token (w_conn w) \<noteq> None then (None, w)
      else
        let username = trim (lr_os_username (c_lr (w_conn w)));
            os_login = should_use_terminal_os_login_scope e (c_terminal (w_conn w)) username;
            (decision, os) = evaluate_os_credential_policy TerminalOsLogin (env_now e) (h_os (w_host w));
            w = (if os_login then upd_host (h_os_update (\<lambda>_. os)) w else w)
        in if os_login \<and> \<not> allowed decision then
             (Some False, emit ((case login_error decision of Some msg \<Rightarrow> [SendLoginError msg] | None \<Rightarrow> [])
                                @ (case audit decision of Some a \<Rightarrow> [AlarmAudit a] | None \<Rightarrow> [])) w)
           else if os_login \<and> \<not> env_gate_free e then
             (Some False, emit [SendLoginError ''Please try 1 minute later'', ConcurrencyAlarm] w)
           else
             case fill_terminal_user_token e username (lr_os_password (c_lr (w_conn w))) (c_user_token (w_conn w)) of
               (tok, failed) \<Rightarrow>
                 let w = upd_conn (c_user_token_update (\<lambda>_. tok)) w in
                 (case failed of
                    Some msg \<Rightarrow>
                      (Some False, emit [SendLoginError msg]
                        (if os_login
                         then upd_host (\<lambda>h. h\<lparr>h_os := record_os_credential_failure TerminalOsLogin (env_now e) (h_os h)\<rparr>) w
                         else w))
                  | None \<Rightarrow>
                      if terminal_service_mismatch e (w_conn w) then
                        (Some False, emit [SendLoginError ''Terminal service user mismatch detected.''] w)
                      else (None, if os_login then try_start_cm_ipc w else w)))"

section \<open>Authorization\<close>

definition is_port_forward :: "conn \<Rightarrow> bool" where
  "is_port_forward c \<longleftrightarrow> c_pf_socket c \<noteq> None \<or> c_pf_mux c \<noteq> None"

definition is_remote :: "conn \<Rightarrow> bool" where
  "is_remote c \<longleftrightarrow> c_file_transfer c = None \<and> \<not> is_port_forward c \<and> \<not> c_view_camera c \<and> \<not> c_terminal c"

definition connect_port_forward_if_needed :: "env \<Rightarrow> world \<Rightarrow> bool \<times> world" where
  "connect_port_forward_if_needed e w =
     (if is_port_forward (w_conn w) then (True, w)
      else case lr_union (c_lr (w_conn w)) of
        Some (LoginPortForward host port multiplex) \<Rightarrow>
          if multiplex then
            (True, emit [SetMaxPacketLength (int MAX_PACKET)] (upd_conn (\<lambda>c. c\<lparr>c_pf_mux := Some (mux_new (c_pf_address c))\<rparr>) w))
          else
            let (addr, is_rdp) = normalize_port_forward_target host port;
                w = upd_conn (c_pf_address_update (\<lambda>_. addr)) w
            in if env_connects e addr then (True, upd_conn (c_pf_socket_update (\<lambda>_. Some addr)) w)
               else (False, emit [SendLoginError (''Failed to access remote '' @ (if is_rdp then ''RDP'' else addr)
                       @ ''. Please make sure it is reachable/open.'')] w)
      | _ \<Rightarrow> (True, w))"

definition auth_conn_type_of :: "conn \<Rightarrow> auth_conn_type" where
  "auth_conn_type_of c =
     (if c_file_transfer c \<noteq> None then FileTransfer
      else if is_port_forward c then PortForward
      else if c_view_camera c then ViewCamera
      else if c_terminal c then Terminal
      else Remote)"

definition normalize_conn_audit_auth_fields :: "conn \<Rightarrow> conn" where
  "normalize_conn_audit_auth_fields c =
     (if c_primary c = ClickAuth \<or> c_primary c = SwitchSidesAuth then c\<lparr>c_two_factor := NoTwoFactor\<rparr> else c)"

text \<open>
  The state at the moment of authorization: the temporary password is replaced, the whitelist's
  counters of this address are cleared, and the session is registered under its kind.
\<close>

definition authorize :: "env \<Rightarrow> world \<Rightarrow> world" where
  "authorize e w =
     (let w = upd_conn (c_authorized_update (\<lambda>_. True)) w;
          w = upd_host (\<lambda>h. h\<lparr>h_login := (h_login h)\<lparr>sv_temp := env_fresh e\<rparr>,
                h_fail_id := clear_failures (h_fail_id h) (failure_keys (c_ip (w_conn w)))\<rparr>) w;
          t = auth_conn_type_of (w_conn w);
          w = upd_conn (\<lambda>c. normalize_conn_audit_auth_fields (c\<lparr>c_authed := Some t\<rparr>)) w
      in upd_host (\<lambda>h. h\<lparr>h_authed := h_authed h @ [(c_id (w_conn w), t, session_key_of (w_conn w))]\<rparr>) w)"

definition is_old_peer :: "conn \<Rightarrow> bool" where
  "is_old_peer c \<longleftrightarrow> get_version_number (lr_version (c_lr c)) < get_version_number ''1.2.4''"

definition set_keyboard :: "bool \<Rightarrow> world \<Rightarrow> world" where
  "set_keyboard on w = upd_conn (\<lambda>c. c\<lparr>c_rights := (c_rights c)\<lparr>keyboard := on\<rparr>\<rparr>) w"

text \<open>The options that came with the login, applied after the answer to it.\<close>

definition take_login_options :: "env \<Rightarrow> world \<Rightarrow> world" where
  "take_login_options e w =
     (case update_scoped_login_options (env_build e) (is_old_peer (w_conn w)) (c_authed (w_conn w))
             (c_voice_calling (w_conn w)) (c_options (w_conn w)) (c_rights (w_conn w)) (c_prefs (w_conn w)) of
        (p, es) \<Rightarrow> emit (map OptionEffect es) (upd_conn (\<lambda>c. c\<lparr>c_options := None, c_prefs := p\<rparr>) w))"

text \<open>The time without input after which a remote desktop is closed; the option holds minutes.\<close>

definition parse_u64 :: "string \<Rightarrow> nat option" where
  "parse_u64 s = (case parse_digits (case s of c # t \<Rightarrow> if c = CHR ''+'' then t else s | [] \<Rightarrow> s) of
     Some n \<Rightarrow> if n < 2 ^ 64 then Some n else None | None \<Rightarrow> None)"

definition get_auto_disconenct_timer :: "env \<Rightarrow> options \<Rightarrow> (int \<times> nat) option" where
  "get_auto_disconenct_timer e opts =
     (if opts ''allow-auto-disconnect'' = ''Y'' then
        let minute = (case parse_u64 (opts ''auto-disconnect-timeout'') of Some n \<Rightarrow> n | None \<Rightarrow> 10)
        in Some (env_now e, if minute = 0 then 10 else minute)
      else None)"

definition update_auto_disconnect_timer :: "env \<Rightarrow> world \<Rightarrow> world" where
  "update_auto_disconnect_timer e = upd_conn (\<lambda>c. c\<lparr>c_auto_disconnect := map_option (\<lambda>t. (env_now e, snd t)) (c_auto_disconnect c)\<rparr>)"

text \<open>The services of a remote desktop, once, without those that the peer may not have.\<close>

definition try_sub_monitor_services :: "env \<Rightarrow> world \<Rightarrow> world" where
  "try_sub_monitor_services e w =
     (let c = w_conn w; b = env_build e; r = c_rights c; p = c_prefs c in
      if is_remote c \<and> \<not> c_services_subed c then
        let w = upd_conn (c_services_subed_update (\<lambda>_. True)) w;
            noperms = (if \<not> peer_keyboard_enabled r p \<and> \<not> show_remote_cursor p then [NAME_CURSOR] else [])
              @ (if \<not> show_remote_cursor p then [NAME_POS] else [])
              @ (if \<not> follow_remote_window p then [NAME_WINDOW_FOCUS] else [])
              @ (if \<not> can_sub_clipboard_service b r p then [NAME_CLIPBOARD] else [])
              @ (if unix_file_copy_paste b \<and> \<not> can_sub_file_clipboard_service b r p then [NAME_FILE_CLIPBOARD] else [])
              @ (if \<not> audio_enabled r p then [NAME_AUDIO] else [])
        in if server_alive b
           then emit [SubMonitorServices noperms (c_display_idx c)]
                  (upd_conn (c_auto_disconnect_update (\<lambda>_. get_auto_disconenct_timer e (sv_opts (h_login (w_host w))))) w)
           else w
      else w)"

definition try_sub_camera_displays :: "env \<Rightarrow> world \<Rightarrow> world" where
  "try_sub_camera_displays e w = (if server_alive (env_build e) then emit [SubCameraDisplays] w else w)"

text \<open>
  The answer to an authorized login, and what its kind of session starts with. What the answer says of
  this machine and the audit record of the login are left out: neither is read again.
\<close>

definition start_session :: "env \<Rightarrow> bool \<Rightarrow> world \<Rightarrow> world" where
  "start_session e sub_service w =
     (let wait = on_windows (env_build e) \<and> \<not> c_terminal (w_conn w) \<and> env_wait_sid e in
      case c_file_transfer (w_conn w) of
        Some (dir, show_hidden) \<Rightarrow>
          let w = set_keyboard False w;
              dir = (if dir \<noteq> [] \<and> env_is_dir e dir then dir else [])
          in if \<not> wait then emit [SendFs (FsReadDir dir show_hidden)] w
             else upd_conn (c_delayed_read_dir_update (\<lambda>_. Some (dir, show_hidden))) w
      | None \<Rightarrow>
          if c_terminal (w_conn w) then emit [InitTerminalService] (set_keyboard False w)
          else if c_view_camera (w_conn w) then
            emit [SendPermission PermKeyboard False] (set_keyboard False (if \<not> wait then try_sub_camera_displays e w else w))
          else if sub_service \<and> \<not> wait then try_sub_monitor_services e w
          else w)"

definition respond :: "env \<Rightarrow> world \<Rightarrow> world" where
  "respond e w =
     (if is_port_forward (w_conn w) then emit [SendLoginResponse] w
      else if \<not> on_windows (env_build e) \<and> is_remote (w_conn w) \<and> env_display_error e \<noteq> []
      then emit [SendLoginError (env_display_error e)] w
      else
        let (sub_service, w) =
              (if c_file_transfer (w_conn w) \<noteq> None \<or> c_terminal (w_conn w) then (False, emit [SendLoginResponse] w)
               else if c_view_camera (w_conn w) then (False, emit [CodecOnLogin, SendLoginResponse] w)
               else case env_displays e of
                      Inl err \<Rightarrow> (False, emit [RemoteAuthorized, SendLoginError err] w)
                    | Inr idx \<Rightarrow> (True, emit [RemoteAuthorized, SendLoginResponse] (upd_conn (c_display_idx_update (\<lambda>_. idx)) w)))
        in start_session e sub_service (take_login_options e w))"

definition REQUIRE_2FA :: string where "REQUIRE_2FA = ''2FA Required''"
definition LOGIN_MSG_2FA_WRONG :: string where "LOGIN_MSG_2FA_WRONG = ''Wrong 2FA Code''"
definition LOGIN_MSG_PASSWORD_WRONG :: string where "LOGIN_MSG_PASSWORD_WRONG = ''Wrong Password''"
definition LOGIN_MSG_NO_PASSWORD_ACCESS :: string where "LOGIN_MSG_NO_PASSWORD_ACCESS = ''No Password Access''"
definition LOGIN_MSG_OFFLINE :: string where "LOGIN_MSG_OFFLINE = ''Offline''"

text \<open>Whether a recent session of this peer had given its one-time code; asked only if one is required.\<close>

definition recent_2fa :: "sodium \<Rightarrow> env \<Rightarrow> world \<Rightarrow> bool \<times> world" where
  "recent_2fa so e w =
     (case is_recent_session so True (env_now e) (h_login (w_host w)) (login_view (w_conn w)) of
        (recent, sv) \<Rightarrow>
          (recent, upd_conn (\<lambda>c. if recent then c\<lparr>c_two_factor := TotpFactor\<rparr> else c)
                     (upd_host (h_login_update (\<lambda>_. sv)) w)))"

definition send_logon_response_and_keep_alive :: "sodium \<Rightarrow> env \<Rightarrow> world \<Rightarrow> bool \<times> world" where
  "send_logon_response_and_keep_alive so e w =
     (if c_authorized (w_conn w) then (True, w)
      else
        let (recent, w) = (if c_require_2fa (w_conn w) \<noteq> None then recent_2fa so e w else (True, w)) in
        if \<not> recent \<and> \<not> c_from_switch (w_conn w) then
          (True, emit [TelegramCode, SendLoginError REQUIRE_2FA] (upd_conn (c_awaiting_2fa_update (\<lambda>_. True)) w))
        else
          case prepare_terminal_login_for_authorization e (upd_conn (c_awaiting_2fa_update (\<lambda>_. False)) w) of
            (Some keep, w) \<Rightarrow> (keep, w)
          | (None, w) \<Rightarrow>
              (case connect_port_forward_if_needed e (emit [SetMaxPacketLength (2 ^ 64 - 1)] w) of
                 (False, w) \<Rightarrow> (False, w)
               | (True, w) \<Rightarrow> (True, respond e (authorize e w))))"

section \<open>The login request\<close>

definition try_start_cm :: "world \<Rightarrow> world" where
  "try_start_cm w =
     emit [CmLogin (lr_my_id (c_lr (w_conn w))) (lr_my_name (c_lr (w_conn w))) (c_authorized (w_conn w))] w"

definition id_whitelist_check :: "env \<Rightarrow> world \<Rightarrow> bool \<times> world" where
  "id_whitelist_check e w =
     (case check_id_whitelist (sv_opts (h_login (w_host w)) ''id-whitelist'') (lr_my_id (c_lr (w_conn w)))
             (c_ip (w_conn w)) (env_now e) (h_fail_id (w_host w)) of
        (None, f) \<Rightarrow> (True, upd_host (h_fail_id_update (\<lambda>_. f)) w)
      | (Some (msg, alarm), f) \<Rightarrow>
          (False, emit [SendLoginError msg, AlarmAudit alarm] (upd_host (h_fail_id_update (\<lambda>_. f)) w)))"

definition kind_permitted :: "world \<Rightarrow> string \<Rightarrow> bool" where
  "kind_permitted w name = permission (sv_opts (h_login (w_host w))) name (c_control (w_conn w))"

text \<open>The kind that the request asks for, if this machine permits it.\<close>

definition enter_kind :: "env \<Rightarrow> login_request \<Rightarrow> world \<Rightarrow> bool \<times> world" where
  "enter_kind e lr w =
     (case lr_union lr of
        Some (LoginFileTransfer dir show_hidden) \<Rightarrow>
          if \<not> kind_permitted w ''enable-file-transfer'' then
            (False, emit [SendLoginError ''No permission of file transfer''] w)
          else (True, upd_conn (c_file_transfer_update (\<lambda>_. Some (dir, show_hidden))) w)
      | Some LoginViewCamera \<Rightarrow>
          if \<not> kind_permitted w ''enable-camera'' then
            (False, emit [SendLoginError ''No permission of viewing camera''] w)
          else (True, upd_conn (c_view_camera_update (\<lambda>_. True)) w)
      | Some (LoginTerminal service_id) \<Rightarrow>
          if \<not> kind_permitted w ''enable-terminal'' then
            (False, emit [SendLoginError ''No permission of terminal''] w)
          else if on_windows (env_build e) \<and> lr_os_username lr \<noteq> [] \<and> \<not> env_installed e then
            (False, emit [SendLoginError ''Supported only in the installed version.''] w)
          else
            (True, upd_conn (\<lambda>c. c\<lparr>c_terminal := True, c_service_id := service_id,
               c_prefs := (case c_options c of
                    Some opt \<Rightarrow> (c_prefs c)\<lparr>terminal_persistent := bool_value (om_terminal_persistent opt) = Some BoolYes\<rparr>
                  | None \<Rightarrow> c_prefs c)\<rparr>) w)
      | Some (LoginPortForward host port multiplex) \<Rightarrow>
          if \<not> kind_permitted w ''enable-tunnel'' then
            (False, emit [SendLoginError ''No permission of IP tunneling''] w)
          else (True, upd_conn (c_pf_address_update (\<lambda>_. fst (normalize_port_forward_target host port))) w)
      | None \<Rightarrow>
          if env_privacy_on e then (False, emit [SendLoginError ''Someone turns on privacy mode, exit''] w)
          else (True, w))"

definition is_logon :: "env \<Rightarrow> bool" where
  "is_logon e \<longleftrightarrow> env_prelogin e \<or> env_locked e \<or> on_windows (env_build e) \<and> env_logon_ui e"

definition allow_logon_screen_password :: "env \<Rightarrow> bool" where
  "allow_logon_screen_password e \<longleftrightarrow> env_builtin e ''allow-logon-screen-password'' = ''Y'' \<and> is_logon e"

definition asks_for_click :: "sodium \<Rightarrow> machine \<Rightarrow> env \<Rightarrow> login_server \<Rightarrow> bool" where
  "asks_for_click so m e sv \<longleftrightarrow>
     approve_mode (sv_opts sv) = ApproveClick \<and> \<not> allow_logon_screen_password e
     \<or> approve_mode (sv_opts sv) = ApproveBoth \<and> \<not> has_valid_password so m sv"

text \<open>What follows the password check: ask the person here, refuse, or let the peer in.\<close>

definition ask_person :: "env \<Rightarrow> bool \<Rightarrow> world \<Rightarrow> bool \<times> world" where
  "ask_person e click w =
     (case (if should_use_terminal_os_login_scope e (c_terminal (w_conn w)) (lr_os_username (c_lr (w_conn w)))
            then prepare_terminal_login_for_authorization e w else (None, w)) of
        (Some keep, w) \<Rightarrow> (keep, w)
      | (None, w) \<Rightarrow>
          (True, emit (if click \<and> get_version_number ''1.2.0'' \<le> get_version_number (lr_version (c_lr (w_conn w)))
                       then [SendLoginError LOGIN_MSG_NO_PASSWORD_ACCESS] else [])
                   (try_start_cm w)))"

definition let_in :: "sodium \<Rightarrow> env \<Rightarrow> world \<Rightarrow> bool \<times> world" where
  "let_in so e w =
     (case send_logon_response_and_keep_alive so e w of
        (False, w) \<Rightarrow> (False, w)
      | (True, w) \<Rightarrow> (True, try_start_cm w))"

definition password_arm :: "sodium \<Rightarrow> machine \<Rightarrow> env \<Rightarrow> world \<Rightarrow> bool \<times> world" where
  "password_arm so m e w =
     (case password_login so m (allow_logon_screen_password e) (env_now e) (env_fresh e)
             (h_login (w_host w)) (login_view (w_conn w)) of
        (res, sv, v) \<Rightarrow>
          let click = asks_for_click so m e (h_login (w_host w));
              w = upd_conn (c_primary_update (\<lambda>_. primary v)) (upd_host (h_login_update (\<lambda>_. sv)) w)
          in case res of
               AskToAccept \<Rightarrow> ask_person e click w
             | RecentSession \<Rightarrow> let_in so e w
             | TooManyFailures (msg, alarm) \<Rightarrow> (True, emit [SendLoginError msg, AlarmAudit alarm] w)
             | WrongPassword \<Rightarrow> (True, try_start_cm (emit [SendLoginError LOGIN_MSG_PASSWORD_WRONG] w))
             | LoggedIn \<Rightarrow> let_in so e w)"

definition set_send_timeout :: "world \<Rightarrow> world" where
  "set_send_timeout w =
     emit [SetSendTimeout (\<not> (c_file_transfer (w_conn w) \<noteq> None \<or> c_terminal (w_conn w)
             \<or> (case lr_union (c_lr (w_conn w)) of Some (LoginPortForward _ _ _) \<Rightarrow> True | _ \<Rightarrow> False)))] w"

definition admit :: "sodium \<Rightarrow> machine \<Rightarrow> env \<Rightarrow> login_request \<Rightarrow> world \<Rightarrow> bool \<times> world" where
  "admit so m e lr w =
     (if \<not> env_direct_ip e (lr_username lr) \<and> lr_username lr \<noteq> env_own_id e then
        (False, emit [SendLoginError LOGIN_MSG_OFFLINE] w)
      else if on_windows (env_build e) \<and> c_terminal (w_conn w) \<and> trim (lr_os_username lr) = [] \<and> env_prelogin e then
        (False, emit [SendLoginError ''No active console user logged on, please connect and logon first.''] w)
      else
        password_arm so m e
          (if should_use_terminal_os_login_scope e (c_terminal (w_conn w)) (lr_os_username lr) then w
           else try_start_cm_ipc w))"

definition login_request_arm :: "sodium \<Rightarrow> machine \<Rightarrow> env \<Rightarrow> login_request \<Rightarrow> world \<Rightarrow> bool \<times> world" where
  "login_request_arm so m e lr w =
     (case check_login_scope so lr w of
        (False, w) \<Rightarrow> (False, w)
      | (True, w) \<Rightarrow>
          let w = handle_login_request_without_validation e lr (upd_conn (c_awaiting_2fa_update (\<lambda>_. False)) w) in
          if c_authorized (w_conn w) then (True, w)
          else
            (case id_whitelist_check e (upd_conn reset_session_scope_for_login w) of
               (False, w) \<Rightarrow> (False, w)
             | (True, w) \<Rightarrow>
                 (case enter_kind e lr w of
                    (False, w) \<Rightarrow> (False, w)
                  | (True, w) \<Rightarrow> admit so m e lr (set_send_timeout w))))"

section \<open>One-time codes, switched sides and clicks\<close>

definition auth_2fa_arm :: "sodium \<Rightarrow> env \<Rightarrow> string \<Rightarrow> bytes \<Rightarrow> world \<Rightarrow> bool \<times> world" where
  "auth_2fa_arm so e code hwid w =
     (if \<not> c_awaiting_2fa (w_conn w) then (True, w)
      else case check_failure (h_fail_2fa (w_host w)) (c_ip (w_conn w)) (env_now e) of
        (_, Some (msg, alarm)) \<Rightarrow> (True, emit [SendLoginError msg, AlarmAudit alarm] w)
      | ((fail, time), None) \<Rightarrow>
          (case Option.bind (c_require_2fa (w_conn w)) (\<lambda>secret. env_totp e secret code) of
             Some True \<Rightarrow>
               let w = upd_host (\<lambda>h. h\<lparr>h_fail_2fa := update_failure (c_ip (w_conn w)) fail time True (h_fail_2fa h),
                         h_login := (h_login h)\<lparr>sv_sessions := set_session_2fa (session_key_of (w_conn w)) (env_now e) (sv_sessions (h_login h))\<rparr>\<rparr>) w;
                   w = upd_conn (\<lambda>c. c\<lparr>c_require_2fa := None, c_two_factor := TotpFactor\<rparr>) w
               in (case send_logon_response_and_keep_alive so e w of
                     (False, w) \<Rightarrow> (False, w)
                   | (True, w) \<Rightarrow>
                       let w = try_start_cm w; lr = c_lr (w_conn w) in
                       (True,
                        if hwid \<noteq> [] \<and> enable_trusted_devices (w_host w)
                        then upd_host (\<lambda>h. h\<lparr>h_trusted := add_trusted_device e
                               \<lparr>td_hwid = hwid, td_time = env_now e, td_id = lr_my_id lr, td_name = lr_my_name lr,
                                td_platform = lr_my_platform lr\<rparr> (h_trusted h)\<rparr>) w
                        else w))
           | Some False \<Rightarrow>
               (True, emit [SendLoginError LOGIN_MSG_2FA_WRONG]
                  (upd_host (\<lambda>h. h\<lparr>h_fail_2fa := update_failure (c_ip (w_conn w)) fail time False (h_fail_2fa h)\<rparr>) w))
           | None \<Rightarrow> (True, w)))"

definition SWITCH_SIDES_UUID_TTL :: int where "SWITCH_SIDES_UUID_TTL = 10000"

text \<open>A key is 16 bytes long (\<open>Uuid::from_slice\<close>).\<close>

definition switch_sides_arm :: "sodium \<Rightarrow> env \<Rightarrow> bytes \<Rightarrow> login_request option \<Rightarrow> world \<Rightarrow> bool \<times> world" where
  "switch_sides_arm so e key olr w =
     (case olr of
        None \<Rightarrow> (True, w)
      | Some lr \<Rightarrow>
          let live = hm_retain (\<lambda>_ v. env_now e - fst v < SWITCH_SIDES_UUID_TTL) (h_switch (w_host w));
              old = hm_get live (lr_my_id lr);
              w = upd_host (h_switch_update (\<lambda>_. hm_remove (lr_my_id lr) live)) w
          in if length key = 16 \<and> map_option snd old = Some key then
               if lr_union lr \<noteq> None then (False, emit [SendLoginError ''Connection not allowed''] w)
               else
                 let w = handle_login_request_without_validation e lr (upd_conn reset_session_scope_for_login w) in
                 (case id_whitelist_check e w of
                    (False, w) \<Rightarrow> (False, w)
                  | (True, w) \<Rightarrow>
                      (case send_logon_response_and_keep_alive so e
                              (upd_conn (\<lambda>c. c\<lparr>c_from_switch := True, c_primary := SwitchSidesAuth\<rparr>) w) of
                         (False, w) \<Rightarrow> (False, w)
                       | (True, w) \<Rightarrow> (True, try_start_cm_ipc (try_start_cm w))))
             else (True, w))"

text \<open>The person at this machine accepts the connection (\<open>ipc::Data::Authorize\<close>).\<close>

definition click_arm :: "sodium \<Rightarrow> env \<Rightarrow> world \<Rightarrow> bool \<times> world" where
  "click_arm so e w =
     send_logon_response_and_keep_alive so e (upd_conn (\<lambda>c. c\<lparr>c_primary := ClickAuth, c_require_2fa := None\<rparr>) w)"

section \<open>The end of a connection\<close>

definition session_reconnected :: "int \<Rightarrow> session_key \<Rightarrow> (int \<times> auth_conn_type \<times> session_key) list \<Rightarrow> bool" where
  "session_reconnected i key conns \<longleftrightarrow> (\<exists>(j, t, k) \<in> set conns. i < j \<and> t = Remote \<and> k = key)"

definition check_remove_session :: "world \<Rightarrow> world" where
  "check_remove_session w =
     (let i = c_id (w_conn w); key = session_key_of (w_conn w); conns = h_authed (w_host w);
          is_remote = (\<exists>(j, t, k) \<in> set conns. j = i \<and> t = Remote);
          another_remote = (\<exists>(j, t, k) \<in> set conns. j \<noteq> i \<and> k = key \<and> t = Remote)
      in if is_remote \<or> \<not> another_remote
         then upd_host (\<lambda>h. h\<lparr>h_login := (h_login h)\<lparr>sv_sessions := hm_remove key (sv_sessions (h_login h))\<rparr>\<rparr>) w
         else w)"

definition send_close_reason_no_retry :: "string \<Rightarrow> world \<Rightarrow> world" where
  "send_close_reason_no_retry reason w =
     check_remove_session (emit [SendCloseReason (if reason = [] then ''Closed manually by the peer'' else reason)] w)"

text \<open>Closing locks the screen if the peer asked for that, may use the keyboard and has not come back.\<close>

definition on_close :: "bool \<Rightarrow> world \<Rightarrow> world" where
  "on_close lock w =
     (let c = w_conn w in
      if c_closed c then w
      else
        emit ([VoiceCallInput False]
              @ (if lock \<and> lock_after_session_end (c_prefs c) \<and> keyboard (c_rights c)
                    \<and> \<not> session_reconnected (c_id c) (session_key_of c) (h_authed (w_host w))
                 then [LockScreen] else [])
              @ [if c_chat_unanswered c \<or> c_file_transferred c then CmDisconnected else CmClosed])
          (upd_conn (\<lambda>c. c\<lparr>c_closed := True, c_pf_socket := None, c_pf_mux := None\<rparr>) w))"

section \<open>Messages\<close>

definition handle_authorized_scope_violation :: "string \<Rightarrow> world \<Rightarrow> bool \<times> world" where
  "handle_authorized_scope_violation message w =
     (let is_first = message \<notin> set (c_violations (w_conn w));
          opts = sv_opts (h_login (w_host w));
          w = upd_conn (c_violations_update (List.insert message)) w;
          w = (if is_first \<and> option2bool ''allow-scope-violation-alarm'' (opts ''allow-scope-violation-alarm'')
               then emit [ScopeAlarm message] w else w)
      in if option2bool ''allow-scope-violation-close'' (opts ''allow-scope-violation-close'')
         then (False, on_close True (send_close_reason_no_retry ''Connection not allowed'' w))
         else (True, w))"

definition test_delay_arm :: "env \<Rightarrow> bool \<Rightarrow> payload \<Rightarrow> world \<Rightarrow> world" where
  "test_delay_arm e from_client t w =
     (if from_client then emit [SendTestDelay t] w
      else case c_last_test_delay (w_conn w) of
             Some tm \<Rightarrow> emit [UserNetworkDelay ((env_now e - tm) mod 2 ^ 32)] (upd_conn (c_last_test_delay_update (\<lambda>_. None)) w)
           | None \<Rightarrow> w)"

definition is_close_reason :: "message \<Rightarrow> bool" where
  "is_close_reason message = (case message of Some (Misc (Some (CloseReason _))) \<Rightarrow> True | _ \<Rightarrow> False)"

definition is_login_request :: "message \<Rightarrow> bool" where
  "is_login_request message = (case message of Some (LoginRequest _) \<Rightarrow> True | _ \<Rightarrow> False)"

text \<open>
  \<open>on_message\<close>, with the handling of an authorized session's own messages (\<open>Session_Dispatch\<close>) as a
  parameter.
\<close>

definition message_arm ::
    "(env \<Rightarrow> msg \<Rightarrow> world \<Rightarrow> bool \<times> world) \<Rightarrow> sodium \<Rightarrow> machine \<Rightarrow> env \<Rightarrow> msg \<Rightarrow> world \<Rightarrow> bool \<times> world" where
  "message_arm dispatch so m e msg w =
     (case msg of
        LoginRequest lr \<Rightarrow> login_request_arm so m e lr w
      | Auth2FA code hwid \<Rightarrow> auth_2fa_arm so e code hwid w
      | TestDelay from_client t \<Rightarrow> (True, test_delay_arm e from_client t w)
      | SwitchSidesResponse key olr \<Rightarrow> switch_sides_arm so e key olr w
      | _ \<Rightarrow> if c_authorized (w_conn w) \<and> c_pf_socket (w_conn w) = None then dispatch e msg w else (True, w))"

definition on_message_with ::
    "(env \<Rightarrow> msg \<Rightarrow> world \<Rightarrow> bool \<times> world) \<Rightarrow> sodium \<Rightarrow> machine \<Rightarrow> env \<Rightarrow> message \<Rightarrow> world \<Rightarrow> bool \<times> world" where
  "on_message_with dispatch so m e message w =
     (if is_close_reason message then (False, check_remove_session (on_close True w))
      else if c_authorized (w_conn w) \<and> is_login_request message then (True, w)
      else case (if c_authorized (w_conn w)
                 then authorized_scope_violation (on_windows (env_build e)) (c_authed (w_conn w)) message else None) of
        Some family \<Rightarrow> handle_authorized_scope_violation family w
      | None \<Rightarrow> (case message of Some msg \<Rightarrow> message_arm dispatch so m e msg w | None \<Rightarrow> (True, w)))"

section \<open>The password check\<close>

text \<open>A login that succeeds has proved a password, and did not make a recent code more recent.\<close>

lemma validate_sessions:
  "fst (validate_password so m b now (sv\<lparr>sv_sessions := x\<rparr>) v) = fst (validate_password so m b now sv v)"
  by (simp add: validate_password_def Let_def)

lemma validate_sessionsD:
  "validate_password so m b now (sv\<lparr>sv_sessions := x\<rparr>) v = (ok, y) \<Longrightarrow> fst (validate_password so m b now sv v) = ok"
  by (metis fst_conv validate_sessions)

lemma password_login_ok:
  assumes p: "password_login so m screen now fresh sv v = (res, sv', v')" and res: "res = RecentSession \<or> res = LoggedIn"
  shows "lr_password v \<noteq> []"
    "\<not> (approve_mode (sv_opts sv) = ApproveClick \<and> \<not> screen \<or> approve_mode (sv_opts sv) = ApproveBoth \<and> \<not> has_valid_password so m sv)"
    "fst (is_recent_session so False now sv v)
      \<or> snd (check_failure (sv_failures sv) (conn_ip v) now) = None \<and> fst (validate_password so m screen now sv v)"
proof -
  obtain r sv1 where r: "is_recent_session so False now sv v = (r, sv1)" by fastforce
  have sv1: "sv1 = sv\<lparr>sv_sessions := hm_retain (\<lambda>_ s. now - last_recv_time s < SESSION_TIMEOUT) (sv_sessions sv)\<rparr>"
    using r by (simp add: is_recent_session_def Let_def)
  have rp: "r \<Longrightarrow> lr_password v \<noteq> []"
    using r by (auto simp: is_recent_session_def Let_def split: option.splits)
  show "lr_password v \<noteq> []"
    using p res r rp by (auto simp: password_login_def split: if_splits bool.splits)
  show "\<not> (approve_mode (sv_opts sv) = ApproveClick \<and> \<not> screen \<or> approve_mode (sv_opts sv) = ApproveBoth \<and> \<not> has_valid_password so m sv)"
    using p res by (auto simp: password_login_def split: if_splits)
  show "fst (is_recent_session so False now sv v)
      \<or> snd (check_failure (sv_failures sv) (conn_ip v) now) = None \<and> fst (validate_password so m screen now sv v)"
    using p res r
    by (auto simp: password_login_def sv1 split: if_splits bool.splits prod.splits option.splits dest: validate_sessionsD)
qed

lemma password_login_recent:
  assumes p: "password_login so m screen now fresh sv v = (res, sv', v')" and ok: "hm_ok (sv_sessions sv)"
    and t: "fst (is_recent_session so True now sv' (v\<lparr>primary := a\<rparr>))"
  shows "fst (is_recent_session so True now sv v)"
proof -
  let ?P = "\<lambda>_ s. now - last_recv_time s < SESSION_TIMEOUT"
  obtain r sv1 where r: "is_recent_session so False now sv v = (r, sv1)" by fastforce
  have sv1: "sv1 = sv\<lparr>sv_sessions := hm_retain ?P (sv_sessions sv)\<rparr>"
    using r by (simp add: is_recent_session_def Let_def)
  have "sv_sessions sv' = sv_sessions sv \<or> sv_sessions sv' = hm_retain ?P (sv_sessions sv)
      \<or> (\<exists>pw. sv_sessions sv' = update_or_insert_session (lr_key v) pw (Some False) now (hm_retain ?P (sv_sessions sv)))"
    using p r by (auto simp: password_login_def sv1 validate_password_def Let_def
        split: if_splits bool.splits prod.splits option.splits)
  then show ?thesis using t ok
    by (auto simp: is_recent_session_def update_or_insert_session_def Let_def hm_simps split: option.splits if_splits)
qed

section \<open>What the handlers keep\<close>

text \<open>The part of a connection that only the login handlers themselves change.\<close>

definition same :: "conn \<Rightarrow> conn \<Rightarrow> bool" where
  "same c c' \<longleftrightarrow> c_lr c' = c_lr c \<and> c_scope c' = c_scope c \<and> c_require_2fa c' = c_require_2fa c
     \<and> c_from_switch c' = c_from_switch c \<and> (c_file_transfer c' = None \<longleftrightarrow> c_file_transfer c = None)
     \<and> c_view_camera c' = c_view_camera c \<and> c_terminal c' = c_terminal c \<and> c_ip c' = c_ip c"

text \<open>The same, and the outcome of the login so far.\<close>

definition settled :: "conn \<Rightarrow> conn \<Rightarrow> bool" where
  "settled c c' \<longleftrightarrow> same c c' \<and> c_authorized c' = c_authorized c \<and> c_authed c' = c_authed c
     \<and> c_awaiting_2fa c' = c_awaiting_2fa c \<and> is_port_forward c' = is_port_forward c \<and> (c_cm_started c \<longrightarrow> c_cm_started c')"

named_theorems frame \<open>what a handler keeps of a connection\<close>

lemma same_refl [simp]: "same c c" and settled_refl [simp]: "settled c c"
  by (simp_all add: same_def settled_def)

lemma same_trans: "same a b \<Longrightarrow> same b c \<Longrightarrow> same a c"
  by (simp add: same_def)

lemma settled_trans [trans]: "settled a b \<Longrightarrow> settled b c \<Longrightarrow> settled a c"
  by (auto simp: settled_def same_def)

lemma start_cm_frame [frame]:
  "settled (w_conn w) (w_conn (try_start_cm_ipc w))" "w_conn (try_start_cm w) = w_conn w"
  "w_host (try_start_cm_ipc w) = w_host w"
  by (simp_all add: try_start_cm_ipc_def try_start_cm_def settled_def same_def is_port_forward_def)

lemma prepare_terminal_frame:
  assumes "prepare_terminal_login_for_authorization e w = (r, w')"
  shows "settled (w_conn w) (w_conn w')" "r \<noteq> Some True"
proof -
  have t: "settled c (c\<lparr>c_user_token := x\<rparr>)" for c x by (simp add: settled_def same_def is_port_forward_def)
  have s: "settled (w_conn v) (w_conn (try_start_cm_ipc v))" for v by (rule start_cm_frame)
  have ts: "settled c (w_conn (try_start_cm_ipc v))" if "w_conn v = c\<lparr>c_user_token := x\<rparr>" for c v x
    using settled_trans[OF t[of c x]] s[of v] that by simp
  show "settled (w_conn w) (w_conn w')" "r \<noteq> Some True"
    using assms unfolding prepare_terminal_login_for_authorization_def Let_def
    by (auto simp: t intro: ts split: if_splits option.splits prod.splits)
qed

lemma connect_frame:
  assumes "connect_port_forward_if_needed e w = (k, w')"
  shows "same (w_conn w) (w_conn w')" "c_cm_started (w_conn w') = c_cm_started (w_conn w)"
    "k \<Longrightarrow> is_port_forward (w_conn w') \<longleftrightarrow> is_port_forward (w_conn w)
       \<or> (\<exists>h p x. lr_union (c_lr (w_conn w)) = Some (LoginPortForward h p x))"
  using assms unfolding connect_port_forward_if_needed_def Let_def
  by (auto simp: same_def is_port_forward_def split: if_splits option.splits login_union.splits prod.splits)

lemma respond_frame [frame]: "settled (w_conn w) (w_conn (respond e w))"
proof -
  have t: "settled (w_conn v) (w_conn (take_login_options e v))" for v
    by (simp add: take_login_options_def settled_def same_def is_port_forward_def split: prod.split)
  have s: "settled (w_conn v) (w_conn (start_session e b v))" for v b
    by (auto simp: start_session_def set_keyboard_def try_sub_monitor_services_def try_sub_camera_displays_def settled_def same_def is_port_forward_def Let_def split: option.split)
  have d: "settled c (c\<lparr>c_display_idx := i\<rparr>)" for c i
    by (simp add: settled_def same_def is_port_forward_def)
  have "settled c (w_conn (start_session e b (take_login_options e v)))" if "settled c (w_conn v)" for c v b
    using that settled_trans[OF t s] by (rule settled_trans)
  with d show ?thesis
    by (simp add: respond_def Let_def split: sum.split)
qed

lemma authorize_frame:
  "same (w_conn w) (w_conn (authorize e w))" "c_authorized (w_conn (authorize e w))"
  "c_authed (w_conn (authorize e w)) = Some (auth_conn_type_of (w_conn w))"
  "c_awaiting_2fa (w_conn (authorize e w)) = c_awaiting_2fa (w_conn w)"
  "is_port_forward (w_conn (authorize e w)) = is_port_forward (w_conn w)"
  "c_cm_started (w_conn (authorize e w)) = c_cm_started (w_conn w)"
  by (simp_all add: authorize_def normalize_conn_audit_auth_fields_def same_def is_port_forward_def
      auth_conn_type_of_def Let_def)

section \<open>The kind of a session\<close>

definition kind_of :: "login_request \<Rightarrow> auth_conn_type" where
  "kind_of lr = (case lr_union lr of
      None \<Rightarrow> Remote | Some (LoginFileTransfer _ _) \<Rightarrow> FileTransfer | Some (LoginPortForward _ _ _) \<Rightarrow> PortForward
    | Some LoginViewCamera \<Rightarrow> ViewCamera | Some (LoginTerminal _) \<Rightarrow> Terminal)"

definition kinded :: "conn \<Rightarrow> bool" where
  "kinded c \<longleftrightarrow> (c_file_transfer c \<noteq> None \<longleftrightarrow> kind_of (c_lr c) = FileTransfer)
     \<and> (c_view_camera c \<longleftrightarrow> kind_of (c_lr c) = ViewCamera) \<and> (c_terminal c \<longleftrightarrow> kind_of (c_lr c) = Terminal)"

lemma kind_PortForward: "kind_of lr = PortForward \<longleftrightarrow> (\<exists>h p x. lr_union lr = Some (LoginPortForward h p x))"
  by (auto simp: kind_of_def split: option.split login_union.split)

lemma same_kinded: "same c c' \<Longrightarrow> kinded c' = kinded c"
  by (simp add: same_def kinded_def)

lemma auth_kind:
  assumes "kinded c" "is_port_forward c \<longleftrightarrow> kind_of (c_lr c) = PortForward"
  shows "auth_conn_type_of c = kind_of (c_lr c)"
  using assms by (cases "kind_of (c_lr c)") (auto simp: auth_conn_type_of_def kinded_def)

lemma recent_2fa_frame:
  assumes "recent_2fa so e w = (r, w')"
  shows "settled (w_conn w) (w_conn w')"
  using assms by (cases r) (auto simp: recent_2fa_def settled_def same_def is_port_forward_def split: prod.splits)

lemma send_logon_split:
  assumes s: "send_logon_response_and_keep_alive so e w = (True, w')" and n: "\<not> c_authorized (w_conn w)"
  obtains (await) w1 where "settled (w_conn w) (w_conn w1)" "c_require_2fa (w_conn w) \<noteq> None" "\<not> c_from_switch (w_conn w)"
      "w' = emit [TelegramCode, SendLoginError REQUIRE_2FA] (upd_conn (c_awaiting_2fa_update (\<lambda>_. True)) w1)"
    | (enter) w1 w3 w4 where "settled (w_conn w) (w_conn w1)"
      "c_require_2fa (w_conn w) = None \<or> fst (recent_2fa so e w) \<or> c_from_switch (w_conn w)"
      "prepare_terminal_login_for_authorization e (upd_conn (c_awaiting_2fa_update (\<lambda>_. False)) w1) = (None, w3)"
      "connect_port_forward_if_needed e (emit [SetMaxPacketLength (2 ^ 64 - 1)] w3) = (True, w4)" "w' = respond e (authorize e w4)"
proof -
  obtain r w1 where r: "(if c_require_2fa (w_conn w) \<noteq> None then recent_2fa so e w else (True, w)) = (r, w1)" by fastforce
  have s1: "settled (w_conn w) (w_conn w1)"
    using r recent_2fa_frame[of so e w] by (auto split: if_splits)
  define w2 where "w2 = upd_conn (c_awaiting_2fa_update (\<lambda>_. False)) w1"
  have "(if \<not> r \<and> \<not> c_from_switch (w_conn w)
       then (True, emit [TelegramCode, SendLoginError REQUIRE_2FA] (upd_conn (c_awaiting_2fa_update (\<lambda>_. True)) w1))
       else case prepare_terminal_login_for_authorization e w2 of
            (Some keep, w) \<Rightarrow> (keep, w)
          | (None, w) \<Rightarrow>
              (case connect_port_forward_if_needed e (emit [SetMaxPacketLength (2 ^ 64 - 1)] w) of
                 (False, w) \<Rightarrow> (False, w)
               | (True, w) \<Rightarrow> (True, respond e (authorize e w)))) = (True, w')"
    using s n s1 unfolding send_logon_response_and_keep_alive_def r w2_def by (simp add: settled_def same_def)
  moreover obtain q w3 where q: "prepare_terminal_login_for_authorization e w2 = (q, w3)" by fastforce
  moreover have "q \<noteq> Some True" by (rule prepare_terminal_frame(2)[OF q])
  moreover have "\<not> r \<Longrightarrow> c_require_2fa (w_conn w) \<noteq> None"
    "r \<Longrightarrow> c_require_2fa (w_conn w) = None \<or> fst (recent_2fa so e w)" using r by (auto split: if_splits)
  ultimately show ?thesis using s1 that unfolding w2_def
    by (auto split: if_splits option.splits prod.splits bool.splits)
qed

text \<open>Letting a peer in: it waits for its one-time code, or the session is authorized for its kind.\<close>

lemma send_logon_cases:
  assumes s: "send_logon_response_and_keep_alive so e w = (True, w')" and n: "\<not> c_authorized (w_conn w)"
  obtains (await) "same (w_conn w) (w_conn w')" "c_cm_started (w_conn w) \<longrightarrow> c_cm_started (w_conn w')"
      "\<not> c_authorized (w_conn w')" "c_authed (w_conn w') = c_authed (w_conn w)" "c_awaiting_2fa (w_conn w')"
      "is_port_forward (w_conn w') = is_port_forward (w_conn w)" "c_require_2fa (w_conn w) \<noteq> None" "\<not> c_from_switch (w_conn w)"
    | (enter) "same (w_conn w) (w_conn w')" "c_cm_started (w_conn w) \<longrightarrow> c_cm_started (w_conn w')" "c_authorized (w_conn w')"
      "c_require_2fa (w_conn w) = None \<or> fst (recent_2fa so e w) \<or> c_from_switch (w_conn w)"
      "kinded (w_conn w) \<Longrightarrow> \<not> is_port_forward (w_conn w) \<Longrightarrow> c_authed (w_conn w') = Some (kind_of (c_lr (w_conn w)))"
  using s n
proof (cases rule: send_logon_split)
  case (await w1)
  then show ?thesis using n by (intro that(1)) (auto simp: settled_def same_def is_port_forward_def)
next
  case (enter w1 w3 w4)
  note p = prepare_terminal_frame(1)[OF enter(3)] and k = connect_frame[OF enter(4)]
  note f = respond_frame[of "authorize e w4" e] authorize_frame[where w = w4 and e = e]
  have s3: "same (w_conn w) (w_conn w3)" "is_port_forward (w_conn w3) = is_port_forward (w_conn w)"
    "c_cm_started (w_conn w) \<longrightarrow> c_cm_started (w_conn w3)"
    using enter(1) p by (auto simp: settled_def same_def is_port_forward_def)
  have s4: "same (w_conn w) (w_conn w4)" using s3(1) k(1) by (auto intro: same_trans)
  have "\<not> is_port_forward (w_conn w) \<Longrightarrow> is_port_forward (w_conn w4) \<longleftrightarrow> kind_of (c_lr (w_conn w4)) = PortForward"
    using k s3 by (auto simp: same_def kind_PortForward)
  then have ak: "kinded (w_conn w) \<Longrightarrow> \<not> is_port_forward (w_conn w) \<Longrightarrow> auth_conn_type_of (w_conn w4) = kind_of (c_lr (w_conn w))"
    using auth_kind[of "w_conn w4"] same_kinded[OF s4] s4 by (simp add: same_def)
  show ?thesis
  proof (rule that(2))
    show "same (w_conn w) (w_conn w')" using same_trans[OF s4 same_trans[OF f(2)]] f(1) enter(5) by (simp add: settled_def)
    show "c_cm_started (w_conn w) \<longrightarrow> c_cm_started (w_conn w')" using s3(3) k(2) f enter(5) by (auto simp: settled_def)
    show "c_authorized (w_conn w')" using f enter(5) by (auto simp: settled_def)
    show "c_authed (w_conn w') = Some (kind_of (c_lr (w_conn w)))" if "kinded (w_conn w)" "\<not> is_port_forward (w_conn w)"
      using f enter(5) ak[OF that] by (auto simp: settled_def)
  qed (rule enter(2))
qed

lemma send_logon_same:
  assumes "send_logon_response_and_keep_alive so e w = (True, w')"
  shows "same (w_conn w) (w_conn w')"
proof (cases "c_authorized (w_conn w)")
  case False
  with assms show ?thesis by (cases rule: send_logon_cases) simp_all
qed (use assms in \<open>simp add: send_logon_response_and_keep_alive_def\<close>)

end
