(* ===== verification/Login_Evidence.thy ===== *)
theory Login_Evidence
  imports Login_Session
begin

text \<open>
  What lets a peer in: runs of a connection from its opening, with every message and click that may
  reach it and the shared state changing in any way in between, and the proofs that a run contains
  when the connection comes out authorized.
\<close>

section \<open>What lets a peer in\<close>

text \<open>What happens to a connection: a message arrives, the person at the machine accepts it, or another event of the loop.\<close>

datatype event = Recv message | Click | Loop session_event

definition session_step ::
    "(env \<Rightarrow> msg \<Rightarrow> world \<Rightarrow> bool \<times> world) \<Rightarrow> (env \<Rightarrow> session_event \<Rightarrow> world \<Rightarrow> bool \<times> world) \<Rightarrow>
     sodium \<Rightarrow> machine \<Rightarrow> env \<Rightarrow> event \<Rightarrow> world \<Rightarrow> bool \<times> world" where
  "session_step dispatch aside so m e ev w =
     (case ev of
        Recv message \<Rightarrow>
          (case on_message_with dispatch so m e message w of
             (keep, w) \<Rightarrow> (keep \<and> \<not> (c_pf_socket (w_conn w) \<noteq> None \<and> c_authorized (w_conn w)
                               \<and> c_last_test_delay (w_conn w) = None), w))
      | Click \<Rightarrow>
          if c_cm_started (w_conn w) then (case click_arm so e w of (keep, w) \<Rightarrow> (keep \<and> c_pf_socket (w_conn w) = None, w))
          else (True, w)
      | Loop x \<Rightarrow> aside e x w)"

abbreviation as_peer :: "world \<Rightarrow> login_request \<Rightarrow> login_conn" where
  "as_peer w lr \<equiv> login_view ((w_conn w)\<lparr>c_lr := lr\<rparr>)"

text \<open>The id is on the whitelist, and the address has not been refused too often.\<close>

definition whitelisted :: "env \<Rightarrow> world \<Rightarrow> login_request \<Rightarrow> bool" where
  "whitelisted e w lr \<longleftrightarrow> fst (check_id_whitelist (sv_opts (h_login (w_host w)) ''id-whitelist'') (lr_my_id lr)
     (c_ip (w_conn w)) (env_now e) (h_fail_id (w_host w))) = None"

definition permitted :: "env \<Rightarrow> world \<Rightarrow> login_request \<Rightarrow> bool" where
  "permitted e w lr \<longleftrightarrow>
     (case kind_of lr of
        FileTransfer \<Rightarrow> kind_permitted w ''enable-file-transfer''
      | ViewCamera \<Rightarrow> kind_permitted w ''enable-camera''
      | Terminal \<Rightarrow> kind_permitted w ''enable-terminal''
      | PortForward \<Rightarrow> kind_permitted w ''enable-tunnel''
      | Remote \<Rightarrow> \<not> env_privacy_on e)"

text \<open>The request proves a password in force, or continues a recent session that had proved one.\<close>

definition password_ok :: "sodium \<Rightarrow> machine \<Rightarrow> env \<Rightarrow> world \<Rightarrow> login_request \<Rightarrow> bool" where
  "password_ok so m e w lr \<longleftrightarrow>
     lr_pass lr \<noteq> [] \<and> \<not> asks_for_click so m e (h_login (w_host w))
     \<and> (fst (is_recent_session so False (env_now e) (h_login (w_host w)) (as_peer w lr))
        \<or> snd (check_failure (sv_failures (h_login (w_host w))) (c_ip (w_conn w)) (env_now e)) = None
          \<and> fst (validate_password so m (allow_logon_screen_password e) (env_now e) (h_login (w_host w)) (as_peer w lr)))"

definition switch_ok :: "env \<Rightarrow> world \<Rightarrow> bytes \<Rightarrow> login_request \<Rightarrow> bool" where
  "switch_ok e w key lr \<longleftrightarrow>
     lr_union lr = None \<and> length key = 16 \<and> whitelisted e w lr
     \<and> map_option snd (hm_get (hm_retain (\<lambda>_ v. env_now e - fst v < SWITCH_SIDES_UUID_TTL) (h_switch (w_host w))) (lr_my_id lr))
         = Some key"

definition device_ok :: "env \<Rightarrow> world \<Rightarrow> login_request \<Rightarrow> bool" where
  "device_ok e w lr \<longleftrightarrow> lr_hwid lr \<noteq> [] \<and> enable_trusted_devices (w_host w) \<and> is_trusted (env_now e) lr (h_trusted (w_host w))"

definition code_ok :: "env \<Rightarrow> world \<Rightarrow> string \<Rightarrow> string \<Rightarrow> bool" where
  "code_ok e w secret code \<longleftrightarrow>
     c_awaiting_2fa (w_conn w) \<and> env_totp e secret code = Some True
     \<and> snd (check_failure (h_fail_2fa (w_host w)) (c_ip (w_conn w)) (env_now e)) = None"

fun primary_proof :: "sodium \<Rightarrow> machine \<Rightarrow> env \<times> event \<times> world \<Rightarrow> bool" where
  "primary_proof so m (e, Click, w) = True"
| "primary_proof so m (e, Recv (Some (LoginRequest lr)), w) =
     (whitelisted e w lr \<and> permitted e w lr \<and> password_ok so m e w lr)"
| "primary_proof so m (e, Recv (Some (SwitchSidesResponse key (Some lr))), w) = switch_ok e w key lr"
| "primary_proof so m (e, _, w) = False"

fun second_proof :: "sodium \<Rightarrow> string \<Rightarrow> env \<times> event \<times> world \<Rightarrow> bool" where
  "second_proof so secret (e, Click, w) = True"
| "second_proof so secret (e, Recv (Some (LoginRequest lr)), w) =
     (device_ok e w lr \<or> fst (is_recent_session so True (env_now e) (h_login (w_host w)) (as_peer w lr)))"
| "second_proof so secret (e, Recv (Some (SwitchSidesResponse key (Some lr))), w) = (switch_ok e w key lr \<or> device_ok e w lr)"
| "second_proof so secret (e, Recv (Some (Auth2FA code hwid)), w) = code_ok e w secret code"
| "second_proof so secret (e, _, w) = False"

text \<open>
  What holds of a connection between two events: it carries the flags of the kind its login request
  asks for, is authorized for that kind if at all, and the scope it is bound to is the request's.
\<close>

definition login_inv :: "sodium \<Rightarrow> conn \<Rightarrow> bool" where
  "login_inv so c \<longleftrightarrow> kinded c
     \<and> (if c_authorized c then c_authed c = Some (kind_of (c_lr c)) else \<not> is_port_forward c \<and> c_authed c = None \<and> \<not> c_from_switch c)
     \<and> (c_from_switch c \<or> c_scope c = Some (login_scope_digest so (c_lr c))
        \<or> c_scope c = None \<and> \<not> c_authorized c \<and> \<not> c_awaiting_2fa c \<and> \<not> c_cm_started c)"

text \<open>One event, for the login: the invariant stays, and what is gained is proved by the event.\<close>

definition advances :: "sodium \<Rightarrow> machine \<Rightarrow> env \<times> event \<times> world \<Rightarrow> conn \<Rightarrow> bool" where
  "advances so m x c' \<longleftrightarrow> (let c = w_conn (snd (snd x)) in
     login_inv so c'
     \<and> (c_authorized c' \<or> c_awaiting_2fa c' \<longrightarrow> c_authorized c \<or> c_awaiting_2fa c \<or> primary_proof so m x)
     \<and> (c_require_2fa c' = c_require_2fa c \<or> c_require_2fa c' = None \<and> second_proof so (the (c_require_2fa c)) x)
     \<and> (c_authorized c' \<longrightarrow> c_authorized c \<or> c_require_2fa c' = None \<or> second_proof so (the (c_require_2fa c)) x))"

lemma advances_settled:
  assumes "login_inv so (w_conn w)" "settled (w_conn w) c'" "c_cm_started c' = c_cm_started (w_conn w)"
  shows "advances so m (e, ev, w) c'"
  using assms same_kinded[of "w_conn w" c']
  by (auto simp: advances_def login_inv_def settled_def same_def Let_def split: if_splits)

lemma click_advances:
  assumes i: "login_inv so (w_conn w)" and s: "session_step dispatch aside so m e Click w = (True, w')"
  shows "advances so m (e, Click, w) (w_conn w')"
proof (cases "c_cm_started (w_conn w)"; cases "c_authorized (w_conn w)")
  assume a: "c_cm_started (w_conn w)" "c_authorized (w_conn w)"
  then have "w_conn w' = (w_conn w)\<lparr>c_primary := ClickAuth, c_require_2fa := None\<rparr>"
    using s by (auto simp: session_step_def click_arm_def send_logon_response_and_keep_alive_def split: prod.splits)
  with i a show ?thesis by (simp add: advances_def login_inv_def kinded_def)
next
  assume "c_cm_started (w_conn w)" "\<not> c_authorized (w_conn w)"
  note True = conjI[OF this]
  define w0 where "w0 = upd_conn (\<lambda>c. c\<lparr>c_primary := ClickAuth, c_require_2fa := None\<rparr>) w"
  have l: "send_logon_response_and_keep_alive so e w0 = (True, w')" "\<not> c_authorized (w_conn w0)"
    using s True by (auto simp: session_step_def click_arm_def w0_def split: prod.splits)
  have k: "kinded (w_conn w0)" "\<not> is_port_forward (w_conn w0)"
    using i True by (auto simp: login_inv_def w0_def kinded_def is_port_forward_def)
  from l show ?thesis
  proof (cases rule: send_logon_cases)
    case enter
    then show ?thesis using enter(5)[OF k] i True k same_kinded[OF enter(1)]
      by (auto simp: advances_def login_inv_def same_def w0_def Let_def)
  qed (simp add: w0_def)
qed (use s i advances_settled[of so w] in \<open>simp_all add: session_step_def\<close>)

text \<open>Letting in a connection that differs from one with the invariant in no more than its proofs.\<close>

lemma send_logon_advances:
  assumes i: "kinded (w_conn w0)" "\<not> c_authorized (w_conn w0) \<Longrightarrow> \<not> is_port_forward (w_conn w0) \<and> c_authed (w_conn w0) = None"
      "c_authorized (w_conn w0) \<Longrightarrow> c_authed (w_conn w0) = Some (kind_of (c_lr (w_conn w0)))"
      "c_from_switch (w_conn w0) \<or> c_scope (w_conn w0) = Some (login_scope_digest so (c_lr (w_conn w0)))"
    and s: "send_logon_response_and_keep_alive so e w0 = (True, w')"
    and a: "c_authorized (w_conn w0) = c_authorized (w_conn w)" "c_authorized (w_conn w) \<or> c_awaiting_2fa (w_conn w) \<or> primary_proof so m x"
    and r: "c_require_2fa (w_conn w0) = c_require_2fa (w_conn w)
        \<or> c_require_2fa (w_conn w0) = None \<and> second_proof so (the (c_require_2fa (w_conn w))) x"
      "fst (recent_2fa so e w0) \<or> c_from_switch (w_conn w0) \<Longrightarrow> second_proof so (the (c_require_2fa (w_conn w))) x"
    and x: "x = (e, ev, w)"
  shows "advances so m x (w_conn w')"
proof (cases "c_authorized (w_conn w0)")
  case True
  then have "w' = w0" using s by (simp add: send_logon_response_and_keep_alive_def)
  then show ?thesis using True i a r x by (auto simp: advances_def login_inv_def)
next
  case False
  note n = i(2)[OF False]
  have adv: "advances so m x (w_conn w')"
    if sm: "same (w_conn w0) (w_conn w')"
      and out: "if c_authorized (w_conn w') then c_authed (w_conn w') = Some (kind_of (c_lr (w_conn w0)))
          \<and> (c_require_2fa (w_conn w0) = None \<or> second_proof so (the (c_require_2fa (w_conn w))) x)
        else \<not> is_port_forward (w_conn w') \<and> c_authed (w_conn w') = None \<and> \<not> c_from_switch (w_conn w0)"
  proof -
    have eq: "c_lr (w_conn w') = c_lr (w_conn w0)" "c_scope (w_conn w') = c_scope (w_conn w0)"
      "c_require_2fa (w_conn w') = c_require_2fa (w_conn w0)" "c_from_switch (w_conn w') = c_from_switch (w_conn w0)"
      using sm by (simp_all add: same_def)
    have "login_inv so (w_conn w')" unfolding login_inv_def eq using out i(4) same_kinded[OF sm] i(1) by metis
    then show ?thesis unfolding advances_def x Let_def eq fst_conv snd_conv using out a r(1) x by metis
  qed
  from s False show ?thesis
  proof (cases rule: send_logon_cases)
    case await
    then show ?thesis using n by (intro adv) simp_all
  next
    case enter
    then show ?thesis using n i(1) r(2) by (intro adv) auto
  qed
qed

lemma auth_2fa_advances:
  assumes i: "login_inv so (w_conn w)" and s: "auth_2fa_arm so e code hwid w = (True, w')"
  shows "advances so m (e, Recv (Some (Auth2FA code hwid)), w) (w_conn w')"
proof (cases "w_conn w' = w_conn w")
  case True
  with i show ?thesis by (intro advances_settled) simp_all
next
  case False
  obtain f t q where q: "check_failure (h_fail_2fa (w_host w)) (c_ip (w_conn w)) (env_now e) = ((f, t), q)" by (metis prod.collapse)
  have aw: "c_awaiting_2fa (w_conn w)" using s False by (auto simp: auth_2fa_arm_def split: if_splits)
  have q0: "q = None" using s False aw q by (cases q) (auto simp: auth_2fa_arm_def split: prod.splits)
  have "Option.bind (c_require_2fa (w_conn w)) (\<lambda>secret. env_totp e secret code) = Some True"
    using s False aw q q0 by (auto simp: auth_2fa_arm_def split: option.splits bool.splits)
  then obtain secret where sec: "c_require_2fa (w_conn w) = Some secret" "env_totp e secret code = Some True"
    by (auto simp: bind_eq_Some_conv)
  define w0 where "w0 = upd_conn (\<lambda>c. c\<lparr>c_require_2fa := None, c_two_factor := TotpFactor\<rparr>)
    (upd_host (\<lambda>h. h\<lparr>h_fail_2fa := update_failure (c_ip (w_conn w)) f t True (h_fail_2fa h),
       h_login := (h_login h)\<lparr>sv_sessions := set_session_2fa (session_key_of (w_conn w)) (env_now e) (sv_sessions (h_login h))\<rparr>\<rparr>) w)"
  obtain w1 where w1: "send_logon_response_and_keep_alive so e w0 = (True, w1)" "w_conn w' = w_conn w1"
    using s aw q q0 sec unfolding auth_2fa_arm_def w0_def
    by (fastforce simp: start_cm_frame Let_def split: prod.splits bool.splits if_splits)
  have "code_ok e w secret code" using aw q q0 sec by (simp add: code_ok_def)
  then have "advances so m (e, Recv (Some (Auth2FA code hwid)), w) (w_conn w1)"
    using i aw sec by (intro send_logon_advances[OF _ _ _ _ w1(1)])
      (auto simp: login_inv_def w0_def kinded_def is_port_forward_def split: if_splits)
  then show ?thesis by (simp add: w1(2))
qed

lemma advances_later:
  assumes "advances so m x c" "settled c c'" "c_cm_started c' = c_cm_started c \<or> c_scope c \<noteq> None \<or> c_from_switch c"
  shows "advances so m x c'"
proof -
  have eq: "c_lr c' = c_lr c" "c_scope c' = c_scope c" "c_require_2fa c' = c_require_2fa c" "c_from_switch c' = c_from_switch c"
    "c_authorized c' = c_authorized c" "c_authed c' = c_authed c" "c_awaiting_2fa c' = c_awaiting_2fa c"
    "is_port_forward c' = is_port_forward c" and sm: "same c c'"
    using assms(2) by (simp_all add: settled_def same_def)
  have "login_inv so c'" using assms(1,3) same_kinded[OF sm] unfolding advances_def login_inv_def Let_def eq by metis
  then show ?thesis using assms(1) unfolding advances_def Let_def eq by blast
qed

lemma handle_request_frame [frame]:
  fixes w e lr
  defines "w' \<equiv> handle_login_request_without_validation e lr w"
  shows "w_host w' = w_host w" "\<exists>opts tf r. w_conn w' = (w_conn w)\<lparr>c_lr := lr, c_options := opts, c_two_factor := tf, c_require_2fa := r\<rparr>
      \<and> (r = c_require_2fa (w_conn w) \<or> r = None \<and> device_ok e w lr)"
proof -
  define v where "v = upd_conn (\<lambda>c. c\<lparr>c_lr := lr, c_options := (case lr_option lr of Some opt \<Rightarrow> Some opt | None \<Rightarrow> c_options c)\<rparr>) w"
  have eq: "w' = (if c_require_2fa (w_conn v) \<noteq> None \<and> device_ok e v lr
      then upd_conn (\<lambda>c. c\<lparr>c_two_factor := TrustedDeviceFactor, c_require_2fa := None\<rparr>) v else v)"
    by (auto simp: w'_def v_def handle_login_request_without_validation_def device_ok_def Let_def)
  have d: "device_ok e v lr = device_ok e w lr" by (simp add: device_ok_def v_def)
  show "w_host w' = w_host w" by (simp add: eq v_def)
  show "\<exists>opts tf r. w_conn w' = (w_conn w)\<lparr>c_lr := lr, c_options := opts, c_two_factor := tf, c_require_2fa := r\<rparr>
      \<and> (r = c_require_2fa (w_conn w) \<or> r = None \<and> device_ok e w lr)"
  proof (cases "c_require_2fa (w_conn v) \<noteq> None \<and> device_ok e v lr")
    case True
    then show ?thesis unfolding eq if_P[OF True] using d
      by (intro exI[of _ "c_options (w_conn v)"] exI[of _ TrustedDeviceFactor] exI[of _ None]) (simp add: v_def)
  next
    case False
    show ?thesis unfolding eq if_not_P[OF False]
      by (intro exI[of _ "c_options (w_conn v)"] exI[of _ "c_two_factor (w_conn w)"] exI[of _ "c_require_2fa (w_conn w)"])
        (simp add: v_def)
  qed
qed

lemma id_whitelist_check_frame:
  assumes "id_whitelist_check e w = (True, w')"
  shows "w_conn w' = w_conn w" "whitelisted e w (c_lr (w_conn w))" "\<exists>f. w_host w' = (w_host w)\<lparr>h_fail_id := f\<rparr>"
  using assms by (auto simp: id_whitelist_check_def whitelisted_def split: prod.splits option.splits)

lemma switch_sides_advances:
  assumes i: "login_inv so (w_conn w)" and a: "c_authorized (w_conn w) \<Longrightarrow> c_authed (w_conn w) = Some Remote"
    and s: "switch_sides_arm so e key olr w = (True, w')"
  shows "advances so m (e, Recv (Some (SwitchSidesResponse key olr)), w) (w_conn w')"
proof (cases "w_conn w' = w_conn w")
  case True
  with i show ?thesis by (intro advances_settled) simp_all
next
  case False
  then obtain lr where lr: "olr = Some lr" using s by (cases olr) (auto simp: switch_sides_arm_def)
  define live where "live = hm_retain (\<lambda>_ v. env_now e - fst v < SWITCH_SIDES_UUID_TTL) (h_switch (w_host w))"
  define w1 where "w1 = handle_login_request_without_validation e lr
    (upd_conn reset_session_scope_for_login (upd_host (h_switch_update (\<lambda>_. hm_remove (lr_my_id lr) live)) w))"
  have k: "length key = 16" "map_option snd (hm_get live (lr_my_id lr)) = Some key" "lr_union lr = None"
    using s False by (auto simp: switch_sides_arm_def lr live_def Let_def split: if_splits)
  obtain opts tf r where w1: "w_conn w1 = (reset_session_scope_for_login (w_conn w))
        \<lparr>c_lr := lr, c_options := opts, c_two_factor := tf, c_require_2fa := r\<rparr>"
      "r = c_require_2fa (w_conn w) \<or> r = None \<and> device_ok e w lr"
    and h1: "w_host w1 = (w_host w)\<lparr>h_switch := hm_remove (lr_my_id lr) live\<rparr>"
  proof -
    have "device_ok e (upd_conn f (upd_host (h_switch_update g) w)) lr = device_ok e w lr" for f g
      by (simp add: device_ok_def enable_trusted_devices_def)
    with that show ?thesis
      using handle_request_frame[of e lr "upd_conn reset_session_scope_for_login (upd_host (h_switch_update (\<lambda>_. hm_remove (lr_my_id lr) live)) w)"]
      unfolding w1_def[symmetric] by (auto simp: reset_session_scope_for_login_def)
  qed
  have arm: "switch_sides_arm so e key olr w = (case id_whitelist_check e w1 of
      (False, w) \<Rightarrow> (False, w)
    | (True, w) \<Rightarrow>
        (case send_logon_response_and_keep_alive so e
                (upd_conn (\<lambda>c. c\<lparr>c_from_switch := True, c_primary := SwitchSidesAuth\<rparr>) w) of
           (False, w) \<Rightarrow> (False, w)
         | (True, w) \<Rightarrow> (True, try_start_cm_ipc (try_start_cm w))))"
    using k by (simp add: switch_sides_arm_def lr Let_def w1_def flip: live_def)
  obtain w2 where w2: "id_whitelist_check e w1 = (True, w2)" using s arm by (auto split: prod.splits bool.splits)
  define w3 where "w3 = upd_conn (\<lambda>c. c\<lparr>c_from_switch := True, c_primary := SwitchSidesAuth\<rparr>) w2"
  obtain w4 where w4: "send_logon_response_and_keep_alive so e w3 = (True, w4)" "w' = try_start_cm_ipc (try_start_cm w4)"
    using s arm w2 w3_def by (auto split: prod.splits bool.splits)
  note f = id_whitelist_check_frame[OF w2]
  have "whitelisted e w lr" using f(2) h1 w1 by (simp add: whitelisted_def reset_session_scope_for_login_def)
  then have ok: "switch_ok e w key lr" using k by (simp add: switch_ok_def live_def)
  have c3: "w_conn w3 = (w_conn w)\<lparr>c_file_transfer := None, c_view_camera := False, c_terminal := False, c_pf_address := [],
      c_prefs := (c_prefs (w_conn w))\<lparr>terminal_persistent := False\<rparr>,
      c_lr := lr, c_options := opts, c_two_factor := tf, c_require_2fa := r, c_from_switch := True, c_primary := SwitchSidesAuth\<rparr>"
    by (simp add: w3_def f(1) w1 reset_session_scope_for_login_def)
  have kr: "kind_of lr = Remote" using k by (simp add: kind_of_def)
  have "advances so m (e, Recv (Some (SwitchSidesResponse key olr)), w) (w_conn w4)"
    by (rule send_logon_advances[OF _ _ _ _ w4(1)])
      (use i a ok kr w1(2) in \<open>auto simp: c3 login_inv_def kinded_def is_port_forward_def lr split: if_splits\<close>)
  then show ?thesis unfolding w4(2)
    by (rule advances_later) (use start_cm_frame[of "try_start_cm w4"] send_logon_same[OF w4(1)] in
      \<open>simp_all add: start_cm_frame same_def c3\<close>)
qed

lemma check_login_scope_frame:
  assumes "check_login_scope so lr w = (True, w')"
  shows "w_conn w' = (w_conn w)\<lparr>c_scope := Some (login_scope_digest so lr)\<rparr>" "w_host w' = w_host w"
  using assms by (auto simp: check_login_scope_def Let_def split: option.splits if_splits)

text \<open>The state in which a request reaches the password check.\<close>

definition ready :: "sodium \<Rightarrow> env \<Rightarrow> login_request \<Rightarrow> world \<Rightarrow> world \<Rightarrow> bool" where
  "ready so e lr w v \<longleftrightarrow> c_lr (w_conn v) = lr \<and> kinded (w_conn v) \<and> c_scope (w_conn v) = Some (login_scope_digest so lr)
     \<and> \<not> c_awaiting_2fa (w_conn v)
     \<and> (c_require_2fa (w_conn v) = c_require_2fa (w_conn w) \<or> c_require_2fa (w_conn v) = None \<and> device_ok e w lr)
     \<and> c_authorized (w_conn v) = c_authorized (w_conn w) \<and> c_authed (w_conn v) = c_authed (w_conn w)
     \<and> c_from_switch (w_conn v) = c_from_switch (w_conn w) \<and> is_port_forward (w_conn v) = is_port_forward (w_conn w)
     \<and> c_ip (w_conn v) = c_ip (w_conn w) \<and> login_view (w_conn v) = as_peer w lr \<and> h_login (w_host v) = h_login (w_host w)"

lemma enter_kind_frame:
  assumes "enter_kind e lr w = (True, w')" "c_lr (w_conn w) = lr" "c_file_transfer (w_conn w) = None"
    "\<not> c_view_camera (w_conn w)" "\<not> c_terminal (w_conn w)"
  shows "kinded (w_conn w')" "permitted e w lr" "w_host w' = w_host w"
    "w_conn w' = (w_conn w)\<lparr>c_file_transfer := c_file_transfer (w_conn w'), c_view_camera := c_view_camera (w_conn w'),
       c_terminal := c_terminal (w_conn w'), c_service_id := c_service_id (w_conn w'),
       c_pf_address := c_pf_address (w_conn w'), c_prefs := c_prefs (w_conn w')\<rparr>"
  using assms
  by (auto simp: enter_kind_def kinded_def permitted_def kind_of_def Let_def
      split: option.splits login_union.splits if_splits)

lemma login_request_ready:
  assumes s: "login_request_arm so m e lr w = (True, w')" and n: "\<not> c_authorized (w_conn w)"
  obtains v where "password_arm so m e v = (True, w')" "ready so e lr w v" "whitelisted e w lr" "permitted e w lr"
proof -
  obtain w1 where w1: "check_login_scope so lr w = (True, w1)"
    using s by (auto simp: login_request_arm_def split: prod.splits bool.splits)
  note f1 = check_login_scope_frame[OF w1]
  define w2 where "w2 = handle_login_request_without_validation e lr (upd_conn (c_awaiting_2fa_update (\<lambda>_. False)) w1)"
  obtain opts tf r where f2: "w_conn w2 = (w_conn w)\<lparr>c_scope := Some (login_scope_digest so lr), c_awaiting_2fa := False,
        c_lr := lr, c_options := opts, c_two_factor := tf, c_require_2fa := r\<rparr>"
      "r = c_require_2fa (w_conn w) \<or> r = None \<and> device_ok e w lr" "w_host w2 = w_host w"
    using handle_request_frame[of e lr "upd_conn (c_awaiting_2fa_update (\<lambda>_. False)) w1"] f1
    by (auto simp: w2_def device_ok_def)
  have s2: "login_request_arm so m e lr w =
      (case id_whitelist_check e (upd_conn reset_session_scope_for_login w2) of
         (False, w) \<Rightarrow> (False, w)
       | (True, w) \<Rightarrow> (case enter_kind e lr w of (False, w) \<Rightarrow> (False, w) | (True, w) \<Rightarrow> admit so m e lr (set_send_timeout w)))"
    using w1 n f2 by (simp add: login_request_arm_def Let_def flip: w2_def)
  obtain w3 where w3: "id_whitelist_check e (upd_conn reset_session_scope_for_login w2) = (True, w3)"
    using s s2 by (auto split: prod.splits bool.splits)
  note f3 = id_whitelist_check_frame[OF w3]
  obtain w4 where w4: "enter_kind e lr w3 = (True, w4)" using s s2 w3 by (auto split: prod.splits bool.splits)
  have c3: "w_conn w3 = (w_conn w)\<lparr>c_scope := Some (login_scope_digest so lr), c_awaiting_2fa := False, c_lr := lr,
      c_options := opts, c_two_factor := tf, c_require_2fa := r, c_file_transfer := None, c_view_camera := False,
      c_terminal := False, c_pf_address := [], c_prefs := (c_prefs (w_conn w))\<lparr>terminal_persistent := False\<rparr>\<rparr>"
    by (simp add: f3 f2 reset_session_scope_for_login_def)
  have f4: "kinded (w_conn w4)" "permitted e w3 lr" "w_host w4 = w_host w3"
    using enter_kind_frame(1-3)[OF w4] c3 by simp_all
  obtain ft vc tm sid pa p where c4: "w_conn w4 = (w_conn w3)\<lparr>c_file_transfer := ft, c_view_camera := vc, c_terminal := tm,
      c_service_id := sid, c_pf_address := pa, c_prefs := p\<rparr>"
    using enter_kind_frame(4)[OF w4] c3 by fastforce
  define v where "v = (if should_use_terminal_os_login_scope e (c_terminal (w_conn (set_send_timeout w4))) (lr_os_username lr)
    then set_send_timeout w4 else try_start_cm_ipc (set_send_timeout w4))"
  have "password_arm so m e v = (True, w')"
    using s s2 w3 w4 by (auto simp: admit_def v_def split: if_splits)
  moreover have "ready so e lr w v"
  proof -
    have h: "h_login (w_host w4) = h_login (w_host w)" using f4(3) f3(3) f2(3) by auto
    have "ready so e lr w w4" using f4(1) f2(2)
      unfolding ready_def c4 c3 by (simp add: h is_port_forward_def login_view_def session_key_of_def)
    then show ?thesis
      by (auto simp: v_def ready_def set_send_timeout_def try_start_cm_ipc_def kinded_def is_port_forward_def
          login_view_def session_key_of_def)
  qed
  moreover have "whitelisted e w lr" "permitted e w lr"
    using f3(2,3) f2(3) f4(2) c3 by (auto simp: whitelisted_def permitted_def kind_permitted_def f2(1) reset_session_scope_for_login_def
        split: auth_conn_type.splits)
  ultimately show ?thesis by (rule that)
qed

text \<open>A request that is not let in leaves the connection as it reached the password check.\<close>

lemma ready_advances:
  assumes i: "login_inv so (w_conn w)" and n: "\<not> c_authorized (w_conn w)" and r: "ready so e lr w v"
    and c: "settled ((w_conn v)\<lparr>c_primary := a\<rparr>) c'"
  shows "advances so m (e, Recv (Some (LoginRequest lr)), w) c'"
proof -
  have eq: "c_lr c' = lr" "c_scope c' = Some (login_scope_digest so lr)" "c_require_2fa c' = c_require_2fa (w_conn v)"
    "c_from_switch c' = c_from_switch (w_conn w)" "\<not> c_authorized c'" "c_authed c' = c_authed (w_conn w)"
    "\<not> c_awaiting_2fa c'" "is_port_forward c' = is_port_forward (w_conn w)" "kinded c'"
    using c r n same_kinded[of "(w_conn v)\<lparr>c_primary := a\<rparr>" c']
    by (auto simp: settled_def same_def ready_def is_port_forward_def kinded_def)
  then have "login_inv so c'" using i n by (simp add: login_inv_def)
  with eq r show ?thesis by (auto simp: advances_def ready_def)
qed

lemma let_in_advances:
  assumes i: "login_inv so (w_conn w)" and n: "\<not> c_authorized (w_conn w)" and r: "ready so e lr w v"
    and s: "let_in so e v' = (True, w')" "w_conn v' = (w_conn v)\<lparr>c_primary := a\<rparr>"
    and p: "primary_proof so m (e, Recv (Some (LoginRequest lr)), w)"
    and t: "fst (recent_2fa so e v') \<Longrightarrow> fst (is_recent_session so True (env_now e) (h_login (w_host w)) (as_peer w lr))"
  shows "advances so m (e, Recv (Some (LoginRequest lr)), w) (w_conn w')"
proof -
  obtain w1 where w1: "send_logon_response_and_keep_alive so e v' = (True, w1)" "w_conn w' = w_conn w1"
    using s(1) by (auto simp: let_in_def start_cm_frame split: prod.splits bool.splits)
  have "\<not> c_from_switch (w_conn w)" using i n by (simp add: login_inv_def)
  then have "advances so m (e, Recv (Some (LoginRequest lr)), w) (w_conn w1)"
    by (intro send_logon_advances[OF _ _ _ _ w1(1)])
      (use i n r p t in \<open>auto simp: s(2) ready_def login_inv_def kinded_def is_port_forward_def split: if_splits\<close>)
  then show ?thesis by (simp add: w1(2))
qed

lemma ask_person_frame:
  assumes "ask_person e b v = (True, w')"
  shows "settled (w_conn v) (w_conn w')"
proof -
  obtain r v1 where q: "(if should_use_terminal_os_login_scope e (c_terminal (w_conn v)) (lr_os_username (c_lr (w_conn v)))
      then prepare_terminal_login_for_authorization e v else (None, v)) = (r, v1)" by fastforce
  then have "settled (w_conn v) (w_conn v1)" using prepare_terminal_frame(1)[of e v] by (auto split: if_splits)
  then show ?thesis using assms q by (auto simp: ask_person_def start_cm_frame split: option.splits)
qed

lemma login_request_advances:
  assumes i: "login_inv so (w_conn w)" and n: "\<not> c_authorized (w_conn w)" and ok: "hm_ok (sv_sessions (h_login (w_host w)))"
    and s: "login_request_arm so m e lr w = (True, w')"
  shows "advances so m (e, Recv (Some (LoginRequest lr)), w) (w_conn w')"
proof -
  obtain v where v: "password_arm so m e v = (True, w')" and r: "ready so e lr w v"
    and wl: "whitelisted e w lr" "permitted e w lr" using login_request_ready[OF s n] .
  obtain res sv u where p: "password_login so m (allow_logon_screen_password e) (env_now e) (env_fresh e)
      (h_login (w_host w)) (as_peer w lr) = (res, sv, u)" by (metis prod_cases3)
  define v' where "v' = upd_conn (c_primary_update (\<lambda>_. primary u)) (upd_host (h_login_update (\<lambda>_. sv)) v)"
  have v': "w_conn v' = (w_conn v)\<lparr>c_primary := primary u\<rparr>" "h_login (w_host v') = sv" by (simp_all add: v'_def)
  have arm: "(case res of AskToAccept \<Rightarrow> ask_person e (asks_for_click so m e (h_login (w_host v))) v'
             | RecentSession \<Rightarrow> let_in so e v' | LoggedIn \<Rightarrow> let_in so e v'
             | TooManyFailures (msg, alarm) \<Rightarrow> (True, emit [SendLoginError msg, AlarmAudit alarm] v')
             | WrongPassword \<Rightarrow> (True, try_start_cm (emit [SendLoginError LOGIN_MSG_PASSWORD_WRONG] v'))) = (True, w')"
    using v p r unfolding v'_def by (simp add: password_arm_def ready_def Let_def)
  show ?thesis
  proof (cases "res = RecentSession \<or> res = LoggedIn")
    case True
    then have l: "let_in so e v' = (True, w')" using arm by auto
    note po = password_login_ok[OF p True]
    have "password_ok so m e w lr" using po
      by (simp add: password_ok_def asks_for_click_def login_view_def)
    then have pp: "primary_proof so m (e, Recv (Some (LoginRequest lr)), w)" using wl by simp
    show ?thesis
    proof (rule let_in_advances[OF i n r l v'(1) pp])
      assume "fst (recent_2fa so e v')"
      then have "fst (is_recent_session so True (env_now e) sv (login_view (w_conn v')))"
        by (auto simp: recent_2fa_def v'(2) split: prod.splits)
      moreover have "login_view (w_conn v') = (as_peer w lr)\<lparr>primary := primary u\<rparr>"
        using r by (simp add: v'(1) ready_def login_view_def session_key_of_def)
      ultimately show "fst (is_recent_session so True (env_now e) (h_login (w_host w)) (as_peer w lr))"
        using password_login_recent[OF p ok] by simp
    qed
  next
    case False
    have "settled (w_conn v') (w_conn w')"
      using arm False by (auto simp: start_cm_frame dest: ask_person_frame split: login_result.splits)
    then show ?thesis using ready_advances[OF i n r] v'(1) by simp
  qed
qed

section \<open>The scope is bound\<close>

definition scope_kept :: "sodium \<Rightarrow> env \<times> event \<times> world \<Rightarrow> conn \<Rightarrow> bool" where
  "scope_kept so x c' \<longleftrightarrow> (case x of (e, ev, w) \<Rightarrow>
     (case ev of
        Recv (Some (LoginRequest lr)) \<Rightarrow>
          if c_authorized (w_conn w) then c_scope c' = c_scope (w_conn w)
          else c_scope c' = Some (login_scope_digest so lr) \<and> (c_scope (w_conn w) = None \<or> c_scope (w_conn w) = c_scope c')
      | _ \<Rightarrow> c_scope c' = c_scope (w_conn w)))"

lemma scope_keptI: "c_scope c' = c_scope (w_conn w) \<Longrightarrow> (\<And>lr. ev \<noteq> Recv (Some (LoginRequest lr))) \<Longrightarrow> scope_kept so (e, ev, w) c'"
  by (auto simp: scope_kept_def split: event.split option.split msg.split)

lemma switch_sides_scope:
  assumes "switch_sides_arm so e key olr w = (True, w')"
  shows "c_scope (w_conn w') = c_scope (w_conn w)"
proof -
  have h: "c_scope (w_conn (handle_login_request_without_validation e lr v)) = c_scope (w_conn v)" for lr v
    using handle_request_frame(2)[of e lr v] by auto
  have st: "c_scope (w_conn (try_start_cm_ipc v)) = c_scope (w_conn v)" for v
    using start_cm_frame(1)[of v] by (simp add: settled_def same_def)
  show ?thesis using assms
    by (auto simp: switch_sides_arm_def Let_def start_cm_frame h st reset_session_scope_for_login_def same_def
        dest!: send_logon_same id_whitelist_check_frame(1) split: prod.splits option.splits bool.splits if_splits)
qed

lemma password_arm_scope:
  assumes "password_arm so m e v = (True, w')"
  shows "c_scope (w_conn w') = c_scope (w_conn v)"
proof -
  have l: "c_scope (w_conn w') = c_scope (w_conn v)" if "let_in so e v = (True, w')" for v
    using that by (auto simp: let_in_def start_cm_frame same_def dest!: send_logon_same split: prod.splits bool.splits)
  have a: "c_scope (w_conn w') = c_scope (w_conn v)" if "ask_person e b v = (True, w')" for b v
    using ask_person_frame[OF that] by (simp add: settled_def same_def)
  show ?thesis using assms
    by (auto simp: password_arm_def Let_def start_cm_frame dest!: l a split: prod.splits login_result.splits)
qed

lemma login_request_scope:
  assumes s: "login_request_arm so m e lr w = (True, w')" and n: "\<not> c_authorized (w_conn w)"
  shows "scope_kept so (e, Recv (Some (LoginRequest lr)), w) (w_conn w')"
proof -
  obtain v where "password_arm so m e v = (True, w')" "ready so e lr w v" using login_request_ready[OF s n] .
  then have "c_scope (w_conn w') = Some (login_scope_digest so lr)" using password_arm_scope by (auto simp: ready_def)
  moreover have "c_scope (w_conn w) = None \<or> c_scope (w_conn w) = Some (login_scope_digest so lr)"
  proof -
    obtain w1 where "check_login_scope so lr w = (True, w1)"
      using s by (auto simp: login_request_arm_def split: prod.splits bool.splits)
    then show ?thesis by (auto simp: check_login_scope_def Let_def split: option.splits if_splits)
  qed
  ultimately show ?thesis using n by (auto simp: scope_kept_def)
qed

section \<open>Runs\<close>

text \<open>
  The events of a connection, each with the state in which it finds the machine. Between two events
  the shared state may change in any way; its tables have distinct keys.
\<close>

inductive run :: "(env \<Rightarrow> msg \<Rightarrow> world \<Rightarrow> bool \<times> world) \<Rightarrow> (env \<Rightarrow> session_event \<Rightarrow> world \<Rightarrow> bool \<times> world) \<Rightarrow>
    sodium \<Rightarrow> machine \<Rightarrow> conn \<Rightarrow> (env \<times> event \<times> world) list \<Rightarrow> conn \<Rightarrow> bool"
  for dispatch aside so m c0 where
  run_start: "run dispatch aside so m c0 [] c0"
| run_step: "run dispatch aside so m c0 tr c \<Longrightarrow> w_conn w = c \<Longrightarrow> hm_ok (sv_sessions (h_login (w_host w))) \<Longrightarrow>
    session_step dispatch aside so m e ev w = (True, w') \<Longrightarrow> run dispatch aside so m c0 (tr @ [(e, ev, w)]) (w_conn w')"

text \<open>The ways a message can go that leaves the connection open.\<close>

lemma message_cases:
  assumes a: "on_message_with dispatch so m e message w = (True, w')"
  obtains (ignored) "w_conn w' = w_conn w" "(\<forall>lr. message \<noteq> Some (LoginRequest lr)) \<or> c_authorized (w_conn w)"
  | (violation) f where "c_authorized (w_conn w)" "handle_authorized_scope_violation f w = (True, w')"
  | (login) lr where "message = Some (LoginRequest lr)" "\<not> c_authorized (w_conn w)" "login_request_arm so m e lr w = (True, w')"
  | (code) c hwid where "message = Some (Auth2FA c hwid)" "auth_2fa_arm so e c hwid w = (True, w')"
  | (delay) b t where "message = Some (TestDelay b t)" "w' = test_delay_arm e b t w"
  | (switch) key olr where "message = Some (SwitchSidesResponse key olr)" "switch_sides_arm so e key olr w = (True, w')"
      "c_authorized (w_conn w) \<Longrightarrow> authorized_scope_violation (on_windows (env_build e)) (c_authed (w_conn w)) message = None"
  | (other) msg where "message = Some msg" "c_authorized (w_conn w)" "dispatch e msg w = (True, w')" "\<And>lr. msg \<noteq> LoginRequest lr"
proof -
  define v where "v = (if c_authorized (w_conn w)
    then authorized_scope_violation (on_windows (env_build e)) (c_authed (w_conn w)) message else None)"
  consider (known) "c_authorized (w_conn w)" "is_login_request message" "w' = w"
    | (viol) f where "v = Some f" "handle_authorized_scope_violation f w = (True, w')"
    | (none) "v = None" "message = None" "w' = w"
    | (arm) msg where "v = None" "message = Some msg" "message_arm dispatch so m e msg w = (True, w')"
        "\<not> (c_authorized (w_conn w) \<and> is_login_request message)"
    using a unfolding on_message_with_def v_def[symmetric] by (auto split: if_splits option.splits)
  then show ?thesis
  proof cases
    case (viol f)
    then show ?thesis using that(2)[of f] by (auto simp: v_def split: if_splits)
  next
    case (arm msg)
    have sw: "c_authorized (w_conn w) \<Longrightarrow> authorized_scope_violation (on_windows (env_build e)) (c_authed (w_conn w)) message = None"
      using arm(1) by (simp add: v_def)
    show ?thesis using arm(2-4) that(1,3-5,7) that(6)[OF _ _ sw]
      by (cases msg) (auto simp: message_arm_def is_login_request_def split: if_splits)
  qed (use that(1) in auto)
qed

lemma switch_needs_remote:
  "authorized_scope_violation win (Some t) (Some (SwitchSidesResponse key olr)) = None \<Longrightarrow> t = Remote"
  by (cases t) (auto simp: authorized_scope_violation_def authorized_message_scope_violation_def then_some_def
      is_connection_housekeeping_message_def is_text_clipboard_noop_compat_message_def is_file_transfer_scoped_message_def
      is_port_forward_scoped_message_def is_terminal_scoped_message_def is_view_camera_scoped_message_def)

lemma violation_frame:
  assumes "handle_authorized_scope_violation f w = (True, w')"
  shows "w_conn w' = (w_conn w)\<lparr>c_violations := List.insert f (c_violations (w_conn w))\<rparr>" "w_host w' = w_host w"
  using assms by (auto simp: handle_authorized_scope_violation_def Let_def split: if_splits)

lemma test_delay_frame [frame]:
  "settled (w_conn w) (w_conn (test_delay_arm e b t w))" "c_cm_started (w_conn (test_delay_arm e b t w)) = c_cm_started (w_conn w)"
  by (auto simp: test_delay_arm_def settled_def same_def is_port_forward_def split: option.split)

text \<open>What the login relies on from the handling of a session's other messages: it leaves the login alone.\<close>

locale session_handler =
  fixes dispatch :: "env \<Rightarrow> msg \<Rightarrow> world \<Rightarrow> bool \<times> world"
    and aside :: "env \<Rightarrow> session_event \<Rightarrow> world \<Rightarrow> bool \<times> world"
  assumes dispatch_settled: "dispatch e msg w = (True, w') \<Longrightarrow>
    settled (w_conn w) (w_conn w') \<and> c_cm_started (w_conn w') = c_cm_started (w_conn w)"
    and aside_settled: "aside e x w = (True, w') \<Longrightarrow>
    settled (w_conn w) (w_conn w') \<and> c_cm_started (w_conn w') = c_cm_started (w_conn w)"
begin

lemma message_advances:
  assumes i: "login_inv so (w_conn w)" and ok: "hm_ok (sv_sessions (h_login (w_host w)))"
    and s: "on_message_with dispatch so m e message w = (True, w')"
  shows "advances so m (e, Recv message, w) (w_conn w') \<and> scope_kept so (e, Recv message, w) (w_conn w')"
proof -
  have quiet: "advances so m (e, Recv message, w) c' \<and> scope_kept so (e, Recv message, w) c'"
    if "settled (w_conn w) c'" "c_cm_started c' = c_cm_started (w_conn w)"
      "(\<forall>lr. message \<noteq> Some (LoginRequest lr)) \<or> c_authorized (w_conn w)" for c'
    using advances_settled[OF i that(1,2)] that
    by (auto simp: scope_kept_def settled_def same_def split: option.split msg.split)
  from s show ?thesis
  proof (cases rule: message_cases)
    case ignored
    then show ?thesis by (intro quiet) simp_all
  next
    case (violation f)
    then show ?thesis using violation_frame[OF violation(2)]
      by (intro quiet) (simp_all add: settled_def same_def is_port_forward_def)
  next
    case (login lr)
    then show ?thesis using login_request_advances[OF i login(2) ok login(3)] login_request_scope[OF login(3,2)] by simp
  next
    case (code c hwid)
    have "c_scope (w_conn w') = c_scope (w_conn w)"
      using code(2) by (auto simp: auth_2fa_arm_def Let_def start_cm_frame same_def dest!: send_logon_same
          split: prod.splits option.splits bool.splits if_splits)
    with code auth_2fa_advances[OF i code(2)] show ?thesis by (auto intro: scope_keptI)
  next
    case (delay b t)
    then show ?thesis using test_delay_frame by (intro quiet) simp_all
  next
    case (switch key olr)
    have "c_authorized (w_conn w) \<Longrightarrow> c_authed (w_conn w) = Some Remote"
      using switch(1,3) switch_needs_remote i by (auto simp: login_inv_def)
    note adv = switch_sides_advances[OF i this switch(2)]
    have "c_scope (w_conn w') = c_scope (w_conn w)" using switch_sides_scope[OF switch(2)] .
    with switch(1) adv show ?thesis by (auto intro: scope_keptI)
  next
    case (other msg)
    then show ?thesis using dispatch_settled[OF other(3)] by (intro quiet) simp_all
  qed
qed

lemma step_advances:
  assumes "login_inv so (w_conn w)" "hm_ok (sv_sessions (h_login (w_host w)))" "session_step dispatch aside so m e ev w = (True, w')"
  shows "advances so m (e, ev, w) (w_conn w') \<and> scope_kept so (e, ev, w) (w_conn w')"
proof (cases ev)
  case (Recv message)
  then have "on_message_with dispatch so m e message w = (True, w')" using assms(3)
    by (auto simp: session_step_def split: prod.splits)
  then show ?thesis using message_advances[OF assms(1,2)] Recv by simp
next
  case (Loop x)
  then have x: "aside e x w = (True, w')" using assms(3) by (simp add: session_step_def)
  then have "c_scope (w_conn w') = c_scope (w_conn w)" using aside_settled[OF x] by (simp add: settled_def same_def)
  then show ?thesis using advances_settled[OF assms(1)] aside_settled[OF x] Loop by (auto intro: scope_keptI)
next
  case Click
  then have "advances so m (e, ev, w) (w_conn w')" using click_advances[OF assms(1)] assms(3) by blast
  moreover have "c_scope (w_conn w') = c_scope (w_conn w)" using assms(3) Click
    by (auto simp: session_step_def click_arm_def same_def dest!: send_logon_same split: if_splits prod.splits)
  ultimately show ?thesis using Click by (auto intro: scope_keptI)
qed

lemma run_inv: "run dispatch aside so m c0 tr c \<Longrightarrow> login_inv so c0 \<Longrightarrow> login_inv so c"
proof (induction rule: run.induct)
  case (run_step tr c w e ev w')
  then show ?case using step_advances[of so w m e ev w'] by (auto simp: advances_def Let_def)
qed

lemma run_primary:
  "run dispatch aside so m c0 tr c \<Longrightarrow> login_inv so c0 \<Longrightarrow> \<not> c_authorized c0 \<Longrightarrow> \<not> c_awaiting_2fa c0 \<Longrightarrow>
   c_authorized c \<or> c_awaiting_2fa c \<Longrightarrow> \<exists>x \<in> set tr. primary_proof so m x"
proof (induction rule: run.induct)
  case (run_step tr c w e ev w')
  have "login_inv so (w_conn w)" using run_inv[OF run_step(1)] run_step by simp
  from step_advances[OF this run_step(3,4)] run_step show ?case by (auto simp: advances_def Let_def)
qed simp

lemma run_second:
  "run dispatch aside so m c0 tr c \<Longrightarrow> login_inv so c0 \<Longrightarrow> \<not> c_authorized c0 \<Longrightarrow> c_require_2fa c0 = Some secret \<Longrightarrow>
   (c_require_2fa c = Some secret \<and> \<not> c_authorized c) \<or> (\<exists>x \<in> set tr. second_proof so secret x)"
proof (induction rule: run.induct)
  case (run_step tr c w e ev w')
  have "login_inv so (w_conn w)" using run_inv[OF run_step(1)] run_step by simp
  from step_advances[OF this run_step(3,4)] run_step show ?case by (auto simp: advances_def Let_def)
qed simp

lemma run_scope:
  "run dispatch aside so m c0 tr c \<Longrightarrow> login_inv so c0 \<Longrightarrow> (e, Recv (Some (LoginRequest lr)), w) \<in> set tr \<Longrightarrow>
   \<not> c_authorized (w_conn w) \<Longrightarrow> c_scope c = Some (login_scope_digest so lr)"
proof (induction rule: run.induct)
  case (run_step tr c v e' ev w')
  have "login_inv so (w_conn v)" using run_inv[OF run_step(1)] run_step by simp
  note k = conjunct2[OF step_advances[OF this run_step(3,4)]]
  show ?case
  proof (cases "(e, Recv (Some (LoginRequest lr)), w) \<in> set tr")
    case True
    then have "c_scope c = Some (login_scope_digest so lr)" using run_step by simp
    then show ?thesis using k run_step(2) by (auto simp: scope_kept_def split: event.splits option.splits msg.splits if_splits)
  next
    case False
    then have "(e', ev, v) = (e, Recv (Some (LoginRequest lr)), w)" using run_step.prems(2) by auto
    with k run_step.prems(3) show ?thesis by (auto simp: scope_kept_def)
  qed
qed simp

end

lemma conn_new_inv:
  "login_inv so (conn_new opts now i ip hash totp control)" "\<not> c_authorized (conn_new opts now i ip hash totp control)"
  "\<not> c_awaiting_2fa (conn_new opts now i ip hash totp control)" "c_require_2fa (conn_new opts now i ip hash totp control) = totp"
  by (simp_all add: conn_new_def login_inv_def kinded_def kind_of_def lr_new_def is_port_forward_def)

section \<open>The digest of a scope\<close>

lemma le_bytes_inj:
  assumes "n < 256 ^ k" "n' < 256 ^ k" "le_bytes k n = le_bytes k n'"
  shows "n = n'"
  using assms
proof (induction k arbitrary: n n')
  case (Suc k)
  have "n div 256 = n' div 256" using Suc by (intro Suc.IH) (auto simp: less_mult_imp_div_less mult.commute)
  moreover have "unat (word_of_nat n :: u8) = unat (word_of_nat n' :: u8)" using Suc.prems(3) by simp
  then have "n mod 256 = n' mod 256" by (simp add: unat_of_nat)
  ultimately show ?case by (metis div_mult_mod_eq)
qed simp

lemma length_le_bytes [simp]: "length (le_bytes k n) = k"
  by (induction k arbitrary: n) simp_all

text \<open>The fields can be read back from the digest's input: no two lists of fields have the same.\<close>

lemma length_push [simp]: "length (push bs) = 8 + length bs"
  by (simp add: push_def)

lemma push_not_Nil [simp]: "push bs \<noteq> []"
  using length_push[of bs] by force

lemma push_inj:
  assumes "length a < 2 ^ 64" "length b < 2 ^ 64" "push a @ x = push b @ y"
  shows "a = b \<and> x = y"
proof -
  have "le_bytes 8 (length a) = le_bytes 8 (length b)" "a @ x = b @ y"
    using assms(3) by (auto simp: push_def append_eq_append_conv)
  moreover from this(1) have "length a = length b" using assms(1,2) by (intro le_bytes_inj[of _ 8]) simp_all
  ultimately show ?thesis by simp
qed

lemma concat_push_inj:
  assumes "\<forall>x \<in> set xs. length x < 2 ^ 64" "\<forall>y \<in> set ys. length y < 2 ^ 64" "concat (map push xs) = concat (map push ys)"
  shows "xs = ys"
  using assms
proof (induction xs arbitrary: ys)
  case Nil
  then show ?case by (cases ys) simp_all
next
  case (Cons x xs)
  obtain y zs where ys: "ys = y # zs" using Cons.prems(3) by (cases ys) simp_all
  with Cons.prems push_inj[of x y "concat (map push xs)" "concat (map push zs)"] Cons.IH[of zs] show ?case by simp
qed

lemma bytes_of_inj [simp]: "bytes_of a = bytes_of b \<longleftrightarrow> a = b"
proof -
  have "inj (of_char :: char \<Rightarrow> u8)"
  proof (rule injI)
    fix c d :: char
    assume "(of_char c :: u8) = of_char d"
    then have "unat (of_nat (of_char c) :: u8) = unat (of_nat (of_char d) :: u8)" by (simp only: of_nat_of_char)
    then have "(of_char c :: nat) = of_char d" by (simp only: unat_of_nat) simp
    then show "c = d" by simp
  qed
  then show ?thesis by (simp add: bytes_of_def inj_map_eq_map)
qed

text \<open>The fields tell the peer's id and everything that the request asks for.\<close>

lemma scope_fields_inj:
  assumes "scope_fields a = scope_fields b"
  shows "lr_my_id a = lr_my_id b \<and> lr_union a = lr_union b"
proof -
  have p: "le_bytes 4 (unat (x :: i32)) = le_bytes 4 (unat y) \<longleftrightarrow> x = y" for x y
  proof
    assume "le_bytes 4 (unat x) = le_bytes 4 (unat y)"
    moreover have "unat z < 256 ^ 4" for z :: i32 using unsigned_less[of z] by simp
    ultimately show "x = y" using le_bytes_inj[of "unat x" 4 "unat y"] by (simp add: word_unat_eq_iff)
  qed simp
  show ?thesis using assms
    by (auto simp: scope_fields_def p split: option.splits login_union.splits if_splits)
qed

end
