(* ===== verification/Session_Dispatch.thy ===== *)
theory Session_Dispatch
  imports Login_Evidence
begin

text \<open>
  The messages of an authorized session (the second half of \<open>on_message\<close> of
  \<open>src/server/connection.rs\<close>): input, clipboard, files, screens, options, sound, calls, screenshots,
  forwarded ports and terminals. Calls to the services, to the connection manager, to the input
  thread and to the peer are effects; the frames of a tunnel go to the model of the controlled side
  of a tunnel (\<open>Mux_Server\<close>). The desktop builds for Windows and Linux are modelled.
\<close>

section \<open>Input\<close>

definition is_authed_view_camera_conn :: "conn \<Rightarrow> bool" where
  "is_authed_view_camera_conn c \<longleftrightarrow> c_authed c = Some ViewCamera"

definition should_handle_render_broadcast_message :: "conn \<Rightarrow> bool" where
  "should_handle_render_broadcast_message c \<longleftrightarrow> c_authed c = Some Remote \<or> c_authed c = Some ViewCamera"

definition should_handle_text_clipboard_message :: "conn \<Rightarrow> bool" where
  "should_handle_text_clipboard_message c \<longleftrightarrow> c_authed c = Some Remote"

text \<open>The kind of the event is in the three low bits of the mask, the buttons are above them.\<close>

definition is_left_up :: "int \<Rightarrow> bool" where
  "is_left_up flags \<longleftrightarrow> flags div 8 = 1 \<and> flags mod 8 = 2"

definition is_enter :: "key_event \<Rightarrow> bool" where
  "is_enter k \<longleftrightarrow> ke_union k = Some (ControlKey 27) \<or> ke_union k = Some (ControlKey 72)"

definition is_modifier :: "key_event \<Rightarrow> bool" where
  "is_modifier k = (case ke_union k of Some (ControlKey v) \<Rightarrow> v \<in> {1, 29, 4, 23, 75, 73, 74, 64} | _ \<Rightarrow> False)"

definition keyboard_on :: "world \<Rightarrow> bool" where
  "keyboard_on w = peer_keyboard_enabled (c_rights (w_conn w)) (c_prefs (w_conn w))"

definition mouse_arm :: "env \<Rightarrow> int \<Rightarrow> payload \<Rightarrow> world \<Rightarrow> world" where
  "mouse_arm e flags p w =
     (if is_authed_view_camera_conn (w_conn w) then w
      else
        let shown = show_my_cursor (c_prefs (w_conn w)) in
        update_auto_disconnect_timer e
          (if keyboard_on w then emit [if is_left_up flags then ClickTime else MouseMoveTime, InputMouse p True shown] w
           else if shown then emit [InputMouse p False True] w
           else w))"

definition pointer_arm :: "env \<Rightarrow> payload \<Rightarrow> world \<Rightarrow> world" where
  "pointer_arm e p w =
     (if is_authed_view_camera_conn (w_conn w) then w
      else update_auto_disconnect_timer e (if keyboard_on w then emit [MouseMoveTime, InputPointer p] w else w))"

text \<open>The modifier that the key stands for on this machine; modes 1 and 2 carry key codes.\<close>

definition modifier_of :: "env \<Rightarrow> key_event \<Rightarrow> nat option" where
  "modifier_of e k =
     (if ke_mode k = 1 then env_modifier_key e (case ke_union k of Some (ChrKey code) \<Rightarrow> code | _ \<Rightarrow> 0)
      else if ke_mode k = 2 then
        (case ke_union k of Some (ChrKey code) \<Rightarrow> env_modifier_key e (code AND 0xFFFF) | _ \<Rightarrow> None)
      else None)"

definition key_arm :: "env \<Rightarrow> key_event \<Rightarrow> world \<Rightarrow> world" where
  "key_arm e k w =
     (if is_authed_view_camera_conn (w_conn w) then w
      else update_auto_disconnect_timer e
        (if keyboard_on w then
           let key = modifier_of e k;
               is_press = (if on_windows (env_build e) then ke_press k
                           else (ke_press k \<or> ke_down k) \<and> \<not> (is_modifier k \<or> key \<noteq> None));
               held = (case key of
                   Some v \<Rightarrow> if is_press then List.insert v else removeAll v
                 | None \<Rightarrow> id);
               typed = (case ke_union k of Some (UnicodeKey _) \<Rightarrow> True | Some (SeqKey _) \<Rightarrow> True | _ \<Rightarrow> False)
           in emit ((if is_enter k then [ClickTime] else []) @ [MouseMoveTime, InputKey k (is_press \<and> \<not> typed)])
                (upd_conn (c_modifiers_update held) w)
         else w))"

text \<open>A password for the logon screen is typed only if that screen is up.\<close>

definition type_auto_login_password :: "env \<Rightarrow> string \<Rightarrow> world \<Rightarrow> world" where
  "type_auto_login_password e password w =
     (if \<not> env_logon_screen e then w
      else
        let k = \<lparr>ke_down = False, ke_press = True, ke_union = Some (SeqKey password), ke_modifiers = [], ke_mode = 0\<rparr>
        in emit [InputKey k False, ClickTime, MouseMoveTime, InputKey (k\<lparr>ke_union := Some (ControlKey 27)\<rparr>) True] w)"

definition os_login_arm :: "env \<Rightarrow> string \<Rightarrow> world \<Rightarrow> world" where
  "os_login_arm e password w =
     (if on_windows (env_build e)
      then update_auto_disconnect_timer e (if keyboard_on w then type_auto_login_password e password w else w)
      else w)"

section \<open>Clipboard\<close>

definition clipboard_arm :: "payload \<Rightarrow> world \<Rightarrow> world" where
  "clipboard_arm p w =
     (if should_handle_text_clipboard_message (w_conn w) \<and> clipboard_enabled (c_rights (w_conn w)) (c_prefs (w_conn w))
      then emit [UpdateClipboard p] w else w)"

definition is_file_data_request :: "cliprdr \<Rightarrow> bool" where
  "is_file_data_request clip = (case clip of ClipDataRequest _ \<Rightarrow> True | _ \<Rightarrow> False)"

definition is_support_file_copy_paste :: "string \<Rightarrow> bool" where
  "is_support_file_copy_paste ver \<longleftrightarrow> get_version_number ''1.3.8'' \<le> get_version_number ver"

text \<open>\<open>env_clip_ok\<close> says whether the message is a step of the file clipboard (\<open>msg_2_clip\<close>).\<close>

definition cliprdr_arm :: "env \<Rightarrow> cliprdr \<Rightarrow> world \<Rightarrow> world" where
  "cliprdr_arm e clip w =
     (let b = env_build e in
      if \<not> (on_windows b \<or> unix_file_copy_paste b) then w
      else case clip of
        ClipFiles _ \<Rightarrow> emit [ClipFileAudit True clip] w
      | _ \<Rightarrow>
          if is_file_data_request clip \<and> one_way_file_transfer b then w
          else if env_clip_ok e clip then
            if on_windows b then emit [CmClipboardFile clip] w
            else if is_support_file_copy_paste (lr_version (c_lr (w_conn w)))
                 \<and> file_transfer_enabled (c_rights (w_conn w)) (c_prefs (w_conn w))
            then emit [ServeClip clip] w
            else w
          else w)"

section \<open>Files\<close>

definition is_printer_job :: "file_action \<Rightarrow> bool" where
  "is_printer_job fa = (case fa of SendFiles i path hidden num ft \<Rightarrow> ft = 1 | _ \<Rightarrow> False)"

text \<open>The actions that a machine with one-way file transfer refuses, with the job to answer for.\<close>

fun one_way_job :: "file_action \<Rightarrow> int option" where
  "one_way_job (SendFiles i _ _ _ _) = Some i"
| "one_way_job (RemoveFile i _ _) = Some i"
| "one_way_job (RenameFile i _ _) = Some i"
| "one_way_job (CreateDir i _) = Some i"
| "one_way_job (RemoveDir i _ _) = Some i"
| "one_way_job _ = None"

definition check_file_count_limit :: "env \<Rightarrow> nat \<Rightarrow> string option" where
  "check_file_count_limit e n =
     (if env_max_files e < n then
        Some (''file transfer rejected: too many files ('' @ show_nat n @ '' files exceeds limit of ''
          @ show_nat (env_max_files e) @ ''). Adjust 'file-transfer-max-files' option to increase limit.'')
      else None)"

definition can_enable_overwrite_detection :: "int \<Rightarrow> bool" where
  "can_enable_overwrite_detection version \<longleftrightarrow> get_version_number ''1.1.10'' \<le> version"

definition process_new_read_job :: "int \<Rightarrow> bool \<Rightarrow> string \<Rightarrow> world \<Rightarrow> world" where
  "process_new_read_job i printer path w =
     emit [SendFileDir i path, FileAudit False (if printer then ''Remote print'' else path)]
       (upd_conn (\<lambda>c. c\<lparr>c_read_jobs := c_read_jobs c @ [i]\<rparr>) w)"

text \<open>The listing is an error, or the number of files to read; a print job is one file in memory.\<close>

definition create_and_start_read_job :: "env \<Rightarrow> int \<Rightarrow> bool \<Rightarrow> string + nat \<Rightarrow> string \<Rightarrow> bool \<Rightarrow> world \<Rightarrow> world" where
  "create_and_start_read_job e i printer listing path check_file_limit w =
     (case listing of
        Inl err \<Rightarrow> emit [SendFileError i err 0] w
      | Inr n \<Rightarrow>
          (case (if check_file_limit then check_file_count_limit e n else None) of
             Some err \<Rightarrow> emit [SendFileError i err (- 1)] w
           | None \<Rightarrow> process_new_read_job i printer path w))"

definition send_action :: "env \<Rightarrow> int \<Rightarrow> string \<Rightarrow> bool \<Rightarrow> int \<Rightarrow> int \<Rightarrow> world \<Rightarrow> world" where
  "send_action e i path include_hidden file_num ft w =
     (let sent = upd_conn (c_file_transferred_update (\<lambda>_. True)) in
      if ft = 1 then
        (case find (\<lambda>x. fst (snd x) = path) (c_printer (w_conn w)) of
           Some x \<Rightarrow>
             sent (create_and_start_read_job e i True (Inr 1) path False
                     (upd_conn (\<lambda>c. c\<lparr>c_printer := remove1 x (c_printer c)\<rparr>) w))
         | None \<Rightarrow> w)
      else
        let od = can_enable_overwrite_detection (get_version_number (lr_version (c_lr (w_conn w)))) in
        sent (if env_fs_in_cm e
              then emit [SendFs (FsReadFile path i file_num include_hidden od)]
                     (upd_conn (c_cm_jobs_update (List.insert i)) w)
              else create_and_start_read_job e i False (env_read_job e path include_hidden) path True w))"

definition all_files_action :: "env \<Rightarrow> int \<Rightarrow> string \<Rightarrow> bool \<Rightarrow> world \<Rightarrow> world" where
  "all_files_action e i path include_hidden w =
     (if env_fs_in_cm e then emit [SendFs (FsReadAllFiles path i include_hidden)] w
      else case env_read_job e path include_hidden of
        Inl err \<Rightarrow> emit [SendFileError i err (- 1)] w
      | Inr n \<Rightarrow>
          (case check_file_count_limit e n of
             Some err \<Rightarrow> emit [SendFileError i err (- 1)] w
           | None \<Rightarrow> emit [SendFileDir i path] w))"

definition confirm_action :: "int \<Rightarrow> int \<Rightarrow> (bool + u32) option \<Rightarrow> world \<Rightarrow> world" where
  "confirm_action i file_num u w =
     (if i \<in> set (c_read_jobs (w_conn w)) then emit [ConfirmReadJob i file_num u] w
      else if i \<in> set (c_cm_jobs (w_conn w)) then
        emit [SendFs (FsSendConfirmForRead i file_num
                (case u of Some (Inl skip) \<Rightarrow> skip | _ \<Rightarrow> False) (case u of Some (Inr blk) \<Rightarrow> blk | _ \<Rightarrow> 0))] w
      else emit [SendFs (FsSendConfirm i file_num u)] w)"

fun do_file_action :: "env \<Rightarrow> file_action \<Rightarrow> world \<Rightarrow> world" where
  "do_file_action e (ReadEmptyDirs dir include_hidden) w = emit [SendFs (FsReadEmptyDirs dir include_hidden)] w"
| "do_file_action e (ReadDir dir include_hidden) w = emit [SendFs (FsReadDir dir include_hidden)] w"
| "do_file_action e (AllFiles i path include_hidden) w = all_files_action e i path include_hidden w"
| "do_file_action e (SendFiles i path include_hidden file_num ft) w = send_action e i path include_hidden file_num ft w"
| "do_file_action e (ReceiveFiles i path files file_num total_size) w =
     emit [SendFs (FsNewWrite path i file_num files
             (can_enable_overwrite_detection (get_version_number (lr_version (c_lr (w_conn w))))) total_size),
           FileAudit True path]
       (upd_conn (c_file_transferred_update (\<lambda>_. True)) w)"
| "do_file_action e (RemoveDir i path recursive) w =
     upd_conn (\<lambda>c. c\<lparr>c_remove_log := snd (on_remove_dir (env_now e) (i, path) (c_remove_log c))\<rparr>)
       (emit [SendFs (FsRemoveDir path i recursive)] w)"
| "do_file_action e (RemoveFile i path file_num) w =
     upd_conn (\<lambda>c. c\<lparr>c_remove_log := snd (on_remove_file (env_now e) (i, path) (c_remove_log c))\<rparr>)
       (emit [SendFs (FsRemoveFile path i file_num)] w)"
| "do_file_action e (CreateDir i path) w = emit [SendFs (FsCreateDir path i), FileLog ''create_dir'' i] w"
| "do_file_action e (CancelJob i) w =
     (let known = i \<in> set (c_read_jobs (w_conn w)) in
      emit ([SendFs (FsCancelWrite i), SendFs (FsCancelRead i)] @ (if known then [FileLog ''transfer'' i] else []))
        (upd_conn (\<lambda>c. c\<lparr>c_cm_jobs := removeAll i (c_cm_jobs c), c_read_jobs := remove1 i (c_read_jobs c)\<rparr>) w))"
| "do_file_action e (SendConfirm i file_num u) w = confirm_action i file_num u w"
| "do_file_action e (RenameFile i path new_name) w =
     emit [SendFs (FsRename i path new_name), FileLog ''rename'' i] w"

definition file_action_arm :: "env \<Rightarrow> file_action option \<Rightarrow> world \<Rightarrow> world" where
  "file_action_arm e fa w =
     (let c = w_conn w in
      if c_file_transfer c = None \<and> \<not> (case fa of Some a \<Rightarrow> is_printer_job a | None \<Rightarrow> False) then w
      else if c_delayed_read_dir c \<noteq> None then
        (case fa of
           Some (ReadDir path include_hidden) \<Rightarrow> upd_conn (c_delayed_read_dir_update (\<lambda>_. Some (path, include_hidden))) w
         | _ \<Rightarrow> w)
      else case fa of
        None \<Rightarrow> w
      | Some a \<Rightarrow>
          (case (if one_way_file_transfer (env_build e) then one_way_job a else None) of
             Some i \<Rightarrow> emit [SendFileError i ''one-way-file-transfer-tip'' 0] w
           | None \<Rightarrow> do_file_action e a w))"

definition file_response_arm :: "file_response option \<Rightarrow> world \<Rightarrow> world" where
  "file_response_arm fr w =
     (case fr of
        Some (BlockResponse i file_num data compressed) \<Rightarrow> emit [SendFs (FsWriteBlock i file_num data compressed)] w
      | Some (DoneResponse i file_num) \<Rightarrow> emit [SendFs (FsWriteDone i file_num)] w
      | Some (DigestResponse i file_num last_modified file_size is_resume) \<Rightarrow>
          emit [SendFs (FsCheckDigest i file_num file_size last_modified True is_resume)] w
      | Some (ErrorResponse i file_num err) \<Rightarrow> emit [SendFs (FsWriteError i file_num err)] w
      | _ \<Rightarrow> w)"

section \<open>Screens and cameras\<close>

definition as_usize :: "int \<Rightarrow> nat" where "as_usize n = nat (n mod 2 ^ 64)"

definition refresh_video_display :: "env \<Rightarrow> nat option \<Rightarrow> world \<Rightarrow> world" where
  "refresh_video_display e display w =
     (if server_alive (env_build e)
      then emit [RefreshVideoOf (map_option (Pair (c_view_camera (w_conn w))) display)] w else w)"

definition is_support_multi_ui_session :: "string \<Rightarrow> bool" where
  "is_support_multi_ui_session ver \<longleftrightarrow> get_version_number ''1.2.4'' \<le> get_version_number ver"

text \<open>The video source of a session is the cameras (\<open>True\<close>) or the screens.\<close>

definition switch_display_to :: "env \<Rightarrow> nat \<Rightarrow> world \<Rightarrow> bool \<times> world" where
  "switch_display_to e idx w =
     (let c = w_conn w in
      if env_sources e (c_view_camera c) \<le> idx then (False, w)
      else
        (True, emit [SwitchVideo (c_view_camera c)
                       (if is_support_multi_ui_session (lr_version (c_lr c)) then None else Some (c_display_idx c)) idx]
                 (upd_conn (c_display_idx_update (\<lambda>_. idx)) w)))"

definition change_resolution :: "env \<Rightarrow> nat option \<Rightarrow> int \<Rightarrow> int \<Rightarrow> world \<Rightarrow> world" where
  "change_resolution e d width height w =
     (let idx = (case d of Some i \<Rightarrow> i | None \<Rightarrow> c_display_idx (w_conn w)) in
      if keyboard (c_rights (w_conn w)) \<and> env_has_display e idx then emit [ChangeResolutionTo idx width height] w else w)"

definition send_display_changed :: "env \<Rightarrow> nat \<Rightarrow> world \<Rightarrow> world" where
  "send_display_changed e idx w =
     (if env_display_msg e (c_view_camera (w_conn w)) idx
      then emit [SendDisplayChanged (c_view_camera (w_conn w)) idx] w else w)"

definition handle_switch_display :: "env \<Rightarrow> int \<Rightarrow> int \<Rightarrow> int \<Rightarrow> world \<Rightarrow> world" where
  "handle_switch_display e display width height w =
     (let idx = as_usize display in
      if c_display_idx (w_conn w) = idx then w
      else if server_alive (env_build e) then
        (case switch_display_to e idx w of
           (False, w) \<Rightarrow> w
         | (True, w) \<Rightarrow>
             let w = (if \<not> c_view_camera (w_conn w) \<and> width \<noteq> 0 \<and> height \<noteq> 0
                      then change_resolution e None width height w else w)
             in send_display_changed e (c_display_idx (w_conn w)) w)
      else send_display_changed e (c_display_idx (w_conn w)) w)"

definition capture_displays_arm :: "env \<Rightarrow> nat list \<Rightarrow> nat list \<Rightarrow> nat list \<Rightarrow> world \<Rightarrow> world" where
  "capture_displays_arm e add sub sets w =
     (let camera = c_view_camera (w_conn w);
          valid = filter (\<lambda>d. d < env_sources e camera)
      in if add \<noteq> [] \<and> valid add = []
            \<or> add = [] \<and> sub \<noteq> [] \<and> valid sub = []
            \<or> add = [] \<and> sub = [] \<and> sets \<noteq> [] \<and> valid sets = [] then w
         else if server_alive (env_build e) then
           let multi = 1 < env_subbed e;
               w = emit [if add \<noteq> [] then CaptureVideo camera (valid add) True False
                         else if sub \<noteq> [] then CaptureVideo camera (valid sub) False True
                         else CaptureVideo camera (valid sets) True True]
                     (upd_conn (c_multi_ui_update (\<lambda>_. multi)) w)
           in if follow_remote_window (c_prefs (w_conn w))
              then emit [OptionEffect (Subscribe NAME_WINDOW_FOCUS (\<not> multi))] w else w
         else w)"

definition toggle_virtual_display :: "env \<Rightarrow> bool \<Rightarrow> int \<Rightarrow> world \<Rightarrow> world" where
  "toggle_virtual_display e on display w =
     (if on \<and> \<not> env_virtual_supported e then emit [SendVirtualDisplayBox ''idd_not_support_under_win10_2004_tip''] w
      else case env_plug e on display of
             None \<Rightarrow> emit [PlugVirtual on display] w
           | Some err \<Rightarrow> emit [PlugVirtual on display, SendVirtualDisplayBox
               ((if on then ''Failed to plug in virtual display: '' else ''Failed to plug out virtual displays: '') @ err)] w)"

definition toggle_privacy_mode :: "bool \<Rightarrow> string \<Rightarrow> world \<Rightarrow> world" where
  "toggle_privacy_mode on impl_key w =
     emit (map OptionEffect (if on then turn_on_privacy (c_authed (w_conn w)) (c_rights (w_conn w)) impl_key
                             else [TurnOffPrivacy impl_key])) w"

definition handle_elevation_request :: "env \<Rightarrow> elevation \<Rightarrow> world \<Rightarrow> world" where
  "handle_elevation_request e para w =
     update_auto_disconnect_timer e
       (if \<not> keyboard (c_rights (w_conn w)) then emit [SendElevationResponse ''No permission''] w
        else if env_installed e \<or> env_portable_running e then emit [SendElevationResponse ''No need to elevate''] w
        else emit [StartPortable para, SendElevationResponse (env_start_portable e para)] w)"

section \<open>Sessions and calls\<close>

definition insert_pending_switch_sides_uuid :: "env \<Rightarrow> string \<Rightarrow> bytes \<Rightarrow> host \<Rightarrow> bool \<times> host" where
  "insert_pending_switch_sides_uuid e i key h =
     (let live = hm_retain (\<lambda>_ v. env_now e - fst v < SWITCH_SIDES_UUID_TTL) (h_pending h) in
      if map_option (fst \<circ> snd) (hm_get live i) = Some key then (False, h\<lparr>h_pending := live\<rparr>)
      else (True, h\<lparr>h_pending := hm_insert i (env_now e, key, False) live\<rparr>))"

definition switch_sides_request_arm :: "env \<Rightarrow> bytes \<Rightarrow> world \<Rightarrow> bool \<times> world" where
  "switch_sides_request_arm e key w =
     (if length key = 16 then
        (case insert_pending_switch_sides_uuid e (lr_my_id (c_lr (w_conn w))) key (w_host w) of
           (fresh, h) \<Rightarrow>
             (False, on_close False (emit (if fresh then [RunSwitchSides (lr_my_id (c_lr (w_conn w))) key] else [])
                                       (w\<lparr>w_host := h\<rparr>))))
      else (True, w))"

definition non_port_forward_conn_count :: "host \<Rightarrow> nat" where
  "non_port_forward_conn_count h = length (filter (\<lambda>(i, t, k). t \<noteq> PortForward) (h_authed h))"

text \<open>The Windows session that the peer chose: the connection moves there, or the wait for it ends.\<close>

definition selected_sid_arm :: "env \<Rightarrow> u32 \<Rightarrow> world \<Rightarrow> bool \<times> world" where
  "selected_sid_arm e sid w =
     (if \<not> on_windows (env_build e) then (True, w)
      else case env_sessions e of
        None \<Rightarrow> (True, w)
      | Some (sessions, current) \<Rightarrow>
          if env_installed e \<and> env_share_rdp e \<and> non_port_forward_conn_count (w_host w) = 1
             \<and> 1 < length sessions \<and> current \<noteq> sid \<and> sid \<in> set sessions
          then (False, emit [ConnectUserSession sid] w)
          else
            (True,
             if c_file_transfer (w_conn w) \<noteq> None then
               (case c_delayed_read_dir (w_conn w) of
                  Some (dir, show_hidden) \<Rightarrow>
                    emit [SendFs (FsReadDir dir show_hidden)] (upd_conn (c_delayed_read_dir_update (\<lambda>_. None)) w)
                | None \<Rightarrow> w)
             else if c_view_camera (w_conn w) then try_sub_camera_displays e w
             else if \<not> c_terminal (w_conn w) then try_sub_monitor_services e w
             else w))"

text \<open>The sound subscription of a camera session follows its voice calls.\<close>

definition camera_sound :: "env \<Rightarrow> bool \<Rightarrow> world \<Rightarrow> world" where
  "camera_sound e on w =
     (if is_authed_view_camera_conn (w_conn w) then emit (map OptionEffect (sub_effects (env_build e) NAME_AUDIO on)) w else w)"

definition close_voice_call :: "env \<Rightarrow> world \<Rightarrow> world" where
  "close_voice_call e w =
     camera_sound e False
       (upd_conn (c_voice_calling_update (\<lambda>_. False)) (emit [VoiceCallInput False, CmCloseVoiceCall] w))"

definition voice_call_arm :: "env \<Rightarrow> bool \<Rightarrow> int \<Rightarrow> world \<Rightarrow> world" where
  "voice_call_arm e is_connect req_timestamp w =
     (if is_connect
      then emit [CmVoiceCallIncoming]
             (upd_conn (c_voice_request_update (\<lambda>_. Some (if req_timestamp = 0 then env_now e else req_timestamp))) w)
      else close_voice_call e w)"

definition audio_format_arm :: "payload \<Rightarrow> world \<Rightarrow> world" where
  "audio_format_arm format w =
     (if disable_audio (c_prefs (w_conn w)) then w
      else emit [StartAudio format] (upd_conn (c_audio_sender_update (\<lambda>_. True)) w))"

definition audio_frame_arm :: "payload \<Rightarrow> world \<Rightarrow> world" where
  "audio_frame_arm frame w =
     (if \<not> disable_audio (c_prefs (w_conn w)) \<and> c_audio_sender (w_conn w) then emit [PlayAudio frame] w else w)"

definition screenshot_arm :: "env \<Rightarrow> int \<Rightarrow> string \<Rightarrow> world \<Rightarrow> world" where
  "screenshot_arm e display sid w =
     refresh_video_display e (Some (as_usize display))
       (emit [TakeScreenshot (c_view_camera (w_conn w)) (as_usize display) sid] w)"

definition handle_port_forward_channel :: "channel_frame \<Rightarrow> world \<Rightarrow> world" where
  "handle_port_forward_channel ch w =
     (case c_pf_mux (w_conn w) of
        None \<Rightarrow> w
      | Some mux \<Rightarrow> upd_conn (c_pf_mux_update (\<lambda>_. Some (handle ch (kind_permitted w ''enable-tunnel'') mux))) w)"

definition handle_terminal_action :: "env \<Rightarrow> payload \<Rightarrow> world \<Rightarrow> world" where
  "handle_terminal_action e act w =
     (case c_user_token (w_conn w) of
        None \<Rightarrow> w
      | Some token \<Rightarrow>
          emit ([TerminalActionTo (c_service_id (w_conn w)) (terminal_persistent (c_prefs (w_conn w)))
                   (to_terminal_service_token token) act]
                @ (case env_terminal e act of
                     Inr (Some response) \<Rightarrow> [SendTerminalResponse (Inr response)]
                   | Inr None \<Rightarrow> []
                   | Inl err \<Rightarrow> [SendTerminalResponse (Inl (''Failed to handle action: '' @ err))])) w)"

section \<open>The handler\<close>

definition options_arm :: "env \<Rightarrow> option_message \<Rightarrow> world \<Rightarrow> world" where
  "options_arm e opt w =
     (let c = w_conn w in
      case option_arm (env_build e) (is_old_peer c) (c_authed c) (c_voice_calling c) opt (c_rights c) (c_prefs c) of
        (p, es) \<Rightarrow> emit (map OptionEffect es) (upd_conn (c_prefs_update (\<lambda>_. p)) w))"

definition misc_arm :: "env \<Rightarrow> misc \<Rightarrow> world \<Rightarrow> bool \<times> world" where
  "misc_arm e u w =
     (let c = w_conn w; win = on_windows (env_build e) in
      case u of
        SwitchDisplay display width height \<Rightarrow> (True, handle_switch_display e display width height w)
      | CaptureDisplays add sub sets \<Rightarrow>
          (True, capture_displays_arm e (map as_usize add) (map as_usize sub) (map as_usize sets) w)
      | ToggleVirtualDisplay on display \<Rightarrow>
          (True, if win \<and> \<not> c_view_camera c then toggle_virtual_display e on display w else w)
      | TogglePrivacyMode on impl_key \<Rightarrow> (True, if \<not> c_view_camera c then toggle_privacy_mode on impl_key w else w)
      | ChatMessage text \<Rightarrow>
          (True, update_auto_disconnect_timer e (emit [CmChat text] (upd_conn (c_chat_unanswered_update (\<lambda>_. True)) w)))
      | OptionMisc opt \<Rightarrow> (True, options_arm e opt w)
      | RefreshVideo r \<Rightarrow>
          (True, if should_handle_render_broadcast_message c
                 then update_auto_disconnect_timer e (if r then refresh_video_display e None w else w) else w)
      | RefreshVideoDisplay display \<Rightarrow>
          (True, if should_handle_render_broadcast_message c
                 then update_auto_disconnect_timer e (refresh_video_display e (Some (as_usize display)) w) else w)
      | VideoReceived _ \<Rightarrow> (True, emit [VideoFrameFetched] w)
      | RestartRemoteDevice _ \<Rightarrow>
          (True, if rights.restart (c_rights c) then emit (if win then [Reboot True] else [Reboot True, Reboot False]) w else w)
      | ElevationRequest para \<Rightarrow>
          (True, case para of Some x \<Rightarrow> if win then handle_elevation_request e x w else w | None \<Rightarrow> w)
      | AudioFormat format \<Rightarrow> (True, audio_format_arm format w)
      | SwitchSidesRequest key \<Rightarrow> switch_sides_request_arm e key w
      | ChangeResolution width height \<Rightarrow>
          (True, if \<not> c_view_camera c then change_resolution e None width height w else w)
      | ChangeDisplayResolution display width height \<Rightarrow>
          (True, if \<not> c_view_camera c then change_resolution e (Some (as_usize display)) width height w else w)
      | AutoAdjustFps fps \<Rightarrow> (True, emit [UserAutoAdjustFps fps] w)
      | ClientRecordStatus status \<Rightarrow> (True, emit [UserRecord status] w)
      | SelectedSid sid \<Rightarrow> selected_sid_arm e sid w
      | MessageQuery display \<Rightarrow> (True, send_display_changed e (as_usize display) w)
      | RequestCursorData i \<Rightarrow>
          (True, if is_remote c \<and> (keyboard_on w \<or> show_remote_cursor (c_prefs c)) \<and> env_cursor_known e i
                 then emit [SendCursorData i] w else w)
      | _ \<Rightarrow> (True, w))"

definition dispatch :: "env \<Rightarrow> msg \<Rightarrow> world \<Rightarrow> bool \<times> world" where
  "dispatch e message w =
     (case message of
        MouseEvent flags p \<Rightarrow> (True, mouse_arm e flags p w)
      | PointerDeviceEvent p \<Rightarrow> (True, pointer_arm e p w)
      | KeyEvent k \<Rightarrow> (True, key_arm e k w)
      | OsLogin username password \<Rightarrow> (True, os_login_arm e password w)
      | Clipboard p \<Rightarrow> (True, clipboard_arm p w)
      | MultiClipboards p \<Rightarrow> (True, clipboard_arm p w)
      | Cliprdr clip \<Rightarrow> (True, cliprdr_arm e clip w)
      | FileAction fa \<Rightarrow> (True, file_action_arm e fa w)
      | FileResponse fr \<Rightarrow> (True, file_response_arm fr w)
      | Misc (Some u) \<Rightarrow> misc_arm e u w
      | AudioFrame frame \<Rightarrow> (True, audio_frame_arm frame w)
      | VoiceCallRequest is_connect t \<Rightarrow> (True, voice_call_arm e is_connect t w)
      | ScreenshotRequest display sid \<Rightarrow> (True, screenshot_arm e display sid w)
      | PortForwardChannel ch \<Rightarrow> (True, handle_port_forward_channel ch w)
      | TerminalAction act \<Rightarrow> (True, handle_terminal_action e act w)
      | _ \<Rightarrow> (True, w))"

end
