(* ===== verification/Session_Loop.thy ===== *)
theory Session_Loop
  imports Session_Dispatch
begin

text \<open>
  The other events of a connection's loop (\<open>Connection::start\<close> of \<open>src/server/connection.rs\<close>): what
  the connection manager sends, what other sessions and the web console ask for, and the timers. The
  checks of the portable service, of the wake lock and of the encodings on a tick, and the sending of
  video and of file blocks, are not part of it.
\<close>

section \<open>The connection manager\<close>

text \<open>A right is switched in the connection manager; the services follow it.\<close>

definition set_rights :: "(rights \<Rightarrow> rights) \<Rightarrow> world \<Rightarrow> world" where
  "set_rights f = upd_conn (\<lambda>c. c\<lparr>c_rights := f (c_rights c)\<rparr>)"

definition resubscribe :: "env \<Rightarrow> string \<Rightarrow> bool \<Rightarrow> world \<Rightarrow> world" where
  "resubscribe e name on = emit (map OptionEffect (sub_effects (env_build e) name on))"

definition sub_clipboard :: "env \<Rightarrow> world \<Rightarrow> world" where
  "sub_clipboard e w = resubscribe e NAME_CLIPBOARD
     (can_sub_clipboard_service (env_build e) (c_rights (w_conn w)) (c_prefs (w_conn w))) w"

definition sub_file_clipboard :: "env \<Rightarrow> world \<Rightarrow> world" where
  "sub_file_clipboard e w =
     (if unix_file_copy_paste (env_build e)
      then resubscribe e NAME_FILE_CLIPBOARD
             (can_sub_file_clipboard_service (env_build e) (c_rights (w_conn w)) (c_prefs (w_conn w))) w
      else w)"

definition switch_keyboard :: "env \<Rightarrow> bool \<Rightarrow> world \<Rightarrow> world" where
  "switch_keyboard e on w =
     (let w = emit [SendPermission PermKeyboard on] (set_rights (keyboard_update (\<lambda>_. on)) w) in
      resubscribe e NAME_CURSOR (on \<or> show_remote_cursor (c_prefs (w_conn w))) (sub_file_clipboard e (sub_clipboard e w)))"

definition switch_audio :: "env \<Rightarrow> bool \<Rightarrow> world \<Rightarrow> world" where
  "switch_audio e on w =
     (let w = emit [SendPermission PermAudio on] (set_rights (audio_update (\<lambda>_. on)) w);
          c = w_conn w; heard = audio_enabled (c_rights c) (c_prefs c)
      in if c_authorized c \<and> (is_authed_view_camera_conn c \<longrightarrow> c_voice_calling c \<or> \<not> heard)
         then resubscribe e NAME_AUDIO heard w else w)"

definition switch_file :: "env \<Rightarrow> bool \<Rightarrow> world \<Rightarrow> world" where
  "switch_file e on w =
     (let w = emit [SendPermission PermFile on] (set_rights (file_right_update (\<lambda>_. on)) w) in
      sub_file_clipboard e
        (if unix_file_copy_paste (env_build e) \<and> \<not> on then emit [OptionEffect TryEmptyFileClipboard] w else w))"

text \<open>Privacy mode that this connection turned on ends before the right to it does.\<close>

definition switch_privacy :: "env \<Rightarrow> bool \<Rightarrow> world \<Rightarrow> world" where
  "switch_privacy e on w =
     (let mine = \<not> on \<and> env_privacy_on e \<and> env_privacy_conn e = Some (c_id (w_conn w));
          switched = (\<lambda>w. emit [SendPermission PermPrivacyMode on] (set_rights (privacy_mode_update (\<lambda>_. on)) w))
      in if mine then
           (case env_privacy_off e of
              None \<Rightarrow> switched (emit [SendPrivacyState ''PrvOffByPeer'' (env_privacy_key e)] w)
            | Some err \<Rightarrow> emit [SendPrivacyFailure err (env_privacy_key e),
                               CmSwitchedPermission ''privacy_mode'' (privacy_mode (c_rights (w_conn w)))] w)
         else switched w)"

definition switch_permission :: "env \<Rightarrow> string \<Rightarrow> bool \<Rightarrow> world \<Rightarrow> world" where
  "switch_permission e name on w =
     (if name = ''keyboard'' then switch_keyboard e on w
      else if name = ''clipboard'' then
        sub_clipboard e (emit [SendPermission PermClipboard on] (set_rights (clipboard_update (\<lambda>_. on)) w))
      else if name = ''audio'' then switch_audio e on w
      else if name = ''file'' then switch_file e on w
      else if name = ''restart'' then emit [SendPermission PermRestart on] (set_rights (restart_update (\<lambda>_. on)) w)
      else if name = ''recording'' then emit [SendPermission PermRecording on] (set_rights (recording_update (\<lambda>_. on)) w)
      else if name = ''block_input'' then emit [SendPermission PermBlockInput on] (set_rights (block_input_update (\<lambda>_. on)) w)
      else if name = ''privacy_mode'' then switch_privacy e on w
      else w)"

text \<open>A call that the person at the machine accepts or refuses; without a request nothing happens.\<close>

definition handle_voice_call :: "env \<Rightarrow> bool \<Rightarrow> world \<Rightarrow> world" where
  "handle_voice_call e accepted w =
     (case c_voice_request (w_conn w) of
        None \<Rightarrow> w
      | Some ts \<Rightarrow>
          let w = upd_conn (\<lambda>c. c\<lparr>c_voice_request := None, c_voice_calling := accepted\<rparr>) w;
              w = emit ((if accepted then [VoiceCallInput True, CmStartVoiceCall] else [CmCloseVoiceCall])
                        @ [SendVoiceCallResponse ts accepted]) w
          in camera_sound e (audio_enabled (c_rights (w_conn w)) (c_prefs (w_conn w)) \<and> accepted) w)"

section \<open>Files that the connection manager reads\<close>

definition drop_cm_job :: "int \<Rightarrow> world \<Rightarrow> world" where
  "drop_cm_job i = upd_conn (\<lambda>c. c\<lparr>c_cm_jobs := removeAll i (c_cm_jobs c)\<rparr>)"

definition handle_read_job_init_result :: "env \<Rightarrow> int \<Rightarrow> string + bytes \<Rightarrow> world \<Rightarrow> world" where
  "handle_read_job_init_result e i result w =
     (if i \<notin> set (c_cm_jobs (w_conn w)) then w
      else case result of
        Inl err \<Rightarrow> emit [SendFileError i err 0] (drop_cm_job i w)
      | Inr dir \<Rightarrow>
          (case env_read_directory e dir of
             Inl _ \<Rightarrow> emit [SendFileError i ''internal error'' 0] (drop_cm_job i w)
           | Inr path \<Rightarrow>
               emit [SendFileDir i path, FileAudit False path] (upd_conn (c_file_transferred_update (\<lambda>_. True)) w)))"

definition handle_file_block_from_cm :: "int \<Rightarrow> int \<Rightarrow> bytes \<Rightarrow> bool \<Rightarrow> world \<Rightarrow> world" where
  "handle_file_block_from_cm i file_num data compressed w =
     (if i \<in> set (c_cm_jobs (w_conn w)) then emit [SendFileBlock i file_num data compressed] w else w)"

definition handle_file_read_done :: "int \<Rightarrow> int \<Rightarrow> world \<Rightarrow> world" where
  "handle_file_read_done i file_num w =
     (if i \<in> set (c_cm_jobs (w_conn w)) then emit [SendFileDone i file_num] (drop_cm_job i w) else w)"

definition handle_file_read_error :: "int \<Rightarrow> int \<Rightarrow> string \<Rightarrow> world \<Rightarrow> world" where
  "handle_file_read_error i file_num err w =
     (if i \<in> set (c_cm_jobs (w_conn w)) then emit [SendFileError i err file_num] (drop_cm_job i w) else w)"

definition handle_file_digest_from_cm :: "int \<Rightarrow> int \<Rightarrow> u64 \<Rightarrow> u64 \<Rightarrow> bool \<Rightarrow> world \<Rightarrow> world" where
  "handle_file_digest_from_cm i file_num last_modified file_size is_resume w =
     (if i \<in> set (c_cm_jobs (w_conn w)) then emit [SendFileDigest i file_num last_modified file_size is_resume] w else w)"

definition handle_all_files_result :: "env \<Rightarrow> int \<Rightarrow> string \<Rightarrow> string + bytes \<Rightarrow> world \<Rightarrow> world" where
  "handle_all_files_result e i path result w =
     (case result of
        Inl err \<Rightarrow> emit [SendFileError i err (- 1)] w
      | Inr dir \<Rightarrow>
          (case env_read_directory e dir of
             Inr _ \<Rightarrow> emit [SendDirectory dir] w
           | Inl err \<Rightarrow> emit [SendFileError i (''deserialize failed for '' @ path @ '': '' @ err) (- 1)] w))"

section \<open>Printing and timers\<close>

definition send_printer_request :: "env \<Rightarrow> bytes \<Rightarrow> world \<Rightarrow> world" where
  "send_printer_request e data w =
     (let path = ''RustDesk://FsJob//Printer/'' @ show_int (env_now e) in
      upd_conn (\<lambda>c. c\<lparr>c_printer := filter (\<lambda>x. env_now e - fst x < 60000) (c_printer c) @ [(env_now e, path, data)]\<rparr>)
        (emit [SendPrinterRequest path] w))"

definition printer_data_arm :: "env \<Rightarrow> bytes \<Rightarrow> world \<Rightarrow> world" where
  "printer_data_arm e data w =
     (if \<not> on_windows (env_build e) then w
      else if kind_permitted w ''enable-remote-printer'' then send_printer_request e data w
      else emit [SendPrintingDisallowed] w)"

text \<open>The time since the last activity counts in whole seconds, the limit in minutes of 64 bits.\<close>

definition auto_disconnect_due :: "env \<Rightarrow> conn \<Rightarrow> bool" where
  "auto_disconnect_due e c =
     (case c_auto_disconnect c of
        Some (t, minute) \<Rightarrow> int (minute * 60 mod 2 ^ 64) < (env_now e - t) div 1000
      | None \<Rightarrow> False)"

definition second_tick :: "env \<Rightarrow> world \<Rightarrow> bool \<times> world" where
  "second_tick e w =
     (if auto_disconnect_due e (w_conn w)
      then (False, on_close True (send_close_reason_no_retry ''Connection failed due to inactivity'' w))
      else
        let (entries, l) = on_timer_log (env_now e) (c_remove_log (w_conn w)) in
        (True, emit (map (\<lambda>x. case x of Removed i p d \<Rightarrow> FileLog ''remove'' i) entries)
                 (upd_conn (c_remove_log_update (\<lambda>_. l)) w)))"

definition test_delay_tick :: "env \<Rightarrow> world \<Rightarrow> bool \<times> world" where
  "test_delay_tick e w =
     (if 30000 \<le> env_idle e then (False, on_close True w)
      else
        let c = w_conn w;
            w = (if c_last_test_delay c = None \<and> \<not> (c_pf_socket c \<noteq> None \<and> c_authorized c)
                 then emit [SendDelayProbe] (upd_conn (c_last_test_delay_update (\<lambda>_. Some (env_now e))) w) else w)
        in (True,
            if c_authed (w_conn w) = Some Remote \<or> c_view_camera (w_conn w)
            then (case c_last_test_delay (w_conn w) of
                    Some t \<Rightarrow> emit [QosDelayElapsed (env_now e - t)] w
                  | None \<Rightarrow> w)
            else w))"

section \<open>The loop's other arms\<close>

definition closed_by_person :: "world \<Rightarrow> world" where
  "closed_by_person = upd_conn (\<lambda>c. c\<lparr>c_chat_unanswered := False, c_file_transferred := False\<rparr>)"

definition aside :: "env \<Rightarrow> session_event \<Rightarrow> world \<Rightarrow> bool \<times> world" where
  "aside e x w =
     (let win = on_windows (env_build e); own = (\<lambda>i. i = c_id (w_conn w)) in
      case x of
        Evicted \<Rightarrow> if c_authorized (w_conn w) then (True, w) else (False, on_close True w)
      | LoginDeadline \<Rightarrow> if c_authorized (w_conn w) then (True, w) else (False, on_close True w)
      | CmCloseData \<Rightarrow> (False, on_close True (send_close_reason_no_retry [] (closed_by_person w)))
      | CmWindowClosed \<Rightarrow> if win then (True, w) else (False, on_close True (closed_by_person w))
      | CmErr err \<Rightarrow> if err \<noteq> ''expected'' then (False, on_close False w) else (True, w)
      | CmChatMessage text \<Rightarrow> (True, upd_conn (c_chat_unanswered_update (\<lambda>_. False)) (emit [SendChat text] w))
      | CmSwitchPermission name on \<Rightarrow> (True, switch_permission e name on w)
      | CmRawMessage bs \<Rightarrow> (True, emit [SendRaw bs] w)
      | CmClipboardFileData clip \<Rightarrow>
          (True, if win \<and> is_remote (w_conn w) \<and> c_authorized (w_conn w)
                 then emit [case clip of ClipFiles _ \<Rightarrow> ClipFileAudit False clip | _ \<Rightarrow> SendClip clip] w else w)
      | CmPrivacyModeState state impl_key \<Rightarrow> (True, emit [SendPrivacyState state impl_key] w)
      | CmPortableStart \<Rightarrow> (True, if win then emit [StartPortable ElevateDirect] w else w)
      | CmSwitchSidesBack \<Rightarrow> (True, emit [SendSwitchBack] w)
      | CmVoiceCallResponse accepted \<Rightarrow> (True, handle_voice_call e accepted w)
      | CmCloseVoiceCallData \<Rightarrow> (True, emit [SendVoiceCallRequest False] (close_voice_call e w))
      | CmReadJobInitResult i conn_id result \<Rightarrow> (True, if own conn_id then handle_read_job_init_result e i result w else w)
      | CmFileBlock i file_num data compressed conn_id \<Rightarrow>
          (True, if own conn_id then handle_file_block_from_cm i file_num data compressed w else w)
      | CmFileReadDone i file_num conn_id \<Rightarrow> (True, if own conn_id then handle_file_read_done i file_num w else w)
      | CmFileReadError i file_num err conn_id \<Rightarrow> (True, if own conn_id then handle_file_read_error i file_num err w else w)
      | CmFileDigest i file_num last_modified file_size is_resume conn_id \<Rightarrow>
          (True, if own conn_id then handle_file_digest_from_cm i file_num last_modified file_size is_resume w else w)
      | CmAllFilesResult i conn_id path result \<Rightarrow> (True, if own conn_id then handle_all_files_result e i path result w else w)
      | PrivacyTakenOver \<Rightarrow> (False, on_close False (emit [SendPrivacyState ''PrvOnByOther'' []] w))
      | PrinterData data \<Rightarrow> (True, printer_data_arm e data w)
      | WebConsoleClose conns \<Rightarrow>
          if c_id (w_conn w) \<in> set conns
          then (False, on_close True (send_close_reason_no_retry ''Closed manually by web console'' w)) else (True, w)
      | SecondTick \<Rightarrow> second_tick e w
      | TestDelayTick \<Rightarrow> test_delay_tick e w)"

end
