(* ===== verification/Session_Run.thy ===== *)
theory Session_Run
  imports Session_Loop
begin

text \<open>
  What holds of whole sessions: the handlers of messages and of the loop's other events leave the
  login alone, so every run of a connection from its opening has the invariant of the login, and a
  session that is authorized has proved itself.
\<close>

section \<open>The handlers leave the login alone\<close>

definition calm :: "conn \<Rightarrow> world \<Rightarrow> bool" where
  "calm c w \<longleftrightarrow> settled c (w_conn w) \<and> c_cm_started (w_conn w) = c_cm_started c"

lemma calm_refl [simp]: "calm (w_conn w) w"
  by (simp add: calm_def)

lemma settled_updates [simp]:
  "settled c (c_prefs_update f1 d) \<longleftrightarrow> settled c d"
  "settled c (c_rights_update f2 d) \<longleftrightarrow> settled c d"
  "settled c (c_modifiers_update f3 d) \<longleftrightarrow> settled c d"
  "settled c (c_printer_update f4 d) \<longleftrightarrow> settled c d"
  "settled c (c_cm_jobs_update f5 d) \<longleftrightarrow> settled c d"
  "settled c (c_read_jobs_update f6 d) \<longleftrightarrow> settled c d"
  "settled c (c_file_transferred_update f7 d) \<longleftrightarrow> settled c d"
  "settled c (c_chat_unanswered_update f8 d) \<longleftrightarrow> settled c d"
  "settled c (c_remove_log_update f9 d) \<longleftrightarrow> settled c d"
  "settled c (c_auto_disconnect_update f10 d) \<longleftrightarrow> settled c d"
  "settled c (c_display_idx_update f11 d) \<longleftrightarrow> settled c d"
  "settled c (c_multi_ui_update f12 d) \<longleftrightarrow> settled c d"
  "settled c (c_voice_calling_update f13 d) \<longleftrightarrow> settled c d"
  "settled c (c_voice_request_update f14 d) \<longleftrightarrow> settled c d"
  "settled c (c_audio_sender_update f15 d) \<longleftrightarrow> settled c d"
  "settled c (c_services_subed_update f16 d) \<longleftrightarrow> settled c d"
  "settled c (c_delayed_read_dir_update f17 d) \<longleftrightarrow> settled c d"
  "settled c (c_last_test_delay_update f18 d) \<longleftrightarrow> settled c d"
  by (simp_all add: settled_def same_def is_port_forward_def)

lemma calm_emit [simp]: "calm c (emit es w) \<longleftrightarrow> calm c w"
  by (simp add: calm_def)

lemma calm_upd [simp]:
  "(\<And>c d. settled c (f d) \<longleftrightarrow> settled c d) \<Longrightarrow> (\<And>d. c_cm_started (f d) = c_cm_started d) \<Longrightarrow> calm c (upd_conn f w) \<longleftrightarrow> calm c w"
  by (simp add: calm_def)

lemma calm_timer [simp]: "calm c (update_auto_disconnect_timer e w) \<longleftrightarrow> calm c w"
  by (simp add: update_auto_disconnect_timer_def)

lemma calm_input [simp]:
  "calm c (mouse_arm e flags p w) \<longleftrightarrow> calm c w" "calm c (pointer_arm e p w) \<longleftrightarrow> calm c w"
  "calm c (key_arm e k w) \<longleftrightarrow> calm c w" "calm c (os_login_arm e s w) \<longleftrightarrow> calm c w"
  by (simp_all add: mouse_arm_def pointer_arm_def key_arm_def os_login_arm_def type_auto_login_password_def Let_def)

lemma calm_clipboard [simp]: "calm c (clipboard_arm p w) \<longleftrightarrow> calm c w" "calm c (cliprdr_arm e clip w) \<longleftrightarrow> calm c w"
  by (simp_all add: clipboard_arm_def cliprdr_arm_def Let_def split: cliprdr.split)

lemma calm_read_job [simp]: "calm c (create_and_start_read_job e i b l path lim w) \<longleftrightarrow> calm c w"
  by (simp add: create_and_start_read_job_def process_new_read_job_def split: sum.split option.split)

lemma calm_file_action [simp]: "calm c (do_file_action e a w) \<longleftrightarrow> calm c w"
  by (cases a) (simp_all add: all_files_action_def confirm_action_def send_action_def Let_def split: sum.split option.split)

lemma calm_files [simp]: "calm c (file_action_arm e fa w) \<longleftrightarrow> calm c w" "calm c (file_response_arm fr w) \<longleftrightarrow> calm c w"
  by (simp_all add: file_action_arm_def file_response_arm_def Let_def split: option.split file_action.split file_response.split)

lemma calm_screen [simp]:
  "calm c (refresh_video_display e d w) \<longleftrightarrow> calm c w" "calm c (change_resolution e d x y w) \<longleftrightarrow> calm c w"
  "calm c (send_display_changed e i w) \<longleftrightarrow> calm c w"
  "calm c (capture_displays_arm e add sub sets w) \<longleftrightarrow> calm c w" "calm c (toggle_virtual_display e b n w) \<longleftrightarrow> calm c w"
  "calm c (toggle_privacy_mode b key w) \<longleftrightarrow> calm c w" "calm c (handle_elevation_request e para w) \<longleftrightarrow> calm c w"
  "calm c (screenshot_arm e n sid w) \<longleftrightarrow> calm c w"
  by (simp_all add: refresh_video_display_def change_resolution_def send_display_changed_def
      capture_displays_arm_def toggle_virtual_display_def toggle_privacy_mode_def handle_elevation_request_def screenshot_arm_def
      Let_def split: option.split)

lemma calm_switch_display [simp]: "calm c (handle_switch_display e d x y w) \<longleftrightarrow> calm c w"
  by (simp add: handle_switch_display_def switch_display_to_def Let_def)

lemma calm_calls [simp]:
  "calm c (camera_sound e b w) \<longleftrightarrow> calm c w" "calm c (close_voice_call e w) \<longleftrightarrow> calm c w"
  "calm c (voice_call_arm e b t w) \<longleftrightarrow> calm c w" "calm c (audio_format_arm p w) \<longleftrightarrow> calm c w"
  "calm c (audio_frame_arm p w) \<longleftrightarrow> calm c w" "calm c (handle_terminal_action e p w) \<longleftrightarrow> calm c w"
  by (simp_all add: camera_sound_def close_voice_call_def voice_call_arm_def audio_format_arm_def audio_frame_arm_def
      handle_terminal_action_def split: option.split)

lemma calm_channel [simp]: "calm c (handle_port_forward_channel ch w) \<longleftrightarrow> calm c w"
  by (auto simp: handle_port_forward_channel_def calm_def settled_def same_def is_port_forward_def split: option.split)

lemma calm_subs [simp]: "calm c (try_sub_monitor_services e w) \<longleftrightarrow> calm c w" "calm c (try_sub_camera_displays e w) \<longleftrightarrow> calm c w"
  by (simp_all add: try_sub_monitor_services_def try_sub_camera_displays_def Let_def)

lemma calm_options [simp]: "calm c (options_arm e opt w) \<longleftrightarrow> calm c w"
  by (simp add: options_arm_def Let_def split: prod.split)

lemma misc_calm: "misc_arm e u w = (True, w') \<Longrightarrow> calm c w' \<longleftrightarrow> calm c w"
  by (cases u) (auto simp: misc_arm_def Let_def switch_sides_request_arm_def selected_sid_arm_def
      split: if_splits option.splits prod.splits)

lemma dispatch_calm:
  assumes "dispatch e message w = (True, w')"
  shows "calm (w_conn w) w'"
proof -
  have "calm (w_conn w) w' \<longleftrightarrow> calm (w_conn w) w"
    using assms misc_calm[of e _ w w'] by (cases message) (auto simp: dispatch_def split: option.splits)
  then show ?thesis by simp
qed

lemma calm_permissions [simp]: "calm c (switch_permission e name on w) \<longleftrightarrow> calm c w"
proof -
  have r: "calm c (set_rights f v) \<longleftrightarrow> calm c v" "calm c (resubscribe e x b v) \<longleftrightarrow> calm c v" for f x b v
    by (simp_all add: set_rights_def resubscribe_def)
  have s: "calm c (sub_clipboard e v) \<longleftrightarrow> calm c v" "calm c (sub_file_clipboard e v) \<longleftrightarrow> calm c v" for v
    by (simp_all add: sub_clipboard_def sub_file_clipboard_def r)
  show ?thesis
    by (simp add: switch_permission_def switch_keyboard_def switch_audio_def switch_file_def switch_privacy_def
        r s Let_def split: option.split)
qed

lemma calm_cm [simp]:
  "calm c (handle_voice_call e b w) \<longleftrightarrow> calm c w" "calm c (handle_read_job_init_result e i res w) \<longleftrightarrow> calm c w"
  "calm c (handle_file_block_from_cm i n bs b w) \<longleftrightarrow> calm c w" "calm c (handle_file_read_done i n w) \<longleftrightarrow> calm c w"
  "calm c (handle_file_read_error i n err w) \<longleftrightarrow> calm c w" "calm c (handle_file_digest_from_cm i n t sz b w) \<longleftrightarrow> calm c w"
  "calm c (handle_all_files_result e i path res w) \<longleftrightarrow> calm c w" "calm c (printer_data_arm e bs w) \<longleftrightarrow> calm c w"
  by (simp_all add: handle_voice_call_def handle_read_job_init_result_def handle_file_block_from_cm_def handle_file_read_done_def
      handle_file_read_error_def handle_file_digest_from_cm_def handle_all_files_result_def drop_cm_job_def
      printer_data_arm_def send_printer_request_def Let_def split: option.split sum.split)

lemma ticks_calm:
  "second_tick e w = (True, w') \<Longrightarrow> calm c w' \<longleftrightarrow> calm c w" "test_delay_tick e w = (True, w') \<Longrightarrow> calm c w' \<longleftrightarrow> calm c w"
  by (auto simp: second_tick_def test_delay_tick_def Let_def split: if_splits prod.splits option.splits)

lemma aside_calm:
  assumes "aside e x w = (True, w')"
  shows "calm (w_conn w) w'"
proof -
  have "calm (w_conn w) w' \<longleftrightarrow> calm (w_conn w) w"
    using assms ticks_calm[of e w w'] by (cases x) (auto simp: aside_def Let_def split: if_splits)
  then show ?thesis by simp
qed

section \<open>Sessions of this program\<close>

interpretation sess: session_handler dispatch aside
  by unfold_locales (use dispatch_calm aside_calm in \<open>simp_all add: calm_def\<close>)

definition on_message :: "sodium \<Rightarrow> machine \<Rightarrow> env \<Rightarrow> message \<Rightarrow> world \<Rightarrow> bool \<times> world" where
  "on_message = on_message_with dispatch"

definition session_run :: "sodium \<Rightarrow> machine \<Rightarrow> conn \<Rightarrow> (env \<times> event \<times> world) list \<Rightarrow> conn \<Rightarrow> bool" where
  "session_run = run dispatch aside"

section \<open>A session to look at\<close>

text \<open>Playing a list of events, each with the shared state that it finds.\<close>

fun play ::
    "sodium \<Rightarrow> machine \<Rightarrow> (env \<times> event \<times> host) list \<Rightarrow> (env \<times> event \<times> world) list \<times> conn \<Rightarrow> ((env \<times> event \<times> world) list \<times> conn) option" where
  "play so m [] s = Some s"
| "play so m ((e, ev, h) # evs) (tr, c) =
     (let w = \<lparr>w_conn = c, w_host = h, w_out = []\<rparr> in
      if hm_ok (sv_sessions (h_login h)) then
        (case session_step dispatch aside so m e ev w of
           (True, w') \<Rightarrow> play so m evs (tr @ [(e, ev, w)], w_conn w')
         | (False, w') \<Rightarrow> None)
      else None)"

lemma play_ConsE:
  assumes "play so m ((e, ev, h) # evs) (tr, c) = Some r"
  obtains w w' where "w_conn w = c" "w_host w = h" "hm_ok (sv_sessions (h_login h))"
    "session_step dispatch aside so m e ev w = (True, w')" "play so m evs (tr @ [(e, ev, w)], w_conn w') = Some r"
  using assms that[of "\<lparr>w_conn = c, w_host = h, w_out = []\<rparr>"]
  by (auto simp: Let_def split: if_splits prod.splits bool.splits)

lemma play_run: "session_run so m c0 tr c \<Longrightarrow> play so m evs (tr, c) = Some (tr', c') \<Longrightarrow> session_run so m c0 tr' c'"
proof (induction evs arbitrary: tr c)
  case (Cons x evs)
  obtain e ev h where x: "x = (e, ev, h)" by (cases x)
  from Cons.prems(2) show ?case unfolding x
  proof (rule play_ConsE)
    fix w w'
    assume w: "w_conn w = c" "w_host w = h" "hm_ok (sv_sessions (h_login h))"
      "session_step dispatch aside so m e ev w = (True, w')" "play so m evs (tr @ [(e, ev, w)], w_conn w') = Some (tr', c')"
    then have "session_run so m c0 (tr @ [(e, ev, w)]) (w_conn w')"
      using Cons.prems(1) unfolding session_run_def by (intro run.run_step) simp_all
    then show ?case using w(5) by (rule Cons.IH)
  qed
qed simp

lemma play_trace:
  "play so m evs (tr, c) = Some (tr', c') \<Longrightarrow>
   map (\<lambda>(e, ev, w). (e, ev, w_host w)) tr' = map (\<lambda>(e, ev, w). (e, ev, w_host w)) tr @ evs"
proof (induction evs arbitrary: tr c)
  case (Cons x evs)
  obtain e ev h where x: "x = (e, ev, h)" by (cases x)
  from Cons.prems show ?case unfolding x by (rule play_ConsE) (use Cons.IH in fastforce)
qed simp

lemma play_new: "play so m evs ([], c0) = Some (tr, c) \<Longrightarrow> session_run so m c0 tr c"
  using play_run[of so m c0 "[]" c0] by (simp add: session_run_def run.run_start)

text \<open>A Linux machine with a screen, on which a one-time code is required.\<close>

definition demo_env :: env where
  "demo_env = \<lparr>env_now = 1000000, env_fresh = ''abc123'', env_build = linux_build, env_builtin = (\<lambda>_. []), env_installed = True,
     env_prelogin = False, env_locked = False, env_logon_ui = False, env_privacy_on = False, env_own_id = ''111'',
     env_direct_ip = (\<lambda>_. False), env_connects = (\<lambda>_. True), env_totp = (\<lambda>secret code. Some (code = ''042'')),
     env_admin = (\<lambda>_ _. None), env_logon_user = NoLogonSession, env_gate_free = True, env_service_user = (\<lambda>_. None),
     env_display_error = [], env_displays = Inr 0, env_wait_sid = False, env_is_dir = (\<lambda>_. True), env_trusted_fits = (\<lambda>_. True),
     env_sources = (\<lambda>_. 2), env_modifier_key = (\<lambda>_. None), env_clip_ok = (\<lambda>_. True), env_fs_in_cm = False,
     env_read_job = (\<lambda>_ _. Inr 3), env_max_files = 10, env_has_display = (\<lambda>i. i < 2), env_portable_running = False,
     env_sessions = None, env_share_rdp = False, env_subbed = 1, env_logon_screen = False, env_start_portable = (\<lambda>_. []),
     env_virtual_supported = True, env_plug = (\<lambda>_ _. None), env_display_msg = (\<lambda>_ i. i < 2), env_cursor_known = (\<lambda>_. True),
     env_terminal = (\<lambda>_. Inr None), env_idle = 0, env_privacy_conn = None, env_privacy_key = [], env_privacy_off = None,
     env_read_directory = (\<lambda>_. Inl ''bad'')\<rparr>"

definition demo_host :: host where
  "demo_host = \<lparr>h_login = demo_server \<lparr>config.c_id = [], c_enc_id = [], c_password = [], c_salt = []\<rparr>, h_fail_2fa = [], h_fail_id = [],
     h_os = os_failure_default, h_trusted = [], h_switch = [], h_pending = [], h_authed = []\<rparr>"

definition demo_login :: "login_union option \<Rightarrow> login_request" where
  "demo_login u = lr_new\<lparr>lr_username := ''111'', lr_my_id := ''222'', lr_my_name := ''peer'', lr_version := ''1.4.0'', lr_union := u\<rparr>"

text \<open>The peer asks for the camera, twice; the machine has no password, so the person is asked.\<close>

definition demo_conn :: conn where
  "demo_conn = conn_new permanent_only 0 1 ''unix'' ([5], [7]) (Some ''S'') None"

definition demo_asked :: "((env \<times> event \<times> world) list \<times> conn) option" where
  "demo_asked = play plain_sodium demo_machine
     [(demo_env, Recv (Some (LoginRequest ((demo_login (Some LoginViewCamera))\<lparr>lr_version := ''1.3.0''\<rparr>))), demo_host),
      (demo_env, Recv (Some (LoginRequest (demo_login (Some LoginViewCamera)))), demo_host)] ([], demo_conn)"

lemma demo_asked_state:
  "map_option (\<lambda>(tr, c). (map (\<lambda>(e, ev, w). c_authorized (w_conn w)) tr, c_cm_started c, c_authorized c, c_terminal c, lr_union (c_lr c))) demo_asked
     = Some ([False, False], True, False, False, Some LoginViewCamera)"
  by code_simp

text \<open>A click lets in a session for the screen or a camera.\<close>

lemma click_lets_in:
  assumes "login_inv so (w_conn w)" "\<not> c_authorized (w_conn w)" "c_cm_started (w_conn w)" "\<not> c_terminal (w_conn w)"
    and k: "kind_of (c_lr (w_conn w)) \<noteq> PortForward"
  obtains w' where "session_step dispatch aside so m e Click w = (True, w')" "c_authorized (w_conn w')"
    "c_authed (w_conn w') = Some (kind_of (c_lr (w_conn w)))"
proof -
  define v where "v = emit [SetMaxPacketLength (2 ^ 64 - 1)]
    (upd_conn (\<lambda>c. c\<lparr>c_primary := ClickAuth, c_require_2fa := None, c_awaiting_2fa := False\<rparr>) w)"
  have i: "kinded (w_conn v)" "\<not> is_port_forward (w_conn v)" "kind_of (c_lr (w_conn v)) = kind_of (c_lr (w_conn w))"
    using assms(1,2) by (auto simp: login_inv_def v_def kinded_def is_port_forward_def)
  have u: "\<And>h p x. lr_union (c_lr (w_conn w)) \<noteq> Some (LoginPortForward h p x)" using k by (auto simp: kind_PortForward)
  have np: "\<not> is_port_forward (w_conn w)" using assms(1,2) by (auto simp: login_inv_def)
  have s: "click_arm so e w = (True, respond e (authorize e v))"
    using assms(2-4) u np
    by (simp add: click_arm_def send_logon_response_and_keep_alive_def prepare_terminal_login_for_authorization_def
        connect_port_forward_if_needed_def is_port_forward_def v_def upd_conn_def emit_def split: option.split login_union.split)
  note f = respond_frame[of "authorize e v" e] authorize_frame[where w = v and e = e]
  have a: "auth_conn_type_of (w_conn v) = kind_of (c_lr (w_conn w))"
    using auth_kind[OF i(1)] i(2,3) k by simp
  have "\<not> is_port_forward (w_conn (respond e (authorize e v)))"
    using f i(2) by (simp add: settled_def)
  then have "session_step dispatch aside so m e Click w = (True, respond e (authorize e v))"
    using s assms(3) by (simp add: session_step_def is_port_forward_def)
  then show ?thesis by (rule that) (use f a in \<open>simp_all add: settled_def\<close>)
qed

lemma demo_asked_trace:
  assumes "demo_asked = Some (tr, c)"
  obtains w1 w2 where "tr = [(demo_env, Recv (Some (LoginRequest ((demo_login (Some LoginViewCamera))\<lparr>lr_version := ''1.3.0''\<rparr>))), w1), (demo_env, Recv (Some (LoginRequest (demo_login (Some LoginViewCamera)))), w2)]"
    "\<not> c_authorized (w_conn w1)" "\<not> c_authorized (w_conn w2)"
proof -
  have "map (\<lambda>(e, ev, w). (e, ev, w_host w)) tr =
      [(demo_env, Recv (Some (LoginRequest ((demo_login (Some LoginViewCamera))\<lparr>lr_version := ''1.3.0''\<rparr>))), demo_host),
       (demo_env, Recv (Some (LoginRequest (demo_login (Some LoginViewCamera)))), demo_host)]"
    using play_trace[OF assms[unfolded demo_asked_def]] by simp
  moreover have "map (\<lambda>(e, ev, w). c_authorized (w_conn w)) tr = [False, False]"
    using demo_asked_state by (simp only: assms option.map) simp
  ultimately show thesis using that by auto
qed

lemma demo_session:
  obtains tr c w1 w2 where "session_run plain_sodium demo_machine demo_conn tr c" "c_authorized c"
    "(demo_env, Recv (Some (LoginRequest ((demo_login (Some LoginViewCamera))\<lparr>lr_version := ''1.3.0''\<rparr>))), w1) \<in> set tr" "\<not> c_authorized (w_conn w1)"
    "(demo_env, Recv (Some (LoginRequest (demo_login (Some LoginViewCamera)))), w2) \<in> set tr" "\<not> c_authorized (w_conn w2)" "c_authed c = Some ViewCamera"
proof -
  obtain tr c where a: "demo_asked = Some (tr, c)" "c_cm_started c" "\<not> c_authorized c" "\<not> c_terminal c"
      "lr_union (c_lr c) = Some LoginViewCamera"
    using demo_asked_state by (auto simp: map_option_case split: option.splits)
  obtain w1 w2 where t: "tr = [(demo_env, Recv (Some (LoginRequest ((demo_login (Some LoginViewCamera))\<lparr>lr_version := ''1.3.0''\<rparr>))), w1), (demo_env, Recv (Some (LoginRequest (demo_login (Some LoginViewCamera)))), w2)]"
      "\<not> c_authorized (w_conn w1)" "\<not> c_authorized (w_conn w2)"
    by (rule demo_asked_trace[OF a(1)])
  define w where "w = \<lparr>w_conn = c, w_host = demo_host, w_out = []\<rparr>"
  have r: "session_run plain_sodium demo_machine demo_conn tr c" by (rule play_new[OF a(1)[unfolded demo_asked_def]])
  have i: "login_inv plain_sodium (w_conn w)"
    using sess.run_inv[OF r[unfolded session_run_def]] conn_new_inv(1) by (simp add: w_def demo_conn_def)
  obtain w' where s: "session_step dispatch aside plain_sodium demo_machine demo_env Click w = (True, w')" "c_authorized (w_conn w')"
      "c_authed (w_conn w') = Some (kind_of (c_lr c))"
    by (rule click_lets_in[OF i]) (use a in \<open>simp_all add: w_def kind_of_def\<close>)
  then have "session_run plain_sodium demo_machine demo_conn (tr @ [(demo_env, Click, w)]) (w_conn w')"
    using r unfolding session_run_def by (intro run.run_step) (simp_all add: w_def demo_host_def demo_server_def hm_ok_def)
  then show ?thesis by (rule that[of _ _ w1 w2]) (use s(2,3) a(5) t in \<open>simp_all add: kind_of_def\<close>)
qed

section \<open>What a session has behind it\<close>

text \<open>
  C1: A session that is authorized has proved itself. In every run of a connection from its opening,
  whatever messages arrive, whatever the connection manager and the timers do and however the shared
  state changes in between, a connection that is authorized has behind it a click of the person at
  the machine, a password login that was in force at that moment (the peer's id on the whitelist, the
  kind of session permitted, the failure limiter passed, clicks not required instead), or a key of
  switched sides that this machine had handed to that peer within the last ten seconds. If a one-time
  code was required, it also has behind it a valid code within the limiter, a trusted device, a recent
  session that had given its code, the click, or the key.
\<close>

theorem authorized_only_with_proof:
  assumes "session_run so m (conn_new opts now i ip hash totp control) tr c" and "c_authorized c"
  shows "(\<exists>x \<in> set tr. primary_proof so m x) \<and> (\<forall>secret. totp = Some secret \<longrightarrow> (\<exists>x \<in> set tr. second_proof so secret x))"
proof -
  note r = assms(1)[unfolded session_run_def]
  note n = conn_new_inv(1)[of so opts now i ip hash totp control] conn_new_inv(2-4)[of opts now i ip hash totp control]
  have "\<exists>x \<in> set tr. primary_proof so m x" using sess.run_primary[OF r n(1-3)] assms(2) by simp
  moreover have "\<exists>x \<in> set tr. second_proof so secret x" if "totp = Some secret" for secret
    using sess.run_second[OF r n(1,2)] n(4) that assms(2) by auto
  ultimately show ?thesis by blast
qed

theorem authorized_only_with_proof_witness:
  "\<exists>tr c. session_run plain_sodium demo_machine demo_conn tr c \<and> c_authorized c
     \<and> (\<exists>x \<in> set tr. primary_proof plain_sodium demo_machine x) \<and> (\<exists>x \<in> set tr. second_proof plain_sodium ''S'' x)"
proof -
  obtain tr c where "session_run plain_sodium demo_machine demo_conn tr c" "c_authorized c" by (rule demo_session)
  with authorized_only_with_proof[OF this[unfolded demo_conn_def]] show ?thesis unfolding demo_conn_def by blast
qed

text \<open>The text that the digest of a login's scope is taken of.\<close>

definition scope_input :: "login_request \<Rightarrow> bytes" where
  "scope_input lr = concat (map push (scope_fields lr))"

lemma login_scope_digest_input: "login_scope_digest so lr = sha256 so (scope_input lr)"
  by (simp add: login_scope_digest_def scope_input_def)



text \<open>
  C14: Before it is authorized a connection can only try to log in. Any message but a login request,
  a one-time code, a key of switched sides, a delay probe or a reason for closing leaves the
  connection and the shared state exactly as they are, makes no call and keeps the connection open:
  no input, no file, no option and no channel frame is looked at.
\<close>

theorem unauthorized_messages_ignored:
  assumes "\<not> c_authorized (w_conn w)" "\<not> is_close_reason message"
    and "case message of Some (LoginRequest _) \<Rightarrow> False | Some (Auth2FA _ _) \<Rightarrow> False
      | Some (SwitchSidesResponse _ _) \<Rightarrow> False | Some (TestDelay _ _) \<Rightarrow> False | _ \<Rightarrow> True"
  shows "on_message so m e message w = (True, w)"
  using assms by (auto simp: on_message_def on_message_with_def message_arm_def split: option.splits msg.splits)

theorem unauthorized_messages_ignored_witness:
  "\<not> c_authorized demo_conn
   \<and> on_message plain_sodium demo_machine demo_env (Some (FileAction (Some (RemoveFile 1 ''/etc/passwd'' 0))))
       \<lparr>w_conn = demo_conn, w_host = demo_host, w_out = []\<rparr> = (True, \<lparr>w_conn = demo_conn, w_host = demo_host, w_out = []\<rparr>)"
  using conn_new_inv(2)[of permanent_only 0 1 "''unix''" "([5], [7])" "Some ''S''" None]
    unauthorized_messages_ignored[of "\<lparr>w_conn = demo_conn, w_host = demo_host, w_out = []\<rparr>"
      "Some (FileAction (Some (RemoveFile 1 ''/etc/passwd'' 0)))" plain_sodium demo_machine demo_env]
  by (simp add: demo_conn_def is_close_reason_def)

end
