(* ===== verification/Session_Reach.thy ===== *)
theory Session_Reach
  imports Session_Run
begin

text \<open>
  What the peer of an authorized session can bring about. For each kind of session the calls that a
  message may lead to are listed, with the rights they need at that moment, and every message that
  \<open>on_message\<close> handles stays within its list: those that the scope check lets through, those that it
  reports, and those that close the connection.
\<close>

section \<open>What a session may bring about\<close>

text \<open>Closing, the delay probe and the report of a message out of scope belong to every kind.\<close>

definition of_any :: "conn \<Rightarrow> effect \<Rightarrow> bool" where
  "of_any c x =
     (case x of
        SendTestDelay _ \<Rightarrow> True
      | UserNetworkDelay _ \<Rightarrow> True
      | ScopeAlarm _ \<Rightarrow> True
      | SendCloseReason _ \<Rightarrow> True
      | VoiceCallInput on \<Rightarrow> \<not> on
      | LockScreen \<Rightarrow> lock_after_session_end (c_prefs c) \<and> keyboard (c_rights c)
      | CmDisconnected \<Rightarrow> True
      | CmClosed \<Rightarrow> True
      | _ \<Rightarrow> False)"

text \<open>The steps of the file manager that a machine with one-way file transfer does not take for a peer.\<close>

definition takes_away :: "cm_fs \<Rightarrow> bool" where
  "takes_away f =
     (case f of
        FsReadFile _ _ _ _ _ \<Rightarrow> True
      | FsRemoveFile _ _ _ \<Rightarrow> True
      | FsRemoveDir _ _ _ \<Rightarrow> True
      | FsRename _ _ _ \<Rightarrow> True
      | FsCreateDir _ _ \<Rightarrow> True
      | _ \<Rightarrow> False)"

definition of_files :: "env \<Rightarrow> conn \<Rightarrow> effect \<Rightarrow> bool" where
  "of_files e c x =
     (case x of
        SendFs f \<Rightarrow> one_way_file_transfer (env_build e) \<longrightarrow> \<not> takes_away f
      | SendFileError _ _ _ \<Rightarrow> True
      | SendFileDir _ _ \<Rightarrow> True
      | FileAudit received _ \<Rightarrow> one_way_file_transfer (env_build e) \<longrightarrow> received
      | FileLog _ _ \<Rightarrow> True
      | ConfirmReadJob i _ _ \<Rightarrow> i \<in> set (c_read_jobs c)
      | ConnectUserSession _ \<Rightarrow> on_windows (env_build e)
      | _ \<Rightarrow> False)"

text \<open>A camera session has the cameras (\<open>True\<close>) as its video source, chat, and sound while it is called.\<close>

definition of_camera :: "env \<Rightarrow> conn \<Rightarrow> effect \<Rightarrow> bool" where
  "of_camera e c x =
     (case x of
        SwitchVideo camera _ _ \<Rightarrow> camera
      | SendDisplayChanged camera _ \<Rightarrow> camera
      | CaptureVideo camera _ _ _ \<Rightarrow> camera
      | RefreshVideoOf source \<Rightarrow> (case source of Some (camera, _) \<Rightarrow> camera | None \<Rightarrow> True)
      | TakeScreenshot camera _ _ \<Rightarrow> camera
      | SubCameraDisplays \<Rightarrow> True
      | VideoFrameFetched \<Rightarrow> True
      | UserRecord _ \<Rightarrow> True
      | CmChat _ \<Rightarrow> True
      | StartAudio _ \<Rightarrow> \<not> disable_audio (c_prefs c)
      | PlayAudio _ \<Rightarrow> \<not> disable_audio (c_prefs c)
      | CmVoiceCallIncoming \<Rightarrow> True
      | CmCloseVoiceCall \<Rightarrow> True
      | OptionEffect x \<Rightarrow> in_reach ViewCamera (c_voice_calling c) (c_rights c) x
          \<or> follow_remote_window (c_prefs c) \<and> (x = Subscribe NAME_WINDOW_FOCUS True \<or> x = Subscribe NAME_WINDOW_FOCUS False)
      | ConnectUserSession _ \<Rightarrow> on_windows (env_build e)
      | _ \<Rightarrow> False)"

text \<open>A terminal is that of the account that was proved at the login.\<close>

definition of_terminal :: "conn \<Rightarrow> effect \<Rightarrow> bool" where
  "of_terminal c x =
     (case x of
        TerminalActionTo service persistent token _ \<Rightarrow>
          service = c_service_id c \<and> persistent = terminal_persistent (c_prefs c)
          \<and> Some token = map_option to_terminal_service_token (c_user_token c)
      | SendTerminalResponse _ \<Rightarrow> c_user_token c \<noteq> None
      | _ \<Rightarrow> False)"

definition of_shell :: "conn \<Rightarrow> effect \<Rightarrow> bool" where
  "of_shell c x \<longleftrightarrow> of_terminal c x \<or> (case x of CmChat _ \<Rightarrow> True | OptionEffect (SetTerminalPersistent _) \<Rightarrow> True | _ \<Rightarrow> False)"

text \<open>What the options of a remote desktop may switch on: sharing only with the rights to what is shared.\<close>

definition within_options :: "build \<Rightarrow> rights \<Rightarrow> option_effect \<Rightarrow> bool" where
  "within_options b r x =
     (case x of
        Subscribe name on \<Rightarrow> on \<longrightarrow>
          (name = NAME_CLIPBOARD \<longrightarrow> clipboard r \<and> keyboard r \<and> \<not> one_way_clipboard b)
          \<and> (name = NAME_FILE_CLIPBOARD \<longrightarrow> clipboard r \<and> file_right r \<and> \<not> one_way_file_transfer b)
          \<and> (name = NAME_AUDIO \<longrightarrow> audio r)
      | ClipboardFileEnabled on \<Rightarrow> on \<longrightarrow> file_right r
      | TurnOnPrivacy _ \<Rightarrow> privacy_mode r
      | BlockInput _ \<Rightarrow> keyboard r \<and> block_input r
      | _ \<Rightarrow> True)"

text \<open>
  A remote desktop: input needs the keyboard right, the clipboard the clipboard right, files of the
  clipboard the file right, restarting the right to restart. Of the file manager it has only the
  steps of a transfer to this machine, and of the machine's files only what is printed for it.
\<close>

definition of_desktop :: "env \<Rightarrow> conn \<Rightarrow> effect \<Rightarrow> bool" where
  "of_desktop e c x =
     (let b = env_build e; r = c_rights c; p = c_prefs c; typing = peer_keyboard_enabled r p in
      case x of
        ClickTime \<Rightarrow> typing
      | MouseMoveTime \<Rightarrow> typing
      | InputMouse _ simulate shown \<Rightarrow> (simulate \<longrightarrow> typing) \<and> (shown \<longrightarrow> show_my_cursor p)
      | InputPointer _ \<Rightarrow> typing
      | InputKey _ _ \<Rightarrow> typing
      | UpdateClipboard _ \<Rightarrow> clipboard_enabled r p
      | ClipFileAudit received _ \<Rightarrow> received
      | CmClipboardFile clip \<Rightarrow> on_windows b \<and> \<not> (one_way_file_transfer b \<and> is_file_data_request clip)
      | ServeClip clip \<Rightarrow> file_transfer_enabled r p \<and> \<not> (one_way_file_transfer b \<and> is_file_data_request clip)
      | SendFs f \<Rightarrow> (case f of FsWriteBlock _ _ _ _ \<Rightarrow> True | FsWriteDone _ _ \<Rightarrow> True
          | FsCheckDigest _ _ _ _ _ _ \<Rightarrow> True | FsWriteError _ _ _ \<Rightarrow> True | _ \<Rightarrow> False)
      | SendFileError _ _ _ \<Rightarrow> one_way_file_transfer b
      | SendFileDir _ path \<Rightarrow> \<not> one_way_file_transfer b \<and> path \<in> (fst \<circ> snd) ` set (c_printer c)
      | FileAudit received path \<Rightarrow> \<not> one_way_file_transfer b \<and> \<not> received \<and> path = ''Remote print''
      | SwitchVideo camera _ _ \<Rightarrow> \<not> camera
      | SendDisplayChanged camera _ \<Rightarrow> \<not> camera
      | CaptureVideo camera _ _ _ \<Rightarrow> \<not> camera
      | RefreshVideoOf source \<Rightarrow> (case source of Some (camera, _) \<Rightarrow> \<not> camera | None \<Rightarrow> True)
      | TakeScreenshot camera _ _ \<Rightarrow> \<not> camera
      | ChangeResolutionTo _ _ _ \<Rightarrow> keyboard r
      | PlugVirtual _ _ \<Rightarrow> on_windows b
      | SendVirtualDisplayBox _ \<Rightarrow> on_windows b
      | OptionEffect x \<Rightarrow> within_options b r x
      | SubMonitorServices denied _ \<Rightarrow>
          (\<not> (clipboard r \<and> keyboard r) \<longrightarrow> NAME_CLIPBOARD \<in> set denied) \<and> (\<not> audio r \<longrightarrow> NAME_AUDIO \<in> set denied)
          \<and> (unix_file_copy_paste b \<and> \<not> (clipboard r \<and> file_right r) \<longrightarrow> NAME_FILE_CLIPBOARD \<in> set denied)
      | Reboot _ \<Rightarrow> rights.restart r
      | StartPortable _ \<Rightarrow> on_windows b \<and> keyboard r \<and> \<not> env_installed e
      | SendElevationResponse _ \<Rightarrow> on_windows b
      | SendCursorData _ \<Rightarrow> typing \<or> show_remote_cursor p
      | StartAudio _ \<Rightarrow> \<not> disable_audio p
      | PlayAudio _ \<Rightarrow> \<not> disable_audio p
      | VideoFrameFetched \<Rightarrow> True
      | UserAutoAdjustFps _ \<Rightarrow> True
      | UserRecord _ \<Rightarrow> True
      | CmChat _ \<Rightarrow> True
      | CmVoiceCallIncoming \<Rightarrow> True
      | CmCloseVoiceCall \<Rightarrow> True
      | RunSwitchSides i _ \<Rightarrow> i = lr_my_id (c_lr c)
      | ConnectUserSession _ \<Rightarrow> on_windows b
      | SendLoginError _ \<Rightarrow> True
      | AlarmAudit _ \<Rightarrow> True
      | CmLogin _ _ authorized \<Rightarrow> authorized
      | StartCmIpc \<Rightarrow> True
      | _ \<Rightarrow> of_terminal c x)"

text \<open>A session for ports makes no call at all: its frames change only the state of its tunnel.\<close>

definition within :: "env \<Rightarrow> conn \<Rightarrow> auth_conn_type \<Rightarrow> effect \<Rightarrow> bool" where
  "within e c t x \<longleftrightarrow> of_any c x \<or>
     (case t of
        Remote \<Rightarrow> of_desktop e c x
      | FileTransfer \<Rightarrow> of_files e c x
      | PortForward \<Rightarrow> False
      | ViewCamera \<Rightarrow> of_camera e c x
      | Terminal \<Rightarrow> of_shell c x)"

section \<open>The calls that a handler adds\<close>

definition adds :: "(effect \<Rightarrow> bool) \<Rightarrow> effect list \<Rightarrow> world \<Rightarrow> bool" where
  "adds P out w \<longleftrightarrow> (\<exists>es. w_out w = out @ es \<and> list_all P es)"

lemma adds_refl [simp]: "adds P (w_out w) w"
  by (simp add: adds_def)

lemma adds_emit [simp]: "adds P out w \<Longrightarrow> adds P out (emit es w) \<longleftrightarrow> list_all P es"
  by (auto simp: adds_def)

lemma adds_upd [simp]: "adds P out (upd_conn f w) = adds P out w" "adds P out (upd_host g w) = adds P out w"
    "adds P out (w\<lparr>w_host := h\<rparr>) = adds P out w"
  by (simp_all add: adds_def)

lemma adds_timer [simp]: "adds P out (update_auto_disconnect_timer e w) = adds P out w"
  by (simp add: update_auto_disconnect_timer_def)

text \<open>Closing and the housekeeping messages.\<close>

lemma adds_check_remove [simp]: "adds P out (check_remove_session w) = adds P out w"
  by (simp add: check_remove_session_def Let_def)

lemma adds_on_close:
  "adds P out w \<Longrightarrow> (\<And>x. of_any (w_conn w) x \<Longrightarrow> P x) \<Longrightarrow> adds P out (on_close lock w)"
  by (simp add: on_close_def Let_def of_any_def)

lemma adds_violation:
  assumes "adds P out w" "\<And>x. of_any (w_conn w) x \<Longrightarrow> P x"
  shows "adds P out (snd (handle_authorized_scope_violation f w))"
proof -
  have c: "of_any (c_violations_update g (w_conn w)) = of_any (w_conn w)" for g
    by (simp add: of_any_def fun_eq_iff split: effect.split)
  have p: "P (ScopeAlarm s)" "P (SendCloseReason s)" for s using assms(2) by (simp_all add: of_any_def)
  have "adds P out (on_close True v)" if "adds P out v" "w_conn v = c_violations_update (List.insert f) (w_conn w)" for v
    using adds_on_close[OF that(1)] assms(2) by (simp add: that(2) c)
  moreover have "w_conn (check_remove_session v) = w_conn v" for v by (simp add: check_remove_session_def Let_def)
  ultimately show ?thesis using assms(1) p
    by (simp add: handle_authorized_scope_violation_def send_close_reason_no_retry_def Let_def)
qed

lemma adds_test_delay:
  "adds P out w \<Longrightarrow> (\<And>x. of_any (w_conn w) x \<Longrightarrow> P x) \<Longrightarrow> adds P out (test_delay_arm e b t w)"
  by (simp add: test_delay_arm_def of_any_def split: option.split)

section \<open>Arms that several kinds share\<close>

text \<open>Each arm with the calls that it may lead to, for a predicate that has them.\<close>

lemma adds_chat: "adds P out w \<Longrightarrow> P (CmChat s) \<Longrightarrow> adds P out (snd (misc_arm e (ChatMessage s) w))"
  by (simp add: misc_arm_def Let_def)

lemma adds_terminal_action:
  assumes "adds P out w" "\<And>x. of_terminal (w_conn w) x \<Longrightarrow> P x"
  shows "adds P out (handle_terminal_action e act w)"
  using assms by (simp add: handle_terminal_action_def of_terminal_def split: option.split sum.split)

lemma adds_options:
  assumes "adds P out w"
    and "\<And>x. x \<in> set (snd (option_arm (env_build e) (is_old_peer (w_conn w)) (c_authed (w_conn w)) (c_voice_calling (w_conn w)) opt
      (c_rights (w_conn w)) (c_prefs (w_conn w)))) \<Longrightarrow> P (OptionEffect x)"
  shows "adds P out (options_arm e opt w)"
  using assms by (auto simp: options_arm_def Let_def list_all_iff split: prod.split)

lemma adds_render:
  assumes "adds P out w" "c_view_camera (w_conn w) = camera" "P (RefreshVideoOf None)" "\<And>d. P (RefreshVideoOf (Some (camera, d)))"
  shows "adds P out (snd (misc_arm e (RefreshVideo r) w))" "adds P out (snd (misc_arm e (RefreshVideoDisplay d) w))"
  using assms by (simp_all add: misc_arm_def refresh_video_display_def Let_def)

lemma adds_audio:
  assumes "adds P out w" "\<And>x. \<not> disable_audio (c_prefs (w_conn w)) \<Longrightarrow> P (StartAudio x) \<and> P (PlayAudio x)"
  shows "adds P out (audio_format_arm x w)" "adds P out (audio_frame_arm x w)"
  using assms by (simp_all add: audio_format_arm_def audio_frame_arm_def)

lemma adds_voice_call:
  assumes "adds P out w" "P CmVoiceCallIncoming" "P (VoiceCallInput False)" "P CmCloseVoiceCall"
    and "c_authed (w_conn w) = Some ViewCamera \<Longrightarrow> P (OptionEffect (Subscribe NAME_AUDIO False))"
  shows "adds P out (voice_call_arm e b t w)"
  using assms by (simp add: voice_call_arm_def close_voice_call_def camera_sound_def sub_effects_def is_authed_view_camera_conn_def)

lemma adds_change_resolution:
  assumes "adds P out w" "\<And>i x y. keyboard (c_rights (w_conn w)) \<Longrightarrow> P (ChangeResolutionTo i x y)"
  shows "adds P out (change_resolution e n x y w)"
  using assms by (simp add: change_resolution_def Let_def)

lemma adds_displays:
  assumes "adds P out w" and c: "c_view_camera (w_conn w) = camera" and p: "\<And>i. P (SendDisplayChanged camera i)"
    "\<And>i j. P (SwitchVideo camera i j)" "\<And>l a b. P (CaptureVideo camera l a b)"
    and r: "\<And>i x y. \<not> camera \<Longrightarrow> keyboard (c_rights (w_conn w)) \<Longrightarrow> P (ChangeResolutionTo i x y)"
    and f: "\<And>on. follow_remote_window (c_prefs (w_conn w)) \<Longrightarrow> P (OptionEffect (Subscribe NAME_WINDOW_FOCUS on))"
  shows "adds P out (send_display_changed e i w)" "adds P out (handle_switch_display e d x y w)"
    "adds P out (capture_displays_arm e add sub sets w)"
proof -
  have s: "adds P out (send_display_changed e i v)" if "adds P out v" "c_view_camera (w_conn v) = camera" for v i
    using that p by (simp add: send_display_changed_def)
  then show "adds P out (send_display_changed e i w)" using assms by simp
  define v where "v = emit [SwitchVideo camera (if is_support_multi_ui_session (lr_version (c_lr (w_conn w))) then None
      else Some (c_display_idx (w_conn w))) (as_usize d)] (upd_conn (c_display_idx_update (\<lambda>_. as_usize d)) w)"
  have v: "adds P out v" "c_view_camera (w_conn v) = camera" "keyboard (c_rights (w_conn v)) = keyboard (c_rights (w_conn w))"
    using assms by (simp_all add: v_def)
  have "c_view_camera (w_conn (change_resolution e None x y v)) = camera" using v by (simp add: change_resolution_def Let_def)
  then have "adds P out (send_display_changed e i (if \<not> camera \<and> x \<noteq> 0 \<and> y \<noteq> 0 then change_resolution e None x y v else v))" for i
    using v r by (auto intro!: s adds_change_resolution)
  then show "adds P out (handle_switch_display e d x y w)" using assms s v(2)
    by (simp add: handle_switch_display_def switch_display_to_def v_def[symmetric] Let_def)
  show "adds P out (capture_displays_arm e add sub sets w)" using assms by (simp add: capture_displays_arm_def Let_def)
qed

lemma adds_screenshot:
  assumes "adds P out w" "c_view_camera (w_conn w) = camera" "\<And>d. P (RefreshVideoOf (Some (camera, d)))"
    and "\<And>d s. P (TakeScreenshot camera d s)"
  shows "adds P out (screenshot_arm e d sid w)"
  using assms by (simp add: screenshot_arm_def refresh_video_display_def)

text \<open>File actions: what one-way file transfer refuses is not reached with it.\<close>

lemma adds_do_file_action:
  assumes "adds P out w" and "\<And>x. of_files e (w_conn w) x \<Longrightarrow> P x" and "one_way_file_transfer (env_build e) \<longrightarrow> one_way_job a = None"
  shows "adds P out (do_file_action e a w)"
  using assms
  by (cases a) (simp_all add: of_files_def takes_away_def all_files_action_def confirm_action_def send_action_def
      create_and_start_read_job_def process_new_read_job_def Let_def split: option.split sum.split)

lemma adds_file_action:
  assumes "adds P out w" and "\<And>x. of_files e (w_conn w) x \<Longrightarrow> P x"
  shows "adds P out (file_action_arm e fa w)"
proof -
  have "P (SendFileError i err n)" for i err n using assms(2) by (simp add: of_files_def)
  then show ?thesis using assms adds_do_file_action[OF assms]
    by (simp add: file_action_arm_def Let_def split: option.split file_action.split)
qed

lemma adds_file_response:
  assumes "adds P out w" "\<And>i n bs b. P (SendFs (FsWriteBlock i n bs b))" "\<And>i n. P (SendFs (FsWriteDone i n))"
    "\<And>i n s t a b. P (SendFs (FsCheckDigest i n s t a b))" "\<And>i n err. P (SendFs (FsWriteError i n err))"
  shows "adds P out (file_response_arm fr w)"
  using assms by (simp add: file_response_arm_def split: option.split file_response.split)

lemma adds_selected_sid:
  assumes "adds P out w" "\<And>i. on_windows (env_build e) \<Longrightarrow> P (ConnectUserSession i)"
    and "\<And>dir b. c_file_transfer (w_conn w) \<noteq> None \<Longrightarrow> P (SendFs (FsReadDir dir b))"
    and "c_view_camera (w_conn w) \<Longrightarrow> P SubCameraDisplays"
    and "c_file_transfer (w_conn w) = None \<Longrightarrow> \<not> c_view_camera (w_conn w) \<Longrightarrow> \<not> c_terminal (w_conn w) \<Longrightarrow> adds P out (try_sub_monitor_services e w)"
  shows "adds P out (snd (selected_sid_arm e i w))"
  using assms by (cases "c_file_transfer (w_conn w)")
    (simp_all add: selected_sid_arm_def try_sub_camera_displays_def Let_def split: option.split)

section \<open>The messages of each kind\<close>

lemmas scope_defs = authorized_message_scope_violation_def then_some_def is_connection_housekeeping_message_def
  is_text_clipboard_noop_compat_message_def

text \<open>Options of a session that has none.\<close>

lemma adds_no_options:
  assumes "adds P out w" "c_authed (w_conn w) = Some t" "t = FileTransfer \<or> t = PortForward"
  shows "adds P out (options_arm e opt w)"
  using assms by (auto simp: options_arm_def option_arm_def)

lemma dispatch_files:
  assumes w: "adds P out w" "c_authed (w_conn w) = Some FileTransfer" "c_file_transfer (w_conn w) \<noteq> None" "\<not> c_view_camera (w_conn w)"
    and s: "authorized_message_scope_violation (on_windows (env_build e)) FileTransfer (Some message) = None"
    and p: "\<And>x. of_files e (w_conn w) x \<Longrightarrow> P x"
  shows "adds P out (snd (dispatch e message w))"
proof (cases message)
  case (Misc u)
  have "adds P out (snd (misc_arm e v w))" if u: "u = Some v" for v
  proof (cases v)
    case (SelectedSid i)
    have "P (SendFs (FsReadDir d b))" for d b using p by (simp add: of_files_def takes_away_def)
    then show ?thesis using w p SelectedSid
      by (simp add: misc_arm_def Let_def) (rule adds_selected_sid; simp add: of_files_def)
  next
    case (OptionMisc opt)
    then show ?thesis using adds_no_options[OF w(1,2)] by (simp add: misc_arm_def Let_def)
  qed (use s w in \<open>simp_all add: Misc u scope_defs is_file_transfer_scoped_message_def is_file_transfer_scoped_misc_def
        misc_arm_def should_handle_render_broadcast_message_def Let_def split: if_splits\<close>)
  then show ?thesis using Misc w by (simp add: dispatch_def split: option.split)
next
  case (FileAction fa)
  then show ?thesis using adds_file_action[OF w(1)] p by (simp add: dispatch_def)
next
  case (FileResponse fr)
  have "P (SendFs (FsWriteBlock i n bs b))" "P (SendFs (FsWriteDone i n))" "P (SendFs (FsCheckDigest i n sz tm b b'))"
    "P (SendFs (FsWriteError i n err))" for i n bs b b' sz tm err
    using p by (simp_all add: of_files_def takes_away_def)
  then show ?thesis using adds_file_response[OF w(1)] FileResponse by (simp add: dispatch_def)
qed (use s w in \<open>simp_all add: scope_defs is_file_transfer_scoped_message_def dispatch_def clipboard_arm_def
      should_handle_text_clipboard_message_def split: if_splits\<close>)

lemma dispatch_ports:
  assumes w: "adds P out w" "c_authed (w_conn w) = Some PortForward"
    and s: "authorized_message_scope_violation (on_windows (env_build e)) PortForward (Some message) = None"
  shows "adds P out (snd (dispatch e message w))"
proof (cases message)
  case (Misc u)
  have "adds P out (snd (misc_arm e v w))" if u: "u = Some v" for v
  proof (cases v)
    case (OptionMisc opt)
    then show ?thesis using adds_no_options[OF w] by (simp add: misc_arm_def Let_def)
  qed (use s w in \<open>simp_all add: Misc u scope_defs is_port_forward_scoped_message_def
        misc_arm_def should_handle_render_broadcast_message_def Let_def split: if_splits\<close>)
  then show ?thesis using Misc w by (simp add: dispatch_def split: option.split)
next
  case (PortForwardChannel ch)
  then show ?thesis using w by (simp add: dispatch_def handle_port_forward_channel_def split: option.split)
qed (use s w in \<open>simp_all add: scope_defs is_port_forward_scoped_message_def dispatch_def split: if_splits\<close>)

lemma dispatch_shell:
  assumes w: "adds P out w" "c_authed (w_conn w) = Some Terminal"
    and s: "authorized_message_scope_violation (on_windows (env_build e)) Terminal (Some message) = None"
    and p: "\<And>x. of_shell (w_conn w) x \<Longrightarrow> P x"
  shows "adds P out (snd (dispatch e message w))"
proof (cases message)
  case (Misc u)
  have "adds P out (snd (misc_arm e v w))" if u: "u = Some v" for v
  proof (cases v)
    case (ChatMessage str)
    then show ?thesis using adds_chat[OF w(1)] p by (simp add: of_shell_def)
  next
    case (OptionMisc opt)
    have "P (OptionEffect (SetTerminalPersistent b))" for b using p by (simp add: of_shell_def)
    then have "adds P out (options_arm e opt w)"
      using w by (intro adds_options) (auto simp: option_arm_terminal split: option.splits)
    then show ?thesis using OptionMisc by (simp add: misc_arm_def Let_def)
  qed (use s w in \<open>simp_all add: Misc u scope_defs is_terminal_scoped_message_def is_terminal_scoped_misc_def
        misc_arm_def should_handle_render_broadcast_message_def Let_def split: if_splits\<close>)
  then show ?thesis using Misc w by (simp add: dispatch_def split: option.split)
next
  case (TerminalAction act)
  then show ?thesis using adds_terminal_action[OF w(1)] p by (simp add: dispatch_def of_shell_def)
qed (use s w in \<open>simp_all add: scope_defs is_terminal_scoped_message_def dispatch_def clipboard_arm_def
      should_handle_text_clipboard_message_def split: if_splits\<close>)

lemma dispatch_camera:
  assumes w: "adds P out w" "c_authed (w_conn w) = Some ViewCamera" "c_view_camera (w_conn w)" "c_file_transfer (w_conn w) = None"
    and s: "authorized_message_scope_violation (on_windows (env_build e)) ViewCamera (Some message) = None"
    and p: "\<And>x. of_camera e (w_conn w) x \<Longrightarrow> P x" and v: "P (VoiceCallInput False)"
  shows "adds P out (snd (dispatch e message w))"
proof -
  have q: "P (SendDisplayChanged True n)" "P (SwitchVideo True o1 n)" "P (CaptureVideo True l b b')" "P (RefreshVideoOf None)"
    "P (RefreshVideoOf (Some (True, n)))" "P (TakeScreenshot True n str)" "P (CmChat str)" "P VideoFrameFetched" "P (UserRecord b)"
    "P CmVoiceCallIncoming" "P CmCloseVoiceCall" "P SubCameraDisplays"
    "P (OptionEffect (Subscribe NAME_AUDIO False))" for n o1 l b b' str
    by (rule p, simp add: of_camera_def)+
  have f: "P (OptionEffect (Subscribe NAME_WINDOW_FOCUS b))" if "follow_remote_window (c_prefs (w_conn w))" for b
    using that by (intro p) (cases b, simp_all add: of_camera_def)
  have a: "P (StartAudio x) \<and> P (PlayAudio x)" if "\<not> disable_audio (c_prefs (w_conn w))" for x
    using that p by (simp add: of_camera_def)
  note d = adds_displays[OF w(1), of True, OF _ q(1) q(2) q(3) _ f] and r = adds_render[OF w(1), of True, OF _ q(4) q(5)]
  show ?thesis
  proof (cases message)
    case (Misc u)
    have "adds P out (snd (misc_arm e y w))" if u: "u = Some y" for y
    proof (cases y)
      case (OptionMisc opt)
      have "P (OptionEffect x)" if "x \<in> set (snd (option_arm (env_build e) (is_old_peer (w_conn w)) (Some ViewCamera)
          (c_voice_calling (w_conn w)) opt (c_rights (w_conn w)) (c_prefs (w_conn w))))" for x
      proof -
        obtain p' es where o: "option_arm (env_build e) (is_old_peer (w_conn w)) (Some ViewCamera)
          (c_voice_calling (w_conn w)) opt (c_rights (w_conn w)) (c_prefs (w_conn w)) = (p', es)" by fastforce
        with option_arm_camera_reach[OF o] that show ?thesis using p by (simp add: of_camera_def)
      qed
      then have "adds P out (options_arm e opt w)" using w by (intro adds_options) simp_all
      then show ?thesis using OptionMisc by (simp add: misc_arm_def Let_def)
    next
      case (SelectedSid i)
      then show ?thesis using w p
        by (simp add: misc_arm_def Let_def) (rule adds_selected_sid; simp add: of_camera_def)
    next
      case (ChatMessage str)
      then show ?thesis using adds_chat[OF w(1)] q by simp
    qed (use s w d r a q adds_audio[OF w(1)] in \<open>simp_all add: Misc u scope_defs is_view_camera_scoped_message_def
        misc_arm_def Let_def split: if_splits\<close>)
    then show ?thesis using Misc w by (simp add: dispatch_def split: option.split)
  next
    case (VoiceCallRequest b tm)
    then show ?thesis using adds_voice_call[OF w(1)] q v by (simp add: dispatch_def)
  next
    case (ScreenshotRequest n sid)
    then show ?thesis using adds_screenshot[OF w(1), of True] w q by (simp add: dispatch_def)
  next
    case (AudioFrame x)
    then show ?thesis using adds_audio[OF w(1)] a by (simp add: dispatch_def)
  qed (use s w in \<open>simp_all add: scope_defs is_view_camera_scoped_message_def dispatch_def clipboard_arm_def
      should_handle_text_clipboard_message_def mouse_arm_def pointer_arm_def key_arm_def is_authed_view_camera_conn_def split: if_splits\<close>)
qed

section \<open>A remote desktop\<close>

lemmas service_names = NAME_CURSOR_def NAME_POS_def NAME_WINDOW_FOCUS_def NAME_AUDIO_def NAME_CLIPBOARD_def NAME_FILE_CLIPBOARD_def

lemma options_within:
  "list_all (within_options b r) (snd (update_cursor_prefs b opt r p))"
  "list_all (within_options b r) (snd (update_audio_pref b t calling opt r p))"
  "list_all (within_options b r) (snd (update_sharing_prefs b opt r p))"
  "list_all (within_options b r) (snd (update_shown_prefs b opt p))"
  "list_all (within_options b r) (video_effects opt)" "list_all (within_options b r) (privacy_effects old t opt r)"
  "list_all (within_options b r) (block_input_effects opt r)"
  by (simp_all add: within_options_def sub_effects_def update_cursor_prefs_def update_audio_pref_def update_sharing_prefs_def
      update_shown_prefs_def video_effects_def image_quality_effects_def privacy_effects_def block_input_effects_def turn_on_privacy_def
      can_sub_clipboard_service_def can_sub_file_clipboard_service_def audio_enabled_def clipboard_enabled_def
      file_transfer_enabled_def peer_keyboard_enabled_def service_names Let_def split: option.split bool_option.split)

lemma update_options_within: "list_all (within_options b r) (snd (update_options b old t calling opt r p))"
  by (simp add: update_options_def Let_def case_prod_beta options_within)

lemma adds_monitor:
  assumes "adds P out w" "\<And>x. of_desktop e (w_conn w) x \<Longrightarrow> P x"
  shows "adds P out (try_sub_monitor_services e w)"
proof -
  let ?b = "env_build e" and ?r = "c_rights (w_conn w)"
  have q: "P (SubMonitorServices denied i)" if "\<not> (clipboard ?r \<and> keyboard ?r) \<longrightarrow> NAME_CLIPBOARD \<in> set denied"
    "\<not> audio ?r \<longrightarrow> NAME_AUDIO \<in> set denied"
    "unix_file_copy_paste ?b \<and> \<not> (clipboard ?r \<and> file_right ?r) \<longrightarrow> NAME_FILE_CLIPBOARD \<in> set denied" for denied i
    using that assms(2) by (simp add: of_desktop_def)
  have i: "adds P out (if b then v else v')" if "b \<Longrightarrow> adds P out v" "\<not> b \<Longrightarrow> adds P out v'" for b v v' using that by simp
  have s: "adds P out (emit [x] v)" if "adds P out v" "P x" for x v using that by simp
  show ?thesis unfolding try_sub_monitor_services_def Let_def
    by (intro i s q) (auto simp: assms(1) can_sub_clipboard_service_def can_sub_file_clipboard_service_def clipboard_enabled_def
        peer_keyboard_enabled_def audio_enabled_def file_transfer_enabled_def)
qed

lemma adds_input:
  assumes "adds P out w" "\<And>x. of_desktop e (w_conn w) x \<Longrightarrow> P x"
  shows "adds P out (mouse_arm e flags pl w)" "adds P out (pointer_arm e pl w)" "adds P out (key_arm e k w)"
    "adds P out (os_login_arm e str w)"
  using assms by (simp_all add: mouse_arm_def pointer_arm_def key_arm_def os_login_arm_def type_auto_login_password_def
      keyboard_on_def of_desktop_def Let_def)

lemma adds_clipboard:
  assumes "adds P out w" "\<And>x. of_desktop e (w_conn w) x \<Longrightarrow> P x"
  shows "adds P out (clipboard_arm pl w)" "adds P out (cliprdr_arm e clip w)"
  using assms by (simp_all add: clipboard_arm_def cliprdr_arm_def of_desktop_def is_file_data_request_def Let_def split: cliprdr.split)

text \<open>Without a session for files only a print job is served.\<close>

lemma adds_print:
  assumes "adds P out w" "c_file_transfer (w_conn w) = None" "\<And>x. of_desktop e (w_conn w) x \<Longrightarrow> P x"
  shows "adds P out (file_action_arm e fa w)"
proof -
  have q: "P (SendFileError i err n)" if "one_way_file_transfer (env_build e)" for i err n
    using assms(3) that by (simp add: of_desktop_def)
  have s: "adds P out (send_action e i path h n 1 w)" if "\<not> one_way_file_transfer (env_build e)" for i path h n
  proof (cases "find (\<lambda>x. fst (snd x) = path) (c_printer (w_conn w))")
    case (Some x)
    then have "path \<in> (fst \<circ> snd) ` set (c_printer (w_conn w))" by (auto simp: find_Some_iff image_iff intro!: bexI[of _ x])
    then have "P (SendFileDir i path)" "P (FileAudit False ''Remote print'')"
      using that by (simp_all add: assms(3) of_desktop_def)
    then show ?thesis using Some assms(1)
      by (simp add: send_action_def create_and_start_read_job_def process_new_read_job_def Let_def)
  qed (use assms(1) in \<open>simp add: send_action_def\<close>)
  then show ?thesis using assms(1,2) q
    by (auto simp: file_action_arm_def is_printer_job_def Let_def split: option.split file_action.split)
qed

lemma adds_switch_sides:
  assumes "adds P out w" "\<And>x. of_desktop e (w_conn w) x \<Longrightarrow> P x" "\<And>x. of_any (w_conn w) x \<Longrightarrow> P x"
  shows "adds P out (snd (switch_sides_request_arm e key w))"
proof -
  have "P (RunSwitchSides (lr_my_id (c_lr (w_conn w))) key)" using assms(2) by (simp add: of_desktop_def)
  then have "adds P out (on_close False (emit (if b then [RunSwitchSides (lr_my_id (c_lr (w_conn w))) key] else []) (w\<lparr>w_host := h\<rparr>)))" for b h
    using assms(1,3) by (intro adds_on_close) simp_all
  then show ?thesis using assms(1) by (auto simp: switch_sides_request_arm_def split: prod.split)
qed

lemma adds_virtual:
  assumes "adds P out w" "on_windows (env_build e)" "\<And>x. of_desktop e (w_conn w) x \<Longrightarrow> P x"
  shows "adds P out (toggle_virtual_display e on n w)" "adds P out (handle_elevation_request e para w)"
  using assms by (simp_all add: toggle_virtual_display_def handle_elevation_request_def of_desktop_def split: option.split)

lemma misc_desktop:
  assumes w: "adds P out w" "c_authed (w_conn w) = Some Remote" "\<not> c_view_camera (w_conn w)" "c_file_transfer (w_conn w) = None"
    and p: "\<And>x. of_desktop e (w_conn w) x \<Longrightarrow> P x" and a: "\<And>x. of_any (w_conn w) x \<Longrightarrow> P x"
  shows "adds P out (snd (misc_arm e u w))"
proof -
  have q: "P (SendDisplayChanged False n)" "P (SwitchVideo False o1 n)" "P (CaptureVideo False l b b')" "P (RefreshVideoOf None)"
    "P (RefreshVideoOf (Some (False, n)))" "P (CmChat str)" "P VideoFrameFetched" "P (UserRecord b)" "P (UserAutoAdjustFps fps)"
    "P (OptionEffect (Subscribe NAME_WINDOW_FOCUS b))" for n o1 l b b' str fps
    by (rule p, simp add: of_desktop_def within_options_def service_names)+
  have k: "P (ChangeResolutionTo i x y)" if "keyboard (c_rights (w_conn w))" for i x y
    using that p by (simp add: of_desktop_def)
  have o: "P (OptionEffect x)" if "within_options (env_build e) (c_rights (w_conn w)) x" for x
    using that p by (simp add: of_desktop_def)
  have s: "P (StartAudio x) \<and> P (PlayAudio x)" if "\<not> disable_audio (c_prefs (w_conn w))" for x
    using that p by (simp add: of_desktop_def)
  note d = adds_displays[OF w(1), of False, OF _ q(1-3) k q(10)] and r = adds_render[OF w(1), of False, OF _ q(4,5)]
    and c = adds_change_resolution[OF w(1) k] and v = adds_virtual[OF w(1) _ p]
  show ?thesis
  proof (cases u)
    case (OptionMisc opt)
    have "adds P out (options_arm e opt w)"
      using w o update_options_within by (intro adds_options) (auto simp: option_arm_def list_all_iff)
    then show ?thesis using OptionMisc by (simp add: misc_arm_def Let_def)
  next
    case (SelectedSid i)
    then show ?thesis using w p adds_monitor[OF w(1) p]
      by (simp add: misc_arm_def Let_def) (rule adds_selected_sid; simp add: of_desktop_def)
  next
    case (TogglePrivacyMode on key)
    then show ?thesis using w o by (simp add: misc_arm_def toggle_privacy_mode_def turn_on_privacy_def within_options_def Let_def)
  next
    case (ChatMessage str)
    then show ?thesis using adds_chat[OF w(1)] q by simp
  next
    case (SwitchSidesRequest key)
    then show ?thesis using adds_switch_sides[OF w(1) p a] by (simp add: misc_arm_def)
  next
    case (ElevationRequest para)
    then show ?thesis using w v by (simp add: misc_arm_def Let_def split: option.split)
  next
    case (RestartRemoteDevice b)
    have "P (Reboot b)" if "rights.restart (c_rights (w_conn w))" for b using that p by (simp add: of_desktop_def)
    then show ?thesis using w RestartRemoteDevice by (simp add: misc_arm_def Let_def)
  next
    case (RequestCursorData i)
    have "P (SendCursorData i)" if "keyboard_on w \<or> show_remote_cursor (c_prefs (w_conn w))" 
      using that p by (auto simp: of_desktop_def keyboard_on_def)
    then show ?thesis using w RequestCursorData by (simp add: misc_arm_def Let_def)
  qed (use w d r c v q s adds_audio[OF w(1) s] in \<open>simp_all add: misc_arm_def Let_def\<close>)
qed

lemma dispatch_desktop:
  assumes w: "adds P out w" "c_authed (w_conn w) = Some Remote" "\<not> c_view_camera (w_conn w)" "c_file_transfer (w_conn w) = None"
    and p: "\<And>x. of_desktop e (w_conn w) x \<Longrightarrow> P x" and a: "\<And>x. of_any (w_conn w) x \<Longrightarrow> P x"
  shows "adds P out (snd (dispatch e message w))"
proof -
  have s: "P (StartAudio x) \<and> P (PlayAudio x)" if "\<not> disable_audio (c_prefs (w_conn w))" for x
    using that p by (simp add: of_desktop_def)
  have q: "P CmVoiceCallIncoming" "P CmCloseVoiceCall" "P (VoiceCallInput False)" "P (RefreshVideoOf (Some (False, n)))"
    "P (TakeScreenshot False n str)" "P (SendFs (FsWriteBlock i j bs b))" "P (SendFs (FsWriteDone i j))"
    "P (SendFs (FsCheckDigest i j sz tm b b'))" "P (SendFs (FsWriteError i j str))" for n str i j bs b b' sz tm
    using p a by (simp_all add: of_desktop_def of_any_def)
  have t: "of_terminal (w_conn w) x \<Longrightarrow> P x" for x
    by (rule p) (auto simp: of_desktop_def of_terminal_def split: effect.splits)
  note i = adds_input[OF w(1) p] adds_clipboard[OF w(1) p] adds_print[OF w(1,4) p] misc_desktop[OF w p a] adds_audio[OF w(1) s]
  show ?thesis
    using w q i adds_voice_call[OF w(1)] adds_screenshot[OF w(1), of False] adds_file_response[OF w(1)] adds_terminal_action[OF w(1) t]
    by (cases message) (simp_all add: dispatch_def handle_port_forward_channel_def split: option.split)
qed

text \<open>The messages of the login that a session still answers when it is authorized.\<close>

lemma adds_login_messages:
  assumes w: "adds P out w" "c_authorized (w_conn w)" and p: "\<And>x. of_desktop e (w_conn w) x \<Longrightarrow> P x"
  shows "adds P out (snd (auth_2fa_arm so e code hwid w))" "adds P out (snd (switch_sides_arm so e key olr w))"
proof -
  have q: "P (SendLoginError str)" "P (AlarmAudit al)" "P (CmLogin str str' True)" "P StartCmIpc" for str str' al
    using p by (simp_all add: of_desktop_def)
  have l: "send_logon_response_and_keep_alive so e v = (True, v)" if "c_authorized (w_conn v)" for v
    using that by (simp add: send_logon_response_and_keep_alive_def)
  show "adds P out (snd (auth_2fa_arm so e code hwid w))"
    using w q by (simp add: auth_2fa_arm_def try_start_cm_def l Let_def split: option.split prod.split bool.split)
  show "adds P out (snd (switch_sides_arm so e key olr w))"
    using w q by (simp add: switch_sides_arm_def try_start_cm_def try_start_cm_ipc_def handle_login_request_without_validation_def
        id_whitelist_check_def reset_session_scope_for_login_def l Let_def split: option.split prod.split bool.split)
qed

section \<open>Every message\<close>

lemma code_needs_remote:
  "authorized_scope_violation win (Some t) (Some (Auth2FA code hwid)) = None \<Longrightarrow> t = Remote"
  by (cases t) (auto simp: authorized_scope_violation_def scope_defs is_file_transfer_scoped_message_def
      is_port_forward_scoped_message_def is_terminal_scoped_message_def is_view_camera_scoped_message_def)

lemma dispatch_within:
  assumes i: "kinded (w_conn w)" "c_authed (w_conn w) = Some t" "t = kind_of (c_lr (w_conn w))"
    and s: "authorized_scope_violation (on_windows (env_build e)) (Some t) (Some message) = None"
  shows "adds (within e (w_conn w) t) (w_out w) (snd (dispatch e message w))"
proof -
  have a: "adds (within e (w_conn w) t) (w_out w) w" "within e (w_conn w) t (VoiceCallInput False)"
      "of_any (w_conn w) x \<Longrightarrow> within e (w_conn w) t x" for x
    by (simp_all add: within_def of_any_def)
  have k: "c_file_transfer (w_conn w) = None \<longleftrightarrow> t \<noteq> FileTransfer" "c_view_camera (w_conn w) \<longleftrightarrow> t = ViewCamera"
    using i(1) unfolding kinded_def i(3) by blast+
  note s' = s[unfolded authorized_scope_violation_def, simplified]
  show ?thesis
  proof (cases t)
    case Remote
    with i(2) k a show ?thesis by (intro dispatch_desktop) (simp_all add: within_def)
  next
    case FileTransfer
    with i(2) k a s' show ?thesis by (intro dispatch_files) (simp_all add: within_def)
  next
    case PortForward
    with i(2) k a s' show ?thesis by (intro dispatch_ports) simp_all
  next
    case ViewCamera
    with i(2) k a s' show ?thesis by (intro dispatch_camera) (simp_all add: within_def)
  next
    case Terminal
    with i(2) k a s' show ?thesis by (intro dispatch_shell) (simp_all add: within_def)
  qed
qed

lemma message_arm_within:
  assumes i: "kinded (w_conn w)" "c_authed (w_conn w) = Some t" "t = kind_of (c_lr (w_conn w))" "c_authorized (w_conn w)"
    and s: "authorized_scope_violation (on_windows (env_build e)) (Some t) (Some message) = None"
    and l: "\<not> is_login_request (Some message)"
  shows "adds (within e (w_conn w) t) (w_out w) (snd (message_arm dispatch so m e message w))"
proof -
  have a: "adds (within e (w_conn w) t) (w_out w) w" "of_any (w_conn w) x \<Longrightarrow> within e (w_conn w) t x" for x
    by (simp_all add: within_def)
  have r: "within e (w_conn w) t x" if "t = Remote" "of_desktop e (w_conn w) x" for x using that by (simp add: within_def)
  show ?thesis
  proof (cases message)
    case (Auth2FA code hwid)
    then show ?thesis using adds_login_messages(1)[OF a(1) i(4)] code_needs_remote s r by (auto simp: message_arm_def)
  next
    case (SwitchSidesResponse key olr)
    then show ?thesis using adds_login_messages(2)[OF a(1) i(4)] switch_needs_remote s r by (auto simp: message_arm_def)
  next
    case (TestDelay b pl)
    then show ?thesis using adds_test_delay[OF a] by (simp add: message_arm_def)
  qed (use l a dispatch_within[OF i(1-3) s] in \<open>simp_all add: message_arm_def is_login_request_def\<close>)
qed

lemma on_message_within:
  assumes i: "login_inv so (w_conn w)" "c_authorized (w_conn w)" and t: "t = kind_of (c_lr (w_conn w))"
  shows "adds (within e (w_conn w) t) (w_out w) (snd (on_message so m e message w))"
proof -
  have a: "adds (within e (w_conn w) t) (w_out w) w" "of_any (w_conn w) x \<Longrightarrow> within e (w_conn w) t x" for x
    by (simp_all add: within_def)
  have k: "kinded (w_conn w)" "c_authed (w_conn w) = Some t" using i t by (simp_all add: login_inv_def)
  show ?thesis
    using a adds_on_close[OF a] adds_violation[OF a] message_arm_within[OF k t i(2)] i(2) k(2)
    by (auto simp: on_message_def on_message_with_def split: option.split)
qed

text \<open>
  C2: A session does what its kind and its rights allow, and nothing else. Whatever message the peer of
  an authorized connection sends, at any point of any run, every call that the handler makes is in the
  list of its kind: a session for files asks the file manager only, and with one-way file transfer
  neither reads a file's contents nor removes, renames or creates anything; a session for ports makes no
  call; a camera session has cameras, chat and its calls, never the screen, the input or a file; a
  terminal acts only for the account that was proved; a remote desktop moves the mouse and presses keys
  only with the keyboard right, sets the clipboard only with that right, restarts, blocks the input and
  turns on privacy mode only with the rights to do so, and of the machine's files hands out only what
  was printed for it.
\<close>

theorem session_stays_in_reach:
  assumes "session_run so m (conn_new opts now i ip hash totp control) tr (w_conn w)" "c_authorized (w_conn w)"
    and "on_message so m e message w = (keep, w')"
  shows "\<exists>es. w_out w' = w_out w @ es \<and> list_all (within e (w_conn w) (kind_of (c_lr (w_conn w)))) es"
proof -
  have "login_inv so (w_conn w)" using sess.run_inv[OF assms(1)[unfolded session_run_def] conn_new_inv(1)] .
  from on_message_within[OF this assms(2) refl, of e m message] assms(3) show ?thesis by (simp add: adds_def)
qed

text \<open>A mouse click of the camera session.\<close>

theorem session_stays_in_reach_witness:
  "\<exists>tr c. session_run plain_sodium demo_machine demo_conn tr c \<and> c_authed c = Some ViewCamera
     \<and> list_all (within demo_env c ViewCamera)
         (w_out (snd (on_message plain_sodium demo_machine demo_env (Some (MouseEvent 9 [])) \<lparr>w_conn = c, w_host = demo_host, w_out = []\<rparr>)))"
proof -
  obtain tr c where r: "session_run plain_sodium demo_machine demo_conn tr c" "c_authorized c" "c_authed c = Some ViewCamera"
    by (rule demo_session)
  define w where "w = \<lparr>w_conn = c, w_host = demo_host, w_out = []\<rparr>"
  have w: "w_conn w = c" "w_out w = []" by (simp_all add: w_def)
  have "login_inv plain_sodium c"
    using sess.run_inv[OF r(1)[unfolded session_run_def]] conn_new_inv(1) by (simp add: demo_conn_def)
  then have k: "kind_of (c_lr c) = ViewCamera" using r(2,3) by (simp add: login_inv_def)
  obtain keep w' where o: "on_message plain_sodium demo_machine demo_env (Some (MouseEvent 9 [])) w = (keep, w')" by fastforce
  have "\<exists>es. w_out w' = w_out w @ es \<and> list_all (within demo_env (w_conn w) (kind_of (c_lr (w_conn w)))) es"
    using r(1,2) w by (intro session_stays_in_reach[OF _ _ o, where tr = tr]) (simp_all add: demo_conn_def)
  then show ?thesis using r k o w by (intro exI[of _ tr] exI[of _ c]) (simp add: w_def)
qed

end
