(* ===== verification/Unauthorized.thy ===== *)
theory Unauthorized
  imports BGDesk_Prelude
begin

text \<open>
  The places of connections that are not yet authorized (\<open>admit_unauthorized\<close> and \<open>UnauthorizedID\<close> of
  \<open>src/server/connection.rs\<close>): a bounded list, oldest first, with a share for each address. When the
  room is full a newcomer is refused and the oldest connection is told to go. The registry is process
  wide, so everything that happens to it is a sequence of admissions and of places given back.
\<close>

section \<open>State and operations\<close>

definition MAX_UNAUTHORIZED_CONNS :: nat where "MAX_UNAUTHORIZED_CONNS = 64"
definition MAX_UNAUTHORIZED_CONNS_PER_ADDR :: nat where "MAX_UNAUTHORIZED_CONNS_PER_ADDR = 16"

text \<open>The shared part of a place: whether its connection was told to go, and whether a wake-up is stored.\<close>

record 'ip place =
  pl_id :: int
  pl_ip :: 'ip
  pl_evicted :: bool
  pl_notified :: bool

definition evict :: "'ip place \<Rightarrow> 'ip place" where
  "evict p = (if pl_evicted p then p else p\<lparr>pl_evicted := True, pl_notified := True\<rparr>)"

definition admit_unauthorized :: "int \<Rightarrow> 'ip \<Rightarrow> 'ip place list \<Rightarrow> bool \<times> 'ip place list" where
  "admit_unauthorized i ip conns =
     (if MAX_UNAUTHORIZED_CONNS_PER_ADDR \<le> length (filter (\<lambda>p. pl_ip p = ip) conns) then (False, conns)
      else if MAX_UNAUTHORIZED_CONNS \<le> length conns then
        (False, case conns of [] \<Rightarrow> [] | oldest # rest \<Rightarrow> evict oldest # rest)
      else (True, conns @ [\<lparr>pl_id = i, pl_ip = ip, pl_evicted = False, pl_notified = False\<rparr>]))"

text \<open>A place is given back when the connection is authorized or ends (\<open>Drop for UnauthorizedID\<close>).\<close>

definition give_back :: "int \<Rightarrow> 'ip place list \<Rightarrow> 'ip place list" where
  "give_back i conns = filter (\<lambda>p. pl_id p \<noteq> i) conns"

text \<open>
  What a connection that waits on its place finds (\<open>UnauthorizedID::evicted\<close>): it goes on at once if it
  was told to go or a wake-up is stored, else it waits.
\<close>

definition evicted_resolves :: "'ip place \<Rightarrow> bool" where
  "evicted_resolves p \<longleftrightarrow> pl_evicted p \<or> pl_notified p"

section \<open>Every history\<close>

datatype 'ip place_op = Admit int 'ip | GiveBack int

fun place_step :: "'ip place_op \<Rightarrow> 'ip place list \<Rightarrow> 'ip place list" where
  "place_step (Admit i ip) conns = snd (admit_unauthorized i ip conns)"
| "place_step (GiveBack i) conns = give_back i conns"

definition places :: "'ip place_op list \<Rightarrow> 'ip place list" where
  "places ops = fold place_step ops []"

text \<open>Within the two bounds, and only the oldest may be on its way out.\<close>

definition places_ok :: "'ip place list \<Rightarrow> bool" where
  "places_ok conns \<longleftrightarrow> length conns \<le> MAX_UNAUTHORIZED_CONNS
     \<and> (\<forall>ip. length (filter (\<lambda>p. pl_ip p = ip) conns) \<le> MAX_UNAUTHORIZED_CONNS_PER_ADDR)
     \<and> (\<forall>p \<in> set (tl conns). \<not> pl_evicted p) \<and> (\<forall>p \<in> set conns. pl_evicted p \<longleftrightarrow> pl_notified p)"

lemma evict_simps [simp]: "pl_id (evict p) = pl_id p" "pl_ip (evict p) = pl_ip p" "pl_evicted (evict p)"
  "pl_evicted p = pl_notified p \<Longrightarrow> pl_notified (evict p)"
  by (simp_all add: evict_def)

lemma places_ok_give_back:
  assumes "places_ok conns"
  shows "places_ok (give_back i conns)"
proof -
  let ?f = "filter (\<lambda>p. pl_id p \<noteq> i)"
  have "length (filter (\<lambda>p. pl_ip p = ip) (?f conns)) \<le> length (filter (\<lambda>p. pl_ip p = ip) conns)" for ip
    using length_filter_le[of "\<lambda>p. pl_id p \<noteq> i" "filter (\<lambda>p. pl_ip p = ip) conns"] by (simp add: conj_commute)
  moreover have "set (tl (?f conns)) \<subseteq> set (tl conns)"
  proof (cases conns)
    case (Cons a list)
    have "set (tl xs) \<subseteq> set xs" for xs :: "'a place list" by (cases xs) auto
    from this[of "?f list"] show ?thesis using Cons by auto
  qed simp
  moreover have "length (?f conns) \<le> length conns" by (rule length_filter_le)
  ultimately show ?thesis using assms unfolding places_ok_def give_back_def
    by (meson filter_is_subset order_trans subsetD)
qed

lemma places_ok_admit:
  assumes "places_ok conns"
  shows "places_ok (snd (admit_unauthorized i ip conns))"
  using assms
  by (cases conns) (auto simp: places_ok_def admit_unauthorized_def split: if_splits)

lemma places_ok_step: "places_ok conns \<Longrightarrow> places_ok (place_step op conns)"
  by (cases op) (simp_all add: places_ok_admit places_ok_give_back)

lemma places_ok_places: "places_ok (places ops)"
proof -
  have "places_ok (fold place_step ops conns)" if "places_ok conns" for conns :: "'a place list"
    using that by (induction ops arbitrary: conns) (simp_all add: places_ok_step)
  from this[of "[]"] show ?thesis by (simp add: places_def places_ok_def[of "[]"])
qed

text \<open>
  C24: Connections that have not logged in are bounded, and a flood does not clear them out. After any
  history of arrivals and departures at most 64 of them hold a place and at most 16 of one address; at
  most one, the oldest, is on its way out, and it has been woken. A newcomer is let in exactly when its
  address has less than its share and there is room, and is then the youngest; refusing it changes
  nothing but that, when the room is full, the oldest is told to go, so a burst of refused arrivals
  evicts no more than one.
\<close>

theorem unauthorized_connections_bounded:
  fixes ops :: "'ip place_op list" and ip :: 'ip
  defines "conns \<equiv> places ops"
  shows "length conns \<le> 64 \<and> length (filter (\<lambda>p. pl_ip p = ip) conns) \<le> 16
    \<and> (\<forall>n < length conns. pl_evicted (conns ! n) \<longrightarrow> n = 0 \<and> evicted_resolves (conns ! n))
    \<and> (fst (admit_unauthorized i ip conns) \<longleftrightarrow> length (filter (\<lambda>p. pl_ip p = ip) conns) < 16 \<and> length conns < 64)
    \<and> (fst (admit_unauthorized i ip conns) \<longrightarrow>
         map pl_id (snd (admit_unauthorized i ip conns)) = map pl_id conns @ [i])
    \<and> (\<not> fst (admit_unauthorized i ip conns) \<longrightarrow>
         map pl_id (snd (admit_unauthorized i ip conns)) = map pl_id conns
         \<and> tl (snd (admit_unauthorized i ip conns)) = tl conns
         \<and> (length conns < 64 \<longrightarrow> snd (admit_unauthorized i ip conns) = conns)
         \<and> snd (admit_unauthorized j ip (snd (admit_unauthorized i ip conns))) = snd (admit_unauthorized i ip conns))"
proof -
  have ok: "places_ok conns" by (simp add: conns_def places_ok_places)
  then have "length conns \<le> 64 \<and> length (filter (\<lambda>p. pl_ip p = ip) conns) \<le> 16"
    by (simp add: places_ok_def MAX_UNAUTHORIZED_CONNS_def MAX_UNAUTHORIZED_CONNS_PER_ADDR_def)
  moreover have "n = 0 \<and> evicted_resolves (conns ! n)" if "n < length conns" "pl_evicted (conns ! n)" for n
  proof (cases n)
    case (Suc k)
    then have "conns ! n \<in> set (tl conns)" using that(1) by (cases conns) simp_all
    with ok that(2) show ?thesis by (simp add: places_ok_def)
  qed (use that in \<open>simp add: evicted_resolves_def\<close>)
  moreover have "evict (evict p) = evict p" for p :: "'ip place" by (simp add: evict_def)
  ultimately show ?thesis
    by (auto simp: admit_unauthorized_def MAX_UNAUTHORIZED_CONNS_def MAX_UNAUTHORIZED_CONNS_PER_ADDR_def split: list.splits)
qed

theorem unauthorized_connections_bounded_witness:
  "length (places (map (\<lambda>n. Admit (int n) (n mod 3)) [0..<70])) \<le> 64
   \<and> map pl_id (places (map (\<lambda>n. Admit (int n) (n mod 3)) [0..<50]))
     = map pl_id (snd (admit_unauthorized 50 (0::nat) (places (map (\<lambda>n. Admit (int n) (n mod 3)) [0..<50]))))"
proof -
  have "\<not> fst (admit_unauthorized 50 (0::nat) (places (map (\<lambda>n. Admit (int n) (n mod 3)) [0..<50])))" by code_simp
  then show ?thesis
    using unauthorized_connections_bounded[of "map (\<lambda>n. Admit (int n) (n mod 3)) [0..<70]" 0]
      unauthorized_connections_bounded[of "map (\<lambda>n. Admit (int n) (n mod 3)) [0..<50]" 0 50] by auto
qed

end
