(* ===== verification/Update_Source.thy ===== *)
theory Update_Source
  imports Version_Number
begin

text \<open>
  Where updates come from (\<open>src/update_source.rs\<close>, \<open>src/update_policy.rs\<close>): the versions of releases and
  their order, the addresses of the feed, of a release and of a download, and the clients that use the
  public channel. The origin and the edition are fixed when the program is built.
\<close>

section \<open>Text\<close>

text \<open>\<open>strip_prefix\<close>, \<open>strip_suffix\<close>, \<open>split_once\<close> and \<open>rsplit_once\<close> of \<open>str\<close>.\<close>

definition strip_prefix :: "string \<Rightarrow> string \<Rightarrow> string option" where
  "strip_prefix p s = (if take (length p) s = p then Some (drop (length p) s) else None)"

definition strip_suffix :: "string \<Rightarrow> string \<Rightarrow> string option" where
  "strip_suffix p s = map_option rev (strip_prefix (rev p) (rev s))"

fun split_once :: "char \<Rightarrow> string \<Rightarrow> (string \<times> string) option" where
  "split_once c [] = None"
| "split_once c (x # xs) =
     (if x = c then Some ([], xs) else map_option (\<lambda>(a, b). (x # a, b)) (split_once c xs))"

definition rsplit_once :: "char \<Rightarrow> string \<Rightarrow> (string \<times> string) option" where
  "rsplit_once c s = map_option (\<lambda>(b, a). (rev a, rev b)) (split_once c (rev s))"

section \<open>Releases\<close>

record distribution =
  UPDATE_ORIGIN :: string
  incoming_only :: bool

definition UPDATE_EDITION :: "distribution \<Rightarrow> string" where
  "UPDATE_EDITION d = (if incoming_only d then ''cliente'' else ''suporte'')"

datatype update_error = InvalidVersion | UpdateError string | JsonError | IoError

definition latest_url :: "distribution \<Rightarrow> string" where
  "latest_url d = UPDATE_ORIGIN d @ ''/updates/'' @ UPDATE_EDITION d @ ''/latest.json''"

definition release_url :: "distribution \<Rightarrow> string \<Rightarrow> string" where
  "release_url d release_id = UPDATE_ORIGIN d @ ''/updates/'' @ UPDATE_EDITION d @ ''/'' @ release_id"

text \<open>A part of a version is a number of 16 bits without leading zeros.\<close>

definition version_part :: "string \<Rightarrow> nat option" where
  "version_part s =
     (if 1 < length s \<and> hd s = CHR ''0'' then None
      else case parse_digits s of
             Some n \<Rightarrow> if int n < 65536 then Some n else None
           | None \<Rightarrow> None)"

fun version_values :: "string list \<Rightarrow> nat list option" where
  "version_values [] = Some []"
| "version_values (s # ss) =
     (case version_part s of None \<Rightarrow> None | Some n \<Rightarrow> map_option (Cons n) (version_values ss))"

definition parse_update_version :: "string \<Rightarrow> (update_error, nat list) result" where
  "parse_update_version version =
     (let (base, revision) = (case split_once CHR ''-'' version of Some br \<Rightarrow> br | None \<Rightarrow> (version, ''0''));
          parts = split_char CHR ''.'' base
      in if length parts \<noteq> 3 then Err InvalidVersion
         else case version_values (parts @ [revision]) of
                None \<Rightarrow> Err InvalidVersion
              | Some r \<Rightarrow>
                  if take 3 r = [0, 0, 0] \<or> CHR ''-'' \<in> set version \<and> last r = 0 then Err InvalidVersion
                  else Ok r)"

text \<open>Arrays are compared from the left.\<close>

fun array_less :: "nat list \<Rightarrow> nat list \<Rightarrow> bool" where
  "array_less (x # xs) (y # ys) = (x < y \<or> x = y \<and> array_less xs ys)"
| "array_less [] (y # ys) = True"
| "array_less _ [] = False"

definition is_newer_update :: "string \<Rightarrow> string \<Rightarrow> (update_error, bool) result" where
  "is_newer_update candidate installed =
     (case parse_update_version candidate of
        Inl err \<Rightarrow> Err err
      | Inr c \<Rightarrow>
          (case parse_update_version installed of
             Inl err \<Rightarrow> Err err
           | Inr i \<Rightarrow> Ok (array_less i c)))"

definition display_version_from_release_id :: "string \<Rightarrow> (update_error, string) result" where
  "display_version_from_release_id release_id =
     (let version = (case strip_prefix ''v'' release_id of Some v \<Rightarrow> v | None \<Rightarrow> release_id) in
      case parse_update_version version of Inl err \<Rightarrow> Err err | Inr _ \<Rightarrow> Ok version)"

definition release_id_from_update_url :: "distribution \<Rightarrow> string \<Rightarrow> (update_error, string) result" where
  "release_id_from_update_url d update_url =
     (case strip_prefix (release_url d []) update_url of
        None \<Rightarrow> Err (UpdateError (''Update URL is not a BGDesk '' @ UPDATE_EDITION d @ '' release URL''))
      | Some release_id \<Rightarrow>
          let release_id = (case strip_suffix ''/'' release_id of Some r \<Rightarrow> r | None \<Rightarrow> release_id) in
          (case display_version_from_release_id release_id of Inl err \<Rightarrow> Err err | Inr _ \<Rightarrow> Ok release_id))"

definition is_ascii_alphanumeric :: "char \<Rightarrow> bool" where
  "is_ascii_alphanumeric c \<longleftrightarrow>
     (let n = of_char c :: nat in 48 \<le> n \<and> n \<le> 57 \<or> 65 \<le> n \<and> n \<le> 90 \<or> 97 \<le> n \<and> n \<le> 122)"

text \<open>The names a downloaded file may have.\<close>

definition plain_file_name :: "string \<Rightarrow> bool" where
  "plain_file_name name \<longleftrightarrow>
     name \<noteq> [] \<and> name \<noteq> ''.'' \<and> name \<noteq> ''..''
     \<and> list_all (\<lambda>c. is_ascii_alphanumeric c \<or> c \<in> {CHR ''.'', CHR ''_'', CHR ''-''}) name"

definition download_file_name :: "distribution \<Rightarrow> string \<Rightarrow> string option" where
  "download_file_name d download_url =
     (case rsplit_once CHR ''/'' download_url of
        None \<Rightarrow> None
      | Some (release, file_name) \<Rightarrow>
          if \<not> plain_file_name file_name then None
          else if release = UPDATE_ORIGIN d \<and> strip_prefix (''bgdesk-'' @ UPDATE_EDITION d @ ''-'') file_name \<noteq> None
          then Some file_name
          else case release_id_from_update_url d release of
                 Inl _ \<Rightarrow> None
               | Inr release_id \<Rightarrow>
                   if download_url = release_url d release_id @ ''/'' @ file_name then Some file_name else None)"

section \<open>The channel\<close>

text \<open>\<open>custom_config_loaded\<close> is set once a custom configuration was read and never taken back.\<close>

definition mark_custom_config_loaded :: "bool \<Rightarrow> bool" where
  "mark_custom_config_loaded loaded = True"

definition uses_public_channel :: "bool \<Rightarrow> string \<Rightarrow> bool" where
  "uses_public_channel loaded app_name \<longleftrightarrow> app_name = ''BGDesk'' \<and> \<not> loaded"

section \<open>Text split and joined\<close>

lemma strip_prefix_append [simp]: "strip_prefix p (p @ s) = Some s"
  by (simp add: strip_prefix_def)

lemma strip_prefix_Some: "strip_prefix p s = Some r \<longleftrightarrow> s = p @ r"
  by (auto simp: strip_prefix_def) (metis append_take_drop_id)

lemma strip_suffix_Some: "strip_suffix p s = Some r \<longleftrightarrow> s = r @ p"
proof -
  have "strip_suffix p s = Some r \<longleftrightarrow> (\<exists>x. strip_prefix (rev p) (rev s) = Some x \<and> rev x = r)" by (auto simp: strip_suffix_def)
  also have "\<dots> \<longleftrightarrow> rev s = rev p @ rev r" by (auto simp: strip_prefix_Some)
  finally show ?thesis by (simp add: rev_swap)
qed

lemma split_once_Some: "split_once c s = Some (a, b) \<longleftrightarrow> s = a @ c # b \<and> c \<notin> set a"
proof (induction s arbitrary: a)
  case (Cons x s)
  then show ?case by (cases a) auto
qed simp

lemma split_once_None: "split_once c s = None \<longleftrightarrow> c \<notin> set s"
  by (induction s) auto

lemma rsplit_once_Some: "rsplit_once c s = Some (a, b) \<longleftrightarrow> s = a @ c # b \<and> c \<notin> set b"
proof -
  have "rsplit_once c s = Some (a, b) \<longleftrightarrow> split_once c (rev s) = Some (rev b, rev a)"
    by (auto simp: rsplit_once_def)
  also have "\<dots> \<longleftrightarrow> s = a @ c # b \<and> c \<notin> set b"
    by (simp add: split_once_Some rev_swap)
  finally show ?thesis .
qed

section \<open>Versions and their text\<close>

lemma show_nat_snoc: "0 < n \<Longrightarrow> d < 10 \<Longrightarrow> show_nat (n * 10 + d) = show_nat n @ [''0123456789'' ! d]"
  by (subst show_nat.simps) simp

lemma show_nat_head: "0 < n \<Longrightarrow> hd (show_nat n) \<noteq> CHR ''0''" "show_nat n \<noteq> []"
proof -
  show "show_nat n \<noteq> []" for n by (subst show_nat.simps) simp
  then show "0 < n \<Longrightarrow> hd (show_nat n) \<noteq> CHR ''0''"
  proof (induction n rule: show_nat.induct)
    case (1 n)
    then show ?case
    proof (cases "n < 10")
      case True
      with 1(2) have "n \<in> set [1..<10]" by simp
      with True show ?thesis by (auto simp: show_nat.simps[of n] upt_rec)
    next
      case False
      with 1 show ?thesis by (subst show_nat.simps) simp
    qed
  qed
qed

lemma length_show_nat: "1 < length (show_nat n) \<Longrightarrow> 10 \<le> n"
  by (rule ccontr) (simp add: show_nat.simps[of n])

lemma version_part_show: "n < 65536 \<Longrightarrow> version_part (show_nat n) = Some n"
  using length_show_nat[of n] show_nat_head(1)[of n] by (auto simp: version_part_def parse_show_nat)

lemma digit_val_char: "digit_val 10 c = Some d \<longleftrightarrow> d < 10 \<and> c = ''0123456789'' ! d"
proof
  assume a: "digit_val 10 c = Some d"
  then have d: "d < 10" "of_char c = 48 + d" by (auto simp: digit_val_def Let_def split: if_splits)
  then have "of_char c = (of_char (''0123456789'' ! d) :: nat)"
    by (subgoal_tac "d \<in> set [0..<10]") (auto simp: upt_rec)
  then show "d < 10 \<and> c = ''0123456789'' ! d" using d by (metis char_of_char)
qed (use digit_char in auto)

lemma parse_digits_snoc: "s \<noteq> [] \<Longrightarrow> parse_digits (s @ [c]) = Some n \<longleftrightarrow>
    (\<exists>m d. parse_digits s = Some m \<and> d < 10 \<and> c = ''0123456789'' ! d \<and> n = m * 10 + d)"
  by (auto simp: parse_digits_def digit_val_char digit_char)

text \<open>A part is the usual text of its number.\<close>

lemma parse_digits_text:
  "parse_digits s = Some n \<Longrightarrow> \<not> (1 < length s \<and> hd s = CHR ''0'') \<Longrightarrow> s = show_nat n"
proof (induction s arbitrary: n rule: rev_induct)
  case (snoc c s)
  show ?case
  proof (cases "s = []")
    case True
    with snoc.prems show ?thesis by (auto simp: parse_digits_def digit_val_char show_nat.simps split: if_splits)
  next
    case False
    then obtain m d where m: "parse_digits s = Some m" "d < 10" "c = ''0123456789'' ! d" "n = m * 10 + d"
      using snoc.prems(1) parse_digits_snoc by blast
    have h: "hd s \<noteq> CHR ''0''" using snoc.prems(2) False by (cases s) auto
    then have s: "s = show_nat m" using snoc.IH[OF m(1)] by simp
    have "0 < m"
    proof (rule ccontr)
      assume "\<not> 0 < m"
      with s h show False by (simp add: show_nat.simps)
    qed
    with s m show ?thesis by (simp add: show_nat_snoc)
  qed
qed (simp add: parse_digits_def)

lemma version_part_text: "version_part s = Some n \<longleftrightarrow> s = show_nat n \<and> n < 65536"
  using parse_digits_text[of s n] version_part_show[of n]
  by (auto simp: version_part_def split: if_splits option.splits)

definition update_text :: "nat list \<Rightarrow> string" where
  "update_text v = join_with CHR ''.'' (map show_nat (take 3 v)) @ (if last v = 0 then [] else CHR ''-'' # show_nat (last v))"

definition valid_version :: "nat list \<Rightarrow> bool" where
  "valid_version v \<longleftrightarrow> length v = 4 \<and> list_all (\<lambda>n. n < 65536) v \<and> take 3 v \<noteq> [0, 0, 0]"

lemma join_split: "join_with c (split_char c s) = s"
proof (induction s)
  case (Cons x s)
  then show ?case by (cases "split_char c s" rule: list.exhaust; cases "tl (split_char c s)") auto
qed simp

lemma version_values_text: "version_values ss = Some ns \<longleftrightarrow> ss = map show_nat ns \<and> list_all (\<lambda>n. n < 65536) ns"
proof (induction ss arbitrary: ns)
  case (Cons s ss)
  have "version_values (s # ss) = Some ns \<longleftrightarrow>
      (\<exists>n ms. ns = n # ms \<and> version_part s = Some n \<and> version_values ss = Some ms)"
    by (auto split: option.split)
  also have "\<dots> \<longleftrightarrow> s # ss = map show_nat ns \<and> list_all (\<lambda>n. n < 65536) ns"
    by (cases ns) (auto simp: version_part_text Cons.IH)
  finally show ?case .
qed auto

lemma show_nat_no_sep: "CHR ''-'' \<notin> set (show_nat n)" "CHR ''.'' \<notin> set (show_nat n)" "CHR ''/'' \<notin> set (show_nat n)"
  using show_nat_chars[of n] by auto

lemma length_3_4: "length v = 4 \<longleftrightarrow> (\<exists>a b c r. v = [a, b, c, r])"
  by (auto simp: numeral_eq_Suc length_Suc_conv)

lemma split_join_3:
  "split_char CHR ''.'' (join_with CHR ''.'' (map show_nat [a, b, c])) = map show_nat [a, b, c]"
  using show_nat_no_sep by (simp add: split_char_first)

lemma parse_update_text:
  assumes "valid_version v"
  shows "parse_update_version (update_text v) = Ok v"
proof -
  from assms obtain a b c r where v: "v = [a, b, c, r]" by (auto simp: valid_version_def length_3_4)
  let ?b = "join_with CHR ''.'' (map show_nat [a, b, c])"
  have nb: "CHR ''-'' \<notin> set ?b" using show_nat_no_sep by auto
  have z: "''0'' = show_nat 0" by (simp add: show_nat.simps)
  have vv: "version_values (split_char CHR ''.'' ?b @ [show_nat r]) = Some v"
    using assms unfolding split_join_3 by (simp add: version_part_show v valid_version_def)
  show ?thesis
  proof (cases "r = 0")
    case True
    then have t: "update_text v = ?b" by (simp add: update_text_def v)
    have "split_once CHR ''-'' ?b = None" using nb by (simp only: split_once_None not_False_eq_True)
    with vv nb True assms show ?thesis
      by (simp add: t parse_update_version_def z split_join_3 del: map_append list.map) (simp add: v valid_version_def)
  next
    case False
    then have t: "update_text v = ?b @ CHR ''-'' # show_nat r" by (simp add: update_text_def v)
    have "split_once CHR ''-'' (update_text v) = Some (?b, show_nat r)" using nb unfolding t by (simp only: split_once_Some simp_thms)
    with vv False assms show ?thesis
      by (simp add: parse_update_version_def split_join_3 del: map_append list.map) (simp add: v valid_version_def)
  qed
qed

lemma update_text_parse:
  assumes "parse_update_version s = Ok v"
  shows "valid_version v \<and> s = update_text v"
proof -
  obtain base rev where br: "(case split_once CHR ''-'' s of Some br \<Rightarrow> br | None \<Rightarrow> (s, ''0'')) = (base, rev)" by fastforce
  let ?p = "split_char CHR ''.'' base"
  from assms br have l: "length ?p = 3" and vv: "version_values (?p @ [rev]) = Some v"
    and nz: "take 3 v \<noteq> [0, 0, 0]" and nr: "CHR ''-'' \<in> set s \<longrightarrow> last v \<noteq> 0"
    by (auto simp: parse_update_version_def Let_def split: if_splits option.splits)
  from vv have m: "?p @ [rev] = map show_nat v" and b: "list_all (\<lambda>n. n < 65536) v" by (auto simp: version_values_text)
  have lv: "length v = 4" using l arg_cong[OF m, of length] by simp
  have t: "take 3 v @ [last v] = v" using lv by (auto simp: length_3_4)
  have "?p @ [rev] = map show_nat (take 3 v) @ [show_nat (last v)]" using m t by (metis list.simps(8,9) map_append)
  then have p: "?p = map show_nat (take 3 v)" and r: "rev = show_nat (last v)" by auto
  have base: "base = join_with CHR ''.'' (map show_nat (take 3 v))" using p join_split[of "CHR ''.''" base] by metis
  have "s = update_text v"
  proof (cases "split_once CHR ''-'' s")
    case None
    with br r have "s = base" "show_nat (last v) = ''0''" by auto
    then have "parse_digits ''0'' = Some (last v)" by (metis parse_show_nat)
    then have "last v = 0" by (simp add: parse_digits_def digit_val_def)
    with \<open>s = base\<close> base show ?thesis by (simp add: update_text_def)
  next
    case (Some br')
    with br have sp: "s = base @ CHR ''-'' # rev" by (simp add: split_once_Some)
    with nr have "last v \<noteq> 0" by simp
    with sp base r show ?thesis by (simp add: update_text_def)
  qed
  with lv b nz show ?thesis by (simp add: valid_version_def)
qed

lemma array_less_total:
  "length x = length y \<Longrightarrow> \<not> array_less x x \<and> (array_less x y \<or> x = y \<or> array_less y x)
     \<and> \<not> (array_less x y \<and> array_less y x)"
proof (induction x y rule: list_induct2)
  case (Cons a x b y)
  then show ?case by auto
qed simp

lemma array_less_trans: "array_less x y \<Longrightarrow> array_less y z \<Longrightarrow> array_less x z"
proof (induction x y arbitrary: z rule: array_less.induct)
  case (1 x xs y ys)
  then show ?case by (cases z) auto
next
  case (2 y ys)
  then show ?case by (cases z) auto
qed simp

lemma array_less_lex: "length x = length y \<Longrightarrow>
    array_less x y \<longleftrightarrow> (\<exists>i < length x. take i x = take i y \<and> x ! i < y ! i)"
proof (induction x y rule: list_induct2)
  case (Cons a x b y)
  show ?case
  proof
    assume "array_less (a # x) (b # y)"
    then consider "a < b" | "a = b" "array_less x y" by auto
    then show "\<exists>i < length (a # x). take i (a # x) = take i (b # y) \<and> (a # x) ! i < (b # y) ! i"
    proof cases
      case 1
      then show ?thesis by (intro exI[of _ 0]) simp
    next
      case 2
      with Cons.IH obtain i where "i < length x" "take i x = take i y" "x ! i < y ! i" by auto
      with 2 show ?thesis by (intro exI[of _ "Suc i"]) simp
    qed
  next
    assume "\<exists>i < length (a # x). take i (a # x) = take i (b # y) \<and> (a # x) ! i < (b # y) ! i"
    then obtain i where i: "i < length (a # x)" "take i (a # x) = take i (b # y)" "(a # x) ! i < (b # y) ! i" by blast
    with Cons.IH show "array_less (a # x) (b # y)" by (cases i) auto
  qed
qed simp

section \<open>Releases and downloads\<close>

text \<open>
  C37: The text of a release is its version. Exactly the texts of four numbers of 16 bits, not all of the
  first three zero and the revision left out when it is zero, are accepted, each as those numbers; and one
  text is a newer update than another exactly when it is larger at the first number where they differ.
\<close>

theorem update_order:
  assumes "parse_update_version s = Ok v" "parse_update_version t = Ok w"
  shows "s = update_text v \<and> valid_version v \<and> parse_update_version (update_text w) = Ok w
    \<and> (is_newer_update t s = Ok True \<longleftrightarrow> (\<exists>i < 4. take i v = take i w \<and> v ! i < w ! i))
    \<and> (s = t \<or> is_newer_update s t = Ok True \<or> is_newer_update t s = Ok True)
    \<and> \<not> (is_newer_update s t = Ok True \<and> is_newer_update t s = Ok True)"
proof -
  have v: "valid_version v" "s = update_text v" and w: "valid_version w" "t = update_text w"
    using update_text_parse[OF assms(1)] update_text_parse[OF assms(2)] by auto
  then have l: "length v = 4" "length w = 4" by (auto simp: valid_version_def)
  have n: "is_newer_update t s = Ok (array_less v w)" "is_newer_update s t = Ok (array_less w v)"
    using assms by (simp_all add: is_newer_update_def)
  show ?thesis
    using v w l n parse_update_text[OF w(1)] array_less_lex[of v w] array_less_total[of v w] by auto
qed

theorem update_order_witness:
  "is_newer_update ''1.5.1-10'' ''1.5.1-2'' = Ok True \<and> parse_update_version ''1.5.1-01'' = Err InvalidVersion"
proof -
  have p: "parse_update_version ''1.5.1-2'' = Ok [1, 5, 1, 2]" "parse_update_version ''1.5.1-10'' = Ok [1, 5, 1, 10]"
    "parse_update_version ''1.5.1-01'' = Err InvalidVersion"
    by code_simp+
  have "is_newer_update ''1.5.1-10'' ''1.5.1-2'' = Ok True \<longleftrightarrow>
      (\<exists>i < 4. take i [1, 5, 1, 2 :: nat] = take i [1, 5, 1, 10] \<and> [1, 5, 1, 2 :: nat] ! i < [1, 5, 1, 10] ! i)"
    using update_order[OF p(1,2)] by blast
  moreover have "\<exists>i < 4. take i [1, 5, 1, 2 :: nat] = take i [1, 5, 1, 10] \<and> [1, 5, 1, 2 :: nat] ! i < [1, 5, 1, 10] ! i"
    by (rule exI[of _ 3]) simp
  ultimately show ?thesis using p(3) by blast
qed

lemma no_slash_text:
  assumes "valid_version v"
  shows "CHR ''/'' \<notin> set (update_text v)"
proof -
  obtain a b c r where "v = [a, b, c, r]" using assms by (auto simp: valid_version_def length_3_4)
  then show ?thesis using show_nat_no_sep(3) by (simp add: update_text_def)
qed

lemma no_slash_version:
  assumes "display_version_from_release_id r = Ok v"
  shows "CHR ''/'' \<notin> set r"
proof -
  let ?v = "case strip_prefix ''v'' r of Some v \<Rightarrow> v | None \<Rightarrow> r"
  obtain n where "parse_update_version ?v = Ok n" using assms
    by (auto simp: display_version_from_release_id_def Let_def split: sum.splits)
  then have "?v = update_text n" "valid_version n" using update_text_parse by blast+
  then have "CHR ''/'' \<notin> set ?v" by (simp add: no_slash_text)
  then show ?thesis by (cases "strip_prefix ''v'' r") (auto simp: strip_prefix_Some)
qed

text \<open>
  Downloads come from the own release only. A file name is taken from an address exactly when the name is
  plain, without separators and never a directory step, and the address is either the origin followed by a
  name that starts with the own edition, or the address of a release of the own edition whose id is a valid
  version; nothing else may stand in the address.
\<close>

lemma download_file_name_iff:
  "download_file_name d url = Some name \<longleftrightarrow> plain_file_name name
     \<and> ((\<exists>rest. url = UPDATE_ORIGIN d @ ''/'' @ name \<and> name = ''bgdesk-'' @ UPDATE_EDITION d @ ''-'' @ rest)
        \<or> (\<exists>rid v. url = release_url d rid @ ''/'' @ name \<and> display_version_from_release_id rid = Ok v))"
    (is "?l \<longleftrightarrow> ?r")
proof
  assume ?l
  then obtain release where r: "rsplit_once CHR ''/'' url = Some (release, name)" and p: "plain_file_name name"
    and c: "release = UPDATE_ORIGIN d \<and> strip_prefix (''bgdesk-'' @ UPDATE_EDITION d @ ''-'') name \<noteq> None
      \<or> (\<exists>rid. release_id_from_update_url d release = Ok rid \<and> url = release_url d rid @ ''/'' @ name)"
    by (auto simp: download_file_name_def split: option.splits prod.splits if_splits sum.splits)
  from r have u: "url = release @ ''/'' @ name" by (simp add: rsplit_once_Some)
  from c show ?r
  proof
    assume "release = UPDATE_ORIGIN d \<and> strip_prefix (''bgdesk-'' @ UPDATE_EDITION d @ ''-'') name \<noteq> None"
    with u p show ?r by (auto simp: strip_prefix_Some)
  next
    assume "\<exists>rid. release_id_from_update_url d release = Ok rid \<and> url = release_url d rid @ ''/'' @ name"
    then obtain rid where rid: "release_id_from_update_url d release = Ok rid" "url = release_url d rid @ ''/'' @ name" by blast
    from rid(1) obtain v where "display_version_from_release_id rid = Ok v"
      by (auto simp: release_id_from_update_url_def Let_def split: option.splits sum.splits)
    with rid(2) p show ?r by blast
  qed
next
  assume r: ?r
  then have ns: "CHR ''/'' \<notin> set name" by (auto simp: plain_file_name_def is_ascii_alphanumeric_def list_all_iff Let_def)
  from r show ?l
  proof (elim conjE disjE exE)
    fix rest assume a: "plain_file_name name" "url = UPDATE_ORIGIN d @ ''/'' @ name" "name = ''bgdesk-'' @ UPDATE_EDITION d @ ''-'' @ rest"
    then have "rsplit_once CHR ''/'' url = Some (UPDATE_ORIGIN d, name)"
      "strip_prefix (''bgdesk-'' @ UPDATE_EDITION d @ ''-'') name = Some rest"
      using ns by (simp_all add: rsplit_once_Some strip_prefix_Some)
    with a(1) show ?l by (simp add: download_file_name_def)
  next
    fix rid v assume a: "plain_file_name name" "url = release_url d rid @ ''/'' @ name" "display_version_from_release_id rid = Ok v"
    then have sp: "rsplit_once CHR ''/'' url = Some (release_url d rid, name)" using ns by (simp add: rsplit_once_Some)
    have "release_url d rid = release_url d [] @ rid" by (simp add: release_url_def)
    then have "strip_prefix (release_url d []) (release_url d rid) = Some rid" by (simp only: strip_prefix_append)
    moreover have "strip_suffix ''/'' rid = None"
    proof (rule ccontr)
      assume "strip_suffix ''/'' rid \<noteq> None"
      then obtain r where "rid = r @ ''/''" by (auto simp: strip_suffix_Some)
      with no_slash_version[OF a(3)] show False by simp
    qed
    ultimately have "release_id_from_update_url d (release_url d rid) = Ok rid" using a(3)
      by (simp add: release_id_from_update_url_def)
    then show ?l unfolding download_file_name_def sp using a(1,2)
      by (simp del: append_assoc append.simps append_Cons split: if_splits)
  qed
qed

end
