(* ===== verification/Update_Metadata.thy ===== *)
theory Update_Metadata
  imports Update_Source
begin

text \<open>
  The signed description of a release (\<open>src/update_metadata.rs\<close> and its files \<open>artifact.rs\<close>, \<open>cache.rs\<close> and
  \<open>offline.rs\<close>): the canonical form that is signed, the checks of the signature, of the metadata and of
  each artifact, and the choice of an artifact. JSON, base64, Ed25519 and URL parsing are libraries; the
  record \<open>update_lib\<close> holds what the code calls of them. Text is a list of its UTF-8 bytes.
\<close>

section \<open>Results\<close>

text \<open>The operator \<open>?\<close>, \<open>ok_or_else\<close>, an early return and a loop with early returns.\<close>

definition and_then :: "('e, 'a) result \<Rightarrow> ('a \<Rightarrow> ('e, 'b) result) \<Rightarrow> ('e, 'b) result" where
  "and_then r f = (case r of Inl err \<Rightarrow> Err err | Inr x \<Rightarrow> f x)"

definition ok_or :: "'e \<Rightarrow> 'a option \<Rightarrow> ('e, 'a) result" where
  "ok_or err v = (case v of None \<Rightarrow> Err err | Some x \<Rightarrow> Ok x)"

definition bail_unless :: "bool \<Rightarrow> 'e \<Rightarrow> ('e, unit) result" where
  "bail_unless c err = (if c then Ok () else Err err)"

fun for_each :: "('a \<Rightarrow> ('e, unit) result) \<Rightarrow> 'a list \<Rightarrow> ('e, unit) result" where
  "for_each f [] = Ok ()"
| "for_each f (x # xs) = and_then (f x) (\<lambda>_. for_each f xs)"

section \<open>JSON and the libraries\<close>

datatype json = JNull | JBool bool | JInt int | JFloat string | JStr string
  | JArr "json list" | JObj "(string \<times> json) list"

record UpdateArtifact =
  platform :: string
  arch :: string
  a_format :: string
  a_url :: string
  file_name :: string
  a_size :: u64
  a_sha256 :: string

record UpdateMetadata =
  m_schema_version :: u32
  m_app :: string
  package_id :: string
  m_version :: string
  release_id :: string
  published_at :: string
  signature_key_id :: string
  artifacts :: "UpdateArtifact list"

record UpdateSignature =
  s_schema_version :: u32
  s_algorithm :: string
  s_key_id :: string
  s_signature :: string

record TrustedUpdateKey =
  t_key_id :: string
  t_algorithm :: string
  public_key :: bytes

record UpdateArtifactQuery =
  q_platform :: string
  q_arch :: string
  q_format :: string

record VerifiedUpdateArtifact =
  v_version :: string
  v_url :: string
  v_file_name :: string
  v_size :: u64
  v_sha256 :: string

record VerifiedUpdateFeed =
  metadata :: UpdateMetadata
  signed_bytes :: bytes

record parsed_url =
  url_scheme :: string
  url_host :: "string option"
  url_username :: string
  url_password :: "string option"
  url_query :: "string option"
  url_fragment :: "string option"
  path_segments :: "string list option"

record update_lib =
  json_from_slice :: "bytes \<Rightarrow> json option"
  json_to_vec :: "json \<Rightarrow> bytes option"
  metadata_from_value :: "json \<Rightarrow> UpdateMetadata option"
  signature_from_value :: "json \<Rightarrow> UpdateSignature option"
  metadata_from_slice :: "bytes \<Rightarrow> UpdateMetadata option"
  signature_from_slice :: "bytes \<Rightarrow> UpdateSignature option"
  header_from_slice :: "bytes \<Rightarrow> (string \<times> string) option"
  base64_decode :: "string \<Rightarrow> bytes option"
  base64_encode :: "bytes \<Rightarrow> string"
  signature_from_bytes :: "bytes \<Rightarrow> bytes option"
  sodium_init :: bool
  verify_detached :: "bytes \<Rightarrow> bytes \<Rightarrow> bytes \<Rightarrow> bool"
  url_parse :: "string \<Rightarrow> parsed_url option"

section \<open>Constants\<close>

definition UPDATE_METADATA_SIGNATURE_CONTEXT :: bytes where
  "UPDATE_METADATA_SIGNATURE_CONTEXT = map of_char ''RustDesk update metadata v1'' @ [10]"

definition UPDATE_APP :: string where "UPDATE_APP = ''rustdesk''"

definition PUBLIC_UPDATE_PACKAGE_ID :: "distribution \<Rightarrow> string" where
  "PUBLIC_UPDATE_PACKAGE_ID d = (if incoming_only d then ''bgdesk-cliente'' else ''bgdesk-suporte'')"

definition METADATA_SCHEMA_VERSION :: u32 where "METADATA_SCHEMA_VERSION = 1"

definition SIGNATURE_SCHEMA_VERSION :: u32 where "SIGNATURE_SCHEMA_VERSION = 1"

definition SIGNATURE_ALGORITHM :: string where "SIGNATURE_ALGORITHM = ''ed25519''"

definition TRUSTED_UPDATE_KEYS :: "TrustedUpdateKey list" where
  "TRUSTED_UPDATE_KEYS = [\<lparr>t_key_id = ''2026-ed25519-main'', t_algorithm = ''ed25519'', public_key =
     [216, 205, 180, 221, 208, 19, 159, 110, 172, 79, 199, 41, 94, 5, 118, 141, 178, 184, 136,
      207, 85, 25, 152, 88, 203, 103, 254, 79, 163, 246, 165, 116]\<rparr>]"

section \<open>The canonical form\<close>

text \<open>A \<open>BTreeMap\<close> keeps its keys in the order of their bytes; a later entry replaces an earlier one.\<close>

definition str_less :: "string \<Rightarrow> string \<Rightarrow> bool" where
  "str_less a b = array_less (map of_char a) (map of_char b)"

fun btree_insert :: "string \<Rightarrow> 'a \<Rightarrow> (string \<times> 'a) list \<Rightarrow> (string \<times> 'a) list" where
  "btree_insert k v [] = [(k, v)]"
| "btree_insert k v ((k', v') # t) =
     (if k = k' then (k, v) # t
      else if str_less k k' then (k, v) # (k', v') # t
      else (k', v') # btree_insert k v t)"

definition btree :: "(string \<times> 'a) list \<Rightarrow> (string \<times> 'a) list" where
  "btree kvs = foldl (\<lambda>t (k, v). btree_insert k v t) [] kvs"

primrec Canonical :: "json \<Rightarrow> json" where
  "Canonical JNull = JNull"
| "Canonical (JBool b) = JBool b"
| "Canonical (JInt n) = JInt n"
| "Canonical (JFloat f) = JFloat f"
| "Canonical (JStr s) = JStr s"
| "Canonical (JArr xs) = JArr (map Canonical xs)"
| "Canonical (JObj kvs) = JObj (btree (map (map_prod id Canonical) kvs))"

definition canonical_latest_json :: "update_lib \<Rightarrow> json \<Rightarrow> (update_error, bytes) result" where
  "canonical_latest_json lib v = ok_or JsonError (json_to_vec lib (Canonical v))"

section \<open>Artifacts\<close>

datatype ArtifactUrlPolicy = ExactPrefix string | ReleaseOrRoot string string | SignedHttps

definition validate_artifact_file_name :: "string \<Rightarrow> (update_error, unit) result" where
  "validate_artifact_file_name name =
     (if name = [] \<or> name = ''.'' \<or> name = ''..''
         \<or> \<not> list_all (\<lambda>c. is_ascii_alphanumeric c \<or> c \<in> {CHR ''.'', CHR ''_'', CHR ''-''}) name
      then Err (UpdateError ''invalid update artifact file name'') else Ok ())"

definition is_ascii_hexdigit :: "char \<Rightarrow> bool" where
  "is_ascii_hexdigit c \<longleftrightarrow>
     (let n = of_char c :: nat in 48 \<le> n \<and> n \<le> 57 \<or> 65 \<le> n \<and> n \<le> 70 \<or> 97 \<le> n \<and> n \<le> 102)"

definition is_sha256_hex :: "string \<Rightarrow> bool" where
  "is_sha256_hex v \<longleftrightarrow> length v = 64 \<and> list_all is_ascii_hexdigit v"

definition validate_artifact_url_policy ::
  "UpdateArtifact \<Rightarrow> parsed_url \<Rightarrow> ArtifactUrlPolicy \<Rightarrow> (update_error, unit) result" where
  "validate_artifact_url_policy a u policy =
     (case policy of
        ExactPrefix prefix \<Rightarrow>
          if a_url a \<noteq> prefix @ file_name a
          then Err (UpdateError ''update artifact URL is outside expected release prefix'') else Ok ()
      | ReleaseOrRoot release_prefix root_prefix \<Rightarrow>
          if a_url a \<noteq> release_prefix @ file_name a \<and> a_url a \<noteq> root_prefix @ file_name a
          then Err (UpdateError ''update artifact URL is outside the release and download root'') else Ok ()
      | SignedHttps \<Rightarrow>
          if url_scheme u \<noteq> ''https'' \<or> url_host u = None \<or> url_username u \<noteq> [] \<or> url_password u \<noteq> None
          then Err (UpdateError ''signed update artifact URL must be an HTTPS URL without credentials'') else Ok ())"

definition validate_artifact ::
  "update_lib \<Rightarrow> UpdateArtifact \<Rightarrow> ArtifactUrlPolicy \<Rightarrow> (update_error, unit) result" where
  "validate_artifact lib a policy =
     and_then (validate_artifact_file_name (file_name a)) (\<lambda>_.
     and_then (bail_unless (is_sha256_hex (a_sha256 a)) (UpdateError ''invalid update artifact sha256'')) (\<lambda>_.
     and_then (ok_or (UpdateError ''invalid update artifact URL'') (url_parse lib (a_url a))) (\<lambda>u.
     and_then (bail_unless (url_query u = None \<and> url_fragment u = None)
       (UpdateError ''update artifact URL must not contain query or fragment'')) (\<lambda>_.
     and_then (validate_artifact_url_policy a u policy) (\<lambda>_.
     and_then (ok_or (UpdateError ''update artifact URL has no basename'')
       (case path_segments u of Some (s # ss) \<Rightarrow> Some (last (s # ss)) | _ \<Rightarrow> None)) (\<lambda>basename.
     bail_unless (basename = file_name a) (UpdateError ''update artifact URL basename mismatch'')))))))"

definition select_artifact ::
  "UpdateMetadata \<Rightarrow> UpdateArtifactQuery \<Rightarrow> (update_error, UpdateArtifact) result" where
  "select_artifact md q =
     (case filter (\<lambda>a. platform a = q_platform q \<and> arch a = q_arch q \<and> a_format a = q_format q) (artifacts md) of
        [] \<Rightarrow> Err (UpdateError ''matching update artifact not found'')
      | [a] \<Rightarrow> Ok a
      | _ \<Rightarrow> Err (UpdateError ''multiple matching update artifacts found''))"

definition verified_artifact :: "UpdateMetadata \<Rightarrow> UpdateArtifact \<Rightarrow> VerifiedUpdateArtifact" where
  "verified_artifact md a = \<lparr>v_version = m_version md, v_url = a_url a, v_file_name = file_name a,
     v_size = a_size a, v_sha256 = a_sha256 a\<rparr>"

definition feed_artifact ::
  "VerifiedUpdateFeed \<Rightarrow> UpdateArtifactQuery \<Rightarrow> (update_error, VerifiedUpdateArtifact) result" where
  "feed_artifact feed q =
     and_then (select_artifact (metadata feed) q) (\<lambda>a. Ok (verified_artifact (metadata feed) a))"

definition feed_version :: "VerifiedUpdateFeed \<Rightarrow> string" where
  "feed_version feed = m_version (metadata feed)"

section \<open>Signature and metadata\<close>

definition validate_signature_schema :: "UpdateSignature \<Rightarrow> (update_error, unit) result" where
  "validate_signature_schema sg =
     (if s_schema_version sg \<noteq> SIGNATURE_SCHEMA_VERSION
      then Err (UpdateError ''unsupported update signature schema version'')
      else if s_algorithm sg \<noteq> SIGNATURE_ALGORITHM
      then Err (UpdateError ''unsupported update signature algorithm'')
      else Ok ())"

definition decode_signature :: "update_lib \<Rightarrow> string \<Rightarrow> (update_error, bytes) result" where
  "decode_signature lib encoded =
     and_then (ok_or (UpdateError ''invalid update signature base64'') (base64_decode lib encoded)) (\<lambda>decoded.
     if length decoded \<noteq> 64 \<or> base64_encode lib decoded \<noteq> encoded
     then Err (UpdateError ''invalid update signature length or encoding'')
     else ok_or (UpdateError ''invalid update signature bytes'') (signature_from_bytes lib decoded))"

definition verify_metadata_signature ::
  "update_lib \<Rightarrow> bytes \<Rightarrow> bytes \<Rightarrow> TrustedUpdateKey \<Rightarrow> (update_error, unit) result" where
  "verify_metadata_signature lib bs sig key =
     and_then (bail_unless (sodium_init lib) (UpdateError ''failed to initialize sodiumoxide'')) (\<lambda>_.
     bail_unless (verify_detached lib sig (UPDATE_METADATA_SIGNATURE_CONTEXT @ bs) (public_key key))
       (UpdateError ''invalid update metadata signature''))"

definition find_key :: "UpdateSignature \<Rightarrow> TrustedUpdateKey list \<Rightarrow> TrustedUpdateKey option" where
  "find_key sg keys = List.find (\<lambda>k. t_key_id k = s_key_id sg \<and> t_algorithm k = s_algorithm sg) keys"

record VerificationOptions =
  expected_version :: string
  expected_release_id :: string
  o_artifact :: UpdateArtifactQuery
  expected_package_id :: string
  artifact_url_policy :: ArtifactUrlPolicy
  trusted_keys :: "TrustedUpdateKey list"

definition validate_metadata ::
  "UpdateMetadata \<Rightarrow> UpdateSignature \<Rightarrow> VerificationOptions \<Rightarrow> (update_error, unit) result" where
  "validate_metadata md sg opts =
     (if m_schema_version md \<noteq> METADATA_SCHEMA_VERSION
      then Err (UpdateError ''unsupported update metadata schema version'')
      else if signature_key_id md \<noteq> s_key_id sg
      then Err (UpdateError ''update metadata signature key id mismatch'')
      else if m_app md \<noteq> UPDATE_APP then Err (UpdateError ''update metadata app mismatch'')
      else if package_id md \<noteq> expected_package_id opts
      then Err (UpdateError ''update metadata package id is not allowed'')
      else if expected_version opts \<noteq> m_version md
      then Err (UpdateError ''update metadata version mismatch'')
      else if expected_release_id opts \<noteq> release_id md
      then Err (UpdateError ''update metadata release id mismatch'')
      else for_each (\<lambda>a. validate_artifact_file_name (file_name a)) (artifacts md))"

section \<open>The feed\<close>

definition remove_signature :: "json \<Rightarrow> (json \<times> json) option" where
  "remove_signature document =
     (case document of
        JObj kvs \<Rightarrow>
          (case map_of kvs ''signature'' of
             Some sg \<Rightarrow> Some (sg, JObj (filter (\<lambda>(k, _). k \<noteq> ''signature'') kvs))
           | None \<Rightarrow> None)
      | _ \<Rightarrow> None)"

fun check_artifacts ::
  "update_lib \<Rightarrow> distribution \<Rightarrow> ArtifactUrlPolicy \<Rightarrow> (string \<times> string \<times> string) list \<Rightarrow> string list
    \<Rightarrow> UpdateArtifact list \<Rightarrow> (update_error, unit) result" where
  "check_artifacts lib d policy selectors names [] = Ok ()"
| "check_artifacts lib d policy selectors names (a # as) =
     and_then (validate_artifact lib a policy) (\<lambda>_.
     if a_size a = 0 \<or> download_file_name d (a_url a) \<noteq> Some (file_name a)
        \<or> (platform a, arch a, a_format a) \<in> set selectors \<or> file_name a \<in> set names
     then Err (UpdateError ''invalid or duplicate latest update artifact'')
     else check_artifacts lib d policy ((platform a, arch a, a_format a) # selectors) (file_name a # names) as)"

definition verify_latest_feed_with_keys ::
  "update_lib \<Rightarrow> distribution \<Rightarrow> bytes \<Rightarrow> TrustedUpdateKey list \<Rightarrow> (update_error, VerifiedUpdateFeed) result" where
  "verify_latest_feed_with_keys lib d bs keys =
     and_then (ok_or (UpdateError ''invalid latest.json'') (json_from_slice lib bs)) (\<lambda>document.
     and_then (ok_or (UpdateError ''latest.json is missing its signature'') (remove_signature document))
       (\<lambda>(sg_value, document).
     and_then (ok_or (UpdateError ''invalid latest signature'') (signature_from_value lib sg_value)) (\<lambda>sg.
     and_then (validate_signature_schema sg) (\<lambda>_.
     and_then (ok_or (UpdateError ''unsupported update signature key'') (find_key sg keys)) (\<lambda>key.
     and_then (canonical_latest_json lib document) (\<lambda>canonical.
     and_then (decode_signature lib (s_signature sg)) (\<lambda>sig.
     and_then (verify_metadata_signature lib canonical sig key) (\<lambda>_.
     and_then (ok_or JsonError (metadata_from_value lib document)) (\<lambda>md.
     and_then (parse_update_version (m_version md)) (\<lambda>_.
     and_then (display_version_from_release_id (release_id md)) (\<lambda>version.
     and_then (bail_unless (version = m_version md) (UpdateError ''update metadata release id mismatch'')) (\<lambda>_.
     let policy = ExactPrefix (UPDATE_ORIGIN d @ ''/'');
         opts = \<lparr>expected_version = m_version md, expected_release_id = release_id md,
                  o_artifact = \<lparr>q_platform = [], q_arch = [], q_format = []\<rparr>,
                  expected_package_id = PUBLIC_UPDATE_PACKAGE_ID d, artifact_url_policy = policy,
                  trusted_keys = keys\<rparr> in
     and_then (validate_metadata md sg opts) (\<lambda>_.
     and_then (bail_unless (artifacts md \<noteq> []) (UpdateError ''latest.json contains no update artifacts'')) (\<lambda>_.
     and_then (check_artifacts lib d policy [] [] (artifacts md)) (\<lambda>_.
     Ok \<lparr>metadata = md, signed_bytes = bs\<rparr>)))))))))))))))"

definition verify_latest_feed ::
  "update_lib \<Rightarrow> distribution \<Rightarrow> bytes \<Rightarrow> (update_error, VerifiedUpdateFeed) result" where
  "verify_latest_feed lib d bs = verify_latest_feed_with_keys lib d bs TRUSTED_UPDATE_KEYS"

section \<open>Metadata with its signature in a second file\<close>

definition verify_update_metadata_with_options ::
  "update_lib \<Rightarrow> bytes \<Rightarrow> bytes \<Rightarrow> VerificationOptions \<Rightarrow> (update_error, VerifiedUpdateArtifact) result" where
  "verify_update_metadata_with_options lib metadata_bytes signature_bytes opts =
     and_then (ok_or (UpdateError ''invalid update signature JSON'') (signature_from_slice lib signature_bytes)) (\<lambda>sg.
     and_then (validate_signature_schema sg) (\<lambda>_.
     and_then (decode_signature lib (s_signature sg)) (\<lambda>sig.
     and_then (ok_or (UpdateError ''unsupported update signature key'') (find_key sg (trusted_keys opts))) (\<lambda>key.
     and_then (verify_metadata_signature lib metadata_bytes sig key) (\<lambda>_.
     and_then (ok_or (UpdateError ''invalid update metadata JSON'') (metadata_from_slice lib metadata_bytes)) (\<lambda>md.
     and_then (validate_metadata md sg opts) (\<lambda>_.
     and_then (select_artifact md (o_artifact opts)) (\<lambda>a.
     and_then (validate_artifact lib a (artifact_url_policy opts)) (\<lambda>_.
     Ok (verified_artifact md a))))))))))"

definition verify_update_metadata ::
  "update_lib \<Rightarrow> distribution \<Rightarrow> bytes \<Rightarrow> bytes \<Rightarrow> string \<Rightarrow> string \<Rightarrow> string \<Rightarrow> UpdateArtifactQuery
    \<Rightarrow> (update_error, VerifiedUpdateArtifact) result" where
  "verify_update_metadata lib d metadata_bytes signature_bytes version rid prefix q =
     verify_update_metadata_with_options lib metadata_bytes signature_bytes
       \<lparr>expected_version = version, expected_release_id = rid, o_artifact = q,
        expected_package_id = PUBLIC_UPDATE_PACKAGE_ID d,
        artifact_url_policy = ReleaseOrRoot prefix (UPDATE_ORIGIN d @ ''/''), trusted_keys = TRUSTED_UPDATE_KEYS\<rparr>"

definition verify_offline_update_metadata_with_options ::
  "update_lib \<Rightarrow> bytes \<Rightarrow> bytes \<Rightarrow> string \<Rightarrow> string \<Rightarrow> UpdateArtifactQuery \<Rightarrow> TrustedUpdateKey list
    \<Rightarrow> (update_error, VerifiedUpdateArtifact) result" where
  "verify_offline_update_metadata_with_options lib metadata_bytes signature_bytes local_file_name pkg q keys =
     and_then (ok_or (UpdateError ''invalid update metadata JSON'') (header_from_slice lib metadata_bytes)) (\<lambda>(h_version, h_release_id).
     and_then (display_version_from_release_id h_release_id) (\<lambda>version.
     and_then (bail_unless (h_version = version) (UpdateError ''offline update metadata version and release id mismatch'')) (\<lambda>_.
     and_then (verify_update_metadata_with_options lib metadata_bytes signature_bytes
       \<lparr>expected_version = version, expected_release_id = h_release_id, o_artifact = q, expected_package_id = pkg,
        artifact_url_policy = SignedHttps, trusted_keys = keys\<rparr>) (\<lambda>a.
     and_then (bail_unless (v_file_name a = local_file_name) (UpdateError ''local update file name does not match signed metadata'')) (\<lambda>_.
     Ok a)))))"

definition verify_offline_update_metadata ::
  "update_lib \<Rightarrow> bytes \<Rightarrow> bytes \<Rightarrow> string \<Rightarrow> string \<Rightarrow> UpdateArtifactQuery
    \<Rightarrow> (update_error, VerifiedUpdateArtifact) result" where
  "verify_offline_update_metadata lib metadata_bytes signature_bytes local_file_name pkg q =
     verify_offline_update_metadata_with_options lib metadata_bytes signature_bytes local_file_name pkg q TRUSTED_UPDATE_KEYS"

section \<open>Results that succeed\<close>

lemma and_then_Ok: "and_then r f = Ok y \<longleftrightarrow> (\<exists>x. r = Ok x \<and> f x = Ok y)"
  by (cases r) (simp_all add: and_then_def)

lemma ok_or_Ok: "ok_or err v = Ok x \<longleftrightarrow> v = Some x"
  by (simp add: ok_or_def split: option.split)

lemma bail_unless_Ok: "bail_unless c err = Ok u \<longleftrightarrow> c"
  by (simp add: bail_unless_def)

lemmas result_ok = and_then_Ok ok_or_Ok bail_unless_Ok

lemma for_each_Ok: "for_each f xs = Ok u \<longleftrightarrow> list_all (\<lambda>x. f x = Ok ()) xs"
  by (induction xs) (simp_all add: and_then_Ok)

lemma validate_file_name_Ok: "validate_artifact_file_name n = Ok u \<longleftrightarrow> plain_file_name n"
  by (auto simp: validate_artifact_file_name_def plain_file_name_def)

section \<open>The canonical form forgets the order of keys and nothing else\<close>

lemma array_less_cases: "array_less x y \<or> x = y \<or> array_less y x"
proof (induction x y rule: array_less.induct)
  case (3 x)
  then show ?case by (cases x) auto
qed auto

lemma array_less_irrefl: "\<not> array_less x x"
  by (induction x) auto

lemma map_of_char_inj: "map (of_char :: char \<Rightarrow> nat) a = map of_char b \<longleftrightarrow> a = b"
  by (rule inj_map_eq_map) (rule injI, simp)

lemma str_less_cases: "str_less a b \<or> a = b \<or> str_less b a"
  using array_less_cases[of "map of_char a" "map of_char b"] by (simp add: str_less_def map_of_char_inj)

lemma str_less_irrefl [simp]: "\<not> str_less a a"
  by (simp add: str_less_def array_less_irrefl)

lemma str_less_trans: "str_less a b \<Longrightarrow> str_less b c \<Longrightarrow> str_less a c"
  unfolding str_less_def by (rule array_less_trans)

abbreviation key_sorted :: "(string \<times> 'a) list \<Rightarrow> bool" where
  "key_sorted \<equiv> sorted_wrt (\<lambda>p q. str_less (fst p) (fst q))"

lemma btree_insert_keys: "fst ` set (btree_insert k v t) = insert k (fst ` set t)"
  by (induction k v t rule: btree_insert.induct) auto

lemma btree_insert_sorted: "key_sorted t \<Longrightarrow> key_sorted (btree_insert k v t)"
proof (induction k v t rule: btree_insert.induct)
  case (2 k v k' v' t)
  have t: "\<forall>p \<in> set t. str_less k' (fst p)" using "2.prems" by simp
  have ins: "\<forall>p \<in> set (btree_insert k v t). fst p = k \<or> fst p \<in> fst ` set t"
    using btree_insert_keys[of k v t] by (metis image_eqI insertE)
  consider "k = k'" | "k \<noteq> k'" "str_less k k'" | "k \<noteq> k'" "\<not> str_less k k'" "str_less k' k"
    using str_less_cases[of k k'] by blast
  then show ?case
  proof cases
    case 1
    with "2.prems" show ?thesis by simp
  next
    case 2
    then have "\<forall>p \<in> set t. str_less k (fst p)" using t str_less_trans by blast
    with 2 "2.prems" show ?thesis by simp
  next
    case 3
    have "\<forall>p \<in> set (btree_insert k v t). str_less k' (fst p)" using ins t 3(3) by fastforce
    with 3 "2.prems" "2.IH" show ?thesis by simp
  qed
qed simp

lemma btree_insert_mset: "k \<notin> fst ` set t \<Longrightarrow> set (btree_insert k v t) = insert (k, v) (set t)"
  by (induction k v t rule: btree_insert.induct) auto

lemma btree_snoc: "btree (kvs @ [(k, v)]) = btree_insert k v (btree kvs)"
  by (simp add: btree_def)

lemma btree_Nil: "btree [] = []"
  by (simp add: btree_def)

lemma btree_sorted: "key_sorted (btree kvs)"
proof (induction kvs rule: rev_induct)
  case (snoc p kvs)
  then show ?case by (cases p) (simp add: btree_snoc btree_insert_sorted)
qed (simp add: btree_Nil)

lemma btree_set: "distinct (map fst kvs) \<Longrightarrow> set (btree kvs) = set kvs"
proof (induction kvs rule: rev_induct)
  case (snoc p kvs)
  obtain k v where p: "p = (k, v)" by fastforce
  have s: "set (btree kvs) = set kvs" using snoc by simp
  with snoc.prems p have "k \<notin> fst ` set (btree kvs)" by simp
  with p s show ?case by (simp add: btree_snoc btree_insert_mset)
qed (simp add: btree_Nil)

lemma key_sorted_unique: "key_sorted xs \<Longrightarrow> key_sorted ys \<Longrightarrow> set xs = set ys \<Longrightarrow> xs = ys"
proof (induction xs arbitrary: ys)
  case (Cons x xs)
  then obtain y ys' where ys: "ys = y # ys'" by (cases ys) auto
  have lx: "\<forall>p \<in> set xs. str_less (fst x) (fst p)" and ly: "\<forall>p \<in> set ys'. str_less (fst y) (fst p)"
    using Cons.prems ys by auto
  have xy: "x = y"
  proof (rule ccontr)
    assume "x \<noteq> y"
    with Cons.prems(3) ys have "x \<in> set ys'" "y \<in> set xs" by auto
    with lx ly str_less_trans show False by (metis str_less_irrefl)
  qed
  have "x \<notin> set xs" "y \<notin> set ys'" using lx ly by auto
  with Cons.prems(3) ys xy have "set xs = set ys'" by auto
  with Cons ys xy show ?case by auto
qed simp

lemma key_sorted_distinct: "key_sorted t \<Longrightarrow> distinct (map fst t)"
proof (induction t)
  case (Cons p t)
  then have "fst p \<notin> fst ` set t" by (metis imageE sorted_wrt.simps(2) str_less_irrefl)
  with Cons show ?case by simp
qed simp

lemma btree_map_of: "distinct (map fst kvs) \<Longrightarrow> map_of (btree kvs) = map_of kvs"
  by (simp add: map_of_inject_set key_sorted_distinct btree_sorted btree_set)

text \<open>Two documents are the same when they differ only in the order of the entries of objects.\<close>

inductive same_json :: "json \<Rightarrow> json \<Rightarrow> bool" where
  same_atom: "same_json v v"
| same_arr: "list_all2 same_json xs ys \<Longrightarrow> same_json (JArr xs) (JArr ys)"
| same_obj: "(\<And>k. rel_option same_json (map_of xs k) (map_of ys k)) \<Longrightarrow> same_json (JObj xs) (JObj ys)"

inductive_cases same_arrE: "same_json (JArr xs) v"
inductive_cases same_objE: "same_json (JObj xs) v"

text \<open>The keys of an object are distinct, at every depth.\<close>

primrec keys_distinct :: "json \<Rightarrow> bool" where
  "keys_distinct JNull = True"
| "keys_distinct (JBool b) = True"
| "keys_distinct (JInt n) = True"
| "keys_distinct (JFloat f) = True"
| "keys_distinct (JStr s) = True"
| "keys_distinct (JArr xs) = list_all id (map keys_distinct xs)"
| "keys_distinct (JObj kvs) = (distinct (map fst kvs) \<and> list_all snd (map (map_prod id keys_distinct) kvs))"

lemma keys_distinct_arr: "keys_distinct (JArr xs) \<longleftrightarrow> (\<forall>x \<in> set xs. keys_distinct x)"
  by (simp add: list_all_iff)

lemma keys_distinct_obj:
  "keys_distinct (JObj kvs) \<longleftrightarrow> distinct (map fst kvs) \<and> (\<forall>p \<in> set kvs. keys_distinct (snd p))"
  by (simp add: list_all_iff)

lemma keys_distinct_lookup: "keys_distinct (JObj kvs) \<Longrightarrow> map_of kvs k = Some v \<Longrightarrow> keys_distinct v"
  unfolding keys_distinct_obj by (metis map_of_SomeD snd_conv)

lemma map_of_canonical: "map_of (map (map_prod id Canonical) xs) k = map_option Canonical (map_of xs k)"
  by (induction xs) auto

lemma same_json_sym: "same_json v w \<Longrightarrow> same_json w v"
proof (induction rule: same_json.induct)
  case (same_arr xs ys)
  then show ?case by (intro same_json.same_arr) (auto simp: list_all2_conv_all_nth)
next
  case (same_obj xs ys)
  have "rel_option same_json (map_of ys k) (map_of xs k)" for k
    using same_obj[of k] by (cases "map_of xs k"; cases "map_of ys k") auto
  then show ?case by (rule same_json.same_obj)
qed (rule same_atom)

lemma same_json_trans: "same_json v w \<Longrightarrow> same_json w u \<Longrightarrow> same_json v u"
proof (induction arbitrary: u rule: same_json.induct)
  case (same_arr xs ys)
  from same_arr.prems consider "u = JArr ys" | zs where "u = JArr zs" "list_all2 same_json ys zs"
    by (auto elim: same_arrE)
  then show ?case
  proof cases
    case 1
    with same_arr.IH show ?thesis by (auto intro!: same_json.same_arr elim: list_all2_mono)
  next
    case (2 zs)
    with same_arr.IH show ?thesis by (auto intro!: same_json.same_arr simp: list_all2_conv_all_nth)
  qed
next
  case (same_obj xs ys)
  from same_obj.prems consider "u = JObj ys" | zs where "u = JObj zs" "\<And>k. rel_option same_json (map_of ys k) (map_of zs k)"
    by (auto elim: same_objE)
  then show ?case
  proof cases
    case 1
    have "rel_option same_json (map_of xs k) (map_of ys k)" for k
      using same_obj.IH[of k] by (rule option.rel_mono_strong) simp
    with 1 show ?thesis by (simp add: same_json.same_obj)
  next
    case (2 zs)
    have "rel_option same_json (map_of xs k) (map_of zs k)" for k
      using same_obj.IH[of k] 2(2)[of k]
      by (cases "map_of xs k"; cases "map_of ys k"; cases "map_of zs k") auto
    with 2(1) show ?thesis by (simp add: same_json.same_obj)
  qed
qed

lemma canonical_same: "same_json v w \<Longrightarrow> keys_distinct v \<Longrightarrow> keys_distinct w \<Longrightarrow> Canonical v = Canonical w"
proof (induction rule: same_json.induct)
  case (same_arr xs ys)
  then have "list_all2 (\<lambda>x y. Canonical x = Canonical y) xs ys"
    unfolding keys_distinct_arr by (auto simp: list_all2_conv_all_nth)
  then show ?case by (simp add: list_all2_conv_all_nth list_eq_iff_nth_eq)
next
  case (same_obj xs ys)
  let ?c = "map (map_prod id Canonical)"
  have "map_option Canonical (map_of xs k) = map_option Canonical (map_of ys k)" for k
    using same_obj.IH[of k] keys_distinct_lookup[OF same_obj.prems(1), of k] keys_distinct_lookup[OF same_obj.prems(2), of k]
    by (cases "map_of xs k"; cases "map_of ys k") auto
  then have m: "map_of (?c xs) = map_of (?c ys)" by (simp add: map_of_canonical fun_eq_iff)
  have d: "distinct (map fst (?c xs))" "distinct (map fst (?c ys))"
    using same_obj.prems by (simp_all add: keys_distinct_obj)
  have "btree (?c xs) = btree (?c ys)"
    using map_of_inject_set[OF d] m by (intro key_sorted_unique btree_sorted) (simp add: btree_set d del: map_map)
  then show ?case by simp
qed simp

lemma same_canonical: "keys_distinct v \<Longrightarrow> same_json v (Canonical v)"
proof (induction v)
  case (JArr xs)
  then have "list_all2 same_json xs (map Canonical xs)"
    unfolding keys_distinct_arr by (auto simp: list_all2_conv_all_nth)
  then show ?case by (simp add: same_arr)
next
  case (JObj kvs)
  let ?c = "map (map_prod id Canonical) kvs"
  have d: "distinct (map fst ?c)" using JObj.prems by (simp add: keys_distinct_obj)
  have "rel_option same_json (map_of kvs k) (map_of (btree ?c) k)" for k
  proof (cases "map_of kvs k")
    case (Some v)
    then have "(k, v) \<in> set kvs" by (rule map_of_SomeD)
    then have "same_json v (Canonical v)"
      using JObj.IH[of "(k, v)" v] keys_distinct_lookup[OF JObj.prems Some] by simp
    with Some show ?thesis by (simp add: btree_map_of[OF d] map_of_canonical del: map_map)
  qed (simp add: btree_map_of[OF d] map_of_canonical del: map_map)
  then show ?case by (simp add: same_obj)
qed (simp_all add: same_atom)

text \<open>
  C36: What is signed is the content of the feed. For documents whose objects have distinct keys, the
  canonical forms, whose text is signed, are equal exactly when the documents differ in nothing but the order of
  the entries of their objects.
\<close>

theorem canonical_iff_same:
  assumes "keys_distinct v" "keys_distinct w"
  shows "Canonical v = Canonical w \<longleftrightarrow> same_json v w"
proof
  assume e: "Canonical v = Canonical w"
  have "same_json v (Canonical w)" using same_canonical[OF assms(1)] e by simp
  then show "same_json v w" using same_json_sym[OF same_canonical[OF assms(2)]] by (rule same_json_trans)
qed (rule canonical_same[OF _ assms])

theorem canonical_iff_same_witness:
  "same_json (JObj [(''b'', JInt 1), (''a'', JArr [JNull])]) (JObj [(''a'', JArr [JNull]), (''b'', JInt 1)])"
proof -
  let ?v = "JObj [(''b'', JInt 1), (''a'', JArr [JNull])]" and ?w = "JObj [(''a'', JArr [JNull]), (''b'', JInt 1)]"
  have "Canonical ?v = Canonical ?w" "keys_distinct ?v" "keys_distinct ?w" by code_simp+
  then show ?thesis using canonical_iff_same[of ?v ?w] by blast
qed

section \<open>What an accepted feed holds\<close>

definition selector :: "UpdateArtifact \<Rightarrow> string \<times> string \<times> string" where
  "selector a = (platform a, arch a, a_format a)"

text \<open>An artifact that lies beside the program's own releases and can be verified.\<close>

definition artifact_ok :: "distribution \<Rightarrow> UpdateArtifact \<Rightarrow> bool" where
  "artifact_ok d a \<longleftrightarrow> a_url a = UPDATE_ORIGIN d @ ''/'' @ file_name a \<and> plain_file_name (file_name a)
     \<and> take (length (''bgdesk-'' @ UPDATE_EDITION d @ ''-'')) (file_name a) = ''bgdesk-'' @ UPDATE_EDITION d @ ''-''
     \<and> a_size a \<noteq> 0 \<and> is_sha256_hex (a_sha256 a)"

lemma plain_no_slash: "plain_file_name n \<Longrightarrow> CHR ''/'' \<notin> set n"
  by (auto simp: plain_file_name_def is_ascii_alphanumeric_def list_all_iff Let_def)

lemma validate_artifact_Ok:
  assumes "validate_artifact lib a policy = Ok u"
  shows "plain_file_name (file_name a)" "is_sha256_hex (a_sha256 a)"
    "\<exists>u. validate_artifact_url_policy a u policy = Ok ()"
  using assms by (auto simp: validate_artifact_def result_ok validate_file_name_Ok)

lemma root_artifact_name:
  assumes "download_file_name d (UPDATE_ORIGIN d @ ''/'' @ n) = Some n"
  shows "\<exists>rest. n = ''bgdesk-'' @ UPDATE_EDITION d @ ''-'' @ rest"
proof (rule ccontr)
  assume no: "\<not> ?thesis"
  with assms obtain rid where "UPDATE_ORIGIN d @ ''/'' @ n = release_url d rid @ ''/'' @ n" and p: "plain_file_name n"
    unfolding download_file_name_iff by blast
  then have "''/'' @ n = ''/updates/'' @ UPDATE_EDITION d @ ''/'' @ rid @ ''/'' @ n" by (simp add: release_url_def)
  from arg_cong[OF this, of length] show False by simp
qed

lemma check_artifacts_Ok:
  assumes "check_artifacts lib d (ExactPrefix (UPDATE_ORIGIN d @ ''/'')) ss ns as = Ok u"
  shows "list_all (artifact_ok d) as \<and> distinct (map selector as) \<and> distinct (map file_name as)
    \<and> set (map selector as) \<inter> set ss = {} \<and> set (map file_name as) \<inter> set ns = {}"
  using assms
proof (induction as arbitrary: ss ns)
  case (Cons a as)
  let ?p = "ExactPrefix (UPDATE_ORIGIN d @ ''/'')"
  from Cons.prems have va: "validate_artifact lib a ?p = Ok ()"
    and c: "a_size a \<noteq> 0" "download_file_name d (a_url a) = Some (file_name a)" "selector a \<notin> set ss" "file_name a \<notin> set ns"
    and r: "check_artifacts lib d ?p (selector a # ss) (file_name a # ns) as = Ok u"
    by (auto simp: and_then_Ok selector_def split: if_splits)
  have url: "a_url a = UPDATE_ORIGIN d @ ''/'' @ file_name a"
    using validate_artifact_Ok(3)[OF va] by (auto simp: validate_artifact_url_policy_def split: if_splits)
  then obtain rest where "file_name a = ''bgdesk-'' @ UPDATE_EDITION d @ ''-'' @ rest"
    using root_artifact_name[of d "file_name a"] c(2) by auto
  then have "artifact_ok d a" using url c(1) validate_artifact_Ok(1,2)[OF va] by (simp add: artifact_ok_def)
  with Cons.IH[OF r] c(3,4) show ?case by auto
qed simp

definition MAIN_KEY :: TrustedUpdateKey where
  "MAIN_KEY = hd TRUSTED_UPDATE_KEYS"

lemma find_key_trusted: "find_key sg TRUSTED_UPDATE_KEYS = Some key \<longleftrightarrow>
    key = MAIN_KEY \<and> s_key_id sg = ''2026-ed25519-main'' \<and> s_algorithm sg = ''ed25519''"
  by (auto simp: find_key_def TRUSTED_UPDATE_KEYS_def MAIN_KEY_def)

lemma verify_metadata_signature_Ok:
  "verify_metadata_signature lib bs sig key = Ok u \<longleftrightarrow>
     sodium_init lib \<and> verify_detached lib sig (UPDATE_METADATA_SIGNATURE_CONTEXT @ bs) (public_key key)"
  by (auto simp: verify_metadata_signature_def result_ok)

lemma validate_metadata_Ok:
  assumes "validate_metadata md sg opts = Ok u"
  shows "m_schema_version md = 1 \<and> signature_key_id md = s_key_id sg \<and> m_app md = ''rustdesk''
    \<and> package_id md = expected_package_id opts \<and> expected_version opts = m_version md
    \<and> expected_release_id opts = release_id md"
  using assms by (auto simp: validate_metadata_def METADATA_SCHEMA_VERSION_def UPDATE_APP_def split: if_splits)

text \<open>A document the main key has signed, in its canonical form.\<close>

definition signed_by_main_key :: "update_lib \<Rightarrow> json \<Rightarrow> bool" where
  "signed_by_main_key lib document \<longleftrightarrow> (\<exists>text_bytes sig. json_to_vec lib (Canonical document) = Some text_bytes
     \<and> verify_detached lib sig (UPDATE_METADATA_SIGNATURE_CONTEXT @ text_bytes) (public_key MAIN_KEY))"

text \<open>A feed whose content is signed and fits the program.\<close>

definition trusted_feed :: "update_lib \<Rightarrow> distribution \<Rightarrow> VerifiedUpdateFeed \<Rightarrow> bool" where
  "trusted_feed lib d feed \<longleftrightarrow>
     (\<exists>doc sg rest. json_from_slice lib (signed_bytes feed) = Some doc \<and> remove_signature doc = Some (sg, rest)
        \<and> signed_by_main_key lib rest \<and> metadata_from_value lib rest = Some (metadata feed))
     \<and> package_id (metadata feed) = PUBLIC_UPDATE_PACKAGE_ID d
     \<and> (\<exists>v. parse_update_version (feed_version feed) = Ok v)
     \<and> display_version_from_release_id (release_id (metadata feed)) = Ok (feed_version feed)
     \<and> artifacts (metadata feed) \<noteq> [] \<and> list_all (artifact_ok d) (artifacts (metadata feed))
     \<and> distinct (map selector (artifacts (metadata feed))) \<and> distinct (map file_name (artifacts (metadata feed)))"

lemma verified_feed_trusted:
  assumes "verify_latest_feed lib d bs = Ok feed"
  shows "signed_bytes feed = bs \<and> trusted_feed lib d feed"
proof -
  obtain doc sgv rest sg key can sig md v where f: "json_from_slice lib bs = Some doc"
      "remove_signature doc = Some (sgv, rest)" "find_key sg TRUSTED_UPDATE_KEYS = Some key"
      "canonical_latest_json lib rest = Ok can" "verify_metadata_signature lib can sig key = Ok ()"
      "metadata_from_value lib rest = Some md" "parse_update_version (m_version md) = Ok v"
      "display_version_from_release_id (release_id md) = Ok (m_version md)" "artifacts md \<noteq> []"
    and va: "validate_metadata md sg \<lparr>expected_version = m_version md, expected_release_id = release_id md,
         o_artifact = \<lparr>q_platform = [], q_arch = [], q_format = []\<rparr>,
         expected_package_id = PUBLIC_UPDATE_PACKAGE_ID d, artifact_url_policy = ExactPrefix (UPDATE_ORIGIN d @ ''/''),
         trusted_keys = TRUSTED_UPDATE_KEYS\<rparr> = Ok ()"
    and ch: "check_artifacts lib d (ExactPrefix (UPDATE_ORIGIN d @ ''/'')) [] [] (artifacts md) = Ok ()"
    and fd: "feed = \<lparr>metadata = md, signed_bytes = bs\<rparr>"
    using assms by (auto simp: verify_latest_feed_def verify_latest_feed_with_keys_def result_ok Let_def)
  have "signed_by_main_key lib rest"
    using f(3-5) by (auto simp: signed_by_main_key_def canonical_latest_json_def result_ok find_key_trusted verify_metadata_signature_Ok)
  then show ?thesis
    using f fd validate_metadata_Ok[OF va] check_artifacts_Ok[OF ch] by (auto simp: feed_version_def trusted_feed_def)
qed

text \<open>The choice among the artifacts of an accepted feed is never ambiguous.\<close>

lemma feed_choice_unique:
  assumes "verify_latest_feed lib d bs = Ok feed" "a \<in> set (artifacts (metadata feed))"
    "q = \<lparr>q_platform = platform a, q_arch = arch a, q_format = a_format a\<rparr>"
  shows "feed_artifact feed q = Ok (verified_artifact (metadata feed) a)"
proof -
  let ?as = "artifacts (metadata feed)"
  have d: "distinct (map selector ?as)" using verified_feed_trusted[OF assms(1)] by (simp add: trusted_feed_def)
  obtain xs ys where as: "?as = xs @ a # ys" using assms(2) split_list by metis
  have "filter (\<lambda>b. selector b = selector a) xs = []" "filter (\<lambda>b. selector b = selector a) ys = []"
    using d unfolding as by (auto simp: filter_empty_conv image_iff)
  then have "filter (\<lambda>b. selector b = selector a) ?as = [a]" unfolding as by simp
  then show ?thesis using assms(3) by (simp add: feed_artifact_def select_artifact_def selector_def and_then_def)
qed

text \<open>
  C16: An accepted feed is a signed one of the own edition, and each artifact of it can be chosen. If the feed is
  accepted, then it parsed as an object whose content, without the signature, is signed by the one trusted key
  and reads as the metadata that is kept; its package is the own edition's, its version is well-formed and
  is that of the release id; it names at least one artifact, each under the origin with a plain name of
  the own edition, a size and a hash; and asking for the platform, architecture and format of any of them
  gives that artifact.
\<close>

theorem feed_accepted_is_signed:
  assumes "verify_latest_feed lib d bs = Ok feed"
  shows "signed_bytes feed = bs
    \<and> (\<exists>doc sg rest. json_from_slice lib bs = Some doc \<and> remove_signature doc = Some (sg, rest)
         \<and> signed_by_main_key lib rest \<and> metadata_from_value lib rest = Some (metadata feed))
    \<and> package_id (metadata feed) = PUBLIC_UPDATE_PACKAGE_ID d
    \<and> display_version_from_release_id (release_id (metadata feed)) = Ok (feed_version feed)
    \<and> artifacts (metadata feed) \<noteq> []
    \<and> (\<forall>a \<in> set (artifacts (metadata feed)). artifact_ok d a
         \<and> feed_artifact feed \<lparr>q_platform = platform a, q_arch = arch a, q_format = a_format a\<rparr>
             = Ok (verified_artifact (metadata feed) a))"
  using verified_feed_trusted[OF assms] feed_choice_unique[OF assms]
  by (auto simp: trusted_feed_def list_all_iff)

text \<open>A feed with three artifacts, read by libraries that know this feed only.\<close>

definition demo_dist :: distribution where
  "demo_dist = \<lparr>UPDATE_ORIGIN = ''https://bgdesk.com'', incoming_only = True\<rparr>"

definition demo_artifact :: UpdateArtifact where
  "demo_artifact = \<lparr>platform = ''linux'', arch = ''x86_64'', a_format = ''deb'',
     a_url = ''https://bgdesk.com/bgdesk-cliente-update.deb'', file_name = ''bgdesk-cliente-update.deb'', a_size = 3,
     a_sha256 = replicate 64 CHR ''a''\<rparr>"

definition demo_windows :: UpdateArtifact where
  "demo_windows = \<lparr>platform = ''windows'', arch = ''x86_64'', a_format = ''exe'',
     a_url = ''https://bgdesk.com/bgdesk-cliente-update.exe'', file_name = ''bgdesk-cliente-update.exe'', a_size = 3,
     a_sha256 = replicate 64 CHR ''a''\<rparr>"

definition demo_appimage :: UpdateArtifact where
  "demo_appimage = \<lparr>platform = ''linux'', arch = ''x86_64'', a_format = ''AppImage'',
     a_url = ''https://bgdesk.com/bgdesk-cliente-x86_64.AppImage'', file_name = ''bgdesk-cliente-x86_64.AppImage'', a_size = 3,
     a_sha256 = replicate 64 CHR ''a''\<rparr>"

definition demo_metadata :: UpdateMetadata where
  "demo_metadata = \<lparr>m_schema_version = 1, m_app = ''rustdesk'', package_id = ''bgdesk-cliente'', m_version = ''1.5.2'',
     release_id = ''v1.5.2'', published_at = [], signature_key_id = ''2026-ed25519-main'', artifacts = [demo_artifact, demo_windows, demo_appimage]\<rparr>"

definition demo_lib :: update_lib where
  "demo_lib = \<lparr>
     json_from_slice = (\<lambda>bs. if bs = [1] then Some (JObj [(''signature'', JNull), (''version'', JStr ''1.5.2'')]) else None),
     json_to_vec = (\<lambda>v. if v = JObj [(''version'', JStr ''1.5.2'')] then Some [7] else None),
     metadata_from_value = (\<lambda>v. if v = JObj [(''version'', JStr ''1.5.2'')] then Some demo_metadata else None),
     signature_from_value = (\<lambda>_. Some \<lparr>s_schema_version = 1, s_algorithm = ''ed25519'', s_key_id = ''2026-ed25519-main'', s_signature = ''sig''\<rparr>),
     metadata_from_slice = Map.empty, signature_from_slice = Map.empty, header_from_slice = Map.empty,
     base64_decode = (\<lambda>t. if t = ''sig'' then Some (replicate 64 0) else None), base64_encode = (\<lambda>_. ''sig''),
     signature_from_bytes = Some, sodium_init = True,
     verify_detached = (\<lambda>sig m key. m = UPDATE_METADATA_SIGNATURE_CONTEXT @ [7]),
     url_parse = (\<lambda>u. Some \<lparr>url_scheme = ''https'', url_host = Some ''bgdesk.com'', url_username = [], url_password = None,
       url_query = None, url_fragment = None, path_segments = Some [drop 19 u]\<rparr>)\<rparr>"

lemma demo_feed: "verify_latest_feed demo_lib demo_dist [1] = Ok \<lparr>metadata = demo_metadata, signed_bytes = [1]\<rparr>"
  by code_simp

theorem feed_accepted_is_signed_witness:
  "\<exists>feed. verify_latest_feed demo_lib demo_dist [1] = Ok feed \<and> package_id (metadata feed) = ''bgdesk-cliente''
     \<and> feed_artifact feed \<lparr>q_platform = ''linux'', q_arch = ''x86_64'', q_format = ''deb''\<rparr>
         = Ok (verified_artifact demo_metadata demo_artifact)"
  using feed_accepted_is_signed[OF demo_feed] demo_feed
  by (simp add: PUBLIC_UPDATE_PACKAGE_ID_def demo_dist_def demo_metadata_def demo_artifact_def demo_windows_def demo_appimage_def)

end
