(* ===== verification/Update_Check.thy ===== *)
theory Update_Check
  imports Update_Metadata
begin

text \<open>
  The check for a new release: the cache of TLS settings (\<open>libs/hbb_common/src/tls.rs\<close>), the check itself
  (\<open>do_check_software_update\<close> and its helpers in \<open>src/common.rs\<close>), the verified feed it keeps
  (\<open>src/update_metadata/cache.rs\<close>) and the artifact the user interface chooses from it
  (\<open>src/updater/artifact.rs\<close>). The answers of the web server are inputs.
\<close>

section \<open>TLS settings by host\<close>

datatype TlsType = Plain | NativeTls | Rustls

record tls_cache =
  URL_TLS_TYPE :: "string \<Rightarrow> TlsType option"
  URL_TLS_DANGER_ACCEPT_INVALID_CERTS :: "string \<Rightarrow> bool option"

definition is_plain :: "string \<Rightarrow> bool" where
  "is_plain url \<longleftrightarrow> strip_prefix ''ws://'' url \<noteq> None \<or> strip_prefix ''http://'' url \<noteq> None"

text \<open>What follows the first occurrence of a text.\<close>

fun after_first :: "string \<Rightarrow> string \<Rightarrow> string option" where
  "after_first p [] = (if p = [] then Some [] else None)"
| "after_first p (x # xs) =
     (case strip_prefix p (x # xs) of Some r \<Rightarrow> Some r | None \<Rightarrow> after_first p xs)"

definition get_domain_and_port_from_url :: "string \<Rightarrow> string" where
  "get_domain_and_port_from_url url =
     (let url2 = (case after_first ''://'' url of Some r \<Rightarrow> r | None \<Rightarrow> url);
          after_at = (case rsplit_once CHR ''@'' url2 of Some (_, r) \<Rightarrow> r | None \<Rightarrow> url2)
      in takeWhile (\<lambda>c. c \<noteq> CHR ''/'' \<and> c \<noteq> CHR ''?'') after_at)"

definition upsert_tls_cache :: "tls_cache \<Rightarrow> string \<Rightarrow> TlsType \<Rightarrow> bool \<Rightarrow> tls_cache" where
  "upsert_tls_cache tc url ty danger =
     (if is_plain url then tc
      else let dp = get_domain_and_port_from_url url in
           tc\<lparr>URL_TLS_TYPE := (URL_TLS_TYPE tc)(dp \<mapsto> ty),
              URL_TLS_DANGER_ACCEPT_INVALID_CERTS := (URL_TLS_DANGER_ACCEPT_INVALID_CERTS tc)(dp \<mapsto> danger)\<rparr>)"

definition reset_tls_cache :: "tls_cache \<Rightarrow> tls_cache" where
  "reset_tls_cache tc = \<lparr>URL_TLS_TYPE = Map.empty, URL_TLS_DANGER_ACCEPT_INVALID_CERTS = Map.empty\<rparr>"

definition get_cached_tls_type :: "tls_cache \<Rightarrow> string \<Rightarrow> TlsType option" where
  "get_cached_tls_type tc url =
     (if is_plain url then Some Plain else URL_TLS_TYPE tc (get_domain_and_port_from_url url))"

definition get_cached_tls_accept_invalid_cert :: "bool \<Rightarrow> tls_cache \<Rightarrow> string \<Rightarrow> bool option" where
  "get_cached_tls_accept_invalid_cert allow_insecure_tls_fallback tc url =
     (if \<not> allow_insecure_tls_fallback then Some False
      else if is_plain url then Some False
      else URL_TLS_DANGER_ACCEPT_INVALID_CERTS tc (get_domain_and_port_from_url url))"

section \<open>What a check leaves behind\<close>

record update_state =
  SOFTWARE_UPDATE_URL :: string
  VERIFIED_UPDATE_FEED :: "VerifiedUpdateFeed option"
  VERIFIED_UPDATE_ARTIFACT :: "(VerifiedUpdateArtifact \<times> bytes) option"
  pushed_events :: "string list"
  u_tls :: tls_cache

text \<open>The build: its distribution, its version and its name; the libraries it uses.\<close>

record program =
  p_dist :: distribution
  VERSION :: string
  APP_NAME :: string
  p_lib :: update_lib

definition cache_update_feed :: "VerifiedUpdateFeed \<Rightarrow> update_state \<Rightarrow> update_state" where
  "cache_update_feed feed st = st\<lparr>VERIFIED_UPDATE_FEED := Some feed\<rparr>"

definition clear_update_feed :: "update_state \<Rightarrow> update_state" where
  "clear_update_feed st = st\<lparr>VERIFIED_UPDATE_FEED := None\<rparr>"

definition latest_update_version :: "update_state \<Rightarrow> string" where
  "latest_update_version st = (case VERIFIED_UPDATE_FEED st of Some feed \<Rightarrow> feed_version feed | None \<Rightarrow> [])"

definition cached_update_feed :: "update_state \<Rightarrow> (update_error, VerifiedUpdateFeed) result" where
  "cached_update_feed st =
     ok_or (UpdateError ''No verified update feed available; check for updates again'') (VERIFIED_UPDATE_FEED st)"

definition push_update_availability :: "string \<Rightarrow> update_state \<Rightarrow> update_state" where
  "push_update_availability url st = st\<lparr>pushed_events := pushed_events st @ [url]\<rparr>"

definition clear_software_update_url :: "update_state \<Rightarrow> update_state" where
  "clear_software_update_url st = push_update_availability [] (clear_update_feed (st\<lparr>SOFTWARE_UPDATE_URL := []\<rparr>))"

definition process_verified_software_update ::
  "program \<Rightarrow> VerifiedUpdateFeed \<Rightarrow> update_state \<Rightarrow> update_state \<times> (update_error, unit) result" where
  "process_verified_software_update pr feed st =
     (case is_newer_update (feed_version feed) (VERSION pr) of
        Inl err \<Rightarrow> (st, Err err)
      | Inr True \<Rightarrow>
          let url = latest_url (p_dist pr) in
          (push_update_availability url ((cache_update_feed feed st)\<lparr>SOFTWARE_UPDATE_URL := url\<rparr>), Ok ())
      | Inr False \<Rightarrow> (clear_software_update_url st, Ok ()))"

definition process_software_update_check_response ::
  "program \<Rightarrow> bytes \<Rightarrow> update_state \<Rightarrow> update_state \<times> (update_error, unit) result" where
  "process_software_update_check_response pr bs st =
     (case verify_latest_feed (p_lib pr) (p_dist pr) bs of
        Inl err \<Rightarrow> (st, Err err)
      | Inr feed \<Rightarrow> process_verified_software_update pr feed st)"

section \<open>The check\<close>

datatype http_chunk = Chunk bytes | ChunkError

datatype http_answer = Response bool "http_chunk list" | SendError bool

text \<open>The body of the answer, at most a mebibyte of it.\<close>

fun read_body :: "bytes \<Rightarrow> http_chunk list \<Rightarrow> (update_error, bytes) result" where
  "read_body acc [] = Ok acc"
| "read_body acc (ChunkError # _) = Err IoError"
| "read_body acc (Chunk c # cs) =
     (if 1024 * 1024 < length acc + length c then Err (UpdateError ''Software update feed exceeds maximum size'')
      else read_body (acc @ c) cs)"

definition do_check_software_update ::
  "program \<Rightarrow> bool \<Rightarrow> string \<Rightarrow> (TlsType \<Rightarrow> http_answer) \<Rightarrow> update_state
    \<Rightarrow> update_state \<times> (update_error, unit) result" where
  "do_check_software_update pr custom_config_loaded tls_url send st =
     (if \<not> uses_public_channel custom_config_loaded (APP_NAME pr) then (clear_software_update_url st, Ok ())
      else
        let cached = get_cached_tls_type (u_tls st) tls_url;
            ty = (case cached of Some t \<Rightarrow> t | None \<Rightarrow> Rustls);
            answer = (case send ty of
                        Response ok cs \<Rightarrow> Some (ty, ok, cs)
                      | SendError is_request \<Rightarrow>
                          if cached = None \<and> is_request
                          then (case send NativeTls of
                                  Response ok cs \<Rightarrow> Some (NativeTls, ok, cs)
                                | SendError _ \<Rightarrow> None)
                          else None)
        in case answer of
             None \<Rightarrow> (clear_software_update_url st, Err IoError)
           | Some (used, ok, cs) \<Rightarrow>
               let st = st\<lparr>u_tls := upsert_tls_cache (u_tls st) tls_url used False\<rparr> in
               if \<not> ok then (clear_software_update_url st, Err IoError)
               else (case read_body [] cs of
                       Inl err \<Rightarrow> (clear_software_update_url st, Err err)
                     | Inr bs \<Rightarrow>
                         (case process_software_update_check_response pr bs st of
                            (st, Inl err) \<Rightarrow> (clear_software_update_url st, Err err)
                          | (st, Inr _) \<Rightarrow> (st, Ok ()))))"

section \<open>The artifact of a release\<close>

datatype target_os = Windows | Macos | Linux

record build =
  b_os :: target_os
  b_flutter :: bool
  b_arch :: string

definition current_update_platform :: "build \<Rightarrow> string" where
  "current_update_platform b = (case b_os b of Windows \<Rightarrow> ''windows'' | Macos \<Rightarrow> ''macos'' | Linux \<Rightarrow> ''linux'')"

definition current_update_arch :: "build \<Rightarrow> string" where
  "current_update_arch b = (if b_os b = Windows \<and> \<not> b_flutter b then ''x86'' else b_arch b)"

definition current_update_format :: "build \<Rightarrow> bool \<Rightarrow> string" where
  "current_update_format b update_msi =
     (case b_os b of
        Windows \<Rightarrow> if b_flutter b \<and> update_msi then ''msi'' else ''exe''
      | Macos \<Rightarrow> ''dmg''
      | Linux \<Rightarrow> ''unknown'')"

definition current_update_artifact_query :: "build \<Rightarrow> bool \<Rightarrow> UpdateArtifactQuery" where
  "current_update_artifact_query b update_msi = \<lparr>q_platform = current_update_platform b,
     q_arch = current_update_arch b, q_format = current_update_format b update_msi\<rparr>"

definition verified_feed_for_url ::
  "program \<Rightarrow> bool \<Rightarrow> string \<Rightarrow> update_state \<Rightarrow> (update_error, VerifiedUpdateFeed) result" where
  "verified_feed_for_url pr custom_config_loaded update_url st =
     (if \<not> uses_public_channel custom_config_loaded (APP_NAME pr)
      then Err (UpdateError ''Public update channel is not enabled for this client'')
      else if update_url \<noteq> latest_url (p_dist pr)
      then Err (UpdateError ''Update URL is not the BGDesk signed latest feed'')
      else cached_update_feed st)"

definition verified_update_artifact_for_release_page_url ::
  "program \<Rightarrow> bool \<Rightarrow> string \<Rightarrow> UpdateArtifactQuery \<Rightarrow> update_state
    \<Rightarrow> update_state \<times> (update_error, VerifiedUpdateArtifact) result" where
  "verified_update_artifact_for_release_page_url pr custom_config_loaded url q st =
     (case verified_feed_for_url pr custom_config_loaded url st of
        Inl err \<Rightarrow> (st, Err err)
      | Inr feed \<Rightarrow>
          (case feed_artifact feed q of
             Inl err \<Rightarrow> (st, Err err)
           | Inr a \<Rightarrow> (st\<lparr>VERIFIED_UPDATE_ARTIFACT := Some (a, signed_bytes feed)\<rparr>, Ok a)))"

definition verified_for :: "string \<Rightarrow> update_state \<Rightarrow> (update_error, VerifiedUpdateArtifact \<times> bytes) result" where
  "verified_for download_url st =
     ok_or (UpdateError ''update artifact was not verified'')
       (case VERIFIED_UPDATE_ARTIFACT st of
          Some (a, bs) \<Rightarrow> if v_url a = download_url then Some (a, bs) else None
        | None \<Rightarrow> None)"

definition verified_update_artifact_for_download_url ::
  "string \<Rightarrow> update_state \<Rightarrow> (update_error, VerifiedUpdateArtifact) result" where
  "verified_update_artifact_for_download_url download_url st = and_then (verified_for download_url st) (\<lambda>(a, _). Ok a)"

definition verified_update_feed_for_download_url :: "string \<Rightarrow> update_state \<Rightarrow> (update_error, bytes) result" where
  "verified_update_feed_for_download_url download_url st = and_then (verified_for download_url st) (\<lambda>(_, bs). Ok bs)"

definition verified_update_artifact_from_release_page_url ::
  "program \<Rightarrow> bool \<Rightarrow> string \<Rightarrow> UpdateArtifactQuery \<Rightarrow> update_state \<Rightarrow> (update_error, VerifiedUpdateArtifact) result" where
  "verified_update_artifact_from_release_page_url pr custom_config_loaded url q st =
     and_then (verified_feed_for_url pr custom_config_loaded url st) (\<lambda>feed. feed_artifact feed q)"

section \<open>Only a newer, signed release is offered\<close>

definition offered_feed :: "program \<Rightarrow> VerifiedUpdateFeed \<Rightarrow> bool" where
  "offered_feed pr feed \<longleftrightarrow> trusted_feed (p_lib pr) (p_dist pr) feed
     \<and> is_newer_update (feed_version feed) (VERSION pr) = Ok True"

definition offer_ok :: "program \<Rightarrow> update_state \<Rightarrow> bool" where
  "offer_ok pr st \<longleftrightarrow>
     (case VERIFIED_UPDATE_FEED st of
        None \<Rightarrow> SOFTWARE_UPDATE_URL st = []
      | Some feed \<Rightarrow> SOFTWARE_UPDATE_URL st = latest_url (p_dist pr) \<and> offered_feed pr feed)"

definition artifact_from :: "program \<Rightarrow> VerifiedUpdateArtifact \<Rightarrow> bytes \<Rightarrow> bool" where
  "artifact_from pr a bs \<longleftrightarrow>
     (\<exists>feed b. offered_feed pr feed \<and> signed_bytes feed = bs \<and> b \<in> set (artifacts (metadata feed))
        \<and> artifact_ok (p_dist pr) b \<and> a = verified_artifact (metadata feed) b)"

definition update_inv :: "program \<Rightarrow> update_state \<Rightarrow> bool" where
  "update_inv pr st \<longleftrightarrow> offer_ok pr st
     \<and> (case VERIFIED_UPDATE_ARTIFACT st of None \<Rightarrow> True | Some (a, bs) \<Rightarrow> artifact_from pr a bs)"

lemma clear_offer_ok [simp]: "offer_ok pr (clear_software_update_url st)"
  by (simp add: offer_ok_def clear_software_update_url_def push_update_availability_def clear_update_feed_def)

lemma clear_artifact [simp]:
  "VERIFIED_UPDATE_ARTIFACT (clear_software_update_url st) = VERIFIED_UPDATE_ARTIFACT st"
  by (simp add: clear_software_update_url_def push_update_availability_def clear_update_feed_def)

lemma response_effect:
  assumes "process_software_update_check_response pr bs st = (st', r)"
  shows "VERIFIED_UPDATE_ARTIFACT st' = VERIFIED_UPDATE_ARTIFACT st \<and> (r = Ok () \<longrightarrow> offer_ok pr st')"
proof -
  have o: "offer_ok pr st'"
    if "verify_latest_feed (p_lib pr) (p_dist pr) bs = Ok feed" "is_newer_update (feed_version feed) (VERSION pr) = Ok True"
      "st' = push_update_availability (latest_url (p_dist pr)) ((cache_update_feed feed st)\<lparr>SOFTWARE_UPDATE_URL := latest_url (p_dist pr)\<rparr>)"
    for feed
    using that verified_feed_trusted[OF that(1)]
    by (simp add: offer_ok_def offered_feed_def push_update_availability_def cache_update_feed_def)
  show ?thesis using assms o
    by (auto simp: process_software_update_check_response_def process_verified_software_update_def
        push_update_availability_def cache_update_feed_def Let_def split: sum.splits bool.splits)
qed

lemma check_effect:
  assumes "do_check_software_update pr loaded tls_url send st = (st', r)"
  shows "VERIFIED_UPDATE_ARTIFACT st' = VERIFIED_UPDATE_ARTIFACT st \<and> offer_ok pr st'
    \<and> (r \<noteq> Ok () \<longrightarrow> SOFTWARE_UPDATE_URL st' = [] \<and> VERIFIED_UPDATE_FEED st' = None)"
proof -
  have cl: "SOFTWARE_UPDATE_URL (clear_software_update_url s) = []" "VERIFIED_UPDATE_FEED (clear_software_update_url s) = None" for s
    by (simp_all add: clear_software_update_url_def push_update_availability_def clear_update_feed_def)
  have re: "VERIFIED_UPDATE_ARTIFACT s' = VERIFIED_UPDATE_ARTIFACT s \<and> (r = Ok () \<longrightarrow> offer_ok pr s')"
    if "process_software_update_check_response pr bs s = (s', r)" for bs s s' r
    using response_effect[OF that] .
  show ?thesis using assms
    by (auto simp: do_check_software_update_def Let_def cl split: if_splits option.splits sum.splits prod.splits
        dest!: re)
qed

lemma feed_artifact_from:
  assumes "offered_feed pr feed" "feed_artifact feed q = Ok a"
  shows "artifact_from pr a (signed_bytes feed)"
proof -
  obtain b where b: "select_artifact (metadata feed) q = Ok b" "a = verified_artifact (metadata feed) b"
    using assms(2) by (auto simp: feed_artifact_def and_then_Ok)
  from b(1) have "b \<in> set (artifacts (metadata feed))"
    by (auto simp: select_artifact_def split: list.splits dest: filter_eq_ConsD)
  moreover from this assms(1) have "artifact_ok (p_dist pr) b"
    by (simp add: offered_feed_def trusted_feed_def list_all_iff)
  ultimately show ?thesis using assms(1) b(2) unfolding artifact_from_def by blast
qed

text \<open>The checks, the choices of the user interface and a reset of the TLS settings, in any order.\<close>

definition update_init :: "update_state \<Rightarrow> bool" where
  "update_init st \<longleftrightarrow> SOFTWARE_UPDATE_URL st = [] \<and> VERIFIED_UPDATE_FEED st = None \<and> VERIFIED_UPDATE_ARTIFACT st = None"

inductive update_step :: "program \<Rightarrow> update_state \<Rightarrow> update_state \<Rightarrow> bool" for pr where
  checked: "do_check_software_update pr loaded tls_url send st = (st', r) \<Longrightarrow> update_step pr st st'"
| chosen: "verified_update_artifact_for_release_page_url pr loaded url q st = (st', r) \<Longrightarrow> update_step pr st st'"
| tls_reset: "update_step pr st (st\<lparr>u_tls := reset_tls_cache (u_tls st)\<rparr>)"

interpretation upd: inductive_invariant update_init "update_step pr" "update_inv pr" for pr
proof unfold_locales
  fix st assume "update_init st"
  then show "update_inv pr st" by (simp add: update_init_def update_inv_def offer_ok_def)
next
  fix st st' assume inv: "update_inv pr st" and "update_step pr st st'"
  from this(2) show "update_inv pr st'"
  proof cases
    case (checked loaded tls_url send r)
    with inv check_effect[OF checked] show ?thesis by (simp add: update_inv_def)
  next
    case (chosen loaded url q r)
    have f: "offered_feed pr feed" if "verified_feed_for_url pr loaded url st = Ok feed" for feed
      using that inv by (auto simp: verified_feed_for_url_def cached_update_feed_def ok_or_Ok update_inv_def offer_ok_def split: if_splits)
    have o: "offer_ok pr (st\<lparr>VERIFIED_UPDATE_ARTIFACT := x\<rparr>) = offer_ok pr st" for x
      by (simp add: offer_ok_def split: option.split)
    show ?thesis using chosen inv feed_artifact_from[OF f]
      by (auto simp: verified_update_artifact_for_release_page_url_def update_inv_def o split: sum.splits)
  next
    case tls_reset
    with inv show ?thesis by (simp add: update_inv_def offer_ok_def split: option.splits)
  qed
qed

lemma download_from: "update_inv pr st \<Longrightarrow> verified_for url st = Ok (a, bs) \<Longrightarrow> artifact_from pr a bs \<and> v_url a = url"
  by (auto simp: update_inv_def verified_for_def ok_or_Ok split: option.splits if_splits prod.splits)

text \<open>
  C17: Only a newer, signed release is offered. After any checks and choices, whatever the web server answered: an
  update is announced only while a signed feed of the own edition whose version is newer than the program's
  is kept; the artifact a download address leads to was named by such a feed, whose signed bytes are kept with
  it, and lies under the origin; and a check that fails withdraws the announcement.
\<close>

theorem update_offer_trusted:
  assumes "reach update_init (update_step pr) st"
  shows "(SOFTWARE_UPDATE_URL st \<noteq> [] \<longrightarrow> (\<exists>feed. VERIFIED_UPDATE_FEED st = Some feed
             \<and> trusted_feed (p_lib pr) (p_dist pr) feed \<and> is_newer_update (feed_version feed) (VERSION pr) = Ok True))
    \<and> (verified_update_artifact_for_download_url url st = Ok a \<longrightarrow>
         (\<exists>feed b. trusted_feed (p_lib pr) (p_dist pr) feed \<and> is_newer_update (feed_version feed) (VERSION pr) = Ok True
            \<and> verified_update_feed_for_download_url url st = Ok (signed_bytes feed)
            \<and> b \<in> set (artifacts (metadata feed)) \<and> a = verified_artifact (metadata feed) b
            \<and> url = UPDATE_ORIGIN (p_dist pr) @ ''/'' @ file_name b))
    \<and> (do_check_software_update pr loaded tls_url send st = (st', Err err) \<longrightarrow>
         SOFTWARE_UPDATE_URL st' = [] \<and> latest_update_version st' = [])"
proof -
  have inv: "update_inv pr st" using assms by (rule upd.reach_inv)
  have "\<exists>feed. VERIFIED_UPDATE_FEED st = Some feed \<and> offered_feed pr feed" if "SOFTWARE_UPDATE_URL st \<noteq> []"
    using inv that by (auto simp: update_inv_def offer_ok_def split: option.splits)
  moreover have "\<exists>feed b. offered_feed pr feed \<and> verified_update_feed_for_download_url url st = Ok (signed_bytes feed)
      \<and> b \<in> set (artifacts (metadata feed)) \<and> a = verified_artifact (metadata feed) b
      \<and> url = UPDATE_ORIGIN (p_dist pr) @ ''/'' @ file_name b"
    if "verified_update_artifact_for_download_url url st = Ok a"
  proof -
    from that obtain bs where v: "verified_for url st = Ok (a, bs)"
      by (auto simp: verified_update_artifact_for_download_url_def and_then_Ok)
    have u: "v_url a = url" using download_from[OF inv v] by simp
    obtain feed b where f: "offered_feed pr feed" "signed_bytes feed = bs" "b \<in> set (artifacts (metadata feed))"
      "artifact_ok (p_dist pr) b" "a = verified_artifact (metadata feed) b"
      using download_from[OF inv v] unfolding artifact_from_def by blast
    have "verified_update_feed_for_download_url url st = Ok (signed_bytes feed)"
      using v f(2) by (simp add: verified_update_feed_for_download_url_def and_then_def)
    moreover have "url = UPDATE_ORIGIN (p_dist pr) @ ''/'' @ file_name b"
      using f(4,5) u by (simp add: artifact_ok_def verified_artifact_def)
    ultimately show ?thesis using f(1,3,5) by blast
  qed
  moreover have "SOFTWARE_UPDATE_URL st' = [] \<and> latest_update_version st' = []"
    if "do_check_software_update pr loaded tls_url send st = (st', Err err)"
    using check_effect[OF that] by (simp add: latest_update_version_def)
  ultimately show ?thesis unfolding offered_feed_def by blast
qed

definition demo_program :: program where
  "demo_program = \<lparr>p_dist = demo_dist, VERSION = ''1.5.1'', APP_NAME = ''BGDesk'', p_lib = demo_lib\<rparr>"

definition demo_start :: update_state where
  "demo_start = \<lparr>SOFTWARE_UPDATE_URL = [], VERIFIED_UPDATE_FEED = None, VERIFIED_UPDATE_ARTIFACT = None, pushed_events = [],
     u_tls = \<lparr>URL_TLS_TYPE = Map.empty, URL_TLS_DANGER_ACCEPT_INVALID_CERTS = Map.empty\<rparr>\<rparr>"

definition demo_checked :: update_state where
  "demo_checked = demo_start\<lparr>SOFTWARE_UPDATE_URL := latest_url demo_dist,
     VERIFIED_UPDATE_FEED := Some \<lparr>metadata = demo_metadata, signed_bytes = [1]\<rparr>, pushed_events := [latest_url demo_dist],
     u_tls := upsert_tls_cache (u_tls demo_start) ''https://bgdesk.com'' Rustls False\<rparr>"

lemma demo_fields: "VERSION demo_program = ''1.5.1''" "APP_NAME demo_program = ''BGDesk''" "p_dist demo_program = demo_dist"
  "p_lib demo_program = demo_lib"
  by (simp_all add: demo_program_def)

lemma demo_newer: "is_newer_update ''1.5.2'' ''1.5.1'' = Ok True"
  by code_simp

lemma demo_check: "do_check_software_update demo_program False ''https://bgdesk.com'' (\<lambda>_. Response True [Chunk [1]]) demo_start
    = (demo_checked, Ok ())"
proof -
  have "get_cached_tls_type (u_tls demo_start) ''https://bgdesk.com'' = None" by code_simp
  then show ?thesis
    by (simp add: do_check_software_update_def uses_public_channel_def demo_fields Let_def
        process_software_update_check_response_def process_verified_software_update_def demo_feed feed_version_def
        demo_metadata_def demo_newer push_update_availability_def cache_update_feed_def demo_checked_def)
      (simp add: demo_start_def)
qed

theorem update_offer_trusted_witness:
  "\<exists>feed. VERIFIED_UPDATE_FEED demo_checked = Some feed \<and> trusted_feed demo_lib demo_dist feed
     \<and> is_newer_update (feed_version feed) ''1.5.1'' = Ok True"
proof -
  have i: "update_init demo_start" by (simp add: update_init_def demo_start_def)
  have "update_step demo_program demo_start demo_checked" by (rule update_step.checked[OF demo_check])
  with i have r: "reach update_init (update_step demo_program) demo_checked" by (rule reach_one)
  have "SOFTWARE_UPDATE_URL demo_checked \<noteq> []" by (simp add: demo_checked_def latest_url_def)
  with update_offer_trusted[OF r] demo_fields show ?thesis by simp
qed

end
