(* ===== verification/Update_Download.thy ===== *)
theory Update_Download
  imports Update_Check Transfer_Fs
begin

text \<open>
  Fetching a release: the check of a file against its hash (\<open>src/update_hash.rs\<close>), the download into a
  temporary file that takes its name only once it is verified (\<open>src/updater/download.rs\<close>), and the
  automatic check with its schedule (\<open>src/updater.rs\<close>). Files are those of \<open>Transfer_Fs\<close>; SHA-256 is a
  parameter; the installers of Windows and macOS are told the file and its hash and are not modelled.
\<close>

section \<open>Hashes\<close>

datatype read_result = ReadOk bytes | Interrupted | ReadFailed

text \<open>A reader is the results of its \<open>read\<close> calls; it ends at an empty read.\<close>

fun read_to_end :: "bytes \<Rightarrow> read_result list \<Rightarrow> bytes option" where
  "read_to_end acc [] = Some acc"
| "read_to_end acc (ReadOk [] # _) = Some acc"
| "read_to_end acc (ReadOk (b # bs) # rs) = read_to_end (acc @ b # bs) rs"
| "read_to_end acc (Interrupted # rs) = read_to_end acc rs"
| "read_to_end acc (ReadFailed # _) = None"

definition sha256_reader_hex :: "(bytes \<Rightarrow> string) \<Rightarrow> read_result list \<Rightarrow> string option" where
  "sha256_reader_hex sha rs = map_option sha (read_to_end [] rs)"

datatype Sha256VerificationError = InvalidExpected | Mismatch string string | HashIo

definition verify_sha256_reader ::
  "(bytes \<Rightarrow> string) \<Rightarrow> read_result list \<Rightarrow> string \<Rightarrow> (Sha256VerificationError, unit) result" where
  "verify_sha256_reader sha rs expected =
     (let expected = to_lowercase (trim expected) in
      if length expected \<noteq> 64 \<or> \<not> list_all is_ascii_hexdigit expected then Err InvalidExpected
      else case sha256_reader_hex sha rs of
             None \<Rightarrow> Err HashIo
           | Some actual \<Rightarrow> if actual \<noteq> expected then Err (Mismatch expected actual) else Ok ())"

section \<open>Files\<close>

function chunks :: "nat \<Rightarrow> bytes \<Rightarrow> bytes list" where
  "chunks n bs = (if n = 0 \<or> bs = [] then [] else take n bs # chunks n (drop n bs))"
  by pat_completeness auto
termination by (relation "measure (\<lambda>(n, bs). length bs)") auto

declare chunks.simps [simp del]

text \<open>Reading an open file from its start, through a buffer of 8192 bytes.\<close>

definition file_reads :: "fsys \<Rightarrow> nat \<Rightarrow> read_result list" where
  "file_reads fs i = (if broken fs i then [ReadFailed] else map ReadOk (chunks 8192 (contents fs i)))"

definition verify_update_file_sha256 ::
  "(bytes \<Rightarrow> string) \<Rightarrow> fsys \<Rightarrow> nat \<Rightarrow> string \<Rightarrow> (update_error, unit) result" where
  "verify_update_file_sha256 sha fs i expected =
     (case verify_sha256_reader sha (file_reads fs i) expected of
        Inr _ \<Rightarrow> Ok ()
      | Inl InvalidExpected \<Rightarrow> Err (UpdateError ''Expected update file SHA256 is malformed'')
      | Inl (Mismatch _ _) \<Rightarrow> Err (UpdateError ''SHA256 mismatch'')
      | Inl HashIo \<Rightarrow> Err IoError)"

definition verify_file_sha256 :: "(bytes \<Rightarrow> string) \<Rightarrow> fsys \<Rightarrow> string \<Rightarrow> string \<Rightarrow> (update_error, unit) result" where
  "verify_file_sha256 sha fs path expected =
     and_then (ok_or IoError (fs_open fs path)) (\<lambda>i. verify_update_file_sha256 sha fs i expected)"

datatype file_kind = FkFile nat | FkLink | FkOther

text \<open>\<open>symlink_metadata\<close>: the kind of what has the name, and the length of a file.\<close>

definition symlink_metadata :: "fsys \<Rightarrow> string \<Rightarrow> (update_error, file_kind option) result" where
  "symlink_metadata fs p =
     (let k = fs_key p in
      if denied fs k then Err IoError
      else if key_is_dir fs k then Ok (Some FkOther)
      else case names fs k of
             None \<Rightarrow> Ok None
           | Some (N_File i) \<Rightarrow> Ok (Some (FkFile (length (contents fs i))))
           | Some (N_Link _) \<Rightarrow> Ok (Some FkLink)
           | Some N_Dir \<Rightarrow> Ok (Some FkOther))"

datatype create_error = AlreadyExists | CreateFailed

text \<open>\<open>OpenOptions::create_new\<close>: never what is there already, a link included.\<close>

definition fs_create_new :: "fsys \<Rightarrow> string \<Rightarrow> (create_error, fsys \<times> nat) result" where
  "fs_create_new fs p =
     (let k = fs_key p in
      if denied fs k then Err CreateFailed
      else if key_is_dir fs k \<or> names fs k \<noteq> None then Err AlreadyExists
      else if \<not> key_is_dir fs (butlast k) then Err CreateFailed
      else Ok (fs\<lparr>names := (names fs)(k \<mapsto> N_File (next_file fs)),
                  contents := (contents fs)(next_file fs := []), next_file := next_file fs + 1\<rparr>, next_file fs))"

definition remove_update_file :: "fsys \<Rightarrow> string \<Rightarrow> fsys" where
  "remove_update_file fs p = try_fs fs (fs_remove_file fs p)"

definition remove_cached_update_artifact :: "fsys \<Rightarrow> string \<Rightarrow> fsys \<times> (update_error, unit) result" where
  "remove_cached_update_artifact fs p =
     (case symlink_metadata fs p of
        Inl err \<Rightarrow> (fs, Err err)
      | Inr None \<Rightarrow> (fs, Ok ())
      | Inr (Some FkOther) \<Rightarrow> (fs, Err (UpdateError ''Refusing to remove update cache path that is not a file''))
      | Inr (Some _) \<Rightarrow>
          (case fs_remove_file fs p of None \<Rightarrow> (fs, Err IoError) | Some fs' \<Rightarrow> (fs', Ok ())))"

definition cached_update_artifact_size :: "fsys \<Rightarrow> string \<Rightarrow> fsys \<times> (update_error, nat option) result" where
  "cached_update_artifact_size fs p =
     (case symlink_metadata fs p of
        Inl err \<Rightarrow> (fs, Err err)
      | Inr None \<Rightarrow> (fs, Ok None)
      | Inr (Some (FkFile n)) \<Rightarrow> (fs, Ok (Some n))
      | Inr (Some FkLink) \<Rightarrow>
          (case remove_cached_update_artifact fs p of
             (fs', Inl err) \<Rightarrow> (fs', Err err)
           | (fs', Inr _) \<Rightarrow> (fs', Ok None))
      | Inr (Some FkOther) \<Rightarrow> (fs, Err (UpdateError ''Refusing to use update cache path that is not a regular file'')))"

section \<open>The download\<close>

definition UPDATE_FILE_CREATE_ATTEMPTS :: nat where "UPDATE_FILE_CREATE_ATTEMPTS = 16"

definition temp_name :: "string \<Rightarrow> nat \<Rightarrow> nat \<Rightarrow> string" where
  "temp_name name pid r = ''.'' @ name @ ''.'' @ show_nat pid @ ''.'' @ show_nat r @ ''.download''"

text \<open>\<open>rnd i\<close> is the random number of the attempt \<open>i\<close>.\<close>

fun try_create :: "fsys \<Rightarrow> (nat \<Rightarrow> string) \<Rightarrow> nat \<Rightarrow> nat \<Rightarrow> (update_error, fsys \<times> nat \<times> string) result" where
  "try_create fs path_of i 0 = Err (UpdateError ''Failed to create temporary update file'')"
| "try_create fs path_of i (Suc n) =
     (case fs_create_new fs (path_of i) of
        Inr (fs', f) \<Rightarrow> Ok (fs', f, path_of i)
      | Inl AlreadyExists \<Rightarrow> try_create fs path_of (i + 1) n
      | Inl CreateFailed \<Rightarrow> Err IoError)"

definition create_download_temp_file ::
  "fsys \<Rightarrow> string \<Rightarrow> string \<Rightarrow> nat \<Rightarrow> (nat \<Rightarrow> nat) \<Rightarrow> (update_error, fsys \<times> nat \<times> string) result" where
  "create_download_temp_file fs dir name pid rnd =
     try_create fs (\<lambda>i. path_push dir (temp_name name pid (rnd i))) 0 UPDATE_FILE_CREATE_ATTEMPTS"

text \<open>\<open>io::copy\<close> of a reader cut off after \<open>n\<close> bytes: what was copied, and whether it ended well.\<close>

fun copy_limited :: "nat \<Rightarrow> bytes \<Rightarrow> read_result list \<Rightarrow> bytes \<times> bool" where
  "copy_limited n acc [] = (acc, True)"
| "copy_limited n acc (r # rs) =
     (if n = 0 then (acc, True)
      else case r of
             ReadOk [] \<Rightarrow> (acc, True)
           | ReadOk bs \<Rightarrow> copy_limited (n - length bs) (acc @ take n bs) rs
           | Interrupted \<Rightarrow> copy_limited n acc rs
           | ReadFailed \<Rightarrow> (acc, False))"

definition copy_and_verify_update_artifact ::
  "(bytes \<Rightarrow> string) \<Rightarrow> fsys \<Rightarrow> nat \<Rightarrow> nat \<Rightarrow> read_result list \<Rightarrow> u64 \<Rightarrow> string \<Rightarrow> fsys \<times> (update_error, unit) result" where
  "copy_and_verify_update_artifact sha fs i limit rs sz expected =
     (case copy_limited limit [] rs of
        (data, ok) \<Rightarrow>
          (case fs_write fs i 0 data of
             None \<Rightarrow> (fs, Err IoError)
           | Some fs' \<Rightarrow>
               if \<not> ok then (fs', Err IoError)
               else if length data \<noteq> unat sz then (fs', Err (UpdateError ''Update artifact size mismatch''))
               else (fs', verify_update_file_sha256 sha fs' i expected)))"

definition write_verified_update_artifact ::
  "(bytes \<Rightarrow> string) \<Rightarrow> fsys \<Rightarrow> string \<Rightarrow> string \<Rightarrow> nat \<Rightarrow> (nat \<Rightarrow> nat) \<Rightarrow> nat \<Rightarrow> read_result list \<Rightarrow> u64 \<Rightarrow> string
    \<Rightarrow> fsys \<times> (update_error, unit) result" where
  "write_verified_update_artifact sha fs dir name pid rnd limit rs sz expected =
     (let final = path_push dir name in
      case create_download_temp_file fs dir name pid rnd of
        Inl err \<Rightarrow> (fs, Err err)
      | Inr (fs, i, temp) \<Rightarrow>
          (case copy_and_verify_update_artifact sha fs i limit rs sz expected of
             (fs, Inl err) \<Rightarrow> (remove_update_file fs temp, Err err)
           | (fs, Inr _) \<Rightarrow>
               (case remove_cached_update_artifact fs final of
                  (fs, Inl err) \<Rightarrow> (remove_update_file fs temp, Err err)
                | (fs, Inr _) \<Rightarrow>
                    (case fs_rename fs temp final of
                       None \<Rightarrow> (remove_update_file fs temp, Err IoError)
                     | Some fs \<Rightarrow> (fs, Ok ())))))"

datatype download_answer = NoClient | NoAnswer | Answer bool "read_result list"

definition fetch_update_artifact ::
  "(bytes \<Rightarrow> string) \<Rightarrow> fsys \<Rightarrow> string \<Rightarrow> string \<Rightarrow> nat \<Rightarrow> (nat \<Rightarrow> nat) \<Rightarrow> download_answer \<Rightarrow> u64 \<Rightarrow> string
    \<Rightarrow> fsys \<times> (update_error, unit) result" where
  "fetch_update_artifact sha fs dir name pid rnd answer sz expected =
     (case answer of
        NoClient \<Rightarrow> (fs, Err IoError)
      | NoAnswer \<Rightarrow> (fs, Err IoError)
      | Answer success rs \<Rightarrow>
          if \<not> success then (fs, Err (UpdateError ''Failed to download the new version file''))
          else write_verified_update_artifact sha fs dir name pid rnd (unat (sat_add sz 1)) rs sz expected)"

definition ensure_verified_update_artifact ::
  "(bytes \<Rightarrow> string) \<Rightarrow> fsys \<Rightarrow> string \<Rightarrow> string \<Rightarrow> nat \<Rightarrow> (nat \<Rightarrow> nat) \<Rightarrow> download_answer \<Rightarrow> u64 \<Rightarrow> string
    \<Rightarrow> fsys \<times> (update_error, unit) result" where
  "ensure_verified_update_artifact sha fs dir name pid rnd answer sz expected =
     (let path = path_push dir name;
          fetch = (\<lambda>fs. fetch_update_artifact sha fs dir name pid rnd answer sz expected);
          refetch = (\<lambda>fs. case remove_cached_update_artifact fs path of
                            (fs, Inl err) \<Rightarrow> (fs, Err err)
                          | (fs, Inr _) \<Rightarrow> fetch fs)
      in case cached_update_artifact_size fs path of
           (fs, Inl err) \<Rightarrow> (fs, Err err)
         | (fs, Inr None) \<Rightarrow> fetch fs
         | (fs, Inr (Some n)) \<Rightarrow>
             if n = unat sz
             then (case verify_file_sha256 sha fs path expected of
                     Inr _ \<Rightarrow> (fs, Ok ())
                   | Inl _ \<Rightarrow> refetch fs)
             else refetch fs)"

section \<open>The automatic check\<close>

datatype handover = WindowsUpdate bool string string string | MacUpdate string string u64

record check_env =
  e_build :: build
  e_loaded :: bool
  e_auto_update :: bool
  e_msi_installed :: "(update_error, bool) result"
  e_custom_client :: bool
  e_tls_url :: string
  e_send :: "TlsType \<Rightarrow> http_answer"
  e_temp_dir :: string
  e_pid :: nat
  e_rnd :: "nat \<Rightarrow> nat"
  e_download :: "string \<Rightarrow> download_answer"
  e_idle :: bool
  e_mac_result :: "(update_error, unit) result"

definition check_update ::
  "program \<Rightarrow> (bytes \<Rightarrow> string) \<Rightarrow> check_env \<Rightarrow> bool \<Rightarrow> update_state \<Rightarrow> fsys
    \<Rightarrow> update_state \<times> fsys \<times> handover list \<times> (update_error, unit) result" where
  "check_update pr sha e manually st fs =
     (let os = b_os (e_build e) in
      if os = Macos \<and> \<not> manually then (st, fs, [], Ok ())
      else case (if os = Windows then and_then (e_msi_installed e) (\<lambda>m. Ok (m \<and> \<not> e_custom_client e)) else Ok False) of
        Inl err \<Rightarrow> (st, fs, [], Err err)
      | Inr update_msi \<Rightarrow>
          if \<not> (manually \<or> e_auto_update e) then (st, fs, [], Ok ())
          else case do_check_software_update pr (e_loaded e) (e_tls_url e) (e_send e) st of
            (st, Inl err) \<Rightarrow> (st, fs, [], Err err)
          | (st, Inr _) \<Rightarrow>
              let update_url = SOFTWARE_UPDATE_URL st in
              if update_url = [] \<or> current_update_format (e_build e) update_msi = ''unknown'' then (st, fs, [], Ok ())
              else case verified_update_artifact_from_release_page_url pr (e_loaded e) update_url
                          (current_update_artifact_query (e_build e) update_msi) st of
                Inl err \<Rightarrow> (st, fs, [], Err err)
              | Inr a \<Rightarrow>
                  (case download_file_name (p_dist pr) (v_url a) of
                     None \<Rightarrow> (st, fs, [], Err (UpdateError ''Failed to get the file path from the URL''))
                   | Some name \<Rightarrow>
                       (case ensure_verified_update_artifact sha fs (e_temp_dir e) name (e_pid e) (e_rnd e)
                               (e_download e (v_url a)) (v_size a) (v_sha256 a) of
                          (fs, Inl err) \<Rightarrow> (st, fs, [], Err err)
                        | (fs, Inr _) \<Rightarrow>
                            let path = path_push (e_temp_dir e) name in
                            if \<not> e_idle e then (st, fs, [], Ok ())
                            else if os = Windows
                            then (st, fs, [WindowsUpdate update_msi (v_version a) path (v_sha256 a)], Ok ())
                            else (st, fs, [MacUpdate path (v_sha256 a) (v_size a)], e_mac_result e))))"

text \<open>\<open>has_no_active_conns\<close> of a Flutter build: no incoming connection and no controlling session.\<close>

definition has_no_active_conns :: "i32 list \<Rightarrow> nat \<Rightarrow> bool" where
  "has_no_active_conns alive_conns controlling_session_count \<longleftrightarrow> alive_conns = [] \<and> controlling_session_count = 0"

section \<open>The schedule\<close>

text \<open>Times in seconds.\<close>

definition INITIAL_CHECK_DELAY :: nat where "INITIAL_CHECK_DELAY = 30"
definition DUR_ONE_DAY :: nat where "DUR_ONE_DAY = 60 * 60 * 24"
definition MIN_INTERVAL :: nat where "MIN_INTERVAL = 60 * 10"
definition RETRY_INTERVAL :: nat where "RETRY_INTERVAL = 60 * 30"

datatype recv = RecvCheckUpdate | RecvExit | RecvErr

record sched =
  last_check_time :: nat
  check_interval :: nat

text \<open>A turn of the loop: what was received and when, whether the program was idle, how the check ended and when.\<close>

record turn =
  t_recv :: recv
  t_now :: nat
  t_idle :: bool
  t_ok :: bool
  t_done :: nat

definition sched_start :: "nat \<Rightarrow> sched" where
  "sched_start t = \<lparr>last_check_time = t, check_interval = DUR_ONE_DAY\<rparr>"

text \<open>The loop: the schedule after the turns, and for each check whether it was asked for, and its turn.\<close>

fun auto_update_loop :: "sched \<Rightarrow> turn list \<Rightarrow> sched \<times> (bool \<times> turn) list" where
  "auto_update_loop s [] = (s, [])"
| "auto_update_loop s (t # ts) =
     (if t_recv t = RecvExit then (s, [])
      else if t_now t - last_check_time s < MIN_INTERVAL then auto_update_loop s ts
      else if \<not> t_idle t then auto_update_loop (s\<lparr>check_interval := RETRY_INTERVAL\<rparr>) ts
      else
        let s' = (if t_ok t then \<lparr>last_check_time = t_done t, check_interval = DUR_ONE_DAY\<rparr>
                  else s\<lparr>check_interval := RETRY_INTERVAL\<rparr>)
        in case auto_update_loop s' ts of (s'', cs) \<Rightarrow> (s'', (t_recv t = RecvCheckUpdate, t) # cs))"

section \<open>A file that was verified\<close>

lemma read_chunks: "0 < n \<Longrightarrow> read_to_end acc (map ReadOk (chunks n bs)) = Some (acc @ bs)"
proof (induction n bs arbitrary: acc rule: chunks.induct)
  case (1 n bs)
  show ?case
  proof (cases "bs = []")
    case False
    with 1(2) obtain c cs where t: "take n bs = c # cs" by (cases "take n bs") auto
    have "chunks n bs = take n bs # chunks n (drop n bs)" using False 1(2) by (subst chunks.simps) simp
    then have "read_to_end acc (map ReadOk (chunks n bs)) = Some ((acc @ c # cs) @ drop n bs)"
      using 1 False t by simp
    then show ?thesis unfolding t[symmetric] by (simp only: append_assoc append_take_drop_id)
  qed (simp add: chunks.simps)
qed

lemma verify_sha_ok: "verify_update_file_sha256 sha fs i expected = Ok u \<longleftrightarrow>
    \<not> broken fs i \<and> sha (contents fs i) = to_lowercase (trim expected) \<and> is_sha256_hex (to_lowercase (trim expected))"
  by (auto simp: verify_update_file_sha256_def verify_sha256_reader_def sha256_reader_hex_def file_reads_def read_chunks
      is_sha256_hex_def Let_def split: sum.splits Sha256VerificationError.splits if_splits option.splits)

text \<open>What the name of a verified file leads to.\<close>

definition file_verified :: "(bytes \<Rightarrow> string) \<Rightarrow> fsys \<Rightarrow> string \<Rightarrow> u64 \<Rightarrow> string \<Rightarrow> bool" where
  "file_verified sha fs path sz expected \<longleftrightarrow>
     (\<exists>i. fs_open fs path = Some i \<and> length (contents fs i) = unat sz
        \<and> sha (contents fs i) = to_lowercase (trim expected))"

lemma fs_open_file:
  assumes "names fs (fs_key p) = Some (N_File i)" "\<not> denied fs (fs_key p)" "\<not> key_is_dir fs (fs_key p)"
  shows "fs_open fs p = Some i"
proof -
  have "target fs p = Some (fs_key p)" unfolding target_def using assms(1) by (intro follow_not_link) simp
  then show ?thesis using assms by (simp add: fs_open_def fs_file_def)
qed

text \<open>What a call may change: the name \<open>k\<close>, new files, and nothing else.\<close>

definition only_changes :: "key \<Rightarrow> fsys \<Rightarrow> fsys \<Rightarrow> bool" where
  "only_changes k fs fs' \<longleftrightarrow> (\<forall>x. x \<noteq> k \<longrightarrow> names fs' x = names fs x) \<and> (\<forall>j. j < next_file fs \<longrightarrow> contents fs' j = contents fs j)
     \<and> denied fs' = denied fs \<and> broken fs' = broken fs \<and> next_file fs \<le> next_file fs'"

lemma only_changes_refl [simp]: "only_changes k fs fs"
  by (simp add: only_changes_def)

lemma only_changes_trans: "only_changes k fs fs' \<Longrightarrow> only_changes k fs' fs'' \<Longrightarrow> only_changes k fs fs''"
  by (auto simp: only_changes_def)

definition gone_or_same :: "key \<Rightarrow> fsys \<Rightarrow> fsys \<Rightarrow> bool" where
  "gone_or_same k fs fs' \<longleftrightarrow> names fs' k = names fs k \<or> names fs' k = None"

lemma gone_refl [simp]: "gone_or_same k fs fs"
  by (simp add: gone_or_same_def)

lemma remove_file_effect:
  "fs_remove_file fs p = Some fs' \<longleftrightarrow> \<not> denied fs (fs_key p) \<and> \<not> key_is_dir fs (fs_key p) \<and> names fs (fs_key p) \<noteq> None
     \<and> fs' = fs\<lparr>names := (names fs)(fs_key p := None)\<rparr>"
  by (auto simp: fs_remove_file_def Let_def)

lemma remove_cached_effect:
  assumes "remove_cached_update_artifact fs p = (fs', r)"
  shows "only_changes (fs_key p) fs fs' \<and> gone_or_same (fs_key p) fs fs'
    \<and> (r = Ok () \<longrightarrow> names fs' (fs_key p) = None \<and> contents fs' = contents fs \<and> next_file fs' = next_file fs)"
  using assms
  by (auto simp: remove_cached_update_artifact_def symlink_metadata_def Let_def remove_file_effect only_changes_def gone_or_same_def
      split: sum.splits option.splits file_kind.splits node.splits if_splits)

lemma cached_size_effect:
  assumes "cached_update_artifact_size fs p = (fs', r)"
  shows "only_changes (fs_key p) fs fs' \<and> gone_or_same (fs_key p) fs fs'
    \<and> (\<forall>n. r = Ok (Some n) \<longrightarrow> fs' = fs \<and> (\<exists>i. names fs (fs_key p) = Some (N_File i) \<and> n = length (contents fs i)
         \<and> \<not> denied fs (fs_key p) \<and> \<not> key_is_dir fs (fs_key p)))"
  using assms remove_cached_effect[of fs p]
  by (auto simp: cached_update_artifact_size_def symlink_metadata_def Let_def
      split: sum.splits option.splits file_kind.splits node.splits if_splits prod.splits)

lemma try_create_ok:
  "try_create fs path_of i n = Ok (fs', f, temp) \<Longrightarrow> fs_create_new fs temp = Ok (fs', f)"
  by (induction fs path_of i n rule: try_create.induct) (auto split: sum.splits create_error.splits prod.splits)

lemma create_new_effect:
  "fs_create_new fs p = Ok (fs', f) \<longleftrightarrow> \<not> denied fs (fs_key p) \<and> \<not> key_is_dir fs (fs_key p) \<and> names fs (fs_key p) = None
     \<and> key_is_dir fs (butlast (fs_key p)) \<and> f = next_file fs
     \<and> fs' = fs\<lparr>names := (names fs)(fs_key p \<mapsto> N_File f), contents := (contents fs)(f := []), next_file := f + 1\<rparr>"
  by (auto simp: fs_create_new_def Let_def split: if_splits)

lemma copy_verify_effect:
  assumes "copy_and_verify_update_artifact sha fs i limit rs sz expected = (fs', r)" "contents fs i = []"
  shows "names fs' = names fs \<and> denied fs' = denied fs \<and> broken fs' = broken fs \<and> next_file fs' = next_file fs
    \<and> (\<forall>j. j \<noteq> i \<longrightarrow> contents fs' j = contents fs j)
    \<and> (r = Ok () \<longrightarrow> length (contents fs' i) = unat sz \<and> sha (contents fs' i) = to_lowercase (trim expected))"
  using assms
  by (auto simp: copy_and_verify_update_artifact_def fs_write_def write_at_def verify_sha_ok
      split: option.splits prod.splits if_splits)

text \<open>Removing the temporary file restores the names as they were before it was made.\<close>

lemma remove_temp:
  assumes "names g (fs_key temp) = Some (N_File i) \<or> names g (fs_key temp) = None"
    "\<not> denied g (fs_key temp)" "fs_key temp \<noteq> []" "fs_key temp \<noteq> [RootDir]"
  shows "remove_update_file g temp = g\<lparr>names := (names g)(fs_key temp := None)\<rparr>"
  using assms by (auto simp: remove_update_file_def try_fs_def fs_remove_file_def Let_def key_is_dir_def fun_upd_idem)

text \<open>The state after the copy into the new file \<open>i\<close>.\<close>

definition copied :: "fsys \<Rightarrow> string \<Rightarrow> nat \<Rightarrow> fsys \<Rightarrow> bool" where
  "copied fs temp i g \<longleftrightarrow> names g = (names fs)(fs_key temp \<mapsto> N_File i) \<and> denied g = denied fs \<and> broken g = broken fs
     \<and> next_file g = i + 1 \<and> (\<forall>j. j < i \<longrightarrow> contents g j = contents fs j) \<and> i = next_file fs
     \<and> \<not> denied fs (fs_key temp) \<and> \<not> key_is_dir fs (fs_key temp) \<and> names fs (fs_key temp) = None"

lemma copied_step:
  assumes "create_download_temp_file fs dir name pid rnd = Ok (f1, i, temp)"
    "copy_and_verify_update_artifact sha f1 i limit rs sz expected = (f2, r)"
  shows "copied fs temp i f2
    \<and> (r = Ok () \<longrightarrow> length (contents f2 i) = unat sz \<and> sha (contents f2 i) = to_lowercase (trim expected))"
proof -
  have new: "fs_create_new fs temp = Ok (f1, i)"
    using assms(1) try_create_ok unfolding create_download_temp_file_def by blast
  then have z: "contents f1 i = []" by (auto simp: create_new_effect)
  show ?thesis using new copy_verify_effect[OF assms(2) z] by (auto simp: create_new_effect copied_def)
qed

lemma undo_temp:
  assumes "copied fs temp i f" "only_changes k f g" "gone_or_same k f g"
  shows "only_changes k fs (remove_update_file g temp) \<and> gone_or_same k fs (remove_update_file g temp)"
proof -
  let ?t = "fs_key temp"
  have root: "?t \<noteq> []" "?t \<noteq> [RootDir]" using assms(1) by (auto simp: copied_def key_is_dir_def)
  have g: "names g x = names f x \<or> x = k \<and> names g x = None" for x
    using assms(2,3) by (cases "x = k") (auto simp: only_changes_def gone_or_same_def)
  have f: "denied g = denied fs" "broken g = broken fs" "next_file fs \<le> next_file g" "\<not> denied fs ?t" "names fs ?t = None"
    using assms(1,2) by (auto simp: copied_def only_changes_def)
  have con: "contents g j = contents fs j" if "j < next_file fs" for j
    using assms(1,2) that by (simp add: copied_def only_changes_def)
  have t: "names g ?t = Some (N_File i) \<or> names g ?t = None" using g[of ?t] assms(1) by (auto simp: copied_def)
  have rm: "remove_update_file g temp = g\<lparr>names := (names g)(?t := None)\<rparr>"
    by (rule remove_temp[OF t _ root]) (simp add: f)
  have "names g x = names fs x \<or> x = k \<and> names g x = None" if "x \<noteq> ?t" for x
    using g[of x] that assms(1) by (auto simp: copied_def)
  then have n: "names (remove_update_file g temp) x = names fs x \<or> x = k \<and> names (remove_update_file g temp) x = None" for x
    using f(5) by (simp add: rm)
  have "x \<noteq> k \<Longrightarrow> names (remove_update_file g temp) x = names fs x" for x using n[of x] by simp
  moreover have "names (remove_update_file g temp) k = names fs k \<or> names (remove_update_file g temp) k = None" using n[of k] by simp
  moreover have "denied (remove_update_file g temp) = denied fs" "broken (remove_update_file g temp) = broken fs"
    "next_file fs \<le> next_file (remove_update_file g temp)"
    "\<And>j. j < next_file fs \<Longrightarrow> contents (remove_update_file g temp) j = contents fs j"
    using f con by (simp_all add: rm)
  ultimately show ?thesis by (simp add: only_changes_def gone_or_same_def)
qed

lemma rename_temp:
  assumes "copied fs temp i f" "only_changes (fs_key p) f g" "names g (fs_key p) = None" "contents g = contents f"
    "next_file g = next_file f" "fs_rename g temp p = Some fs'"
  shows "fs_open fs' p = Some i \<and> contents fs' = contents f \<and> only_changes (fs_key p) fs fs'"
proof -
  let ?t = "fs_key temp" and ?k = "fs_key p"
  from assms(6) have k: "\<not> denied g ?k" "\<not> key_is_dir g ?k" and nt: "names g ?t \<noteq> None"
    by (auto simp: fs_rename_def Let_def split: if_splits option.splits)
  then have tk: "?t \<noteq> ?k" using assms(3) by metis
  have o: "\<And>x. x \<noteq> ?k \<Longrightarrow> names g x = names f x" "denied g = denied f" "broken g = broken f"
    using assms(2) by (auto simp: only_changes_def)
  have "names g ?t = Some (N_File i)" using o(1)[OF tk] assms(1) by (simp add: copied_def)
  with assms(6) tk have fs': "fs' = g\<lparr>names := (names g)(?t := None, ?k \<mapsto> N_File i)\<rparr>"
    by (auto simp: fs_rename_def Let_def split: if_splits)
  have op: "fs_open fs' p = Some i" using k fs' by (intro fs_open_file) (auto simp: key_is_dir_def)
  have "names fs' x = names fs x" if "x \<noteq> ?k" for x
    using fs' that o(1) assms(1) by (auto simp: copied_def)
  then show ?thesis using op fs' assms(1,4,5) o by (auto simp: only_changes_def copied_def)
qed

lemma write_verified_effect:
  assumes "write_verified_update_artifact sha fs dir name pid rnd limit rs sz expected = (fs', r)"
  shows "only_changes (fs_key (path_push dir name)) fs fs'
    \<and> (if r = Ok () then file_verified sha fs' (path_push dir name) sz expected
        else gone_or_same (fs_key (path_push dir name)) fs fs')"
proof (cases "create_download_temp_file fs dir name pid rnd")
  case (Inl err)
  with assms show ?thesis by (auto simp: write_verified_update_artifact_def)
next
  case (Inr c)
  obtain f1 i temp where c: "create_download_temp_file fs dir name pid rnd = Ok (f1, i, temp)" using Inr by (cases c) auto
  let ?p = "path_push dir name"
  obtain f2 r2 where cp: "copy_and_verify_update_artifact sha f1 i limit rs sz expected = (f2, r2)" by fastforce
  obtain f3 r3 where rm: "remove_cached_update_artifact f2 ?p = (f3, r3)" by fastforce
  note e2 = copied_step[OF c cp] and e3 = remove_cached_effect[OF rm]
  consider "r2 \<noteq> Ok ()" "fs' = remove_update_file f2 temp" "r \<noteq> Ok ()"
    | "fs' = remove_update_file f3 temp" "r \<noteq> Ok ()"
    | "r2 = Ok ()" "r3 = Ok ()" "fs_rename f3 temp ?p = Some fs'" "r = Ok ()"
    using assms c cp rm
    by (auto simp: write_verified_update_artifact_def Let_def split: sum.splits option.splits)
  then show ?thesis
  proof cases
    case 1
    with undo_temp[of fs temp i f2 "fs_key ?p" f2] e2 show ?thesis by simp
  next
    case 2
    with undo_temp[of fs temp i f2 "fs_key ?p" f3] e2 e3 show ?thesis by simp
  next
    case 3
    have "fs_open fs' ?p = Some i \<and> contents fs' = contents f2 \<and> only_changes (fs_key ?p) fs fs'"
      using e2 e3 3 by (intro rename_temp[of fs temp i f2 ?p f3]) auto
    with e2 3 show ?thesis by (auto simp: file_verified_def)
  qed
qed

lemma fetch_effect:
  assumes "fetch_update_artifact sha fs dir name pid rnd answer sz expected = (fs', r)"
  shows "only_changes (fs_key (path_push dir name)) fs fs'
    \<and> (if r = Ok () then file_verified sha fs' (path_push dir name) sz expected
        else gone_or_same (fs_key (path_push dir name)) fs fs')"
  using assms by (cases answer) (auto simp: fetch_update_artifact_def dest!: write_verified_effect split: if_splits)

lemma gone_trans: "gone_or_same k fs g \<Longrightarrow> gone_or_same k g h \<Longrightarrow> gone_or_same k fs h"
  by (auto simp: gone_or_same_def)

lemma ensure_effect:
  assumes "ensure_verified_update_artifact sha fs dir name pid rnd answer sz expected = (fs', r)"
  shows "only_changes (fs_key (path_push dir name)) fs fs'
    \<and> (if r = Ok () then file_verified sha fs' (path_push dir name) sz expected
        else gone_or_same (fs_key (path_push dir name)) fs fs')"
proof -
  let ?p = "path_push dir name"
  obtain f1 r1 where cs: "cached_update_artifact_size fs ?p = (f1, r1)" by fastforce
  obtain f2 r2 where rm: "remove_cached_update_artifact f1 ?p = (f2, r2)" by fastforce
  note e1 = cached_size_effect[OF cs] and e2 = remove_cached_effect[OF rm]
  consider "fs' = f1" "r \<noteq> Ok ()" | g where "g = f1 \<or> g = f2" "fetch_update_artifact sha g dir name pid rnd answer sz expected = (fs', r)"
    | "r1 = Ok (Some (unat sz))" "verify_file_sha256 sha f1 ?p expected = Ok ()" "fs' = f1" "r = Ok ()"
    | "fs' = f2" "r \<noteq> Ok ()"
    using assms cs rm
    by (auto simp: ensure_verified_update_artifact_def Let_def split: sum.splits option.splits if_splits)
  then show ?thesis
  proof cases
    case 1
    with e1 show ?thesis by simp
  next
    case (2 g)
    have "only_changes (fs_key ?p) fs g \<and> gone_or_same (fs_key ?p) fs g"
      using 2(1) e1 e2 only_changes_trans gone_trans by blast
    with fetch_effect[OF 2(2)] show ?thesis by (auto intro: only_changes_trans gone_trans)
  next
    case 3
    obtain i where i: "f1 = fs" "names fs (fs_key ?p) = Some (N_File i)" "unat sz = length (contents fs i)"
        "\<not> denied fs (fs_key ?p)" "\<not> key_is_dir fs (fs_key ?p)"
      using e1 3(1) by auto
    have "fs_open fs ?p = Some i" using i by (intro fs_open_file) auto
    with 3 i show ?thesis by (auto simp: verify_file_sha256_def and_then_Ok ok_or_Ok verify_sha_ok file_verified_def)
  next
    case 4
    with e1 e2 only_changes_trans gone_trans show ?thesis by (metis (full_types))
  qed
qed

section \<open>What is installed\<close>

text \<open>The hash a feed names is compared as it is, up to the case of its letters.\<close>

lemma lower_hex: "is_ascii_hexdigit c \<Longrightarrow> \<not> is_white c"
  by (auto simp: is_ascii_hexdigit_def is_white_def Let_def)

lemma trim_hex: "is_sha256_hex h \<Longrightarrow> trim h = h"
proof -
  assume "is_sha256_hex h"
  then have a: "\<forall>c \<in> set h. \<not> is_white c" using lower_hex by (auto simp: is_sha256_hex_def list_all_iff)
  have d: "dropWhile is_white xs = xs" if "\<forall>c \<in> set xs. \<not> is_white c" for xs
    using that by (cases xs) auto
  show ?thesis using a by (simp add: trim_def trim_start_def d)
qed

definition handed_over :: "program \<Rightarrow> (bytes \<Rightarrow> string) \<Rightarrow> check_env \<Rightarrow> fsys \<Rightarrow> handover \<Rightarrow> bool" where
  "handed_over pr sha e fs h \<longleftrightarrow>
     (\<exists>feed b path msi i. offered_feed pr feed \<and> b \<in> set (artifacts (metadata feed))
        \<and> selector b = (current_update_platform (e_build e), current_update_arch (e_build e), current_update_format (e_build e) msi)
        \<and> path = path_push (e_temp_dir e) (file_name b)
        \<and> fs_open fs path = Some i \<and> length (contents fs i) = unat (a_size b) \<and> sha (contents fs i) = to_lowercase (a_sha256 b)
        \<and> (h = WindowsUpdate msi (feed_version feed) path (a_sha256 b) \<or> h = MacUpdate path (a_sha256 b) (a_size b)))"

lemma chosen_artifact:
  assumes "offered_feed pr feed" "feed_artifact feed q = Ok a"
  shows "\<exists>b \<in> set (artifacts (metadata feed)). selector b = (q_platform q, q_arch q, q_format q)
    \<and> artifact_ok (p_dist pr) b \<and> a = verified_artifact (metadata feed) b"
proof -
  obtain b where b: "select_artifact (metadata feed) q = Ok b" "a = verified_artifact (metadata feed) b"
    using assms(2) by (auto simp: feed_artifact_def and_then_Ok)
  let ?f = "filter (\<lambda>a. platform a = q_platform q \<and> arch a = q_arch q \<and> a_format a = q_format q) (artifacts (metadata feed))"
  from b(1) have "?f = [b]" by (auto simp: select_artifact_def split: list.splits)
  then have "b \<in> set ?f" by (metis list.set_intros(1))
  with b(2) assms(1) show ?thesis
    by (auto simp: selector_def offered_feed_def trusted_feed_def list_all_iff)
qed

lemma verified_handed_over:
  assumes "offered_feed pr feed" "feed_artifact feed (current_update_artifact_query (e_build e) msi) = Ok a"
    "download_file_name (p_dist pr) (v_url a) = Some name"
    "file_verified sha fs (path_push (e_temp_dir e) name) (v_size a) (v_sha256 a)"
    "h = WindowsUpdate msi (v_version a) (path_push (e_temp_dir e) name) (v_sha256 a)
      \<or> h = MacUpdate (path_push (e_temp_dir e) name) (v_sha256 a) (v_size a)"
  shows "handed_over pr sha e fs h"
proof -
  obtain b where b: "b \<in> set (artifacts (metadata feed))" "artifact_ok (p_dist pr) b" "a = verified_artifact (metadata feed) b"
      "selector b = (current_update_platform (e_build e), current_update_arch (e_build e), current_update_format (e_build e) msi)"
    using chosen_artifact[OF assms(1,2)] by (auto simp: current_update_artifact_query_def)
  have sh: "trim (a_sha256 b) = a_sha256 b" using b(2) trim_hex by (simp add: artifact_ok_def)
  have pl: "plain_file_name name" "plain_file_name (file_name b)"
    using assms(3) b(2) by (simp_all add: download_file_name_iff artifact_ok_def)
  obtain rel where u: "v_url a = rel @ CHR ''/'' # name"
    using assms(3) by (auto simp: download_file_name_iff release_url_def)
  have u': "v_url a = UPDATE_ORIGIN (p_dist pr) @ CHR ''/'' # file_name b"
    using b by (simp add: artifact_ok_def verified_artifact_def)
  have "rsplit_once CHR ''/'' (v_url a) = Some (rel, name)" using u pl plain_no_slash by (simp add: rsplit_once_Some)
  moreover have "rsplit_once CHR ''/'' (v_url a) = Some (UPDATE_ORIGIN (p_dist pr), file_name b)"
    using u' pl plain_no_slash by (simp add: rsplit_once_Some)
  ultimately have n: "name = file_name b" by simp
  obtain i where i: "fs_open fs (path_push (e_temp_dir e) name) = Some i" "length (contents fs i) = unat (v_size a)"
      "sha (contents fs i) = to_lowercase (trim (v_sha256 a))"
    using assms(4) by (auto simp: file_verified_def)
  show ?thesis unfolding handed_over_def
    using assms(1,5) b i sh n
    by (intro exI[of _ feed] exI[of _ b] exI[of _ "path_push (e_temp_dir e) (file_name b)"] exI[of _ msi] exI[of _ i])
      (auto simp: verified_artifact_def feed_version_def)
qed

text \<open>
  C15: Only a verified file of a newer, signed release is installed, and only while nobody is connected. Whatever the
  web server answers and whatever lies in the temporary directory: what the automatic check hands to the
  installer is the artifact for this platform of a signed feed of the own edition that is newer than the
  program, the file under its name has the size and the hash the feed names, the check was asked for or is
  allowed by the setting, and no session was active after the download.
\<close>

theorem check_installs_verified:
  assumes "check_update pr sha e manually st fs = (st', fs', hs, r)" "h \<in> set hs"
  shows "handed_over pr sha e fs' h \<and> e_idle e \<and> (manually \<or> e_auto_update e) \<and> b_os (e_build e) \<noteq> Linux
    \<and> uses_public_channel (e_loaded e) (APP_NAME pr)"
proof -
  obtain msi a name r1 where c: "do_check_software_update pr (e_loaded e) (e_tls_url e) (e_send e) st = (st', Ok ())"
      "current_update_format (e_build e) msi \<noteq> ''unknown''" "manually \<or> e_auto_update e"
      "verified_update_artifact_from_release_page_url pr (e_loaded e) (SOFTWARE_UPDATE_URL st') (current_update_artifact_query (e_build e) msi) st' = Ok a"
      "download_file_name (p_dist pr) (v_url a) = Some name" "e_idle e"
      "ensure_verified_update_artifact sha fs (e_temp_dir e) name (e_pid e) (e_rnd e) (e_download e (v_url a)) (v_size a) (v_sha256 a) = (fs', Ok ())"
      "h = WindowsUpdate msi (v_version a) (path_push (e_temp_dir e) name) (v_sha256 a) \<or> h = MacUpdate (path_push (e_temp_dir e) name) (v_sha256 a) (v_size a)"
    using assms by (auto simp: check_update_def Let_def split: if_splits sum.splits option.splits prod.splits)
  obtain feed where f: "verified_feed_for_url pr (e_loaded e) (SOFTWARE_UPDATE_URL st') st' = Ok feed"
      "feed_artifact feed (current_update_artifact_query (e_build e) msi) = Ok a"
    using c(4) by (auto simp: verified_update_artifact_from_release_page_url_def and_then_Ok)
  have "offered_feed pr feed" using f(1) check_effect[OF c(1)]
    by (auto simp: verified_feed_for_url_def cached_update_feed_def ok_or_Ok offer_ok_def split: if_splits)
  then have "handed_over pr sha e fs' h" using verified_handed_over f(2) c(5,8) ensure_effect[OF c(7)] by simp
  moreover have "b_os (e_build e) \<noteq> Linux" using c(2) by (auto simp: current_update_format_def)
  moreover have "uses_public_channel (e_loaded e) (APP_NAME pr)"
    using f(1) by (auto simp: verified_feed_for_url_def split: if_splits)
  ultimately show ?thesis using c(3,6) by blast
qed

text \<open>A Windows build that finds nothing in its temporary directory and downloads three bytes.\<close>

definition demo_fs :: fsys where
  "demo_fs = \<lparr>names = [[RootDir, Normal ''tmp''] \<mapsto> N_Dir], contents = (\<lambda>_. []), mtime = (\<lambda>_. 0), next_file = 0,
     denied = (\<lambda>_. False), broken = (\<lambda>_. False)\<rparr>"

definition demo_sha :: "bytes \<Rightarrow> string" where
  "demo_sha bs = replicate 64 (if bs = [1, 2, 3] then CHR ''a'' else CHR ''b'')"

definition demo_env :: check_env where
  "demo_env = \<lparr>e_build = \<lparr>b_os = Windows, b_flutter = True, b_arch = ''x86_64''\<rparr>, e_loaded = False, e_auto_update = True,
     e_msi_installed = Ok False, e_custom_client = False, e_tls_url = ''https://bgdesk.com'',
     e_send = (\<lambda>_. Response True [Chunk [1]]), e_temp_dir = ''/tmp'', e_pid = 7, e_rnd = (\<lambda>_. 5),
     e_download = (\<lambda>_. Answer True [ReadOk [1, 2], Interrupted, ReadOk [3]]), e_idle = True, e_mac_result = Ok ()\<rparr>"

lemma demo_keys:
  "fs_key (path_push ''/tmp'' ''bgdesk-cliente-update.exe'') = [RootDir, Normal ''tmp'', Normal ''bgdesk-cliente-update.exe'']"
  "fs_key (path_push ''/tmp'' (temp_name ''bgdesk-cliente-update.exe'' 7 5))
     = [RootDir, Normal ''tmp'', Normal ''.bgdesk-cliente-update.exe.7.5.download'']"
  by code_simp+

lemma demo_hex: "to_lowercase (trim (replicate 64 CHR ''a'')) = replicate 64 CHR ''a''" "is_sha256_hex (replicate 64 CHR ''a'')"
  by code_simp+

lemma demo_copy: "copy_limited (unat (sat_add 3 1 :: u64)) [] [ReadOk [1, 2], Interrupted, ReadOk [3]] = ([1, 2, 3], True)"
  by (simp add: sat_add_def)

definition demo_temp :: string where
  "demo_temp = path_push ''/tmp'' (temp_name ''bgdesk-cliente-update.exe'' 7 5)"

definition demo_created :: fsys where
  "demo_created = demo_fs\<lparr>names := (names demo_fs)([RootDir, Normal ''tmp'', Normal ''.bgdesk-cliente-update.exe.7.5.download''] \<mapsto> N_File 0),
     contents := (contents demo_fs)(0 := []), next_file := 1\<rparr>"

lemma demo_create:
  "create_download_temp_file demo_fs ''/tmp'' ''bgdesk-cliente-update.exe'' 7 (\<lambda>_. 5) = Ok (demo_created, 0, demo_temp)"
proof -
  have n: "UPDATE_FILE_CREATE_ATTEMPTS = Suc 15" by (simp add: UPDATE_FILE_CREATE_ATTEMPTS_def)
  show ?thesis unfolding create_download_temp_file_def n try_create.simps
    by (simp add: demo_created_def demo_temp_def fs_create_new_def demo_keys Let_def key_is_dir_def demo_fs_def)
qed

lemma demo_verify: "contents fs i = [1, 2, 3] \<Longrightarrow> \<not> broken fs i \<Longrightarrow>
    verify_update_file_sha256 demo_sha fs i (replicate 64 CHR ''a'') = Ok ()"
  using demo_hex by (simp only: verify_sha_ok demo_sha_def simp_thms if_True)

lemma demo_write:
  "snd (write_verified_update_artifact demo_sha demo_fs ''/tmp'' ''bgdesk-cliente-update.exe'' 7 (\<lambda>_. 5) (unat (sat_add 3 1 :: u64))
     [ReadOk [1, 2], Interrupted, ReadOk [3]] 3 (replicate 64 CHR ''a'')) = Ok ()"
proof -
  let ?f = "demo_created\<lparr>contents := (contents demo_created)(0 := [1, 2, 3])\<rparr>"
  have "fs_write demo_created 0 0 [1, 2, 3] = Some ?f" by (simp add: fs_write_def write_at_def demo_created_def demo_fs_def)
  moreover have "verify_update_file_sha256 demo_sha ?f 0 (replicate 64 CHR ''a'') = Ok ()"
    by (rule demo_verify) (simp_all add: demo_created_def demo_fs_def)
  ultimately have cp: "copy_and_verify_update_artifact demo_sha demo_created 0 (unat (sat_add 3 1 :: u64))
      [ReadOk [1, 2], Interrupted, ReadOk [3]] 3 (replicate 64 CHR ''a'') = (?f, Ok ())"
    unfolding copy_and_verify_update_artifact_def demo_copy by simp
  have rm: "remove_cached_update_artifact ?f (path_push ''/tmp'' ''bgdesk-cliente-update.exe'') = (?f, Ok ())"
    by (simp add: remove_cached_update_artifact_def symlink_metadata_def demo_keys Let_def key_is_dir_def demo_created_def demo_fs_def)
  have "fs_rename ?f demo_temp (path_push ''/tmp'' ''bgdesk-cliente-update.exe'') \<noteq> None"
    by (simp add: fs_rename_def demo_temp_def demo_keys Let_def key_is_dir_def demo_created_def demo_fs_def)
  then show ?thesis unfolding write_verified_update_artifact_def demo_create Let_def by (auto simp: cp rm)
qed

lemma demo_ensure:
  "\<exists>fs'. ensure_verified_update_artifact demo_sha demo_fs ''/tmp'' ''bgdesk-cliente-update.exe'' 7 (\<lambda>_. 5)
     (Answer True [ReadOk [1, 2], Interrupted, ReadOk [3]]) 3 (replicate 64 CHR ''a'') = (fs', Ok ())"
proof -
  have "cached_update_artifact_size demo_fs (path_push ''/tmp'' ''bgdesk-cliente-update.exe'') = (demo_fs, Ok None)"
    by (simp add: cached_update_artifact_size_def symlink_metadata_def demo_keys Let_def key_is_dir_def demo_fs_def)
  then show ?thesis
    unfolding ensure_verified_update_artifact_def fetch_update_artifact_def Let_def using demo_write
    by (cases "write_verified_update_artifact demo_sha demo_fs ''/tmp'' ''bgdesk-cliente-update.exe'' 7 (\<lambda>_. 5) (unat (sat_add 3 1 :: u64))
      [ReadOk [1, 2], Interrupted, ReadOk [3]] 3 (replicate 64 CHR ''a'')") simp
qed

lemma demo_update:
  "\<exists>fs'. check_update demo_program demo_sha demo_env False demo_start demo_fs = (demo_checked, fs',
     [WindowsUpdate False ''1.5.2'' ''/tmp/bgdesk-cliente-update.exe'' (replicate 64 CHR ''a'')], Ok ())"
proof -
  obtain fs' where en: "ensure_verified_update_artifact demo_sha demo_fs ''/tmp'' ''bgdesk-cliente-update.exe'' 7 (\<lambda>_. 5)
     (Answer True [ReadOk [1, 2], Interrupted, ReadOk [3]]) 3 (replicate 64 CHR ''a'') = (fs', Ok ())"
    using demo_ensure by blast
  have ar: "feed_artifact \<lparr>metadata = demo_metadata, signed_bytes = [1]\<rparr>
      (current_update_artifact_query \<lparr>b_os = Windows, b_flutter = True, b_arch = ''x86_64''\<rparr> False)
      = Ok (verified_artifact demo_metadata demo_windows)" by code_simp
  have dn: "download_file_name demo_dist ''https://bgdesk.com/bgdesk-cliente-update.exe'' = Some ''bgdesk-cliente-update.exe''" by code_simp
  have u: "verified_update_artifact_from_release_page_url demo_program False (latest_url demo_dist)
      (current_update_artifact_query \<lparr>b_os = Windows, b_flutter = True, b_arch = ''x86_64''\<rparr> False) demo_checked
      = Ok (verified_artifact demo_metadata demo_windows)"
    by (simp add: verified_update_artifact_from_release_page_url_def verified_feed_for_url_def uses_public_channel_def
        demo_fields cached_update_feed_def demo_checked_def ok_or_def and_then_def ar)
  have w: "v_url (verified_artifact demo_metadata demo_windows) = ''https://bgdesk.com/bgdesk-cliente-update.exe''"
    "v_size (verified_artifact demo_metadata demo_windows) = 3" "v_version (verified_artifact demo_metadata demo_windows) = ''1.5.2''"
    "v_sha256 (verified_artifact demo_metadata demo_windows) = replicate 64 CHR ''a''"
    by (simp_all add: verified_artifact_def demo_windows_def demo_metadata_def)
  have l: "SOFTWARE_UPDATE_URL demo_checked = latest_url demo_dist" "latest_url demo_dist \<noteq> []"
    by (simp_all add: demo_checked_def latest_url_def)
  have p: "path_push ''/tmp'' ''bgdesk-cliente-update.exe'' = ''/tmp/bgdesk-cliente-update.exe''" by code_simp
  show ?thesis
    using en by (simp add: check_update_def demo_env_def and_then_def demo_check Let_def l u w dn p demo_fields current_update_format_def)
qed

theorem check_installs_verified_witness:
  "\<exists>fs' h. fst (snd (check_update demo_program demo_sha demo_env False demo_start demo_fs)) = fs'
     \<and> handed_over demo_program demo_sha demo_env fs' h \<and> h = WindowsUpdate False ''1.5.2'' ''/tmp/bgdesk-cliente-update.exe'' (replicate 64 CHR ''a'')"
proof -
  obtain fs' where c: "check_update demo_program demo_sha demo_env False demo_start demo_fs = (demo_checked, fs',
     [WindowsUpdate False ''1.5.2'' ''/tmp/bgdesk-cliente-update.exe'' (replicate 64 CHR ''a'')], Ok ())"
    using demo_update by blast
  show ?thesis unfolding c using check_installs_verified[OF c list.set_intros(1)] by simp
qed

text \<open>
  C35: A download is complete or absent. Whatever answers and whatever is found under the name: when the download
  succeeds, the name leads to a file of the size and hash that were asked for; when it fails, the name leads to what it
  did before or to nothing. Either way no other name and no other file is changed, and no temporary file stays
  behind.
\<close>

theorem download_complete_or_absent:
  assumes "ensure_verified_update_artifact sha fs dir name pid rnd answer sz expected = (fs', r)"
  shows "(\<forall>k. k \<noteq> fs_key (path_push dir name) \<longrightarrow> names fs' k = names fs k)
    \<and> (\<forall>j. j < next_file fs \<longrightarrow> contents fs' j = contents fs j)
    \<and> (if r = Ok ()
        then \<exists>i. fs_open fs' (path_push dir name) = Some i \<and> length (contents fs' i) = unat sz
               \<and> sha (contents fs' i) = to_lowercase (trim expected)
        else names fs' (fs_key (path_push dir name)) \<in> {names fs (fs_key (path_push dir name)), None})"
  using ensure_effect[OF assms] by (auto simp: only_changes_def gone_or_same_def file_verified_def split: if_splits)

theorem download_complete_or_absent_witness:
  "\<exists>fs' i. ensure_verified_update_artifact demo_sha demo_fs ''/tmp'' ''bgdesk-cliente-update.exe'' 7 (\<lambda>_. 5)
     (Answer True [ReadOk [1, 2], Interrupted, ReadOk [3]]) 3 (replicate 64 CHR ''a'') = (fs', Ok ())
     \<and> fs_open fs' (path_push ''/tmp'' ''bgdesk-cliente-update.exe'') = Some i \<and> length (contents fs' i) = 3"
proof -
  obtain fs' where e: "ensure_verified_update_artifact demo_sha demo_fs ''/tmp'' ''bgdesk-cliente-update.exe'' 7 (\<lambda>_. 5)
     (Answer True [ReadOk [1, 2], Interrupted, ReadOk [3]]) 3 (replicate 64 CHR ''a'') = (fs', Ok ())"
    using demo_ensure by blast
  have three: "unat (3 :: u64) = 3" by simp
  show ?thesis using download_complete_or_absent[OF e] e unfolding three by auto
qed

section \<open>When checks run\<close>

text \<open>Each check starts at least the minimum interval after the last one that succeeded, while the program is idle.\<close>

fun checks_spaced :: "nat \<Rightarrow> (bool \<times> turn) list \<Rightarrow> bool" where
  "checks_spaced since [] = True"
| "checks_spaced since ((_, t) # cs) =
     (since + MIN_INTERVAL \<le> t_now t \<and> t_idle t \<and> checks_spaced (if t_ok t then t_done t else since) cs)"

lemma auto_checks_spaced: "checks_spaced (last_check_time s) (snd (auto_update_loop s ts))"
proof (induction s ts rule: auto_update_loop.induct)
  case (2 s t ts)
  then show ?case by (cases "t_ok t") (auto simp: Let_def MIN_INTERVAL_def split: prod.splits)
qed simp

text \<open>A failed check does not count: asked for again within the same second, it runs again.\<close>

lemma failed_checks_not_spaced:
  "map (\<lambda>(_, t). t_now t) (snd (auto_update_loop (sched_start 30)
     (replicate 3 \<lparr>t_recv = RecvCheckUpdate, t_now = 700, t_idle = True, t_ok = False, t_done = 700\<rparr>))) = [700, 700, 700]"
  by (simp add: sched_start_def MIN_INTERVAL_def numeral_eq_Suc)

end
