(* ===== verification/Spec2Isabelle.thy ===== *)
theory Spec2Isabelle
  imports Bytes_Codec Mux_Link Login_Guard Video_Qos Transfer_Copy Password_Login
    Video_Loop Server_Hub Pcm_Handoff Session_Reach Unauthorized Update_Download
begin

text \<open>
  \<^bold>\<open>BGDesk: a verification library for its Rust core.\<close>

  BGDesk is a remote desktop. A controlling side (\<open>src/client.rs\<close>, \<open>src/port_forward.rs\<close>) connects to
  a controlled side (\<open>src/server/connection.rs\<close>), proves that it may log in, and then exchanges framed
  messages with it: video, sound, files, forwarded ports. This library models the parts that carry the
  logic of its own, as functions of the state they read and write; what the sources take from other
  packages, from the network or from the clock is an argument. Rust results are values of a sum type
  (\<open>Ok\<close>, \<open>Err\<close>), panics are \<open>None\<close>, tables are association lists with the interface of a hash map.

  \<^bold>\<open>The theories, in the order of the sources' layers.\<close>

  \<^item> \<open>BGDesk_Prelude\<close>: results, machine integers (checked, saturating and wrapping operations), hash
    maps, and the locale \<open>hash_map\<close> with its interpretation on association lists.
  \<^item> \<open>Bytes_Codec\<close> (\<open>libs/hbb_common/src/bytes_codec.rs\<close>): the framing of every stream. Encoding and
    decoding are inverse for each of the four header widths; a stream cut into reads in any way yields
    the messages that were encoded; a header never makes the decoder reserve much.
  \<^item> \<open>Flow_Control\<close>, \<open>Mux_Channel\<close>, \<open>Mux_Table\<close>, \<open>Mux_Tunnel\<close>, \<open>Mux_Server\<close>, \<open>Mux_Link\<close>
    (\<open>src/port_forward_mux.rs\<close>, \<open>src/server/port_forward_mux.rs\<close>): many forwarded connections over one
    stream. \<open>Flow_Control\<close> has the windows and credits, \<open>Mux_Channel\<close> the two relay tasks of a channel
    as step functions over program counters, \<open>Mux_Table\<close> the table of channels that both sides keep,
    \<open>Mux_Tunnel\<close> and \<open>Mux_Server\<close> the two ends, \<open>Mux_Link\<close> both ends joined by a stream, with every
    interleaving of their tasks. Shown: bytes arrive in order, no honest end overruns the other's
    window, no sender starves, only the approved target is served, ids are not reused, limits hold.
  \<^item> \<open>Rust_Text\<close>, \<open>Id_Whitelist\<close>, \<open>Login_Guard\<close> (\<open>src/server/connection.rs\<close>,
    \<open>src/server/login_failure_check.rs\<close>): what limits a guesser, per address, per IPv6 prefix, per
    minute, per temporary password and per operating-system account; the matcher of the id whitelist
    agrees with the recursive meaning of its patterns.
  \<^item> \<open>Password_Crypto\<close>, \<open>Password_Store\<close>, \<open>Password_Login\<close> (\<open>libs/hbb_common/src/password_security.rs\<close>,
    \<open>libs/hbb_common/src/config/permanent_password.rs\<close>, the password part of
    \<open>libs/hbb_common/src/config.rs\<close>, \<open>src/client.rs\<close>, \<open>src/server/connection.rs\<close>): from a password typed
    into the settings, through its hash and its encryption on disk and a restart, to the proof that a
    client sends and the check of it. The sodium library is a record of functions, with \<open>sodium_ok\<close>
    stating its documented behaviour (opening undoes sealing, base64 undoes itself, a digest has 32
    bytes); nonces, salts and ids drawn at random are arguments.
  \<^item> \<open>F32\<close>, \<open>Qos_Delay\<close>, \<open>Video_Qos\<close> (\<open>src/server/video_qos.rs\<close>): the controller of frame rate and
    bitrate. Shown: no operation panics in any order, the slowest viewer sets the pace, a rate falls
    only on evidence and by bounded steps.
  \<^item> \<open>Service\<close>, \<open>Server_Hub\<close>, \<open>Video_Loop\<close>, \<open>Pcm_Handoff\<close> (\<open>src/server/service.rs\<close>, \<open>src/server.rs\<close>,
    \<open>src/server/video_service.rs\<close>, \<open>src/server/video_service/static_refresh.rs\<close>,
    \<open>src/server/audio_service/\<close>): the services that produce video and sound and the connections that
    subscribe to them. The locale \<open>subscriber\<close> is the interface of a subscriber, interpreted for both
    channels of a connection. Shown: a snapshot comes before the stream, a frame goes to all viewers or
    to none, subscriptions are what was asked for, repetitions of a still picture are bounded, captured
    sound is delivered in order or counted as lost, and a waiting worker is woken.
  \<^item> \<open>Transfer_Path\<close>, \<open>Transfer_Fs\<close>, \<open>Transfer_Job\<close>, \<open>Transfer_Guard\<close>, \<open>Transfer_Send\<close>, \<open>Transfer_Copy\<close>
    (\<open>libs/base/src/fs.rs\<close>, \<open>libs/hbb_common/src/compress.rs\<close>): file transfer. \<open>Transfer_Fs\<close> is a file
    system with directories, files and symbolic links; \<open>Transfer_Job\<close> models \<open>TransferJob\<close> with its
    reading, writing, resuming and confirming. Shown: accepted names stay inside the target directory,
    a peer changes nothing outside it, nothing is sent before it is confirmed, and a transfer between
    two jobs of this code gives the receiver the sender's files.
  \<^item> \<open>Session_Scope\<close>, \<open>Session_Options\<close>, \<open>Version_Number\<close>, \<open>Remove_Log\<close>, \<open>Session_State\<close>, \<open>Login_Session\<close>,
    \<open>Login_Evidence\<close>, \<open>Session_Dispatch\<close>, \<open>Session_Loop\<close>, \<open>Session_Run\<close>, \<open>Session_Reach\<close> (\<open>src/server/connection.rs\<close>,
    \<open>libs/base/protos/message.proto\<close>): one session of the controlled side, from the opened connection to
    its end. \<open>Session_Scope\<close> has the messages and which of them each kind of session admits,
    \<open>Session_Options\<close> the option messages with the rights and preferences they meet, \<open>Session_State\<close> the
    fields of \<open>Connection\<close>, the state it shares with other connections, what it reads of the machine
    (\<open>env\<close>) and the calls it makes (\<open>effect\<close>); \<open>Login_Session\<close> the login with its kinds, scope, one-time
    codes, trusted devices, switched sides, the terminal's account and the authorization;
    \<open>Session_Dispatch\<close> every arm of \<open>on_message\<close> after it, \<open>Session_Loop\<close> the other branches of the loop.
    The locale \<open>session_handler\<close> in \<open>Login_Evidence\<close> states what the login relies on of the rest of a
    session (an unauthorized connection is not authorized by it, and what was approved stays);
    \<open>Session_Run\<close> interprets it on the dispatch and the loop, and \<open>Session_Reach\<close> lists for each kind of
    session the calls its messages may lead to. Shown: no session is authorized without
    proof, a connection asks for one thing, before the login nothing else is looked at, after it every
    call is within the kind of session and the rights it holds, options do not reach beyond the kind of
    session, and version numbers order versions.
  \<^item> \<open>Unauthorized\<close> (\<open>src/server/connection.rs\<close>): the places of connections that have not logged in. Their
    number is bounded, per address too, and a burst of arrivals evicts at most the oldest.
  \<^item> \<open>Update_Source\<close>, \<open>Update_Metadata\<close>, \<open>Update_Check\<close>, \<open>Update_Download\<close> (\<open>src/update_source.rs\<close>,
    \<open>src/update_policy.rs\<close>, \<open>src/update_metadata.rs\<close> and \<open>src/update_metadata/\<close>, the check in \<open>src/common.rs\<close>,
    \<open>src/update_hash.rs\<close>, \<open>src/updater.rs\<close> and \<open>src/updater/\<close>, \<open>libs/hbb_common/src/tls.rs\<close>): new releases, from
    the feed on the web server to the file that is handed to an installer. The libraries for JSON, base64,
    Ed25519 and URLs are a record of functions (\<open>update_lib\<close>), SHA-256 is an argument, and no law is assumed of
    any of them; the files are those of \<open>Transfer_Fs\<close>. Shown: the text of a version is its numbers and updates
    are ordered by them, the signed form of a feed determines its content up to the order of keys, an
    accepted feed is signed and of the own edition, only a newer signed release is announced, a download
    is complete or absent, and only a verified file is installed, while nobody is connected.
  \<^item> This theory joins the password login with the limiter: what bounds a guesser's attempts holds of the
    login handler as a whole.

  \<^bold>\<open>Bounds.\<close> The binary exponent of an \<open>f32\<close> is searched for in 200 steps; those of normal numbers lie
  between -126 and 127, and a step moves by one. A path is followed
  through at most 40 symbolic links, as Linux does, and then refused. The loops of the file sender take
  as many turns as they are given; the exact number that is enough is part of the statement. All other
  recursion is structural or has a termination proof.

  \<^bold>\<open>Choices.\<close> Paths are those of Unix, with the Windows rules for names where the source has them as a
  flag. File times are whole seconds. Values of \<open>f32\<close> are rationals, rounded to 24 bits after every
  operation; not-a-number, infinities and subnormal numbers do not occur in the controller and are
  left out. Counters of type \<open>i32\<close>, \<open>u32\<close>, \<open>u64\<close> and \<open>usize\<close> wrap, saturate or fail as the source has it.
  A session is that of the desktop builds with the Flutter interface for Windows and Linux, chosen by a
  flag; a call into another part of the program or into the system is an element of the list of
  effects, and what such a call answers is an argument. Between two events of a session the state it
  shares with the others may change in any way.
  Locks are not modelled as such: an operation under one lock is one step, and operations of different
  tasks are interleaved in any order.

  \<^bold>\<open>Not modelled.\<close> Capture and encoding of pictures and sound (\<open>libs/scrap\<close>, \<open>src/server/drm_capturer.rs\<close>,
  \<open>src/server/wayland.rs\<close>, \<open>src/server/portable_service.rs\<close>), input injection (\<open>libs/enigo\<close>,
  \<open>src/server/input_service.rs\<close>, \<open>src/keyboard.rs\<close>, \<open>src/server/uinput.rs\<close>), the platforms
  (\<open>src/platform\<close>, \<open>libs/virtual_display\<close>, \<open>libs/remote_printer\<close>), the clipboard (\<open>libs/clipboard\<close>) and the
  user interface (\<open>src/ui\<close>, \<open>src/flutter_ffi.rs\<close>, \<open>src/lang\<close>) are calls into operating systems, devices
  and other languages. Rendezvous, relays, encryption of the transport and WebRTC
  (\<open>src/rendezvous_mediator.rs\<close>, \<open>libs/hbb_common/src/tcp.rs\<close>, \<open>src/kcp_stream.rs\<close>) are conversations with
  servers outside this repository. Of \<open>src/server/connection.rs\<close> the arms
  of macOS and of the mobile builds, the socket of a plain port forward and the outgoing queues are left
  out, of \<open>src/auth_2fa.rs\<close> the generator of the codes and its storage, of
  \<open>libs/hbb_common/src/config.rs\<close> all but the password, the id and the trusted devices, and of the updater
  the installers: \<open>src/linux_update.rs\<close> and \<open>src/manual_update.rs\<close>, the part of \<open>src/updater.rs\<close> that runs as
  root on macOS, and what Windows and macOS do with the file they are handed.
\<close>

section \<open>Guessing at the login\<close>

text \<open>
  Login requests that reach the password check, one after the other: whether the logon screen is
  shown, the time, the temporary password a rotation would make, and the connection. The results are
  listed with the address and the time.
\<close>

type_synonym login_attempt = "bool \<times> int \<times> string \<times> login_conn"

fun login_run :: "sodium \<Rightarrow> machine \<Rightarrow> login_attempt list \<Rightarrow> login_server \<Rightarrow> (login_result \<times> string \<times> int) list" where
  "login_run so m [] sv = []"
| "login_run so m ((screen, now, fresh, c) # xs) sv =
     (case password_login so m screen now fresh sv c of
        (res, sv', _) \<Rightarrow> (res, conn_ip c, now) # login_run so m xs sv')"

definition wrong_guesses :: "(login_result \<times> string \<times> int) list \<Rightarrow> (string \<times> int) list" where
  "wrong_guesses rs = map snd (filter (\<lambda>r. fst r = WrongPassword) rs)"

text \<open>What the limiter sees of them: the requests that were refused or compared in vain.\<close>

definition limited_guesses :: "(login_result \<times> string \<times> int) list \<Rightarrow> (string \<times> int) list" where
  "limited_guesses rs = map snd (filter (\<lambda>r. fst r \<noteq> AskToAccept \<and> fst r \<noteq> RecentSession) rs)"

lemma validate_keeps_failures:
  "sv_failures (fst (snd (validate_password so m b now sv c))) = sv_failures sv"
  "conn_ip (snd (snd (validate_password so m b now sv c))) = conn_ip c"
  by (simp_all add: validate_password_def Let_def)

lemma recent_keeps_failures: "sv_failures (snd (is_recent_session so b now sv c)) = sv_failures sv"
  by (simp add: is_recent_session_def Let_def)

text \<open>A login that does not succeed is, for the limiter, nothing at all or one wrong attempt.\<close>

lemma password_login_limited:
  assumes "password_login so m screen now fresh sv c = (res, sv', c')" "res \<noteq> LoggedIn"
  shows "if res = AskToAccept \<or> res = RecentSession then sv_failures sv' = sv_failures sv
    else password_attempt (conn_ip c) now False (sv_failures sv) =
      (case res of TooManyFailures r \<Rightarrow> Refused r | _ \<Rightarrow> Rejected, sv_failures sv')"
proof -
  obtain rec sv1 where r: "is_recent_session so False now sv c = (rec, sv1)" by fastforce
  obtain ok sv2 c2 where v: "validate_password so m screen now sv1 c = (ok, sv2, c2)" by (metis prod_cases3)
  have f: "sv_failures sv1 = sv_failures sv" "sv_failures sv2 = sv_failures sv1" "conn_ip c2 = conn_ip c"
    using recent_keeps_failures[of so False now sv c] validate_keeps_failures[of so m screen now sv1 c] r v by simp_all
  show ?thesis using assms r v f
    by (auto simp: password_login_def password_attempt_def split: if_splits bool.splits prod.splits option.splits)
qed

lemma login_run_limited:
  assumes "LoggedIn \<notin> fst ` set (login_run so m xs sv)"
  shows "fst (guess_run (limited_guesses (login_run so m xs sv)) (sv_failures sv)) = wrong_guesses (login_run so m xs sv)"
  using assms
proof (induction xs arbitrary: sv)
  case (Cons x xs)
  obtain screen now fresh c where x: "x = (screen, now, fresh, c)" by (metis prod_cases4)
  obtain res sv' c' where p: "password_login so m screen now fresh sv c = (res, sv', c')" by (metis prod_cases3)
  have ih: "fst (guess_run (limited_guesses (login_run so m xs sv')) (sv_failures sv')) = wrong_guesses (login_run so m xs sv')"
    using Cons by (simp add: x p)
  have "res \<noteq> LoggedIn" using Cons.prems by (auto simp: x p)
  from password_login_limited[OF p this] show ?case
    using ih \<open>res \<noteq> LoggedIn\<close>
    by (cases res) (auto simp: x p limited_guesses_def wrong_guesses_def split: prod.splits)
qed (simp add: limited_guesses_def wrong_guesses_def)


text \<open>A guesser from one address, whom the server with a password rejects.\<close>

definition guesser :: login_conn where
  "guesser = (proof_conn ([5], [7]) [1])\<lparr>conn_ip := ''h''\<rparr>"


end
